(* ===== verification/Gf_Prelude.thy ===== *)
theory Gf_Prelude
  imports Complex_Main "HOL-Library.Word"
begin

text \<open>
  Shared ground of the development: the names of the machine integers, the
  collections of rewrite rules the component theories feed, the three-axis step
  counters as an abelian group (so that the library's group automation decides
  the ledger equations modulo 2^32), facts on masks and little-endian words, and
  the generic interface for invariants of a transition system.
\<close>

unbundle bit_operations_syntax

type_synonym u8 = "8 word"
type_synonym u32 = "32 word"

named_theorems latch_simps \<open>rewriting the laser latch writer\<close>
named_theorems stream_defs \<open>unfolding the entry points of the stream\<close>
named_theorems frame_simps \<open>fields that an operation leaves alone\<close>

section \<open>Step counters of the three axes\<close>

text \<open>The C code keeps \<open>uint32_t s[3]\<close>: X, Y and Z, each modulo 2^32.\<close>

datatype steps3 = S3 (sx: u32) (sy: u32) (sz: u32)

instantiation steps3 :: ab_group_add
begin

definition zero_steps3 :: steps3 where
  "zero_steps3 = S3 0 0 0"

definition plus_steps3 :: "steps3 \<Rightarrow> steps3 \<Rightarrow> steps3" where
  "plus_steps3 a b = S3 (sx a + sx b) (sy a + sy b) (sz a + sz b)"

definition minus_steps3 :: "steps3 \<Rightarrow> steps3 \<Rightarrow> steps3" where
  "minus_steps3 a b = S3 (sx a - sx b) (sy a - sy b) (sz a - sz b)"

definition uminus_steps3 :: "steps3 \<Rightarrow> steps3" where
  "uminus_steps3 a = S3 (- sx a) (- sy a) (- sz a)"

instance
  by standard
    (auto simp: zero_steps3_def plus_steps3_def minus_steps3_def uminus_steps3_def
                algebra_simps split: steps3.splits)

end

lemma steps3_sel [simp]:
  "sx (a + b) = sx a + sx b" "sy (a + b) = sy a + sy b" "sz (a + b) = sz a + sz b"
  "sx (a - b) = sx a - sx b" "sy (a - b) = sy a - sy b" "sz (a - b) = sz a - sz b"
  "sx 0 = 0" "sy 0 = 0" "sz 0 = 0"
  by (simp_all add: plus_steps3_def minus_steps3_def zero_steps3_def)

lemma S3_add [simp]: "S3 a b c + S3 d e f = S3 (a + d) (b + e) (c + f)"
  by (simp add: plus_steps3_def)

lemma S3_zero_iff: "S3 a b c = 0 \<longleftrightarrow> a = 0 \<and> b = 0 \<and> c = 0"
  by (simp add: zero_steps3_def)

section \<open>Words\<close>

lemma and_pow_bit:
  fixes b :: "'a::len word"
  assumes "n < LENGTH('a)"
  shows "(b AND push_bit n 1 = 0) = (\<not> bit b n)"
proof -
  have "bit (b AND push_bit n 1) m = (m = n \<and> bit b n)" for m
    using assms by (auto simp: bit_simps)
  then show ?thesis
    by (metis bit_0 bit_word_eqI impossible_bit bit_eqI bit_0_eq bot_apply bot_bool_def)
qed

lemma u8_mask_bits:
  fixes b :: u8
  shows "(b AND 0x01 = 0) = (\<not> bit b 0)" "(b AND 0x02 = 0) = (\<not> bit b 1)"
    "(b AND 0x04 = 0) = (\<not> bit b 2)" "(b AND 0x08 = 0) = (\<not> bit b 3)"
    "(b AND 0x10 = 0) = (\<not> bit b 4)" "(b AND 0x20 = 0) = (\<not> bit b 5)"
    "(b AND 0x40 = 0) = (\<not> bit b 6)" "(b AND 0x80 = 0) = (\<not> bit b 7)"
  using and_pow_bit [of 0 b] and_pow_bit [of 1 b] and_pow_bit [of 2 b] and_pow_bit [of 3 b]
    and_pow_bit [of 4 b] and_pow_bit [of 5 b] and_pow_bit [of 6 b] and_pow_bit [of 7 b]
  by (simp_all add: push_bit_eq_mult)

lemma mask_unat:
  fixes w :: "'a::len word"
  assumes "n \<le> LENGTH('a)"
  shows "unat (w AND mask n) = unat w mod 2 ^ n"
  by (metis take_bit_eq_mask take_bit_eq_mod unsigned_take_bit_eq)

text \<open>Two indices in one window of a ring share a slot only when they are equal.\<close>

lemma mod_window_le:
  fixes i j n :: nat
  assumes "i \<le> j" "j < i + n" "i mod n = j mod n"
  shows "i = j"
proof -
  have "n dvd j - i" using assms mod_eq_dvd_iff_nat [of i j n] by simp
  moreover have "j - i < n" using assms by simp
  ultimately show ?thesis using assms(1) by (auto dest: nat_dvd_not_less)
qed

lemma mod_window_inj:
  fixes b j k n :: nat
  assumes "j < n" "k < n" "(b + j) mod n = (b + k) mod n"
  shows "j = k"
  using mod_window_le [of "b + j" "b + k" n] mod_window_le [of "b + k" "b + j" n] assms
  by (cases "j \<le> k") auto

text \<open>Little-endian reading of four bytes, as the kernel's records hold them.\<close>

definition le32 :: "u8 \<Rightarrow> u8 \<Rightarrow> u8 \<Rightarrow> u8 \<Rightarrow> u32" where
  "le32 b0 b1 b2 b3 =
     ucast b0 OR push_bit 8 (ucast b1) OR push_bit 16 (ucast b2) OR push_bit 24 (ucast b3)"

definition le_byte :: "nat \<Rightarrow> u32 \<Rightarrow> u8" where
  "le_byte n w = ucast (drop_bit (8 * n) w)"

lemma le32_bytes: "le32 (le_byte 0 w) (le_byte 1 w) (le_byte 2 w) (le_byte 3 w) = w"
proof (rule bit_word_eqI)
  fix n assume n: "n < LENGTH(32)"
  consider "n < 8" | "8 \<le> n" "n < 16" | "16 \<le> n" "n < 24" | "24 \<le> n" "n < 32"
    using n by fastforce
  then show "bit (le32 (le_byte 0 w) (le_byte 1 w) (le_byte 2 w) (le_byte 3 w)) n = bit w n"
    by cases (auto simp: le32_def le_byte_def bit_simps)
qed

section \<open>Lists\<close>

lemma map_upt_shift_tl:
  "n > 0 \<Longrightarrow> map f [0..<n] = f 0 # map (\<lambda>k. f (Suc k)) [0..<n - 1]"
  by (cases n) (simp_all add: upt_conv_Cons map_Suc_upt [symmetric] comp_def del: upt_Suc)

lemma sum_list_map_upt_split:
  fixes f :: "nat \<Rightarrow> 'a::comm_monoid_add"
  assumes "i \<le> j" "j \<le> k"
  shows "sum_list (map f [i..<k]) = sum_list (map f [i..<j]) + sum_list (map f [j..<k])"
proof -
  have "[i..<k] = [i..<j] @ [j..<k]"
    using assms by (metis upt_add_eq_append le_add_diff_inverse)
  then show ?thesis by simp
qed

section \<open>Transition systems and their invariants\<close>

inductive reachable :: "('s \<Rightarrow> bool) \<Rightarrow> ('s \<Rightarrow> 's \<Rightarrow> bool) \<Rightarrow> 's \<Rightarrow> bool"
  for init :: "'s \<Rightarrow> bool" and step :: "'s \<Rightarrow> 's \<Rightarrow> bool" where
  start: "init s \<Longrightarrow> reachable init step s"
| further: "reachable init step s \<Longrightarrow> step s t \<Longrightarrow> reachable init step t"

text \<open>
  What a component promises about its states: the property holds where it starts
  and every step keeps it. Every invariant of the development is an
  interpretation of this interface.
\<close>

locale guarded_system =
  fixes init :: "'s \<Rightarrow> bool" and step :: "'s \<Rightarrow> 's \<Rightarrow> bool" and inv :: "'s \<Rightarrow> bool"
  assumes inv_init: "init s \<Longrightarrow> inv s"
    and inv_step: "inv s \<Longrightarrow> step s t \<Longrightarrow> inv t"
begin

lemma inv_reachable: "reachable init step s \<Longrightarrow> inv s"
  by (induction rule: reachable.induct) (auto intro: inv_init inv_step)

end

end
