(* ===== verification/Gf_Clib.thy ===== *)
theory Gf_Clib
  imports Gf_Prelude
begin

text \<open>
  What the sources use of the C library: character classes, \<open>strtoul\<close>,
  \<open>strtol\<close> and \<open>strtof\<close>, \<open>fgets\<close>, bounded printing, and floating-point
  values. A \<open>float\<close> is an exact rational or one of the three special values: the
  rounding of single precision is not modelled. \<open>long\<close> has the 32 bits of the
  target (the i.MX6 is a 32-bit ARM).
\<close>

definition isspace :: "char \<Rightarrow> bool" where
  "isspace c \<longleftrightarrow> c \<in> {CHR '' '', CHR 0x09, CHR 0x0A, CHR 0x0B, CHR 0x0C, CHR 0x0D}"

definition skip_space :: "string \<Rightarrow> string" where
  "skip_space s = dropWhile isspace s"

definition rstrip :: "string \<Rightarrow> string" where
  "rstrip s = rev (dropWhile isspace (rev s))"

definition strip_newlines :: "string \<Rightarrow> string" where
  "strip_newlines s = rev (dropWhile (\<lambda>c. c = CHR 0x0A) (rev s))"

text \<open>A buffer read as a C string ends at the first NUL.\<close>

definition cstr :: "string \<Rightarrow> string" where
  "cstr s = takeWhile (\<lambda>c. c \<noteq> CHR 0x00) s"

definition digit_val :: "char \<Rightarrow> nat option" where
  "digit_val c = (let n = of_char c :: nat in
     if 48 \<le> n \<and> n \<le> 57 then Some (n - 48) else None)"

definition hex_val :: "char \<Rightarrow> nat option" where
  "hex_val c = (let n = of_char c :: nat in
     if 48 \<le> n \<and> n \<le> 57 then Some (n - 48)
     else if 97 \<le> n \<and> n \<le> 102 then Some (n - 87)
     else if 65 \<le> n \<and> n \<le> 70 then Some (n - 55) else None)"

text \<open>The longest prefix of digits: their value, how many there are, the rest.\<close>

fun scan_digits :: "(char \<Rightarrow> nat option) \<Rightarrow> nat \<Rightarrow> nat \<Rightarrow> nat \<Rightarrow> string \<Rightarrow> nat \<times> nat \<times> string" where
  "scan_digits dv base acc cnt [] = (acc, cnt, [])"
| "scan_digits dv base acc cnt (c # s) =
     (case dv c of None \<Rightarrow> (acc, cnt, c # s)
      | Some d \<Rightarrow> scan_digits dv base (acc * base + d) (Suc cnt) s)"

definition scan_sign :: "string \<Rightarrow> bool \<times> string" where
  "scan_sign s = (case s of c # r \<Rightarrow> if c = CHR ''-'' then (True, r)
                                     else if c = CHR ''+'' then (False, r) else (False, s)
                  | [] \<Rightarrow> (False, s))"

text \<open>
  \<open>strtoul(s, &end, 10)\<close>: \<open>None\<close> when nothing was converted (\<open>end == s\<close>), else
  the value and the text from \<open>end\<close> on. A minus sign negates modulo 2^32, and a
  magnitude out of range reads as \<open>ULONG_MAX\<close>.
\<close>

definition strtoul :: "string \<Rightarrow> (u32 \<times> string) option" where
  "strtoul s = (let (neg, t) = scan_sign (skip_space s);
                    (v, n, r) = scan_digits digit_val 10 0 0 t in
     if n = 0 then None
     else if v \<ge> 2 ^ 32 then Some (- 1, r)
     else Some (if neg then - of_nat v else of_nat v, r))"

text \<open>\<open>strtol(s, NULL, 10)\<close>: 0 when nothing converts, saturating at the bounds of \<open>long\<close>.\<close>

definition strtol :: "string \<Rightarrow> int" where
  "strtol s = (let (neg, t) = scan_sign (skip_space s);
                   (v, n, r) = scan_digits digit_val 10 0 0 t;
                   x = if neg then - int v else int v in
     if n = 0 then 0 else max (- (2 ^ 31)) (min (2 ^ 31 - 1) x))"

definition atoi :: "string \<Rightarrow> int" where
  "atoi s = strtol s"

text \<open>\<open>printf(\"%u\")\<close>\<close>

fun utoa :: "nat \<Rightarrow> string" where
  "utoa n = (if n < 10 then [char_of (48 + n)] else utoa (n div 10) @ [char_of (48 + n mod 10)])"

declare utoa.simps [simp del]

section \<open>Floating point\<close>

datatype cfloat = Fin rat | PInf | NInf | NaN

definition isfinite :: "cfloat \<Rightarrow> bool" where
  "isfinite f = (case f of Fin _ \<Rightarrow> True | _ \<Rightarrow> False)"

definition fl_le :: "cfloat \<Rightarrow> cfloat \<Rightarrow> bool" where
  "fl_le a b = (case (a, b) of
      (NaN, _) \<Rightarrow> False | (_, NaN) \<Rightarrow> False
    | (NInf, _) \<Rightarrow> True | (_, PInf) \<Rightarrow> True
    | (Fin x, Fin y) \<Rightarrow> x \<le> y | _ \<Rightarrow> False)"

definition fl_lt :: "cfloat \<Rightarrow> cfloat \<Rightarrow> bool" where
  "fl_lt a b = (case (a, b) of
      (NaN, _) \<Rightarrow> False | (_, NaN) \<Rightarrow> False
    | (NInf, NInf) \<Rightarrow> False | (NInf, _) \<Rightarrow> True
    | (PInf, _) \<Rightarrow> False | (_, PInf) \<Rightarrow> True
    | (Fin x, Fin y) \<Rightarrow> x < y | _ \<Rightarrow> False)"

definition lower :: "char \<Rightarrow> char" where
  "lower c = (let n = of_char c :: nat in if 65 \<le> n \<and> n \<le> 90 then char_of (n + 32) else c)"

definition starts_ci :: "string \<Rightarrow> string \<Rightarrow> bool" where
  "starts_ci p s = (map lower (take (length p) s) = p)"

definition fl_sign :: "bool \<Rightarrow> rat \<Rightarrow> cfloat" where
  "fl_sign neg x = Fin (if neg then - x else x)"

text \<open>An exponent part, when the letter is followed by at least one digit.\<close>

definition scan_exp :: "char \<Rightarrow> string \<Rightarrow> int \<times> string" where
  "scan_exp letter s = (case s of [] \<Rightarrow> (0, s)
     | c # r \<Rightarrow> if lower c \<noteq> letter then (0, s) else
         (let (neg, t) = scan_sign r; (v, n, u) = scan_digits digit_val 10 0 0 t in
          if n = 0 then (0, s) else (if neg then - int v else int v, u)))"

definition pow_int :: "rat \<Rightarrow> int \<Rightarrow> rat" where
  "pow_int b e = (if 0 \<le> e then b ^ nat e else 1 / b ^ nat (- e))"

text \<open>Digits, an optional point and more digits: value, digit count, rest.\<close>

definition scan_frac :: "(char \<Rightarrow> nat option) \<Rightarrow> nat \<Rightarrow> string \<Rightarrow> rat \<times> nat \<times> string" where
  "scan_frac dv base s =
     (let (v, n, r) = scan_digits dv base 0 0 s in
      case r of c # r1 \<Rightarrow> if c = CHR ''.'' then
            (let (w, m, r2) = scan_digits dv base v 0 r1 in
             if n + m = 0 then (0, 0, s) else (of_nat w / of_nat base ^ m, n + m, r2))
          else (of_nat v, n, r)
        | [] \<Rightarrow> (of_nat v, n, r))"

text \<open>After \<open>nan\<close>, a parenthesised run of letters, digits and underscores is taken too.\<close>

definition nan_tail :: "string \<Rightarrow> string" where
  "nan_tail s = (case s of [] \<Rightarrow> s | c # r \<Rightarrow>
     if c \<noteq> CHR ''('' then s else
       (case dropWhile (\<lambda>d. digit_val d \<noteq> None \<or> d = CHR ''_'' \<or>
                (97 \<le> (of_char (lower d) :: nat) \<and> (of_char (lower d) :: nat) \<le> 122)) r of
          [] \<Rightarrow> s | d # u \<Rightarrow> if d = CHR '')'' then u else s))"

text \<open>\<open>strtof(s, &end)\<close>: \<open>None\<close> when nothing was converted.\<close>

definition strtof :: "string \<Rightarrow> (cfloat \<times> string) option" where
  "strtof s =
     (let (neg, t) = scan_sign (skip_space s) in
      if starts_ci ''infinity'' t then Some (if neg then NInf else PInf, drop 8 t)
      else if starts_ci ''inf'' t then Some (if neg then NInf else PInf, drop 3 t)
      else if starts_ci ''nan'' t then Some (NaN, nan_tail (drop 3 t))
      else let (x, n, r) = scan_frac hex_val 16 (drop 2 t) in
        if starts_ci ''0x'' t \<and> n > 0 then
          let (e, r2) = scan_exp (CHR ''p'') r in Some (fl_sign neg (x * pow_int 2 e), r2)
        else let (x, n, r) = scan_frac digit_val 10 t in
          if n = 0 then None
          else let (e, r2) = scan_exp (CHR ''e'') r in Some (fl_sign neg (x * pow_int 10 e), r2))"

section \<open>Reading lines\<close>

text \<open>One \<open>fgets(line, n + 1, f)\<close>: at most \<open>n\<close> characters, up to and with a newline.\<close>

fun fgets1 :: "nat \<Rightarrow> string \<Rightarrow> string \<times> string" where
  "fgets1 0 s = ([], s)"
| "fgets1 (Suc n) [] = ([], [])"
| "fgets1 (Suc n) (c # s) =
     (if c = CHR 0x0A then ([c], s) else (let (l, r) = fgets1 n s in (c # l, r)))"

lemma fgets1_append: "fgets1 n s = (l, r) \<Longrightarrow> l @ r = s"
  by (induction n s arbitrary: l r rule: fgets1.induct) (auto split: if_splits prod.splits)

lemma fgets1_progress: "s \<noteq> [] \<Longrightarrow> fst (fgets1 (Suc n) s) \<noteq> []"
  by (cases s) (auto split: prod.splits)

function fgets_lines :: "nat \<Rightarrow> string \<Rightarrow> string list" where
  "fgets_lines n s = (if s = [] then []
     else (let (l, r) = fgets1 (Suc n) s in l # fgets_lines n r))"
  by pat_completeness auto
termination
proof (relation "measure (\<lambda>(n, s). length s)", goal_cases)
  case (2 n s x l r)
  then have "fgets1 (Suc n) s = (l, r)" "s \<noteq> []" by auto
  then have "l @ r = s" "l \<noteq> []"
    using fgets1_append [of "Suc n" s l r] fgets1_progress [of s n] by auto
  then show ?case by auto
qed simp

declare fgets_lines.simps [simp del]

text \<open>The chunks a reader sees are the file, cut in pieces: nothing is lost or repeated.\<close>

lemma fgets_lines_concat: "concat (fgets_lines n s) = s"
  by (induction n s rule: fgets_lines.induct)
     (subst fgets_lines.simps, auto split: prod.splits dest!: fgets1_append)

end
