(* ===== verification/Gf_Io.thy ===== *)
theory Gf_Io
  imports Gf_Clib
begin

text \<open>
  glowforge_io.c and glowforge_io.h: access to the kernel driver's attributes and
  to the pulse device, the run and hold currents, the shared machine
  configuration and the numbers derived from the XY microstep mode.

  The kernel, the C library's file access and the clock are an argument \<open>os\<close> of
  every operation that reaches them: a record of functions from the trace of what
  this process did and was answered so far to the next answer. Every theorem that
  takes an \<open>os\<close> holds for every kernel behaviour, also one that depends on the
  history. Each call adds an event to the trace, newest first. Diagnostic text
  (\<open>fflog\<close>, \<open>rt_log\<close>) is not modelled.
\<close>

text \<open>
  \<open>EINTR\<close> is not among the answers: every call that can be interrupted is retried
  by the code, and is interrupted finitely often before it answers.
\<close>

datatype errno = ENOENT | ENOMEM | EAGAIN | EIO | ENODATA | EOTHER

datatype sysret = Ret nat | Err errno

text \<open>The answer of a sysfs store: the open fails, or the first uninterrupted write answers.\<close>

datatype store_ans = Open_err errno | Store_ret sysret

datatype attr =
    Cnc_laser_latch | Cnc_run | Cnc_stop | Cnc_halt | Cnc_streaming | Cnc_state
  | Cnc_position | Cnc_step_freq | Cnc_ramp_rate | Cnc_enable | Cnc_disable
  | Cnc_x_mode | Cnc_y_mode | Cnc_x_decay | Cnc_y_decay | Cnc_motor_lock
  | Cnc_laser_on_sampled
  | Head_z_mode | Head_z_enable | Head_z_current | Head_hall_sensor | Head_air_assist_pwm
  | Pic_x_step_current | Pic_y_step_current
  | Thermal_exhaust_pwm | Thermal_intake_pwm | Thermal_heater_pwm

datatype ioev =
    Ev_wr attr string int
  | Ev_attr_log attr string
  | Ev_rd attr "string option"
  | Ev_bin attr "u8 list option"
  | Ev_pulse int "u8 list" nat sysret
  | Ev_dump "u8 list"
  | Ev_latch_log string
  | Ev_seek int nat bool
  | Ev_open string "int option"
  | Ev_close int
  | Ev_now rat
  | Ev_sleep nat

type_synonym trace = "ioev list"

record os =
  os_getenv :: "string \<Rightarrow> string option"
  os_file :: "trace \<Rightarrow> string \<Rightarrow> string option"
  os_store :: "trace \<Rightarrow> attr \<Rightarrow> string \<Rightarrow> store_ans"
  os_attr_read :: "trace \<Rightarrow> attr \<Rightarrow> string option"
  os_attr_bin :: "trace \<Rightarrow> attr \<Rightarrow> u8 list option"
  os_write :: "trace \<Rightarrow> int \<Rightarrow> u8 list \<Rightarrow> nat \<times> sysret"
  os_lseek :: "trace \<Rightarrow> int \<Rightarrow> nat \<Rightarrow> bool"
  os_open :: "trace \<Rightarrow> string \<Rightarrow> bool \<Rightarrow> int option"
  os_creat :: "trace \<Rightarrow> string \<Rightarrow> bool"
  os_fd_valid :: "trace \<Rightarrow> int \<Rightarrow> bool"
  os_now :: "trace \<Rightarrow> rat"

record io =
  io_tr :: trace
  io_hw :: bool
  io_errno :: errno
  xy_released :: bool
  xy_mode_cached :: nat

definition emit :: "ioev \<Rightarrow> 'a io_scheme \<Rightarrow> 'a io_scheme" where
  "emit e s = s\<lparr>io_tr := e # io_tr s\<rparr>"

definition wall_s :: "os \<Rightarrow> 'a io_scheme \<Rightarrow> rat \<times> 'a io_scheme" where
  "wall_s os s = (let t = os_now os (io_tr s) in (t, emit (Ev_now t) s))"

definition sleep_ns :: "nat \<Rightarrow> 'a io_scheme \<Rightarrow> 'a io_scheme" where
  "sleep_ns n s = emit (Ev_sleep n) s"

section \<open>Attributes\<close>

definition GFIO_ENOATTR :: int where "GFIO_ENOATTR = - 2"
definition GFIO_EREJECT :: int where "GFIO_EREJECT = - 1"

definition gfio_set_hw :: "bool \<Rightarrow> 'a io_scheme \<Rightarrow> 'a io_scheme" where
  "gfio_set_hw active s = s\<lparr>io_hw := active\<rparr>"

definition getenv_set :: "os \<Rightarrow> string \<Rightarrow> string option" where
  "getenv_set os name = (case os_getenv os name of None \<Rightarrow> None
     | Some v \<Rightarrow> if v = [] then None else Some v)"

definition gfio_test_hook :: "os \<Rightarrow> string \<Rightarrow> string option" where
  "gfio_test_hook os hook =
     (case getenv_set os ''GFSINK'' of None \<Rightarrow> os_getenv os hook | Some _ \<Rightarrow> None)"

definition gfio_wr_attr :: "os \<Rightarrow> attr \<Rightarrow> string \<Rightarrow> 'a io_scheme \<Rightarrow> int \<times> 'a io_scheme" where
  "gfio_wr_attr os attr val s =
     (if \<not> io_hw s then
        (0, if getenv_set os ''GFSINK_ATTR_LOG'' \<noteq> None then emit (Ev_attr_log attr val) s else s)
      else (case os_store os (io_tr s) attr val of
          Open_err e \<Rightarrow>
            (let rc = if e = ENOENT then GFIO_ENOATTR else GFIO_EREJECT in
             (rc, emit (Ev_wr attr val rc) (s\<lparr>io_errno := e\<rparr>)))
        | Store_ret (Ret n) \<Rightarrow>
            (let rc = if n = length val then 0 else GFIO_EREJECT in
             (rc, emit (Ev_wr attr val rc) s))
        | Store_ret (Err e) \<Rightarrow>
            (GFIO_EREJECT, emit (Ev_wr attr val GFIO_EREJECT) (s\<lparr>io_errno := e\<rparr>))))"

text \<open>A write whose result the caller drops.\<close>

definition wr_attr :: "os \<Rightarrow> attr \<Rightarrow> string \<Rightarrow> 'a io_scheme \<Rightarrow> 'a io_scheme" where
  "wr_attr os attr val s = snd (gfio_wr_attr os attr val s)"

definition gfio_rd_attr :: "os \<Rightarrow> attr \<Rightarrow> nat \<Rightarrow> 'a io_scheme \<Rightarrow> string option \<times> 'a io_scheme" where
  "gfio_rd_attr os attr len s =
     (let r = map_option (\<lambda>txt. cstr (strip_newlines (take (len - 1) txt)))
                         (os_attr_read os (io_tr s) attr)
      in (r, emit (Ev_rd attr r) s))"

definition gfio_rd_bin :: "os \<Rightarrow> attr \<Rightarrow> nat \<Rightarrow> 'a io_scheme \<Rightarrow> u8 list option \<times> 'a io_scheme" where
  "gfio_rd_bin os attr len s =
     (let r = map_option (take len) (os_attr_bin os (io_tr s) attr)
      in (r, emit (Ev_bin attr r) s))"

text \<open>
  What each call changes, as a record update: a write touches the trace and errno,
  a read or a clock sample the trace only. In this form the frame holds at once
  for every field that a component adds to the I/O state.
\<close>

definition wr_rc :: "os \<Rightarrow> attr \<Rightarrow> string \<Rightarrow> bool \<Rightarrow> trace \<Rightarrow> int" where
  "wr_rc os a v hw tr = (if \<not> hw then 0 else (case os_store os tr a v of
       Open_err e \<Rightarrow> (if e = ENOENT then GFIO_ENOATTR else GFIO_EREJECT)
     | Store_ret (Ret n) \<Rightarrow> (if n = length v then 0 else GFIO_EREJECT)
     | Store_ret (Err e) \<Rightarrow> GFIO_EREJECT))"

definition wr_errno :: "os \<Rightarrow> attr \<Rightarrow> string \<Rightarrow> bool \<Rightarrow> trace \<Rightarrow> errno \<Rightarrow> errno" where
  "wr_errno os a v hw tr e0 = (if \<not> hw then e0 else (case os_store os tr a v of
       Open_err e \<Rightarrow> e | Store_ret (Ret n) \<Rightarrow> e0 | Store_ret (Err e) \<Rightarrow> e))"

definition wr_tr :: "os \<Rightarrow> attr \<Rightarrow> string \<Rightarrow> bool \<Rightarrow> trace \<Rightarrow> trace" where
  "wr_tr os a v hw tr = (if hw then Ev_wr a v (wr_rc os a v hw tr) # tr
     else if getenv_set os ''GFSINK_ATTR_LOG'' \<noteq> None then Ev_attr_log a v # tr else tr)"

definition rd_val :: "os \<Rightarrow> attr \<Rightarrow> nat \<Rightarrow> trace \<Rightarrow> string option" where
  "rd_val os a len tr = map_option (\<lambda>txt. cstr (strip_newlines (take (len - 1) txt)))
                                   (os_attr_read os tr a)"

definition bin_val :: "os \<Rightarrow> attr \<Rightarrow> nat \<Rightarrow> trace \<Rightarrow> u8 list option" where
  "bin_val os a len tr = map_option (take len) (os_attr_bin os tr a)"

lemma gfio_wr_attr_upd [frame_simps]:
  "gfio_wr_attr os a v s =
     (wr_rc os a v (io_hw s) (io_tr s),
      s\<lparr>io_tr := wr_tr os a v (io_hw s) (io_tr s),
        io_errno := wr_errno os a v (io_hw s) (io_tr s) (io_errno s)\<rparr>)"
  by (auto simp: gfio_wr_attr_def wr_rc_def wr_tr_def wr_errno_def emit_def Let_def
           split: store_ans.splits sysret.splits)

lemma wr_attr_upd [frame_simps]:
  "wr_attr os a v s =
     s\<lparr>io_tr := wr_tr os a v (io_hw s) (io_tr s),
       io_errno := wr_errno os a v (io_hw s) (io_tr s) (io_errno s)\<rparr>"
  by (simp add: wr_attr_def gfio_wr_attr_upd)

lemma gfio_rd_attr_upd [frame_simps]:
  "gfio_rd_attr os a len s =
     (rd_val os a len (io_tr s), s\<lparr>io_tr := Ev_rd a (rd_val os a len (io_tr s)) # io_tr s\<rparr>)"
  by (simp add: gfio_rd_attr_def rd_val_def emit_def Let_def)

lemma gfio_rd_bin_upd [frame_simps]:
  "gfio_rd_bin os a len s =
     (bin_val os a len (io_tr s), s\<lparr>io_tr := Ev_bin a (bin_val os a len (io_tr s)) # io_tr s\<rparr>)"
  by (simp add: gfio_rd_bin_def bin_val_def emit_def Let_def)

lemma wall_s_upd [frame_simps]:
  "wall_s os s = (os_now os (io_tr s), s\<lparr>io_tr := Ev_now (os_now os (io_tr s)) # io_tr s\<rparr>)"
  by (simp add: wall_s_def emit_def Let_def)

lemma sleep_ns_upd [frame_simps]: "sleep_ns n s = s\<lparr>io_tr := Ev_sleep n # io_tr s\<rparr>"
  by (simp add: sleep_ns_def emit_def)

section \<open>The pulse device\<close>

text \<open>
  An open takes the lock too: the answer is the locked descriptor, or none. The
  flag says whether the lock may block. Under the broker the descriptor named by
  \<open>GF_PULSE_FD\<close> is used as it is, and a failing relock on it is only logged.
\<close>

definition open_pulse_dev :: "os \<Rightarrow> string \<Rightarrow> bool \<Rightarrow> 'a io_scheme \<Rightarrow> int option \<times> 'a io_scheme" where
  "open_pulse_dev os path nb s =
     (let r = os_open os (io_tr s) path nb in (r, emit (Ev_open path r) s))"

definition inherited_pulse_fd :: "os \<Rightarrow> trace \<Rightarrow> int option" where
  "inherited_pulse_fd os tr = (case getenv_set os ''GF_PULSE_FD'' of None \<Rightarrow> None
     | Some v \<Rightarrow> (let fd = atoi v in
         if fd < 0 \<or> \<not> os_fd_valid os tr fd then None else Some fd))"

definition gfio_pulse_inherited :: "os \<Rightarrow> 'a io_scheme \<Rightarrow> bool" where
  "gfio_pulse_inherited os s = (inherited_pulse_fd os (io_tr s) \<noteq> None)"

definition gfio_open_pulse_dev :: "os \<Rightarrow> string \<Rightarrow> 'a io_scheme \<Rightarrow> int option \<times> 'a io_scheme" where
  "gfio_open_pulse_dev os path s =
     (case inherited_pulse_fd os (io_tr s) of Some fd \<Rightarrow> (Some fd, s)
      | None \<Rightarrow> open_pulse_dev os path False s)"

definition gfio_open_pulse_dev_nb :: "os \<Rightarrow> string \<Rightarrow> 'a io_scheme \<Rightarrow> int option \<times> 'a io_scheme" where
  "gfio_open_pulse_dev_nb os path s =
     (case inherited_pulse_fd os (io_tr s) of Some fd \<Rightarrow> (Some fd, s)
      | None \<Rightarrow> open_pulse_dev os path True s)"

definition lseek_dev :: "os \<Rightarrow> int \<Rightarrow> nat \<Rightarrow> 'a io_scheme \<Rightarrow> bool \<times> 'a io_scheme" where
  "lseek_dev os fd pos s =
     (let r = os_lseek os (io_tr s) fd pos in (r, emit (Ev_seek fd pos r) s))"

lemma lseek_dev_upd [frame_simps]:
  "lseek_dev os fd pos s = (os_lseek os (io_tr s) fd pos,
     s\<lparr>io_tr := Ev_seek fd pos (os_lseek os (io_tr s) fd pos) # io_tr s\<rparr>)"
  by (simp add: lseek_dev_def emit_def Let_def)

section \<open>Currents and analog configuration\<close>

definition gfio_xy_released_set :: "bool \<Rightarrow> 'a io_scheme \<Rightarrow> 'a io_scheme" where
  "gfio_xy_released_set r s = s\<lparr>xy_released := r\<rparr>"

definition gfio_currents_run :: "os \<Rightarrow> 'a io_scheme \<Rightarrow> 'a io_scheme" where
  "gfio_currents_run os s =
     (let s = wr_attr os Pic_x_step_current (if xy_released s then ''0'' else ''135'') s;
          s = wr_attr os Pic_y_step_current (if xy_released s then ''0'' else ''22'') s
      in wr_attr os Head_z_current ''0'' s)"

definition gfio_currents_hold :: "os \<Rightarrow> 'a io_scheme \<Rightarrow> 'a io_scheme" where
  "gfio_currents_hold os s =
     (let s = wr_attr os Pic_x_step_current (if xy_released s then ''0'' else ''33'') s;
          s = wr_attr os Pic_y_step_current (if xy_released s then ''0'' else ''5'') s
      in wr_attr os Head_z_current ''1'' s)"

section \<open>The shared machine configuration\<close>

definition CONF_DEFAULT :: string where
  "CONF_DEFAULT = ''/data/forgefirm/forgefirm.conf''"

definition conf_path :: "os \<Rightarrow> string" where
  "conf_path os = (case getenv_set os ''GFHOME_CONF'' of Some p \<Rightarrow> p | None \<Rightarrow> CONF_DEFAULT)"

text \<open>One line of the file: the key and the value it sets, if it sets one.\<close>

definition conf_line :: "string \<Rightarrow> (string \<times> string) option" where
  "conf_line line =
     (let p = skip_space line in
      if p = [] \<or> hd p = CHR ''#'' then None
      else if CHR ''='' \<notin> set p then None
      else Some (rstrip (takeWhile (\<lambda>c. c \<noteq> CHR ''='') p),
                 rstrip (skip_space (tl (dropWhile (\<lambda>c. c \<noteq> CHR ''='') p)))))"

text \<open>The scan keeps the last occurrence.\<close>

fun conf_scan :: "string \<Rightarrow> string option \<Rightarrow> string list \<Rightarrow> string option" where
  "conf_scan key found [] = found"
| "conf_scan key found (l # ls) =
     (case conf_line l of
        Some (k, v) \<Rightarrow> conf_scan key (if k = key then Some v else found) ls
      | None \<Rightarrow> conf_scan key found ls)"

definition gfio_conf_read :: "os \<Rightarrow> string \<Rightarrow> nat \<Rightarrow> 'a io_scheme \<Rightarrow> string option" where
  "gfio_conf_read os key len s =
     (case os_file os (io_tr s) (conf_path os) of None \<Rightarrow> None
      | Some txt \<Rightarrow> map_option (take (len - 1)) (conf_scan key None (fgets_lines 254 txt)))"

definition gfio_conf_read_float :: "os \<Rightarrow> string \<Rightarrow> cfloat \<Rightarrow> 'a io_scheme \<Rightarrow> cfloat" where
  "gfio_conf_read_float os key fallback s =
     (case gfio_conf_read os key 32 s of None \<Rightarrow> fallback
      | Some val \<Rightarrow> (case strtof val of None \<Rightarrow> fallback | Some (f, _) \<Rightarrow> f))"

definition gfio_conf_sibling :: "os \<Rightarrow> string \<Rightarrow> nat \<Rightarrow> string option" where
  "gfio_conf_sibling os name len =
     (let conf = conf_path os;
          full = (if CHR ''/'' \<in> set conf
                  then rev (tl (dropWhile (\<lambda>c. c \<noteq> CHR ''/'') (rev conf))) @ ''/'' @ name
                  else name)
      in if length full \<ge> len then None else Some full)"

lemma conf_scan_append:
  "conf_scan key f (ls @ ms) = conf_scan key (conf_scan key f ls) ms"
  by (induction key f ls rule: conf_scan.induct) (auto split: option.splits)

text \<open>
  The declarative reading of the scan: the value of the last line that sets the key.
\<close>

lemma conf_scan_last:
  "conf_scan key f ls =
     (case filter (\<lambda>l. map_option fst (conf_line l) = Some key) ls of
        [] \<Rightarrow> f | h # t \<Rightarrow> map_option snd (conf_line (last (h # t))))"
  by (induction ls arbitrary: f) (auto split: option.splits list.splits)

section \<open>The XY microstep mode and what is derived from it\<close>

definition XY_MICROSTEPS_BASE :: nat where "XY_MICROSTEPS_BASE = 8"
definition XY_MICROSTEPS_DEFAULT :: nat where "XY_MICROSTEPS_DEFAULT = 32"
definition GF_TICK_X8_HZ :: nat where "GF_TICK_X8_HZ = 28160"
definition GF_RAMP_X8_HZ_PER_S :: nat where "GF_RAMP_X8_HZ_PER_S = 125000"

definition gfio_xy_mode_parse :: "string \<Rightarrow> nat" where
  "gfio_xy_mode_parse val = (case strtoul val of None \<Rightarrow> 0
     | Some (v, rest) \<Rightarrow> if rest \<noteq> [] then 0
         else if v = 8 \<or> v = 16 \<or> v = 32 then unat v else 0)"

definition gfio_xy_microsteps :: "os \<Rightarrow> 'a io_scheme \<Rightarrow> nat \<times> 'a io_scheme" where
  "gfio_xy_microsteps os s =
     (if xy_mode_cached s \<noteq> 0 then (xy_mode_cached s, s)
      else let m = (case gfio_conf_read os ''xy_microsteps'' 32 s of None \<Rightarrow> 0
                    | Some val \<Rightarrow> gfio_xy_mode_parse val);
               m = (if m = 0 then XY_MICROSTEPS_DEFAULT else m)
           in (m, s\<lparr>xy_mode_cached := m\<rparr>))"

definition gfio_xy_scale_of :: "nat \<Rightarrow> nat" where
  "gfio_xy_scale_of mode = mode div XY_MICROSTEPS_BASE"

definition gfio_xy_steps_per_mm_of :: "nat \<Rightarrow> rat" where
  "gfio_xy_steps_per_mm_of mode =
     (if mode = 16 then 106667 / 1000 else if mode = 32 then 213333 / 1000 else 53333 / 1000)"

definition gfio_xy_tick_hz_of :: "nat \<Rightarrow> nat" where
  "gfio_xy_tick_hz_of mode = GF_TICK_X8_HZ * gfio_xy_scale_of mode"

definition gfio_xy_ramp_for_tick :: "nat \<Rightarrow> nat" where
  "gfio_xy_ramp_for_tick tick_hz =
     (let ramp = GF_RAMP_X8_HZ_PER_S * tick_hz div GF_TICK_X8_HZ;
          ramp = (if ramp < 10000 then 10000 else ramp)
      in if ramp > 500000 then 500000 else ramp)"

definition gfio_xy_rate_ceiling :: "nat \<Rightarrow> rat \<Rightarrow> rat" where
  "gfio_xy_rate_ceiling tick_hz steps_per_mm = of_nat tick_hz * 60 / steps_per_mm"

definition gfio_analog_config :: "os \<Rightarrow> 'a io_scheme \<Rightarrow> 'a io_scheme" where
  "gfio_analog_config os s =
     (let (m, s) = gfio_xy_microsteps os s; mode = take 7 (utoa m);
          s = wr_attr os Cnc_x_mode mode s;
          s = wr_attr os Cnc_y_mode mode s;
          s = wr_attr os Cnc_x_decay ''1'' s;
          s = wr_attr os Cnc_y_decay ''1'' s;
          s = wr_attr os Cnc_motor_lock ''0'' s;
          s = wr_attr os Head_z_mode ''1'' s;
          s = wr_attr os Head_z_enable ''0'' s
      in gfio_currents_hold os s)"

text \<open>The part of the core's settings that the driver pins.\<close>

record machine_settings =
  x_steps_per_mm :: rat
  y_steps_per_mm :: rat
  z_steps_per_mm :: rat
  x_max_rate :: rat
  y_max_rate :: rat
  mode_laser :: bool
  homing_mask :: "u8 \<times> u8 \<times> u8"

text \<open>The core's default homing masks are an argument: the core's header defines them.\<close>

definition gfio_apply_machine_pins ::
    "u8 \<times> u8 \<times> u8 \<Rightarrow> nat \<Rightarrow> nat \<Rightarrow> machine_settings \<Rightarrow> u8 \<times> machine_settings" where
  "gfio_apply_machine_pins default_masks mode tick_hz st =
     (let spm = gfio_xy_steps_per_mm_of mode;
          ceiling = gfio_xy_rate_ceiling tick_hz spm;
          held_x = x_max_rate st > ceiling;
          held_y = y_max_rate st > ceiling
      in ((if held_x then 1 else 0) OR (if held_y then 2 else 0),
          st\<lparr>x_steps_per_mm := spm, y_steps_per_mm := spm,
             x_max_rate := (if held_x then ceiling else x_max_rate st),
             y_max_rate := (if held_y then ceiling else y_max_rate st),
             z_steps_per_mm := 2922 / 1000, mode_laser := True,
             homing_mask := default_masks\<rparr>))"

end
