(* ===== verification/Homing_Ref.thy ===== *)
theory Homing_Ref
  imports Gf_Io
begin

text \<open>
  The position reference of glowforge_homing.c and the pure derivations of
  glowforge_homing.h: the Z envelope that a reference opens and its loss closes,
  the anchor that outside readers add to the kernel's counters, and the clamps of
  the configured heights, coordinates and budgets. The fields of the core's \<open>sys\<close>
  and \<open>settings\<close> that the code writes are fields of the state here.
\<close>

text \<open>\<open>lroundf\<close>: the nearest integer, halves away from zero.\<close>

definition lround :: "rat \<Rightarrow> int" where
  "lround x = (if 0 \<le> x then floor (x + 1 / 2) else - floor (- x + 1 / 2))"

definition X_AXIS_BIT :: u8 where "X_AXIS_BIT = 1"
definition Y_AXIS_BIT :: u8 where "Y_AXIS_BIT = 2"
definition Z_AXIS_BIT :: u8 where "Z_AXIS_BIT = 4"

record homing = io +
  z_referenced :: bool
  z_env_min :: rat
  z_env_max :: rat
  anchor_home :: "rat \<times> rat \<times> rat"
  anchor_axes :: u8
  anchor_source :: string
  anchor_file :: "((rat \<times> rat \<times> rat) \<times> u8 \<times> string) option"
  z_spm :: rat
  sys_position_z :: int
  sys_home_z :: rat
  sys_env_z :: "rat \<times> rat"
  sys_homed :: u8
  sys_soft_limits :: u8

definition gfhome_z_steps :: "rat \<Rightarrow> rat \<Rightarrow> int" where
  "gfhome_z_steps z_mm spm = lround (z_mm * spm)"

definition gfhome_grid_z :: "rat \<Rightarrow> rat \<Rightarrow> rat" where
  "gfhome_grid_z z_mm spm = of_int (gfhome_z_steps z_mm spm) / spm"

definition gfhome_park_steps :: "rat \<Rightarrow> rat \<Rightarrow> rat \<Rightarrow> int \<Rightarrow> int \<Rightarrow> int" where
  "gfhome_park_steps edge_z_mm park_z_mm spm down up =
     (let k = gfhome_z_steps park_z_mm spm - gfhome_z_steps edge_z_mm spm
      in if k < - down then - down else if k > up then up else k)"

definition gfhome_clamp_timeout_s :: "cfloat \<Rightarrow> cfloat \<Rightarrow> cfloat" where
  "gfhome_clamp_timeout_s s dflt =
     (if s = NaN then dflt else if fl_lt s (Fin 10) then Fin 10
      else if fl_lt (Fin 3600) s then Fin 3600 else s)"

definition gfhome_clamp_home_mm :: "cfloat \<Rightarrow> rat \<Rightarrow> cfloat" where
  "gfhome_clamp_home_mm mm travel =
     (if mm = NaN then Fin 0 else if fl_lt mm (Fin 0) then Fin 0
      else if fl_lt (Fin travel) mm then Fin travel else mm)"

definition gfhome_clamp_cloud_home_mm :: "cfloat \<Rightarrow> rat \<Rightarrow> cfloat" where
  "gfhome_clamp_cloud_home_mm mm travel =
     (if mm = NaN then Fin 0 else if fl_lt mm (Fin (- travel)) then Fin (- travel)
      else if fl_lt (Fin travel) mm then Fin travel else mm)"

definition gfhome_clamp_envelope_mm :: "cfloat \<Rightarrow> rat \<Rightarrow> cfloat" where
  "gfhome_clamp_envelope_mm mm travel =
     (if mm = NaN \<or> fl_le mm (Fin 0) then Fin travel
      else let hi = travel + 30 in
        if fl_lt mm (Fin 50) then Fin 50 else if fl_lt (Fin hi) mm then Fin hi else mm)"

definition gfhome_apply_z_limit :: "'a homing_scheme \<Rightarrow> 'a homing_scheme" where
  "gfhome_apply_z_limit s =
     (let z = of_int (sys_position_z s) / z_spm s;
          homed = sys_homed s OR Z_AXIS_BIT;
          sl = sys_soft_limits s OR Z_AXIS_BIT;
          sl = (if homed AND X_AXIS_BIT \<noteq> 0 then sl OR X_AXIS_BIT else sl);
          sl = (if homed AND Y_AXIS_BIT \<noteq> 0 then sl OR Y_AXIS_BIT else sl)
      in s\<lparr>sys_env_z := (if z_referenced s then (z_env_min s, z_env_max s) else (z, z)),
            sys_homed := homed, sys_soft_limits := sl\<rparr>)"

definition HOMED_ANCHOR :: string where "HOMED_ANCHOR = ''/run/grblhal.homed''"

definition anchor_write ::
    "os \<Rightarrow> rat \<times> rat \<times> rat \<Rightarrow> u8 \<Rightarrow> string \<Rightarrow> 'a homing_scheme \<Rightarrow> 'a homing_scheme" where
  "anchor_write os home axes source s =
     s\<lparr>anchor_file := (if os_creat os (io_tr s) HOMED_ANCHOR then Some (home, axes, source)
                        else anchor_file s),
       anchor_home := home, anchor_axes := axes, anchor_source := take 15 source\<rparr>"

definition gfhome_invalidate :: "'a homing_scheme \<Rightarrow> 'a homing_scheme" where
  "gfhome_invalidate s =
     gfhome_apply_z_limit (s\<lparr>anchor_file := None, anchor_axes := 0, z_referenced := False,
       sys_homed := sys_homed s AND NOT (X_AXIS_BIT OR Y_AXIS_BIT),
       sys_soft_limits := sys_soft_limits s AND NOT (X_AXIS_BIT OR Y_AXIS_BIT)\<rparr>)"

definition gfhome_invalidate_xy :: "os \<Rightarrow> 'a homing_scheme \<Rightarrow> 'a homing_scheme" where
  "gfhome_invalidate_xy os s =
     (let s = (if anchor_axes s AND Z_AXIS_BIT \<noteq> 0
               then anchor_write os (anchor_home s) Z_AXIS_BIT (anchor_source s) s
               else s\<lparr>anchor_file := None, anchor_axes := 0\<rparr>)
      in gfhome_apply_z_limit (s\<lparr>
           sys_homed := sys_homed s AND NOT (X_AXIS_BIT OR Y_AXIS_BIT),
           sys_soft_limits := sys_soft_limits s AND NOT (X_AXIS_BIT OR Y_AXIS_BIT)\<rparr>))"

definition z_grid_shift :: "rat \<Rightarrow> int \<Rightarrow> rat \<Rightarrow> rat" where
  "z_grid_shift z delta spm = of_int (lround (z * spm) + delta) / spm"

definition gfhome_tray_shift :: "os \<Rightarrow> int \<Rightarrow> 'a homing_scheme \<Rightarrow> 'a homing_scheme" where
  "gfhome_tray_shift os delta s =
     (let spm = z_spm s;
          s = s\<lparr>sys_position_z := sys_position_z s + delta,
                sys_home_z := z_grid_shift (sys_home_z s) delta spm\<rparr>;
          s = (if z_referenced s then s\<lparr>z_env_min := z_grid_shift (z_env_min s) delta spm,
                                        z_env_max := z_grid_shift (z_env_max s) delta spm\<rparr> else s);
          s = gfhome_apply_z_limit s
      in if anchor_axes s \<noteq> 0 then
           (let (x, y, z) = anchor_home s;
                home = (x, y, z_grid_shift z delta spm)
            in anchor_write os home (anchor_axes s) (anchor_source s) (s\<lparr>anchor_home := home\<rparr>))
         else s)"

section \<open>Facts\<close>

lemma lround_of_int [simp]: "lround (of_int n) = n"
proof (cases "0 \<le> n")
  case True
  then show ?thesis unfolding lround_def by (simp add: floor_unique)
next
  case False
  then have "floor (- of_int n + 1 / 2 :: rat) = - n" by (intro floor_unique) auto
  with False show ?thesis unfolding lround_def by simp
qed

lemma z_grid_shift_grid:
  assumes "spm \<noteq> 0"
  shows "z_grid_shift (of_int n / spm) d spm = of_int (n + d) / spm"
  using assms by (simp add: z_grid_shift_def)

text \<open>On the step grid a shift is undone by the opposite one.\<close>

lemma z_grid_shift_inverse:
  assumes "spm \<noteq> 0" "z = of_int n / spm"
  shows "z_grid_shift (z_grid_shift z d spm) (- d) spm = z"
  using assms by (simp add: z_grid_shift_grid del: of_int_add)

lemma gfhome_invalidate_upd [frame_simps]:
  "gfhome_invalidate s = s\<lparr>anchor_file := None, anchor_axes := 0, z_referenced := False,
     sys_env_z := (of_int (sys_position_z s) / z_spm s, of_int (sys_position_z s) / z_spm s),
     sys_homed := (sys_homed s AND NOT (X_AXIS_BIT OR Y_AXIS_BIT)) OR Z_AXIS_BIT,
     sys_soft_limits := (sys_soft_limits s AND NOT (X_AXIS_BIT OR Y_AXIS_BIT)) OR Z_AXIS_BIT\<rparr>"
proof -
  have "((h AND NOT (X_AXIS_BIT OR Y_AXIS_BIT)) OR Z_AXIS_BIT) AND X_AXIS_BIT = 0"
    "((h AND NOT (X_AXIS_BIT OR Y_AXIS_BIT)) OR Z_AXIS_BIT) AND Y_AXIS_BIT = 0" for h
    by (simp_all add: X_AXIS_BIT_def Y_AXIS_BIT_def Z_AXIS_BIT_def u8_mask_bits bit_simps)
  then show ?thesis
    by (simp add: gfhome_invalidate_def gfhome_apply_z_limit_def Let_def)
qed

end
