(* ===== verification/Stream_State.thy ===== *)
theory Stream_State
  imports Homing_Ref
begin

text \<open>
  The state of stepper_stream.c: the static structure \<open>gf\<close> with the atomics and
  statics beside it, as a record that extends the I/O and homing state, and the
  tick byte: how a step event becomes one and how its steps are counted.

  64-bit stream indices and virtual time are natural numbers (they do not wrap in
  the life of the machine), wall-clock doubles are rationals, and the 32-bit
  counters are words and wrap as in C. The two arrays are functions from the slot
  number. The mutexes have no field: a definition is a section between a lock and
  its unlock, or a composition of such sections.
\<close>

definition RING_SIZE :: nat where "RING_SIZE = 131072"
definition SHIP_CHUNK :: nat where "SHIP_CHUNK = 256"
definition VTICKS_PER_BYTE :: nat where "VTICKS_PER_BYTE = 1000"
definition GF_PWM_PERIOD :: u32 where "GF_PWM_PERIOD = 127"
definition DITH_PERIOD_MAX :: u32 where "DITH_PERIOD_MAX = 1024"
definition LEV_N :: u32 where "LEV_N = 4096"
definition LEV_MASK :: u32 where "LEV_MASK = LEV_N - 1"

record laser_ev =
  ev_idx :: nat
  ev_power :: u8
  ev_fire :: bool

datatype rb = RB_NONE | RB_WAIT | RB_DONE | RB_LOST

record gf = homing +
  gf_active :: bool
  suspended :: bool
  gf_dev :: string
  gf_fd :: int
  gf_dump_fd :: int
  gf_rate :: nat
  gf_depth :: nat
  lead_s :: rat
  min_margin :: int
  gf_ring :: "nat \<Rightarrow> u8"
  produced :: nat
  shipped :: nat
  gf_base :: nat
  streaming :: bool
  kernel_running :: bool
  run_pending :: bool
  clear_pending :: bool
  hold_pending :: bool
  hold_poll_at :: rat
  written :: u32
  run_base :: u32
  killed :: bool
  kill_step :: u8
  gf_steps :: steps3
  base_steps :: steps3
  base_counts :: steps3
  base_valid :: bool
  gf_zeros :: u32
  gf_readback :: rb
  unplayed :: steps3
  failed :: bool
  ship_t0 :: rat
  clamped :: nat
  gf_lev :: "nat \<Rightarrow> laser_ev"
  lev_head :: u32
  lev_tail :: u32
  cur_power :: u8
  cur_fire :: bool
  gate_seen :: bool
  last_lit :: bool
  power_sent :: bool
  lev_overflow_warned :: bool
  dith_period :: u32
  dith_min :: u32
  dith_left :: u32
  dith_on :: u32
  dith_acc :: u32
  want_power :: u8
  want_fire :: bool
  jogging :: bool
  vticks :: nat
  wall_epoch :: rat
  period_latched :: u32
  threads_started :: bool
  gf_armed :: bool
  gf_quit :: bool
  fault_flag :: bool
  laser_armed :: bool
  fire_gate :: bool
  latch_locked_by_us :: bool
  latch_fail_reported :: bool
  latch_log_fd :: int
  stall_ms :: u32
  write_stall_ms :: u32
  gf_stalled :: bool
  write_stalled :: bool
  shutdown_done :: bool

section \<open>Tick bytes\<close>

text \<open>
  grblHAL's bits: bit 0 X, bit 1 Y, bit 2 Z; a direction bit set is the negative
  direction. Pulse byte: X_DIR set is -X, Y_DIR set is +Y, Z_DIR set is +Z.
\<close>

definition pulse_byte :: "u8 \<Rightarrow> u8 \<Rightarrow> u8" where
  "pulse_byte step_bits dir_bits =
     (let b = 0;
          b = (if step_bits AND 0x01 \<noteq> 0 then b OR 0x01 OR (if dir_bits AND 0x01 \<noteq> 0 then 0x02 else 0) else b);
          b = (if step_bits AND 0x02 \<noteq> 0 then b OR 0x04 OR (if dir_bits AND 0x02 \<noteq> 0 then 0 else 0x08) else b);
          b = (if step_bits AND 0x04 \<noteq> 0 then b OR 0x20 OR (if dir_bits AND 0x04 \<noteq> 0 then 0 else 0x40) else b)
      in b)"

text \<open>\<open>UINT32_MAX\<close> is the step of -1.\<close>

definition tick_steps :: "steps3 \<Rightarrow> u8 \<Rightarrow> steps3" where
  "tick_steps s b =
     S3 (if b AND 0x01 \<noteq> 0 then sx s + (if b AND 0x02 \<noteq> 0 then - 1 else 1) else sx s)
        (if b AND 0x04 \<noteq> 0 then sy s + (if b AND 0x08 \<noteq> 0 then 1 else - 1) else sy s)
        (if b AND 0x20 \<noteq> 0 then sz s + (if b AND 0x40 \<noteq> 0 then 1 else - 1) else sz s)"

definition FIRE_BIT :: u8 where "FIRE_BIT = 0x10"

text \<open>What the core counts for a step event: one step per axis bit, against its direction bit.\<close>

definition core_axis :: "u8 \<Rightarrow> u8 \<Rightarrow> nat \<Rightarrow> u32" where
  "core_axis step_bits dir_bits a =
     (if bit step_bits a then (if bit dir_bits a then - 1 else 1) else 0)"

definition core_steps :: "u8 \<Rightarrow> u8 \<Rightarrow> steps3" where
  "core_steps step_bits dir_bits =
     S3 (core_axis step_bits dir_bits 0) (core_axis step_bits dir_bits 1)
        (core_axis step_bits dir_bits 2)"

definition byte_steps :: "u8 \<Rightarrow> steps3" where
  "byte_steps b = tick_steps 0 b"

lemma tick_steps_byte: "tick_steps s b = s + byte_steps b"
  by (cases s) (simp add: byte_steps_def tick_steps_def)

lemma byte_steps_zero [simp]: "byte_steps 0 = 0"
  by (simp add: byte_steps_def tick_steps_def zero_steps3_def)

lemma pulse_byte_steps: "byte_steps (pulse_byte sb db) = core_steps sb db"
  unfolding byte_steps_def tick_steps_def pulse_byte_def core_steps_def core_axis_def Let_def
    u8_mask_bits
  by (cases "bit sb 0"; cases "bit sb 1"; cases "bit sb 2";
      cases "bit db 0"; cases "bit db 1"; cases "bit db 2") (simp_all add: bit_simps)

lemma byte_steps_fire: "byte_steps (b OR FIRE_BIT) = byte_steps b"
  unfolding byte_steps_def tick_steps_def u8_mask_bits FIRE_BIT_def
  by (simp add: bit_simps)

text \<open>A step byte never carries FIRE or the power marker.\<close>

lemma pulse_byte_dark: "pulse_byte sb db AND FIRE_BIT = 0" "pulse_byte sb db AND 0x80 = 0"
  unfolding pulse_byte_def Let_def FIRE_BIT_def u8_mask_bits
  by (auto simp: bit_simps)

section \<open>The slots of the two rings\<close>

definition ring_slot :: "nat \<Rightarrow> nat" where
  "ring_slot i = i mod RING_SIZE"

definition lev_slot :: "u32 \<Rightarrow> nat" where
  "lev_slot t = unat (t AND LEV_MASK)"

text \<open>The bytes between the ship cursor and the produced index, and their steps.\<close>

definition backlog_bytes :: "'a gf_scheme \<Rightarrow> u8 list" where
  "backlog_bytes s = map (\<lambda>i. gf_ring s (ring_slot i)) [shipped s..<produced s]"

definition backlog_steps :: "'a gf_scheme \<Rightarrow> steps3" where
  "backlog_steps s = sum_list (map byte_steps (backlog_bytes s))"

definition lev_pending :: "'a gf_scheme \<Rightarrow> nat" where
  "lev_pending s = unat (lev_tail s - lev_head s)"

text \<open>The queued laser transitions, oldest first.\<close>

definition lev_list :: "'a gf_scheme \<Rightarrow> laser_ev list" where
  "lev_list s = map (\<lambda>k. gf_lev s (lev_slot (lev_head s + of_nat k))) [0..<lev_pending s]"

lemma lev_slot_mod: "lev_slot t = unat t mod 4096"
  using mask_unat [of 12 t]
  by (simp add: lev_slot_def LEV_MASK_def LEV_N_def mask_eq_decr_exp)

lemma lev_slot_add: "lev_slot (h + of_nat k) = (unat h + k) mod 4096"
  by (simp add: lev_slot_mod unat_word_ariths unat_of_nat mod_mod_cancel mod_add_right_eq)

lemma lev_slot_inj:
  assumes "j < 4096" "k < 4096" "lev_slot (h + of_nat j) = lev_slot (h + of_nat k)"
  shows "j = k"
  using mod_window_inj [of j 4096 k "unat h"] assms by (simp add: lev_slot_add)

lemma ring_slot_inj:
  assumes "i \<le> j" "j < i + RING_SIZE" "ring_slot i = ring_slot j"
  shows "i = j"
  using mod_window_le assms unfolding ring_slot_def by blast

end
