(* ===== verification/Stream_Latch.thy ===== *)
theory Stream_Latch
  imports Stream_State
begin

text \<open>
  The one writer of \<open>cnc/laser_latch\<close> in the process (stepper_stream.c, the part
  under \<open>latch_mx\<close>): the write with its retries, the record of which way this
  process last wrote the latch, and the fault that a lock which did not take
  raises. The contract its clients rely on is the locale \<open>latch_writer\<close>.
\<close>

definition LATCH_RETRIES :: nat where "LATCH_RETRIES = 3"
definition LATCH_RETRY_NS :: nat where "LATCH_RETRY_NS = 10000000"

definition latch_log :: "string \<Rightarrow> 'a gf_scheme \<Rightarrow> 'a gf_scheme" where
  "latch_log what s = (if latch_log_fd s < 0 then s else emit (Ev_latch_log what) s)"

text \<open>The loop: at most \<open>n\<close> more attempts while the last answer is not 0.\<close>

fun latch_retry :: "os \<Rightarrow> string \<Rightarrow> nat \<Rightarrow> int \<Rightarrow> 'a gf_scheme \<Rightarrow> int \<times> 'a gf_scheme" where
  "latch_retry os val 0 rc s = (rc, s)"
| "latch_retry os val (Suc n) rc s =
     (if rc = 0 then (rc, s)
      else (let (rc, s) = gfio_wr_attr os Cnc_laser_latch val (sleep_ns LATCH_RETRY_NS s)
            in latch_retry os val n rc s))"

definition latch_write_locked :: "os \<Rightarrow> bool \<Rightarrow> 'a gf_scheme \<Rightarrow> bool \<times> 'a gf_scheme" where
  "latch_write_locked os lock s =
     (if \<not> lock \<and> \<not> latch_locked_by_us s then (True, latch_log ''unlock-skipped'' s)
      else (let val = (if lock then ''1'' else ''0'');
                (rc, s) = gfio_wr_attr os Cnc_laser_latch val s;
                (rc, s) = latch_retry os val LATCH_RETRIES rc s;
                s = (if rc = 0
                     then latch_log (if lock then ''lock'' else ''unlock'')
                            (s\<lparr>latch_locked_by_us := lock, latch_fail_reported := False\<rparr>)
                     else latch_log (if lock then ''lock-failed'' else ''unlock-failed'') s)
            in (rc = 0, s)))"

definition latch_fault :: "'a gf_scheme \<Rightarrow> 'a gf_scheme" where
  "latch_fault s =
     (if latch_fail_reported s then s
      else s\<lparr>latch_fail_reported := True, failed := True, fault_flag := True\<rparr>)"

definition gf_stream_laser_latch :: "os \<Rightarrow> bool \<Rightarrow> 'a gf_scheme \<Rightarrow> bool \<times> 'a gf_scheme" where
  "gf_stream_laser_latch os lock s =
     (let (ok, s) = latch_write_locked os lock s
      in (ok, if \<not> ok \<and> lock then latch_fault s else s))"

definition gf_stream_latch_locked_by_us :: "'a gf_scheme \<Rightarrow> bool" where
  "gf_stream_latch_locked_by_us s = latch_locked_by_us s"

definition gf_stream_fire_gate :: "bool \<Rightarrow> 'a gf_scheme \<Rightarrow> 'a gf_scheme" where
  "gf_stream_fire_gate opened s = s\<lparr>fire_gate := opened\<rparr>"

definition gf_stream_laser_arm :: "bool \<Rightarrow> 'a gf_scheme \<Rightarrow> 'a gf_scheme" where
  "gf_stream_laser_arm st s = s\<lparr>laser_armed := st\<rparr>"

definition gf_stream_fault_take :: "'a gf_scheme \<Rightarrow> bool \<times> 'a gf_scheme" where
  "gf_stream_fault_take s = (fault_flag s, s\<lparr>fault_flag := False\<rparr>)"

section \<open>What the trace says of the latch\<close>

text \<open>
  Which way the latch was last set by this process: by a store that took, or by the
  final close of the device, on which the kernel relocks. It is locked at the start.
\<close>

fun latch_view :: "trace \<Rightarrow> bool" where
  "latch_view [] = True"
| "latch_view (Ev_wr Cnc_laser_latch v rc # tr) = (if rc = 0 then v = ''1'' else latch_view tr)"
| "latch_view (Ev_close x # tr) = True"
| "latch_view (e # tr) = latch_view tr"

text \<open>Every unlock ever tried found this process's own lock in place.\<close>

fun unlocks_own :: "trace \<Rightarrow> bool" where
  "unlocks_own [] = True"
| "unlocks_own (Ev_wr Cnc_laser_latch v rc # tr) = ((v \<noteq> ''1'' \<longrightarrow> latch_view tr) \<and> unlocks_own tr)"
| "unlocks_own (e # tr) = unlocks_own tr"

definition latch_attempts :: "trace \<Rightarrow> nat" where
  "latch_attempts tr = length (filter (\<lambda>e. case e of Ev_wr a v rc \<Rightarrow> a = Cnc_laser_latch | _ \<Rightarrow> False) tr)"

definition latch_ok :: "'a gf_scheme \<Rightarrow> bool" where
  "latch_ok s \<longleftrightarrow>
     (io_hw s \<longrightarrow> latch_view (io_tr s) = latch_locked_by_us s \<and> unlocks_own (io_tr s))"

lemma wr_tr_latch_view [simp]:
  "a \<noteq> Cnc_laser_latch \<Longrightarrow> latch_view (wr_tr os a v hw tr) = latch_view tr"
  "a \<noteq> Cnc_laser_latch \<Longrightarrow> unlocks_own (wr_tr os a v hw tr) = unlocks_own tr"
  by (cases a; simp add: wr_tr_def)+

lemma wr_tr_latch:
  "wr_tr os a v True tr = Ev_wr a v (wr_rc os a v True tr) # tr"
  by (simp add: wr_tr_def)

lemma latch_log_upd [frame_simps]:
  "latch_log w s = s\<lparr>io_tr := (if latch_log_fd s < 0 then io_tr s else Ev_latch_log w # io_tr s)\<rparr>"
  by (simp add: latch_log_def emit_def)

section \<open>The retry loop\<close>

text \<open>
  What an attempt sequence leaves: everything but the trace and errno is as before,
  and on the hardware the latch view follows the last answer.
\<close>

lemma latch_retry_ex:
  "\<exists>t e. snd (latch_retry os v n rc s) = s\<lparr>io_tr := t, io_errno := e\<rparr>"
proof (induction n arbitrary: rc s)
  case 0
  show ?case by (rule exI [of _ "io_tr s"], rule exI [of _ "io_errno s"]) simp
next
  case (Suc n)
  show ?case
  proof (cases "rc = 0")
    case True
    then show ?thesis by (intro exI [of _ "io_tr s"] exI [of _ "io_errno s"]) simp
  next
    case False
    obtain r1 s1 where w: "gfio_wr_attr os Cnc_laser_latch v (sleep_ns LATCH_RETRY_NS s) = (r1, s1)"
      by fastforce
    obtain t e where "snd (latch_retry os v n r1 s1) = s1\<lparr>io_tr := t, io_errno := e\<rparr>"
      using Suc by blast
    then show ?thesis using False w
      by (intro exI [of _ t] exI [of _ e]) (auto simp: frame_simps)
  qed
qed

lemma latch_retry_frame:
  assumes "latch_retry os v n rc s = (rc', s')"
  obtains t e where "s' = s\<lparr>io_tr := t, io_errno := e\<rparr>"
  using latch_retry_ex [of os v n rc s] assms by auto

lemma latch_retry_zero [simp]: "latch_retry os v n 0 s = (0, s)"
  by (cases n) simp_all

lemma latch_retry_view:
  assumes "latch_retry os v n rc s = (rc', s')" "io_hw s" "rc \<noteq> 0"
    "unlocks_own (io_tr s)" "v \<noteq> ''1'' \<longrightarrow> latch_view (io_tr s)"
  shows "unlocks_own (io_tr s') \<and>
         latch_view (io_tr s') = (if rc' = 0 then v = ''1'' else latch_view (io_tr s))"
  using assms
proof (induction n arbitrary: rc s)
  case (Suc n)
  let ?s1 = "sleep_ns LATCH_RETRY_NS s"
  obtain r1 s1 where w: "gfio_wr_attr os Cnc_laser_latch v ?s1 = (r1, s1)" by fastforce
  have s1: "io_hw s1" "io_tr s1 = Ev_wr Cnc_laser_latch v r1 # Ev_sleep LATCH_RETRY_NS # io_tr s"
    using w Suc.prems(2) by (auto simp: frame_simps wr_tr_latch)
  have step: "latch_retry os v n r1 s1 = (rc', s')" using Suc.prems(1,3) w by simp
  show ?case
  proof (cases "r1 = 0")
    case True
    then show ?thesis using step s1 Suc.prems(4,5) by auto
  next
    case False
    then show ?thesis using Suc.IH [OF step s1(1) False] s1(2) Suc.prems(4,5) by simp
  qed
qed auto

lemma latch_retry_attempts:
  assumes "latch_retry os v n rc s = (rc', s')"
  shows "latch_attempts (io_tr s') \<le> latch_attempts (io_tr s) + n"
  using assms
proof (induction os v n rc s arbitrary: rc' s' rule: latch_retry.induct)
  case (2 os v n rc s)
  then show ?case
    by (fastforce simp: frame_simps wr_tr_def latch_attempts_def split: if_splits)
qed (simp add: latch_attempts_def)

section \<open>The writer\<close>

text \<open>
  What a write leaves: the record follows only a write that took, and nothing of
  the stream changes besides.
\<close>

lemma latch_write_locked_frame:
  assumes "latch_write_locked os lock s = (ok, s')"
  obtains t e r where "s' = s\<lparr>io_tr := t, io_errno := e,
                latch_locked_by_us := (if ok then lock else latch_locked_by_us s),
                latch_fail_reported := r\<rparr>"
proof (cases "\<not> lock \<and> \<not> latch_locked_by_us s")
  case True
  then show ?thesis
    using assms that [where t = "io_tr s'" and e = "io_errno s" and r = "latch_fail_reported s"]
    by (auto simp: latch_write_locked_def frame_simps)
next
  case False
  let ?v = "if lock then ''1'' else ''0''"
  obtain r1 s1 where w: "gfio_wr_attr os Cnc_laser_latch ?v s = (r1, s1)" by fastforce
  obtain r2 s2 where r: "latch_retry os ?v LATCH_RETRIES r1 s1 = (r2, s2)" by fastforce
  obtain t e where "s2 = s1\<lparr>io_tr := t, io_errno := e\<rparr>" using latch_retry_frame [OF r] .
  then show ?thesis
    using assms False w r that [where t = "io_tr s'" and e = e and r = "latch_fail_reported s'"]
    by (auto simp: latch_write_locked_def frame_simps split: if_splits)
qed

lemma latch_write_locked_ok:
  assumes "latch_write_locked os lock s = (ok, s')" "latch_ok s"
  shows "latch_ok s'"
proof (cases "io_hw s \<and> (lock \<or> latch_locked_by_us s)")
  case True
  define v where "v = (if lock then ''1'' else ''0'')"
  have v1: "v = ''1'' \<longleftrightarrow> lock" by (simp add: v_def)
  obtain r1 s1 where w: "gfio_wr_attr os Cnc_laser_latch v s = (r1, s1)" by fastforce
  obtain r2 s2 where r: "latch_retry os v LATCH_RETRIES r1 s1 = (r2, s2)" by fastforce
  have s1: "io_hw s1" "io_tr s1 = Ev_wr Cnc_laser_latch v r1 # io_tr s"
    "latch_locked_by_us s1 = latch_locked_by_us s"
    using w True by (auto simp: frame_simps wr_tr_latch)
  have pre: "latch_view (io_tr s) = latch_locked_by_us s" "unlocks_own (io_tr s)"
    using assms(2) True by (simp_all add: latch_ok_def)
  have own: "unlocks_own (io_tr s1)" using s1 pre True v1 by auto
  have v2: "unlocks_own (io_tr s2) \<and>
            latch_view (io_tr s2) = (if r2 = 0 then lock else latch_locked_by_us s)"
  proof (cases "r1 = 0")
    case True
    then show ?thesis using r s1 own v1 by auto
  next
    case False
    then show ?thesis using latch_retry_view [OF r s1(1) False own] s1(2) pre True v1 by auto
  qed
  obtain t e where s2: "s2 = s1\<lparr>io_tr := t, io_errno := e\<rparr>" using latch_retry_frame [OF r] .
  then show ?thesis
    using assms(1) True w r v2 s1(3)
    by (auto simp: latch_write_locked_def latch_ok_def frame_simps v_def split: if_splits)
next
  case False
  then consider "\<not> io_hw s" | "io_hw s" "\<not> lock" "\<not> latch_locked_by_us s" by blast
  then show ?thesis
  proof cases
    case 1
    then show ?thesis by (auto simp: latch_ok_def intro: latch_write_locked_frame [OF assms(1)])
  next
    case 2
    then show ?thesis using assms
      by (auto simp: latch_write_locked_def latch_ok_def frame_simps split: if_splits)
  qed
qed

lemma latch_write_locked_attempts:
  "latch_attempts (io_tr (snd (latch_write_locked os lock s))) \<le>
     latch_attempts (io_tr s) + (1 + LATCH_RETRIES)"
proof (cases "\<not> lock \<and> \<not> latch_locked_by_us s")
  case True
  then show ?thesis by (simp add: latch_write_locked_def frame_simps latch_attempts_def)
next
  case False
  let ?v = "if lock then ''1'' else ''0''"
  obtain r1 s1 where w: "gfio_wr_attr os Cnc_laser_latch ?v s = (r1, s1)" by fastforce
  obtain r2 s2 where r: "latch_retry os ?v LATCH_RETRIES r1 s1 = (r2, s2)" by fastforce
  have "latch_attempts (io_tr s1) \<le> latch_attempts (io_tr s) + 1"
    using w by (auto simp: frame_simps wr_tr_def latch_attempts_def)
  then show ?thesis
    using False w r latch_retry_attempts [OF r]
    by (auto simp: latch_write_locked_def frame_simps latch_attempts_def)
qed

lemma latch_fault_ok: "latch_ok (latch_fault s) = latch_ok s"
  by (simp add: latch_fault_def latch_ok_def)

lemma gf_stream_laser_latch_ok:
  assumes "latch_ok s"
  shows "latch_ok (snd (gf_stream_laser_latch os lock s))"
  using assms latch_write_locked_ok
  by (auto simp: gf_stream_laser_latch_def latch_fault_ok split: prod.splits)

section \<open>The contract of the writer\<close>

text \<open>
  What a client of the latch knows: a write that reports success leaves the record
  the way it was asked, a write that reports failure leaves it as it was, and a
  lock that failed has faulted the stream.
\<close>

locale latch_writer =
  fixes wr :: "bool \<Rightarrow> 's \<Rightarrow> bool \<times> 's" and locked :: "'s \<Rightarrow> bool" and faulted :: "'s \<Rightarrow> bool"
  assumes took: "wr b s = (True, s') \<Longrightarrow> locked s' = b"
    and kept: "wr b s = (False, s') \<Longrightarrow> locked s' = locked s"
    and lock_failed: "wr True s = (False, s') \<Longrightarrow> faulted s'"
begin

text \<open>After a lock the latch is recorded locked, or the fault is up.\<close>

lemma lock_or_fault: "locked (snd (wr True s)) \<or> faulted (snd (wr True s))"
  by (cases "wr True s"; cases "fst (wr True s)") (auto dest: took lock_failed)

text \<open>An unlocked record after a write is an unlock that succeeded, or was so before.\<close>

lemma unlocked_after:
  assumes "\<not> locked (snd (wr b s))"
  shows "fst (wr b s) \<and> \<not> b \<or> \<not> locked s"
  using assms by (cases "wr b s"; cases "fst (wr b s)") (auto dest: took kept)

end

lemma latch_fault_frame:
  "latch_locked_by_us (latch_fault s) = latch_locked_by_us s" "latch_fail_reported (latch_fault s)"
  by (simp_all add: latch_fault_def)

lemma gf_stream_laser_latch_frame:
  assumes "gf_stream_laser_latch os lock s = (ok, s')"
  obtains t e r f g where "s' = s\<lparr>io_tr := t, io_errno := e,
      latch_locked_by_us := (if ok then lock else latch_locked_by_us s),
      latch_fail_reported := r, failed := f, fault_flag := g\<rparr>"
    "ok \<or> \<not> lock \<Longrightarrow> f = failed s \<and> g = fault_flag s"
    "f \<longrightarrow> failed s \<or> (\<not> ok \<and> lock)" "g \<longrightarrow> fault_flag s \<or> (\<not> ok \<and> lock)"
proof -
  obtain s1 where w: "latch_write_locked os lock s = (ok, s1)"
    using assms by (auto simp: gf_stream_laser_latch_def split: prod.splits)
  obtain t e r where s1: "s1 = s\<lparr>io_tr := t, io_errno := e,
      latch_locked_by_us := (if ok then lock else latch_locked_by_us s), latch_fail_reported := r\<rparr>"
    using latch_write_locked_frame [OF w] .
  show ?thesis
    using assms w s1 that [where t = t and e = e and r = "latch_fail_reported s'" and f = "failed s'"
                  and g = "fault_flag s'"]
    by (auto simp: gf_stream_laser_latch_def latch_fault_def split: if_splits)
qed

interpretation gf_latch: latch_writer "gf_stream_laser_latch os" latch_locked_by_us
    latch_fail_reported
proof
  fix b s s'
  assume "gf_stream_laser_latch os b s = (True, s')"
  then show "latch_locked_by_us s' = b" by (auto elim: gf_stream_laser_latch_frame)
next
  fix b s s'
  assume "gf_stream_laser_latch os b s = (False, s')"
  then show "latch_locked_by_us s' = latch_locked_by_us s"
    by (auto elim: gf_stream_laser_latch_frame)
next
  fix s s'
  assume "gf_stream_laser_latch os True s = (False, s')"
  then show "latch_fail_reported s'"
    by (auto simp: gf_stream_laser_latch_def latch_fault_frame split: prod.splits)
qed

end
