(* ===== verification/Stream_Dither.thy ===== *)
theory Stream_Dither
  imports Stream_Latch
begin

text \<open>
  The density dose model of stepper_stream.c: \<open>dither_reset\<close>, \<open>dither_tick\<close>,
  \<open>ref_ticks_to_stream\<close> and \<open>gf_stream_laser_model\<close>, on the 32-bit fields of the
  stream. The lemmas relate the word arithmetic to the natural numbers (nothing
  wraps while the fields are in the ranges the model setter leaves), and show that
  the debt is conserved: over whole periods the fired ticks are the commanded
  density, to within the shortest pulse.
\<close>

definition dither_reset :: "'a gf_scheme \<Rightarrow> 'a gf_scheme" where
  "dither_reset s = s\<lparr>dith_left := 0, dith_on := 0, dith_acc := 0\<rparr>"

definition dither_tick :: "'a gf_scheme \<Rightarrow> bool \<times> 'a gf_scheme" where
  "dither_tick s =
     (let s = (if dith_left s = 0 then
                 (let want = ucast (cur_power s) * dith_period s + dith_acc s;
                      on = want div GF_PWM_PERIOD
                  in if on < dith_min s
                     then s\<lparr>dith_on := 0, dith_acc := want, dith_left := dith_period s\<rparr>
                     else (let on = (if on > dith_period s then dith_period s else on)
                           in s\<lparr>dith_on := on, dith_acc := want - on * GF_PWM_PERIOD,
                                dith_left := dith_period s\<rparr>))
               else s);
          s = s\<lparr>dith_left := dith_left s - 1\<rparr>
      in if dith_on s \<noteq> 0 then (True, s\<lparr>dith_on := dith_on s - 1\<rparr>) else (False, s))"

definition ref_ticks_to_stream :: "nat \<Rightarrow> u32 \<Rightarrow> u32" where
  "ref_ticks_to_stream stream_rate ref_ticks =
     (let t = (unat ref_ticks * stream_rate + GF_TICK_X8_HZ div 2) div GF_TICK_X8_HZ
      in if t < 1 then 1 else of_nat t)"

definition gf_stream_laser_model :: "u32 \<Rightarrow> u32 \<Rightarrow> 'a gf_scheme \<Rightarrow> 'a gf_scheme" where
  "gf_stream_laser_model period_ticks min_ticks s =
     (let period_ticks = (if period_ticks > DITH_PERIOD_MAX then DITH_PERIOD_MAX else period_ticks);
          period_ticks = (if period_ticks \<noteq> 0 then ref_ticks_to_stream (gf_rate s) period_ticks
                          else period_ticks);
          min_ticks = (if min_ticks < 1 then 1 else min_ticks);
          min_ticks = (if period_ticks \<noteq> 0 then ref_ticks_to_stream (gf_rate s) min_ticks
                       else min_ticks);
          min_ticks = (if min_ticks > period_ticks then period_ticks else min_ticks);
          s = (if (dith_period s \<noteq> 0) \<noteq> (period_ticks \<noteq> 0) then s\<lparr>cur_power := 0\<rparr> else s)
      in dither_reset (s\<lparr>dith_period := period_ticks, dith_min := min_ticks\<rparr>))"

section \<open>The ranges of the dither fields\<close>

text \<open>A period is at most 1024 reference ticks, 6001 stream ticks at the highest rate.\<close>

definition dith_model_ok :: "'a gf_scheme \<Rightarrow> bool" where
  "dith_model_ok s \<longleftrightarrow> dith_period s \<noteq> 0 \<longrightarrow>
     1 \<le> unat (dith_min s) \<and> dith_min s \<le> dith_period s \<and> unat (dith_period s) \<le> 6001"

definition dith_ok :: "'a gf_scheme \<Rightarrow> bool" where
  "dith_ok s \<longleftrightarrow> unat (cur_power s) \<le> 127 \<and> dith_model_ok s \<and>
     (dith_period s \<noteq> 0 \<longrightarrow>
        unat (dith_acc s) < 127 * unat (dith_min s) \<and>
        dith_on s \<le> dith_left s \<and> dith_left s \<le> dith_period s)"

lemma ref_ticks_unat:
  assumes "stream_rate \<le> 165000" "unat r \<le> 100000"
  shows "unat (ref_ticks_to_stream stream_rate r) =
           max 1 ((unat r * stream_rate + 14080) div 28160)"
proof -
  define t where "t = (unat r * stream_rate + 14080) div 28160"
  have "unat r * stream_rate \<le> 100000 * 165000" using assms by (intro mult_le_mono)
  then have "(unat r * stream_rate + 14080) div 28160 \<le> (100000 * 165000 + 14080) div 28160"
    by (intro div_le_mono) simp
  then have t: "t \<le> 585938" unfolding t_def by simp
  have eq: "ref_ticks_to_stream stream_rate r = (if t < 1 then 1 else of_nat t)"
    by (simp add: ref_ticks_to_stream_def t_def GF_TICK_X8_HZ_def)
  have "unat (of_nat t :: u32) = t" using t by (simp add: unat_of_nat)
  then show ?thesis using eq t_def by auto
qed

lemma ref_ticks_bound:
  assumes "stream_rate \<le> 165000" "unat r \<le> 1024"
  shows "unat (ref_ticks_to_stream stream_rate r) \<le> 6001"
proof -
  have "unat r * stream_rate \<le> 1024 * 165000" using assms by (intro mult_le_mono)
  then have "(unat r * stream_rate + 14080) div 28160 \<le> (1024 * 165000 + 14080) div 28160"
    by (intro div_le_mono) simp
  then show ?thesis using assms by (simp add: ref_ticks_unat)
qed

lemma dither_reset_ok: "dith_ok s \<Longrightarrow> dith_ok (dither_reset s)"
  by (auto simp: dith_ok_def dith_model_ok_def dither_reset_def)

text \<open>What the setter leaves is in range, at every rate the stream accepts.\<close>

lemma gf_stream_laser_model_ok:
  assumes r: "gf_rate s \<le> 165000" and p: "unat (cur_power s) \<le> 127" and m: "unat mt \<le> 100000"
  shows "dith_ok (gf_stream_laser_model pt mt s)"
proof -
  define pt' where "pt' = (if pt > DITH_PERIOD_MAX then DITH_PERIOD_MAX else pt)"
  define mt' where "mt' = (if mt < 1 then 1 else mt)"
  have pt: "unat pt' \<le> 1024"
    by (auto simp: pt'_def DITH_PERIOD_MAX_def word_less_nat_alt)
  have "unat (1 :: u32) = 1" by simp
  then have mt: "unat mt' \<le> 100000" using m unfolding mt'_def by (simp split: if_splits)
  define P where "P = (if pt' \<noteq> 0 then ref_ticks_to_stream (gf_rate s) pt' else pt')"
  define M where "M = (if P \<noteq> 0 then ref_ticks_to_stream (gf_rate s) mt' else mt')"
  have P: "unat P \<le> 6001" using ref_ticks_bound [OF r pt] pt by (simp add: P_def)
  have M: "P \<noteq> 0 \<Longrightarrow> 1 \<le> unat M" using ref_ticks_unat [OF r mt] by (simp add: M_def)
  define s1 where "s1 = (if (dith_period s \<noteq> 0) \<noteq> (P \<noteq> 0) then s\<lparr>cur_power := 0\<rparr> else s)"
  have s1: "unat (cur_power s1) \<le> 127" using p by (simp add: s1_def)
  have eq: "gf_stream_laser_model pt mt s =
      dither_reset (s1\<lparr>dith_period := P, dith_min := (if M > P then P else M)\<rparr>)"
    by (simp add: gf_stream_laser_model_def Let_def pt'_def mt'_def P_def M_def s1_def)
  have P0: "P \<noteq> 0 \<Longrightarrow> 1 \<le> unat P" by (simp add: Suc_le_eq unat_gt_0)
  show ?thesis
    unfolding eq dith_ok_def dith_model_ok_def dither_reset_def
    using P M P0 s1 by (auto simp: word_less_nat_alt word_le_nat_alt)
qed

section \<open>One tick, in natural numbers\<close>

text \<open>The on-count a new period starts with, and the debt it leaves.\<close>

definition period_on :: "nat \<Rightarrow> nat \<Rightarrow> nat \<Rightarrow> nat \<Rightarrow> nat" where
  "period_on p period m acc =
     (let on = (p * period + acc) div 127 in if on < m then 0 else min on period)"

definition period_acc :: "nat \<Rightarrow> nat \<Rightarrow> nat \<Rightarrow> nat \<Rightarrow> nat" where
  "period_acc p period m acc = p * period + acc - 127 * period_on p period m acc"

lemma period_on_le: "period_on p period m acc \<le> period"
  by (simp add: period_on_def Let_def)

lemma period_on_burst: "period_on p period m acc = 0 \<or> m \<le> period_on p period m acc" if "m \<le> period"
  using that by (auto simp: period_on_def Let_def)

lemma period_conserve:
  "127 * period_on p period m acc + period_acc p period m acc = p * period + acc"
proof -
  have "127 * ((p * period + acc) div 127) \<le> p * period + acc" by simp
  then have "127 * period_on p period m acc \<le> p * period + acc"
    by (auto simp: period_on_def Let_def min_def)
  then show ?thesis by (simp add: period_acc_def)
qed

lemma period_acc_bound:
  assumes "p \<le> 127" "1 \<le> m" "acc < 127 * m"
  shows "period_acc p period m acc < 127 * m"
proof -
  let ?on = "(p * period + acc) div 127"
  consider "?on < m" | "m \<le> ?on" "?on \<le> period" | "m \<le> ?on" "period < ?on" by linarith
  then show ?thesis
  proof cases
    case 1
    then have "p * period + acc < 127 * m" by (simp add: div_less_iff_less_mult mult.commute)
    with 1 show ?thesis by (simp add: period_acc_def period_on_def)
  next
    case 2
    then have "period_acc p period m acc = (p * period + acc) mod 127"
      by (simp add: period_acc_def period_on_def minus_mult_div_eq_mod)
    moreover have "(p * period + acc) mod 127 < 127" by simp
    ultimately show ?thesis using assms(2) by linarith
  next
    case 3
    have "p * period \<le> 127 * period" using assms(1) by (rule mult_le_mono1)
    then have "p * period + acc - 127 * period \<le> acc" by linarith
    moreover have "period_on p period m acc = period" using 3 by (simp add: period_on_def)
    ultimately show ?thesis using assms(3) unfolding period_acc_def by linarith
  qed
qed

lemma want_unat:
  assumes "dith_ok s" "dith_period s \<noteq> 0"
  shows "unat (ucast (cur_power s) * dith_period s + dith_acc s) =
           unat (cur_power s) * unat (dith_period s) + unat (dith_acc s)"
    and "unat (cur_power s) * unat (dith_period s) + unat (dith_acc s) < 2000000"
proof -
  have p: "unat (cur_power s) \<le> 127" and P: "unat (dith_period s) \<le> 6001"
    and m: "unat (dith_min s) \<le> unat (dith_period s)" and a: "unat (dith_acc s) < 127 * unat (dith_min s)"
    using assms by (auto simp: dith_ok_def dith_model_ok_def word_le_nat_alt)
  have "unat (cur_power s) * unat (dith_period s) \<le> 127 * 6001" using p P by (intro mult_le_mono)
  with m P a show b: "unat (cur_power s) * unat (dith_period s) + unat (dith_acc s) < 2000000"
    by linarith
  have "unat (ucast (cur_power s) :: u32) = unat (cur_power s)"
    using p by (simp add: unsigned_ucast_eq take_bit_nat_eq_self_iff)
  with b show "unat (ucast (cur_power s) * dith_period s + dith_acc s) =
           unat (cur_power s) * unat (dith_period s) + unat (dith_acc s)"
    by (simp add: unat_word_ariths)
qed

text \<open>The first tick of a period, and a later one.\<close>

lemma dither_tick_start:
  assumes ok: "dith_ok s" and P: "dith_period s \<noteq> 0" and l: "dith_left s = 0"
  defines "on \<equiv> period_on (unat (cur_power s)) (unat (dith_period s)) (unat (dith_min s)) (unat (dith_acc s))"
    and "acc \<equiv> period_acc (unat (cur_power s)) (unat (dith_period s)) (unat (dith_min s)) (unat (dith_acc s))"
  shows "dither_tick s = (0 < on, s\<lparr>dith_on := of_nat (on - 1), dith_acc := of_nat acc,
                                   dith_left := dith_period s - 1\<rparr>)"
proof -
  define want where "want = ucast (cur_power s) * dith_period s + dith_acc s"
  define q where "q = want div GF_PWM_PERIOD"
  have w: "unat want = unat (cur_power s) * unat (dith_period s) + unat (dith_acc s)"
    and wb: "unat want < 2000000"
    using want_unat [OF ok P] by (simp_all add: want_def)
  have q: "unat q = unat want div 127" by (simp add: q_def GF_PWM_PERIOD_def unat_div)
  have on_w: "on = (if unat q < unat (dith_min s) then 0 else min (unat q) (unat (dith_period s)))"
    by (simp add: on_def period_on_def q w)
  have acc_w: "acc = unat want - 127 * on" by (simp add: acc_def period_acc_def on_def w)
  have on_q: "127 * on \<le> unat want" unfolding on_w q by (auto simp: min_def)
  have dm: "dith_min s \<noteq> 0" using ok P by (auto simp: dith_ok_def dith_model_ok_def)
  define c where "c = (if q > dith_period s then dith_period s else q)"
  have c: "unat c = min (unat q) (unat (dith_period s))"
    by (auto simp: c_def word_less_nat_alt min_def)
  have sub: "want - c * 127 = of_nat (unat want - 127 * unat c)" if "127 * unat c \<le> unat want"
    using that by (simp add: of_nat_diff mult.commute)
  show ?thesis
  proof (cases "q < dith_min s")
    case True
    then have "on = 0" using on_w by (simp add: word_less_nat_alt)
    then show ?thesis using True l acc_w
      by (simp add: dither_tick_def Let_def flip: want_def q_def)
  next
    case False
    then have onc: "on = unat c" "0 < on" using on_w c dm P ok
      by (auto simp: word_less_nat_alt unat_gt_0 dith_ok_def dith_model_ok_def)
    have "c - 1 = of_nat (unat c - 1)"
      using onc by (simp add: of_nat_diff)
    moreover have "c \<noteq> 0" using onc by auto
    moreover have "want - c * GF_PWM_PERIOD = of_nat acc"
      using sub on_q onc acc_w by (simp add: GF_PWM_PERIOD_def)
    ultimately show ?thesis using False l onc
      by (cases "dith_period s < q")
         (simp_all add: dither_tick_def Let_def c_def flip: want_def q_def)
  qed
qed

lemma dither_tick_later:
  assumes "dith_left s \<noteq> 0"
  shows "dither_tick s = (dith_on s \<noteq> 0, s\<lparr>dith_left := dith_left s - 1,
           dith_on := (if dith_on s \<noteq> 0 then dith_on s - 1 else 0)\<rparr>)"
  using assms by (simp add: dither_tick_def Let_def)

lemma dither_tick_frame:
  "\<exists>l on a. snd (dither_tick s) = s\<lparr>dith_left := l, dith_on := on, dith_acc := a\<rparr>"
  by (rule exI [of _ "dith_left (snd (dither_tick s))"],
      rule exI [of _ "dith_on (snd (dither_tick s))"],
      rule exI [of _ "dith_acc (snd (dither_tick s))"]) (simp add: dither_tick_def Let_def)

lemma dither_tick_ok:
  assumes "dith_ok s" "dith_period s \<noteq> 0"
  shows "dith_ok (snd (dither_tick s))"
proof (cases "dith_left s = 0")
  case True
  let ?p = "unat (cur_power s)" and ?P = "unat (dith_period s)" and ?m = "unat (dith_min s)"
    and ?a = "unat (dith_acc s)"
  have b: "?p \<le> 127" "1 \<le> ?m" "?m \<le> ?P" "?P \<le> 6001" "?a < 127 * ?m"
    using assms by (auto simp: dith_ok_def dith_model_ok_def word_le_nat_alt)
  have acc: "period_acc ?p ?P ?m ?a < 127 * ?m" using period_acc_bound b by blast
  have on: "period_on ?p ?P ?m ?a \<le> ?P" by (rule period_on_le)
  have u: "unat (of_nat (period_acc ?p ?P ?m ?a) :: u32) = period_acc ?p ?P ?m ?a"
    "unat (of_nat (period_on ?p ?P ?m ?a - 1) :: u32) = period_on ?p ?P ?m ?a - 1"
    using acc on b by (simp_all add: unat_of_nat)
  have P1: "unat (dith_period s - 1) = ?P - 1"
    using assms(2) by (simp add: unat_minus_one)
  show ?thesis
    unfolding dither_tick_start [OF assms True]
    using assms b acc on u P1
    by (auto simp: dith_ok_def dith_model_ok_def word_le_nat_alt)
next
  case False
  then show ?thesis
    using assms unfolding dither_tick_later [OF False]
    by (auto simp: dith_ok_def dith_model_ok_def word_le_nat_alt unat_minus_one)
qed

section \<open>Runs of ticks\<close>

fun dither_run :: "nat \<Rightarrow> 'a gf_scheme \<Rightarrow> bool list \<times> 'a gf_scheme" where
  "dither_run 0 s = ([], s)"
| "dither_run (Suc n) s = (let (f, s) = dither_tick s; (fs, s) = dither_run n s in (f # fs, s))"

lemma dither_run_add:
  "dither_run (m + n) s =
     (fst (dither_run m s) @ fst (dither_run n (snd (dither_run m s))),
      snd (dither_run n (snd (dither_run m s))))"
  by (induction m arbitrary: s) (auto simp: Let_def split: prod.splits)

text \<open>The rest of a period: the on-ticks left come first, then the dark ones.\<close>

lemma dither_run_rest:
  assumes "n = unat (dith_left s)" "dith_on s \<le> dith_left s"
  shows "dither_run n s =
     (replicate (unat (dith_on s)) True @ replicate (n - unat (dith_on s)) False,
      s\<lparr>dith_left := 0, dith_on := 0\<rparr>)"
  using assms
proof (induction n arbitrary: s)
  case 0
  then show ?case by (simp add: unat_eq_zero)
next
  case (Suc n)
  have l: "dith_left s \<noteq> 0" using Suc.prems(1) by auto
  let ?t = "snd (dither_tick s)"
  have t: "?t = s\<lparr>dith_left := dith_left s - 1,
                   dith_on := (if dith_on s \<noteq> 0 then dith_on s - 1 else 0)\<rparr>"
    by (simp add: dither_tick_later [OF l])
  have n: "n = unat (dith_left ?t)" using Suc.prems(1) l by (simp add: t unat_minus_one)
  have le: "dith_on ?t \<le> dith_left ?t"
    using Suc.prems l by (auto simp: t word_le_nat_alt unat_minus_one)
  show ?case
  proof (cases "dith_on s = 0")
    case True
    then show ?thesis using Suc.IH [OF n le] t l by (auto simp: dither_tick_later Let_def)
  next
    case False
    then obtain k where "unat (dith_on s) = Suc k" by (metis not0_implies_Suc unat_eq_zero)
    with False show ?thesis using Suc.IH [OF n le] t l
      by (auto simp: dither_tick_later Let_def unat_minus_one)
  qed
qed

text \<open>
  A whole period: one burst of the on-count, then dark, with the debt carried.
\<close>

lemma dither_run_period:
  assumes ok: "dith_ok s" and P: "dith_period s \<noteq> 0" and l: "dith_left s = 0"
  defines "on \<equiv> period_on (unat (cur_power s)) (unat (dith_period s)) (unat (dith_min s)) (unat (dith_acc s))"
    and "acc \<equiv> period_acc (unat (cur_power s)) (unat (dith_period s)) (unat (dith_min s)) (unat (dith_acc s))"
  shows "dither_run (unat (dith_period s)) s =
     (replicate on True @ replicate (unat (dith_period s) - on) False,
      s\<lparr>dith_left := 0, dith_on := 0, dith_acc := of_nat acc\<rparr>)"
proof -
  let ?P = "unat (dith_period s)"
  obtain n where n: "?P = Suc n" using P by (metis not0_implies_Suc unat_eq_zero)
  have onP: "on \<le> ?P" unfolding on_def by (rule period_on_le)
  have P1: "unat (dith_period s - 1) = n" using P n by (simp add: unat_minus_one)
  have P6: "?P \<le> 6001" using ok P by (simp add: dith_ok_def dith_model_ok_def)
  define u where "u = s\<lparr>dith_on := of_nat (on - 1), dith_acc := of_nat acc,
                          dith_left := dith_period s - 1\<rparr>"
  have t: "dither_tick s = (0 < on, u)"
    unfolding u_def on_def acc_def by (rule dither_tick_start [OF ok P l])
  have "unat (of_nat (on - 1) :: u32) = on - 1" using onP P6 by (simp add: unat_of_nat)
  moreover have "dith_on u \<le> dith_left u"
    using calculation onP P1 n by (simp add: u_def word_le_nat_alt)
  ultimately have r: "dither_run n u =
      (replicate (on - 1) True @ replicate (n - (on - 1)) False, u\<lparr>dith_left := 0, dith_on := 0\<rparr>)"
    using dither_run_rest [of n u] P1 by (simp add: u_def)
  show ?thesis
  proof (cases on)
    case 0
    then show ?thesis using n t r by (simp add: u_def)
  next
    case (Suc k)
    then show ?thesis using n t r by (simp add: u_def)
  qed
qed

text \<open>
  Over \<open>k\<close> whole periods at one level the fired ticks and the carried debt add up to
  the commanded density exactly.
\<close>

lemma dither_run_periods:
  assumes "dith_ok s" "dith_period s \<noteq> 0" "dith_left s = 0"
    and "dither_run (k * unat (dith_period s)) s = (fs, s')"
  shows "127 * count_list fs True + unat (dith_acc s') =
           k * unat (cur_power s) * unat (dith_period s) + unat (dith_acc s)
         \<and> dith_ok s' \<and> dith_left s' = 0
         \<and> dith_period s' = dith_period s \<and> dith_min s' = dith_min s"
  using assms
proof (induction k arbitrary: s fs)
  case 0
  then show ?case by simp
next
  case (Suc k)
  let ?p = "unat (cur_power s)" and ?P = "unat (dith_period s)" and ?m = "unat (dith_min s)"
    and ?a = "unat (dith_acc s)"
  define u where "u = s\<lparr>dith_left := 0, dith_on := 0, dith_acc := of_nat (period_acc ?p ?P ?m ?a)\<rparr>"
  have b: "?p \<le> 127" "1 \<le> ?m" "?m \<le> ?P" "?P \<le> 6001" "?a < 127 * ?m"
    using Suc.prems by (auto simp: dith_ok_def dith_model_ok_def word_le_nat_alt)
  have "period_acc ?p ?P ?m ?a < 127 * ?m" using period_acc_bound b by blast
  then have acc: "unat (dith_acc u) = period_acc ?p ?P ?m ?a" "unat (dith_acc u) < 127 * ?m"
    using b by (simp_all add: u_def unat_of_nat)
  have u: "dith_ok u" "dith_period u \<noteq> 0" "dith_left u = 0"
    using Suc.prems acc by (auto simp: dith_ok_def dith_model_ok_def u_def)
  have first: "dither_run ?P s =
      (replicate (period_on ?p ?P ?m ?a) True @ replicate (?P - period_on ?p ?P ?m ?a) False, u)"
    unfolding u_def by (rule dither_run_period [OF Suc.prems(1-3)])
  obtain gs t where g: "dither_run (k * unat (dith_period u)) u = (gs, t)" by fastforce
  then have "dither_run (k * ?P) u = (gs, t)" by (simp add: u_def)
  then have gs: "dither_run (k * unat (dith_period u)) u = (gs, s')"
    "fs = replicate (period_on ?p ?P ?m ?a) True @ replicate (?P - period_on ?p ?P ?m ?a) False @ gs"
    using Suc.prems(4) first g by (auto simp: dither_run_add)
  have cnt: "count_list (replicate n x) y = (if x = y then n else 0)" for n and x y :: bool
    by (induction n) auto
  have "127 * count_list gs True + unat (dith_acc s') =
          k * ?p * ?P + period_acc ?p ?P ?m ?a"
    and rest: "dith_ok s'" "dith_left s' = 0" "dith_period s' = dith_period s" "dith_min s' = dith_min s"
    using Suc.IH [OF u gs(1)] acc(1) by (simp_all add: u_def)
  then show ?case
    using period_conserve [of ?p ?P ?m ?a] gs(2) by (simp add: cnt algebra_simps)
qed

end
