(* ===== verification/Stream_Producer.thy ===== *)
theory Stream_Producer
  imports Stream_Dither
begin

text \<open>
  The producer side of stepper_stream.c: the stepper entry points that the core
  calls under its lock (\<open>gf_stream_pulse\<close>, \<open>gf_stream_laser\<close>, \<open>gf_stream_jog\<close>,
  \<open>gf_stream_wakeup\<close>, \<open>gf_stream_go_idle\<close>) and the producer thread's virtual timer
  fire. The core's interrupt callback is an argument: it is code of the core.
\<close>

definition gf_stream_vclk :: "'a gf_scheme \<Rightarrow> u32" where
  "gf_stream_vclk s = of_nat (gf_rate s * VTICKS_PER_BYTE)"

definition gf_stream_rate :: "'a gf_scheme \<Rightarrow> u32" where
  "gf_stream_rate s = of_nat (gf_rate s)"

definition gf_stream_cycles_per_tick :: "u32 \<Rightarrow> 'a gf_scheme \<Rightarrow> 'a gf_scheme" where
  "gf_stream_cycles_per_tick cycles s =
     s\<lparr>period_latched := (if cycles = 0 then 1 else cycles)\<rparr>"

text \<open>Result True: the caller drops the event.\<close>

definition clamp_locked :: "os \<Rightarrow> 'a gf_scheme \<Rightarrow> bool \<times> 'a gf_scheme" where
  "clamp_locked os s =
     (let s = s\<lparr>clamped := clamped s + 1\<rparr> in
      if \<not> laser_armed s then (False, s)
      else (True, if failed s then s
                  else (let s = s\<lparr>failed := True, fault_flag := True\<rparr>
                        in if gf_active s then wr_attr os Cnc_stop ''1'' s else s)))"

text \<open>The stream index of the current virtual time.\<close>

definition event_idx :: "'a gf_scheme \<Rightarrow> nat" where
  "event_idx s = gf_base s + vticks s div VTICKS_PER_BYTE"

text \<open>The tail of \<open>gf_stream_pulse\<close>: place the byte, or fault on a ring overflow.\<close>

definition pulse_place :: "u8 \<Rightarrow> nat \<Rightarrow> 'a gf_scheme \<Rightarrow> 'a gf_scheme" where
  "pulse_place b idx s =
     (let idx = (if idx < produced s then produced s else idx) in
      if idx - shipped s \<ge> RING_SIZE - 1 then s\<lparr>failed := True, fault_flag := True\<rparr>
      else s\<lparr>gf_ring := (gf_ring s)(ring_slot idx := b), produced := idx + 1\<rparr>)"

definition gf_stream_pulse :: "os \<Rightarrow> u8 \<Rightarrow> u8 \<Rightarrow> 'a gf_scheme \<Rightarrow> 'a gf_scheme" where
  "gf_stream_pulse os step_bits dir_bits s =
     (if failed s then s
      else let b = pulse_byte step_bits dir_bits in
        if b = 0 then s
        else if \<not> streaming s then s
        else let idx = event_idx s;
                 margin = int idx - int (shipped s);
                 s = (if margin < min_margin s then s\<lparr>min_margin := margin\<rparr> else s)
             in if idx < shipped s then
                  (let (drop_it, s) = clamp_locked os s
                   in if drop_it then s else pulse_place b (shipped s) s)
                else pulse_place b idx s)"

text \<open>The newest queued transition and its slot.\<close>

definition newest_slot :: "'a gf_scheme \<Rightarrow> nat" where
  "newest_slot s = lev_slot (lev_tail s - 1)"

definition lev_merge :: "u8 \<Rightarrow> bool \<Rightarrow> 'a gf_scheme \<Rightarrow> 'a gf_scheme" where
  "lev_merge pw fire s =
     s\<lparr>gf_lev := (gf_lev s)(newest_slot s :=
         (gf_lev s (newest_slot s))\<lparr>ev_power := pw, ev_fire := fire\<rparr>)\<rparr>"

definition lev_push :: "nat \<Rightarrow> u8 \<Rightarrow> bool \<Rightarrow> 'a gf_scheme \<Rightarrow> 'a gf_scheme" where
  "lev_push idx pw fire s =
     s\<lparr>gf_lev := (gf_lev s)(lev_slot (lev_tail s) :=
         \<lparr>ev_idx = idx, ev_power = pw, ev_fire = fire\<rparr>),
       lev_tail := lev_tail s + 1\<rparr>"

definition laser_queue :: "nat \<Rightarrow> u8 \<Rightarrow> bool \<Rightarrow> 'a gf_scheme \<Rightarrow> 'a gf_scheme" where
  "laser_queue idx pw fire s =
     (let pending = lev_tail s - lev_head s in
      if pending > 0 \<and> ev_idx (gf_lev s (newest_slot s)) = idx then lev_merge pw fire s
      else if pending \<ge> LEV_N then (lev_merge pw fire s)\<lparr>lev_overflow_warned := True\<rparr>
      else lev_push idx pw fire s)"

definition laser_event_locked :: "os \<Rightarrow> u8 \<Rightarrow> bool \<Rightarrow> 'a gf_scheme \<Rightarrow> 'a gf_scheme" where
  "laser_event_locked os pw fire s =
     (if \<not> streaming s then s
      else let idx = event_idx s in
        if idx < shipped s then
          (let (drop_it, s) = clamp_locked os s
           in if drop_it then s else laser_queue (shipped s) pw fire s)
        else laser_queue idx pw fire s)"

definition gf_stream_laser :: "os \<Rightarrow> u8 \<Rightarrow> bool \<Rightarrow> 'a gf_scheme \<Rightarrow> 'a gf_scheme" where
  "gf_stream_laser os pw fire s =
     (if failed s then s
      else let pw = pw AND 0x7f;
               s = s\<lparr>want_power := pw, want_fire := fire\<rparr>
           in laser_event_locked os pw (fire \<and> laser_armed s \<and> \<not> jogging s) s)"

definition gf_stream_jog :: "os \<Rightarrow> bool \<Rightarrow> 'a gf_scheme \<Rightarrow> 'a gf_scheme" where
  "gf_stream_jog os jog s =
     (if failed s then s
      else let s = s\<lparr>jogging := jog\<rparr>
           in laser_event_locked os (want_power s) (want_fire s \<and> laser_armed s \<and> \<not> jog) s)"

text \<open>\<open>(uint64_t)((wall_s() - gf.ship_t0) * gf.rate) + gf.depth\<close>\<close>

definition due_index :: "rat \<Rightarrow> 'a gf_scheme \<Rightarrow> nat" where
  "due_index now s = nat \<lfloor>(now - ship_t0 s) * of_nat (gf_rate s)\<rfloor> + gf_depth s"

text \<open>The two ways a new cycle takes up the index space.\<close>

definition wake_fresh :: "'a gf_scheme \<Rightarrow> 'a gf_scheme" where
  "wake_fresh s =
     s\<lparr>shipped := 0, produced := gf_depth s, lev_head := lev_tail s, cur_fire := False\<rparr>"

definition wake_continue :: "os \<Rightarrow> 'a gf_scheme \<Rightarrow> 'a gf_scheme" where
  "wake_continue os s =
     (let (now, s) = wall_s os s; due_now = due_index now s
      in if due_now > produced s then s\<lparr>produced := due_now, cur_fire := False\<rparr> else s)"

text \<open>The re-assertion of the core's laser state at the first byte of a run.\<close>

definition wake_reassert :: "'a gf_scheme \<Rightarrow> 'a gf_scheme" where
  "wake_reassert s =
     (let wf = want_fire s \<and> laser_armed s \<and> \<not> jogging s in
      if (want_power s \<noteq> cur_power s \<or> wf \<noteq> cur_fire s) \<and> lev_tail s - lev_head s < LEV_N
      then lev_push (gf_base s) (want_power s) wf s else s)"

definition wake_locked :: "os \<Rightarrow> 'a gf_scheme \<Rightarrow> 'a gf_scheme" where
  "wake_locked os s =
     (let (now, s) = wall_s os (s\<lparr>streaming := True, vticks := 0\<rparr>);
          s = s\<lparr>wall_epoch := now, hold_pending := False\<rparr>;
          s = (if \<not> kernel_running s then wake_fresh s else wake_continue os s);
          s = wake_reassert (s\<lparr>gf_base := produced s\<rparr>)
      in if gf_active s then wr_attr os Cnc_streaming ''1'' s else s)"

definition gf_stream_wakeup :: "os \<Rightarrow> 'a gf_scheme \<Rightarrow> 'a gf_scheme" where
  "gf_stream_wakeup os s =
     (if failed s then s
      else let s = (if gf_active s then gfio_currents_run os s else s);
               s = s\<lparr>killed := False, kill_step := 0\<rparr>;
               s = (if streaming s then s else wake_locked os s)
           in s\<lparr>gf_armed := True\<rparr>)"

text \<open>The laser-off that the end of a cycle records.\<close>

definition idle_dark :: "'a gf_scheme \<Rightarrow> 'a gf_scheme" where
  "idle_dark s =
     (if cur_fire s \<or> lev_head s \<noteq> lev_tail s then
        (let idx = (if produced s > shipped s then produced s else shipped s);
             pending = lev_tail s - lev_head s;
             t = gf_lev s (newest_slot s)
         in if pending \<noteq> 0 \<and> (ev_idx t \<ge> idx \<or> pending \<ge> LEV_N)
            then lev_merge (ev_power t) False s
            else lev_push idx (if pending \<noteq> 0 then ev_power t else cur_power s) False s)
      else s)"

definition gf_stream_go_idle :: "bool \<Rightarrow> u8 \<Rightarrow> u8 \<Rightarrow> 'a gf_scheme \<Rightarrow> 'a gf_scheme" where
  "gf_stream_go_idle reset step_bits dir_bits s =
     (let s = s\<lparr>gf_armed := False\<rparr>;
          s = (if reset \<and> (streaming s \<or> \<not> suspended s) then
                 s\<lparr>kill_step := (if streaming s then pulse_byte step_bits dir_bits
                                 else if \<not> killed s then 0 else kill_step s),
                   killed := True\<rparr>
               else s)
      in if streaming s then (idle_dark s)\<lparr>streaming := False\<rparr> else s)"

text \<open>
  One virtual timer fire of the producer thread: the callback runs at the current
  virtual time, and the period it leaves latched is the interval to the next one.
  The thread holds off while virtual time leads the wall by more than the lead.
\<close>

definition producer_fire :: "('a gf_scheme \<Rightarrow> 'a gf_scheme) \<Rightarrow> 'a gf_scheme \<Rightarrow> 'a gf_scheme" where
  "producer_fire interrupt_callback s =
     (if \<not> gf_armed s then s
      else let s = interrupt_callback s in s\<lparr>vticks := vticks s + unat (period_latched s)\<rparr>)"

definition producer_ahead :: "os \<Rightarrow> 'a gf_scheme \<Rightarrow> bool \<times> 'a gf_scheme" where
  "producer_ahead os s =
     (let vtime = of_nat (vticks s) / of_nat (unat (gf_stream_vclk s));
          (now, s) = wall_s os s
      in (vtime > (now - wall_epoch s) + lead_s s, s))"

end
