(* ===== verification/Stream_Kernel.thy ===== *)
theory Stream_Kernel
  imports Stream_Producer
begin

text \<open>
  The stream's dealings with the kernel driver (stepper_stream.c): the pulse-device
  write with its back-off, the byte and step counters of \<open>cnc/position\<close>, the gate
  before a run request and the request itself.
\<close>

section \<open>The pulse-device write\<close>

definition PULSE_WRITE_BACKOFF_NS :: nat where "PULSE_WRITE_BACKOFF_NS = 2000000"
definition PULSE_WRITE_BACKOFF_MAX :: nat where "PULSE_WRITE_BACKOFF_MAX = 250"
definition PULSE_WRITE_STATE_EVERY :: nat where "PULSE_WRITE_STATE_EVERY = 10"

text \<open>
  One \<open>write(2)\<close>: the interruptions before the answer are counted in the event.
\<close>

definition dev_write :: "os \<Rightarrow> int \<Rightarrow> u8 list \<Rightarrow> 'a io_scheme \<Rightarrow> sysret \<times> 'a io_scheme" where
  "dev_write os fd buf s =
     (let (intr, ans) = os_write os (io_tr s) fd buf;
          s = emit (Ev_pulse fd buf intr ans) s
      in (ans, case ans of Ret n \<Rightarrow> s | Err e \<Rightarrow> s\<lparr>io_errno := e\<rparr>))"

text \<open>The loop from \<open>backoffs\<close> on; the result says whether the whole buffer was taken.\<close>

function pulse_write_from :: "os \<Rightarrow> int \<Rightarrow> u8 list \<Rightarrow> nat \<Rightarrow> 'a io_scheme \<Rightarrow> bool \<times> 'a io_scheme" where
  "pulse_write_from os fd buf backoffs s =
     (if buf = [] then (True, s)
      else (let (ans, s) = dev_write os fd buf s in
        case ans of
          Ret n \<Rightarrow> if n > 0 then pulse_write_from os fd (drop n buf) backoffs s
                   else (False, s\<lparr>io_errno := EIO\<rparr>)
        | Err e \<Rightarrow>
            if (e = ENOMEM \<or> e = EAGAIN) \<and> backoffs + 1 \<le> PULSE_WRITE_BACKOFF_MAX then
              (if (backoffs + 1) mod PULSE_WRITE_STATE_EVERY = 0 then
                 (let (st, s) = gfio_rd_attr os Cnc_state 16 s in
                  if st = Some ''fault'' \<or> st = Some ''underrun'' then (False, s\<lparr>io_errno := EIO\<rparr>)
                  else pulse_write_from os fd buf (backoffs + 1) (sleep_ns PULSE_WRITE_BACKOFF_NS s))
               else pulse_write_from os fd buf (backoffs + 1) (sleep_ns PULSE_WRITE_BACKOFF_NS s))
            else (False, s)))"
  by pat_completeness auto
termination
  by (relation "measure (\<lambda>(os, fd, buf, k, s). length buf + (PULSE_WRITE_BACKOFF_MAX - k))") auto

declare pulse_write_from.simps [simp del]

definition pulse_write :: "os \<Rightarrow> int \<Rightarrow> u8 list \<Rightarrow> 'a io_scheme \<Rightarrow> bool \<times> 'a io_scheme" where
  "pulse_write os fd buf s = pulse_write_from os fd buf 0 s"

text \<open>The null sink takes everything, and stalls once for a harness.\<close>

definition sink_write ::
    "os \<Rightarrow> bool \<Rightarrow> int \<Rightarrow> u8 list \<Rightarrow> rat \<Rightarrow> 'a gf_scheme \<Rightarrow> bool \<times> 'a gf_scheme" where
  "sink_write os active fd buf run_s s =
     (if active then pulse_write os fd buf s
      else if write_stall_ms s \<noteq> 0 \<and> \<not> write_stalled s \<and> run_s > 1 / 2
      then (True, sleep_ns (unat (write_stall_ms s) * 1000000) (s\<lparr>write_stalled := True\<rparr>))
      else (True, s))"

section \<open>State and counters of the kernel\<close>

definition gf_stream_kernel_idle :: "os \<Rightarrow> 'a gf_scheme \<Rightarrow> bool \<times> 'a gf_scheme" where
  "gf_stream_kernel_idle os s =
     (if \<not> gf_active s then (True, s)
      else (let (st, s) = gfio_rd_attr os Cnc_state 16 s in (st = Some ''idle'', s)))"

text \<open>Bytes 12 to 19 of the record: processed and taken.\<close>

definition kernel_counts :: "os \<Rightarrow> 'a io_scheme \<Rightarrow> (u32 \<times> u32) option \<times> 'a io_scheme" where
  "kernel_counts os s =
     (let (r, s) = gfio_rd_bin os Cnc_position 32 s in
      case r of None \<Rightarrow> (None, s)
      | Some pos \<Rightarrow>
          if length pos < 20 then (None, s)
          else (Some (le32 (pos ! 12) (pos ! 13) (pos ! 14) (pos ! 15),
                      le32 (pos ! 16) (pos ! 17) (pos ! 18) (pos ! 19)), s))"

text \<open>Bytes 0 to 11: the three step counters.\<close>

definition kernel_steps :: "os \<Rightarrow> 'a io_scheme \<Rightarrow> steps3 option \<times> 'a io_scheme" where
  "kernel_steps os s =
     (let (r, s) = gfio_rd_bin os Cnc_position 32 s in
      case r of None \<Rightarrow> (None, s)
      | Some pos \<Rightarrow>
          if length pos < 12 then (None, s)
          else (Some (S3 (le32 (pos ! 0) (pos ! 1) (pos ! 2) (pos ! 3))
                         (le32 (pos ! 4) (pos ! 5) (pos ! 6) (pos ! 7))
                         (le32 (pos ! 8) (pos ! 9) (pos ! 10) (pos ! 11))), s))"

text \<open>\<open>atomic_exchange(&gf.failed, true)\<close>, and the alarm for a stream that had not failed.\<close>

definition fail_once :: "'a gf_scheme \<Rightarrow> 'a gf_scheme" where
  "fail_once s = s\<lparr>failed := True, fault_flag := (fault_flag s \<or> \<not> failed s)\<rparr>"

text \<open>1: ask for the run; 0: the kernel plays; -1: a fault, flagged.\<close>

definition run_gate :: "os \<Rightarrow> u32 \<Rightarrow> u32 \<Rightarrow> 'a gf_scheme \<Rightarrow> int \<times> 'a gf_scheme" where
  "run_gate os base_w written_w s =
     (let (st, s) = gfio_rd_attr os Cnc_state 16 s in
      case st of None \<Rightarrow> (- 1, fail_once s)
      | Some st \<Rightarrow>
          if st = ''running'' then (0, s)
          else if st = ''underrun'' \<or> st = ''fault'' then (1, s)
          else (let (c, s) = kernel_counts os s in
            case c of None \<Rightarrow> (- 1, fail_once s)
            | Some (processed, took) \<Rightarrow>
                if processed \<noteq> base_w \<or> (took \<noteq> written_w \<and> took \<noteq> - 1) then (- 1, fail_once s)
                else (1, s)))"

text \<open>
  The request loop of \<open>issue_run\<close>. The flag is \<open>retried\<close>: an underrun met unarmed is
  acknowledged and the request made once more. 2: idle with nothing queued.
\<close>

fun issue_request :: "os \<Rightarrow> nat \<Rightarrow> 'a gf_scheme \<Rightarrow> int \<times> 'a gf_scheme" where
  "issue_request os tries s =
     (let (rc, s) = gfio_wr_attr os Cnc_run ''1'' s in
      if rc = 0 then (1, s)
      else let err = io_errno s;
               (st, s) = gfio_rd_attr os Cnc_state 16 s;
               state = (case st of None \<Rightarrow> [] | Some x \<Rightarrow> x)
        in if state = ''underrun'' \<and> \<not> laser_armed s \<and> tries > 0
           then issue_request os (tries - 1) (wr_attr os Cnc_stop ''1'' (gfhome_invalidate s))
           else if state = ''underrun'' then (- 1, fail_once (wr_attr os Cnc_stop ''1'' s))
           else if state = ''running'' then (0, s)
           else if state = ''idle'' \<and> err = ENODATA then (2, s)
           else (- 1, fail_once s))"

declare issue_request.simps [simp del]

text \<open>
  \<open>issue_run\<close>, under \<open>latch_mx\<close>. \<open>others\<close> is what the other threads do to the
  atomics while the request is made (a disarm clears \<open>laser_armed\<close> without the lock).
\<close>

definition issue_run ::
    "os \<Rightarrow> ('a gf_scheme \<Rightarrow> 'a gf_scheme) \<Rightarrow> 'a gf_scheme \<Rightarrow> int \<times> 'a gf_scheme" where
  "issue_run os others s =
     (let relight = laser_armed s \<and> fire_gate s \<and> latch_locked_by_us s;
          (ok, s) = (if relight then latch_write_locked os False s else (True, s))
      in if \<not> ok then (- 1, latch_fault s)
         else let (rc, s) = issue_request os 1 s;
                  s = others s;
                  s = (if relight \<and> \<not> laser_armed s then snd (latch_write_locked os True s) else s)
              in (rc, s))"

definition rebase_locked :: "steps3 \<Rightarrow> 'a gf_scheme \<Rightarrow> 'a gf_scheme" where
  "rebase_locked counts s =
     s\<lparr>base_steps := gf_steps s, base_counts := counts, base_valid := True\<rparr>"

end
