(* ===== verification/Stream_Shipper.thy ===== *)
theory Stream_Shipper
  imports Stream_Kernel
begin

text \<open>
  The shipper thread of stepper_stream.c: \<open>pending_pass\<close>, \<open>ship_pass\<close> and
  \<open>check_kernel_state\<close>, in the order of the code. Between an unlock and the next lock
  the other threads run: there the definitions apply an argument \<open>others\<close>, one
  function per unlocked window (0: the pulse write, 1: the run request, 2: the
  kernel reads of \<open>pending_pass\<close>, 3: the state read of \<open>check_kernel_state\<close>).
  \<open>gf_stream_go_idle\<close>, a reset or a disarm that lands there is one value of it.
\<close>

section \<open>Pending work\<close>

definition dump_write :: "u8 list \<Rightarrow> 'a gf_scheme \<Rightarrow> 'a gf_scheme" where
  "dump_write buf s = (if gf_dump_fd s \<ge> 0 then emit (Ev_dump buf) s else s)"

text \<open>One dark pad tick behind a lit byte. A pad the device did not take is not counted.\<close>

definition dark_pad :: "os \<Rightarrow> 'a gf_scheme \<Rightarrow> 'a gf_scheme" where
  "dark_pad os s =
     (let s = dump_write [0] s in
      if gf_active s then
        (let (ok, s) = pulse_write os (gf_fd s) [0] s
         in if ok then s\<lparr>written := written s + 1\<rparr> else s)
      else s)"

text \<open>The first locked section of \<open>pending_pass\<close>, with its snapshots.\<close>

definition pending_first :: "os \<Rightarrow> 'a gf_scheme \<Rightarrow> (bool \<times> bool \<times> bool \<times> u32) \<times> 'a gf_scheme" where
  "pending_first os s =
     (let clear = clear_pending s; run = run_pending s; active = gf_active s; zeros = gf_zeros s;
          dead = run \<and> \<not> clear \<and> (failed s \<or> \<not> kernel_running s);
          s = (if dead then s\<lparr>run_pending := False\<rparr> else s);
          run = (run \<and> \<not> dead);
          s = (if clear \<and> last_lit s then (dark_pad os s)\<lparr>last_lit := False\<rparr> else s)
      in ((clear, run, active, zeros), s))"

text \<open>The read-back that a reset owes, settled by the clear.\<close>

definition settle_readback :: "bool \<Rightarrow> bool \<Rightarrow> steps3 \<Rightarrow> 'a gf_scheme \<Rightarrow> 'a gf_scheme" where
  "settle_readback counted stale counts s =
     (if gf_readback s = RB_WAIT then
        (if counted \<and> \<not> stale \<and> base_valid s
         then s\<lparr>unplayed := unplayed s + ((gf_steps s - base_steps s) - (counts - base_counts s)),
                gf_readback := RB_DONE\<rparr>
         else s\<lparr>gf_readback := RB_LOST\<rparr>)
      else s)"

text \<open>The locked section after the clear.\<close>

definition clear_locked :: "bool \<Rightarrow> bool \<Rightarrow> u32 \<Rightarrow> steps3 option \<Rightarrow> 'a gf_scheme \<Rightarrow> 'a gf_scheme" where
  "clear_locked active cleared zeros read s =
     (let counted = (cleared \<and> (\<not> active \<or> read \<noteq> None));
          counts = (if \<not> active then gf_steps s else case read of Some c \<Rightarrow> c | None \<Rightarrow> 0);
          stale = gf_zeros s \<noteq> zeros;
          s = (if cleared \<and> active then s\<lparr>written := 0\<rparr> else s);
          s = settle_readback counted stale counts s;
          s = (if counted \<and> \<not> stale then rebase_locked counts s
               else if \<not> stale then s\<lparr>base_valid := False\<rparr> else s)
      in dither_reset (s\<lparr>clear_pending := False, run_pending := False, kernel_running := False,
                         power_sent := False\<rparr>))"

text \<open>A kernel that stopped running under a pending request.\<close>

definition pending_dead :: "'a gf_scheme \<Rightarrow> 'a gf_scheme" where
  "pending_dead s =
     (let ours = run_pending s \<and> kernel_running s; report = ours \<and> \<not> failed s;
          s = (if ours then s\<lparr>run_pending := False, failed := True\<rparr> else s)
      in if report then s\<lparr>fault_flag := True\<rparr> else s)"

text \<open>False: shipping must wait.\<close>

definition pending_pass ::
    "os \<Rightarrow> (nat \<Rightarrow> 'a gf_scheme \<Rightarrow> 'a gf_scheme) \<Rightarrow> 'a gf_scheme \<Rightarrow> bool \<times> 'a gf_scheme" where
  "pending_pass os others s =
     (let ((clear, run, active, zeros), s) = pending_first os s in
      if \<not> clear \<and> (\<not> active \<or> \<not> run) then (True, s)
      else let (st, s) = (if active then gfio_rd_attr os Cnc_state 16 s else (Some [], s)) in
        if st = None \<or> st = Some ''running'' then (\<not> clear, s)
        else if clear then
          (let (cleared, s) = (if active then lseek_dev os (gf_fd s) 1 s else (True, s));
               (read, s) = (if cleared \<and> active then kernel_steps os s else (None, s))
           in (True, clear_locked active cleared zeros read (others 2 s)))
        else (True, pending_dead (others 2 s)))"

section \<open>The bytes of one tick\<close>

text \<open>Apply the transitions that the cursor has reached; the last power and whether any did.\<close>

function drain_events :: "bool \<Rightarrow> u8 \<Rightarrow> 'a gf_scheme \<Rightarrow> (bool \<times> u8) \<times> 'a gf_scheme" where
  "drain_events due_ev p s =
     (if lev_head s \<noteq> lev_tail s \<and> ev_idx (gf_lev s (lev_slot (lev_head s))) \<le> shipped s then
        (let e = gf_lev s (lev_slot (lev_head s))
         in drain_events True (ev_power e)
              (s\<lparr>cur_fire := ev_fire e, lev_head := lev_head s + 1\<rparr>))
      else ((due_ev, p), s))"
  by pat_completeness auto
termination
proof (relation "measure (\<lambda>(d, p, s). unat (lev_tail s - lev_head s))", goal_cases)
  case (2 d p s e)
  then have "lev_tail s - lev_head s \<noteq> 0" by auto
  then have "unat (lev_tail s - lev_head s - 1) < unat (lev_tail s - lev_head s)"
    by (simp add: unat_minus_one unat_gt_0)
  then show ?case by (simp add: diff_diff_eq)
qed simp

declare drain_events.simps [simp del]

text \<open>The power byte of a tick, if one is due.\<close>

definition power_bytes :: "bool \<Rightarrow> u8 \<Rightarrow> 'a gf_scheme \<Rightarrow> u8 list \<times> 'a gf_scheme" where
  "power_bytes due_ev p s =
     (if dith_period s \<noteq> 0 then
        (let s = s\<lparr>cur_power := p\<rparr> in
         if power_sent s then ([], s)
         else ([0x80 OR ucast GF_PWM_PERIOD], s\<lparr>power_sent := True\<rparr>))
      else if (due_ev \<and> p \<noteq> cur_power s) \<or> \<not> power_sent s
      then ([0x80 OR p], s\<lparr>cur_power := p, power_sent := True\<rparr>)
      else ([], s))"

text \<open>The core's fire request, masked by the gate and by the density model.\<close>

definition fire_tick :: "bool \<Rightarrow> 'a gf_scheme \<Rightarrow> bool \<times> 'a gf_scheme" where
  "fire_tick gate s =
     (if cur_fire s \<and> gate then (if dith_period s = 0 then (True, s) else dither_tick s)
      else (False, s))"

definition ship_tick :: "bool \<Rightarrow> 'a gf_scheme \<Rightarrow> (u8 list \<times> u8) \<times> 'a gf_scheme" where
  "ship_tick gate s =
     (let ((due_ev, p), s) = drain_events False (cur_power s) s;
          s = (if due_ev \<and> \<not> cur_fire s then dither_reset s else s);
          (pb, s) = power_bytes due_ev p s;
          slot = ring_slot (shipped s);
          b = gf_ring s slot;
          s = s\<lparr>gf_ring := (gf_ring s)(slot := 0)\<rparr>;
          (lit, s) = fire_tick gate s;
          b = (if lit then b OR 0x10 else b);
          s = s\<lparr>last_lit := (b AND 0x10 \<noteq> 0), shipped := shipped s + 1\<rparr>
      in ((pb, b), s))"

lemma drain_events_frame:
  "\<exists>f h. snd (drain_events d p s) = s\<lparr>cur_fire := f, lev_head := h\<rparr>"
proof (induction d p s rule: drain_events.induct)
  case (1 d p s)
  show ?case
  proof (cases "lev_head s \<noteq> lev_tail s \<and> ev_idx (gf_lev s (lev_slot (lev_head s))) \<le> shipped s")
    case True
    from 1 [OF True refl] obtain f h where
      "snd (drain_events True (ev_power (gf_lev s (lev_slot (lev_head s))))
         (s\<lparr>cur_fire := ev_fire (gf_lev s (lev_slot (lev_head s))), lev_head := lev_head s + 1\<rparr>)) =
       s\<lparr>cur_fire := f, lev_head := h\<rparr>" by auto
    with True show ?thesis by (intro exI [of _ f] exI [of _ h]) (subst drain_events.simps, simp add: Let_def)
  next
    case False
    then show ?thesis
      by (intro exI [of _ "cur_fire s"] exI [of _ "lev_head s"]) (subst drain_events.simps, auto)
  qed
qed

lemma power_bytes_frame:
  "\<exists>p' b. snd (power_bytes d p s) = s\<lparr>cur_power := p', power_sent := b\<rparr>"
  by (rule exI [of _ "cur_power (snd (power_bytes d p s))"],
      rule exI [of _ "power_sent (snd (power_bytes d p s))"]) (simp add: power_bytes_def Let_def)

lemma fire_tick_frame:
  "\<exists>l on a. snd (fire_tick g s) = s\<lparr>dith_left := l, dith_on := on, dith_acc := a\<rparr>"
proof (cases "cur_fire s \<and> g \<and> dith_period s \<noteq> 0")
  case True
  then show ?thesis using dither_tick_frame [of s] by (simp add: fire_tick_def)
next
  case False
  then have "snd (fire_tick g s) = s" by (simp add: fire_tick_def)
  then show ?thesis
    by (intro exI [of _ "dith_left s"] exI [of _ "dith_on s"] exI [of _ "dith_acc s"]) simp
qed

text \<open>
  What one tick changes: the slot it ships is zeroed and the cursor advances; the
  queue's head, the laser state and the dither follow; nothing else.
\<close>

lemma ship_tick_frame:
  "\<exists>h f p b l on a lit. snd (ship_tick gate s) =
     s\<lparr>lev_head := h, cur_fire := f, cur_power := p, power_sent := b,
       dith_left := l, dith_on := on, dith_acc := a, last_lit := lit,
       gf_ring := (gf_ring s)(ring_slot (shipped s) := 0), shipped := shipped s + 1\<rparr>"
proof -
  obtain d p1 s1 where d: "drain_events False (cur_power s) s = ((d, p1), s1)" by (metis surj_pair)
  obtain f h where s1: "s1 = s\<lparr>cur_fire := f, lev_head := h\<rparr>"
    using drain_events_frame [of False "cur_power s" s] d by auto
  define s2 where "s2 = (if d \<and> \<not> cur_fire s1 then dither_reset s1 else s1)"
  obtain pb s3 where p: "power_bytes d p1 s2 = (pb, s3)" by fastforce
  obtain p' b where s3: "s3 = s2\<lparr>cur_power := p', power_sent := b\<rparr>"
    using power_bytes_frame [of d p1 s2] p by auto
  define s4 where "s4 = s3\<lparr>gf_ring := (gf_ring s3)(ring_slot (shipped s3) := 0)\<rparr>"
  obtain lit s5 where fi: "fire_tick gate s4 = (lit, s5)" by fastforce
  obtain l on a where s5: "s5 = s4\<lparr>dith_left := l, dith_on := on, dith_acc := a\<rparr>"
    using fire_tick_frame [of gate s4] fi by auto
  define B where "B = (if lit then gf_ring s3 (ring_slot (shipped s3)) OR 0x10
                        else gf_ring s3 (ring_slot (shipped s3)))"
  have "snd (ship_tick gate s) = s5\<lparr>last_lit := (B AND 0x10 \<noteq> 0), shipped := shipped s5 + 1\<rparr>"
    using d p fi by (simp add: ship_tick_def Let_def B_def flip: s2_def s4_def)
  also have "\<dots> = s\<lparr>lev_head := h, cur_fire := f, cur_power := p', power_sent := b,
       dith_left := l, dith_on := on, dith_acc := a, last_lit := (B AND 0x10 \<noteq> 0),
       gf_ring := (gf_ring s)(ring_slot (shipped s) := 0), shipped := shipped s + 1\<rparr>"
    by (simp add: s5 s4_def s3 s2_def s1 dither_reset_def)
  finally show ?thesis by blast
qed

lemma ship_tick_shipped [simp]: "shipped (snd (ship_tick gate s)) = shipped s + 1"
  using ship_tick_frame [of gate s] by auto

section \<open>A chunk\<close>

text \<open>
  The inner loop: bytes while fewer than \<open>SHIP_CHUNK - 1\<close> are in the chunk and the
  cursor is due. \<open>n\<close> is the bytes already there.
\<close>

function build_chunk :: "bool \<Rightarrow> bool \<Rightarrow> nat \<Rightarrow> nat \<Rightarrow> 'a gf_scheme \<Rightarrow> (u8 list \<times> steps3) \<times> 'a gf_scheme" where
  "build_chunk gate strm due n s =
     (if n < SHIP_CHUNK - 1 \<and> shipped s < due \<and> (strm \<or> shipped s < produced s) then
        (let pb = fst (fst (ship_tick gate s));
             b = snd (fst (ship_tick gate s));
             ((bs, st), s') = build_chunk gate strm due (n + length pb + 1) (snd (ship_tick gate s))
         in ((pb @ b # bs, tick_steps st b), s'))
      else (([], 0), s))"
  by pat_completeness auto
termination
  by (relation "measure (\<lambda>(gate, strm, due, n, s). due - shipped s)") auto

declare build_chunk.simps [simp del]

text \<open>
  One turn of the outer loop of \<open>ship_pass\<close>, up to the end of the unlocked write: the
  chunk is built and marked the kernel's under the lock, then written without it.
  \<open>first\<close>: it starts a run of ours.
\<close>

definition chunk_claim :: "'a gf_scheme \<Rightarrow> 'a gf_scheme" where
  "chunk_claim s =
     (if \<not> kernel_running s then s\<lparr>kernel_running := True, run_base := written s\<rparr>
      else s\<lparr>kernel_running := True\<rparr>)"

definition chunk_write ::
    "os \<Rightarrow> (nat \<Rightarrow> 'a gf_scheme \<Rightarrow> 'a gf_scheme) \<Rightarrow> u8 list \<Rightarrow> 'a gf_scheme \<Rightarrow> bool \<times> 'a gf_scheme" where
  "chunk_write os others chunk s =
     (let (now, s) = wall_s os s;
          (ok, s) = sink_write os (gf_active s) (gf_fd s) chunk (now - ship_t0 s) (dump_write chunk s)
      in (ok, others 0 s))"

text \<open>A write that failed: part of the chunk can have landed, uncounted.\<close>

definition chunk_failed :: "'a gf_scheme \<Rightarrow> 'a gf_scheme" where
  "chunk_failed s =
     s\<lparr>failed := True, fault_flag := True, base_valid := False,
       gf_readback := (if gf_readback s = RB_WAIT then RB_LOST else gf_readback s)\<rparr>"

text \<open>A write that succeeded: the ring took the chunk.\<close>

definition chunk_taken :: "bool \<Rightarrow> u8 list \<Rightarrow> steps3 \<Rightarrow> 'a gf_scheme \<Rightarrow> 'a gf_scheme" where
  "chunk_taken active chunk chunk_steps s =
     (if active then s\<lparr>written := written s + of_nat (length chunk), gf_steps := gf_steps s + chunk_steps\<rparr>
      else s\<lparr>gf_steps := gf_steps s + chunk_steps\<rparr>)"

text \<open>
  The outer loop. Every turn ships at least one tick, so \<open>due\<close> turns are enough;
  \<open>fuel\<close> counts them down.
\<close>

fun ship_chunks ::
    "os \<Rightarrow> (nat \<Rightarrow> 'a gf_scheme \<Rightarrow> 'a gf_scheme) \<Rightarrow> bool \<Rightarrow> nat \<Rightarrow> nat \<Rightarrow> bool \<Rightarrow> bool \<Rightarrow>
     'a gf_scheme \<Rightarrow> bool \<times> 'a gf_scheme" where
  "ship_chunks os others gate due 0 strm start_run s = (start_run, s)"
| "ship_chunks os others gate due (Suc fuel) strm start_run s =
     (if \<not> (shipped s < due \<and> (strm \<or> shipped s < produced s)) then (start_run, s)
      else let ((chunk, chunk_steps), s) = build_chunk gate strm due 0 s;
               first = \<not> kernel_running s;
               s = chunk_claim s;
               active = gf_active s;
               (ok, s) = chunk_write os others chunk s
           in if \<not> ok then (start_run, chunk_failed s)
              else let s = chunk_taken active chunk chunk_steps s
                in if failed s \<or> suspended s \<or> clear_pending s then (start_run, s)
                   else ship_chunks os others gate due fuel (streaming s) (start_run \<or> first) s)"

section \<open>The pass\<close>

text \<open>On the gate's falling edge the fire in flight and every queued fire-on are cleared.\<close>

definition darken_events :: "'a gf_scheme \<Rightarrow> 'a gf_scheme" where
  "darken_events s =
     s\<lparr>gf_lev := fold (\<lambda>k lev. lev(lev_slot (lev_head s + of_nat k) :=
                            (lev (lev_slot (lev_head s + of_nat k)))\<lparr>ev_fire := False\<rparr>))
                      [0..<lev_pending s] (gf_lev s)\<rparr>"

definition gate_edge :: "bool \<Rightarrow> 'a gf_scheme \<Rightarrow> 'a gf_scheme" where
  "gate_edge gate s =
     (if gate = gate_seen s then s
      else let s = s\<lparr>gate_seen := gate\<rparr>
           in if gate then s else dither_reset (darken_events (s\<lparr>cur_fire := False\<rparr>)))"

text \<open>The end of a stream: its dark end, the kernel's streaming flag, the hold drop.\<close>

definition stream_end :: "os \<Rightarrow> 'a gf_scheme \<Rightarrow> 'a gf_scheme" where
  "stream_end os s =
     (let s = (if last_lit s then
                 (let s = dark_pad os s;
                      s = s\<lparr>shipped := shipped s + 1\<rparr>
                  in s\<lparr>produced := shipped s, cur_fire := False, last_lit := False\<rparr>)
               else s);
          s = (if gf_active s then wr_attr os Cnc_streaming ''0'' s else s);
          s = dither_reset (s\<lparr>kernel_running := False, run_pending := False, power_sent := False\<rparr>);
          (now, s) = wall_s os (s\<lparr>hold_pending := True\<rparr>)
      in s\<lparr>hold_poll_at := now + 1 / 10\<rparr>)"

definition hold_poll :: "os \<Rightarrow> 'a gf_scheme \<Rightarrow> 'a gf_scheme" where
  "hold_poll os s =
     (if \<not> hold_pending s then s
      else let (now, s) = wall_s os s in
        if now < hold_poll_at s then s
        else if \<not> gf_active s then s\<lparr>hold_pending := False\<rparr>
        else let (st, s) = gfio_rd_attr os Cnc_state 16 s in
          if st = Some ''idle'' then gfio_currents_hold os (s\<lparr>hold_pending := False\<rparr>)
          else let (now, s) = wall_s os s in s\<lparr>hold_poll_at := now + 1 / 10\<rparr>)"

text \<open>The run request of a pass that shipped the first bytes of a run.\<close>

definition start_kernel_run ::
    "os \<Rightarrow> (nat \<Rightarrow> 'a gf_scheme \<Rightarrow> 'a gf_scheme) \<Rightarrow> 'a gf_scheme \<Rightarrow> 'a gf_scheme" where
  "start_kernel_run os others s =
     (let (rc, s) = run_gate os (run_base s) (written s) s;
          (rc, s) = (if rc > 0 then issue_run os (others 1) s else (rc, s))
      in if rc = 0 then s\<lparr>run_pending := True\<rparr>
         else if rc = 2 then fail_once s else s)"

definition ship_due ::
    "os \<Rightarrow> (nat \<Rightarrow> 'a gf_scheme \<Rightarrow> 'a gf_scheme) \<Rightarrow> bool \<Rightarrow> 'a gf_scheme \<Rightarrow> 'a gf_scheme" where
  "ship_due os others gate s =
     (let strm = streaming s; backlog = produced s - shipped s;
          anchor = (shipped s = 0 \<or> \<not> kernel_running s)
      in if anchor \<and> backlog < (if strm then gf_depth s else 1) then s
         else let s = (if anchor then (let (now, s) = wall_s os s in s\<lparr>ship_t0 := now\<rparr>) else s);
                  (now, s) = wall_s os s;
                  due = due_index now s;
                  (start_run, s) = ship_chunks os others gate due due strm False s
              in if start_run \<and> gf_active s \<and> \<not> failed s then start_kernel_run os others s else s)"

definition ship_pass ::
    "os \<Rightarrow> (nat \<Rightarrow> 'a gf_scheme \<Rightarrow> 'a gf_scheme) \<Rightarrow> 'a gf_scheme \<Rightarrow> 'a gf_scheme" where
  "ship_pass os others s =
     (let (go, s) = pending_pass os others s in
      if \<not> go then s
      else if failed s \<or> suspended s then
        (if failed s \<and> last_lit s then (dark_pad os s)\<lparr>last_lit := False, cur_fire := False\<rparr> else s)
      else let gate = fire_gate s; s = gate_edge gate s in
        if \<not> streaming s \<and> produced s \<le> shipped s then
          hold_poll os (if kernel_running s then stream_end os s else s)
        else ship_due os others gate s)"

definition check_kernel_state ::
    "os \<Rightarrow> (nat \<Rightarrow> 'a gf_scheme \<Rightarrow> 'a gf_scheme) \<Rightarrow> 'a gf_scheme \<Rightarrow> 'a gf_scheme" where
  "check_kernel_state os others s =
     (if \<not> (gf_active s \<and> kernel_running s \<and> \<not> failed s \<and> \<not> suspended s) then s
      else let (st, s) = gfio_rd_attr os Cnc_state 16 s; s = others 3 s in
        if st = None \<or> st = Some ''running'' then s else fail_once s)"

text \<open>One turn of the shipper thread.\<close>

definition shipper_turn ::
    "os \<Rightarrow> (nat \<Rightarrow> 'a gf_scheme \<Rightarrow> 'a gf_scheme) \<Rightarrow> 'a gf_scheme \<Rightarrow> 'a gf_scheme" where
  "shipper_turn os others s =
     sleep_ns 10000000 (check_kernel_state os others (ship_pass os others s))"

end
