(* ===== verification/Stream_Lifecycle.thy ===== *)
theory Stream_Lifecycle
  imports Stream_Shipper
begin

text \<open>
  Reset, read-back, hand-over and start of the stream (stepper_stream.c from
  \<open>drop_backlog_locked\<close> on). The waits that poll the clock are partial functions:
  \<open>None\<close> is a wait that never ends. What other threads do while the read-back waits
  is an argument.
\<close>

section \<open>Reset\<close>

definition drop_backlog_locked :: "steps3 \<Rightarrow> 'a gf_scheme \<Rightarrow> steps3 \<times> 'a gf_scheme" where
  "drop_backlog_locked dropped s =
     (let (d, r) = fold (\<lambda>i (d, r). (tick_steps d (r (ring_slot i)), r(ring_slot i := 0)))
                        [shipped s..<produced s] (dropped, gf_ring s)
      in (d, s\<lparr>gf_ring := r, produced := shipped s\<rparr>))"

text \<open>The fields that both ends of a stream clear.\<close>

definition reset_laser :: "'a gf_scheme \<Rightarrow> 'a gf_scheme" where
  "reset_laser s =
     dither_reset (s\<lparr>streaming := False, lev_head := lev_tail s, cur_fire := False,
                     want_fire := False, power_sent := False\<rparr>)"

text \<open>A reset that ends a live stream. The result says whether to stop the kernel and to pad.\<close>

definition reset_live :: "os \<Rightarrow> bool \<Rightarrow> 'a gf_scheme \<Rightarrow> (bool \<times> bool) \<times> 'a gf_scheme" where
  "reset_live os was_killed s =
     (let d0 = (if was_killed then tick_steps 0 (kill_step s) else 0);
          (dropped, s) = drop_backlog_locked d0 s;
          s = reset_laser s;
          stop = (was_killed \<or> kernel_running s);
          pad = (stop \<and> last_lit s);
          s = (if stop then
                 (let (now, s) = wall_s os s
                  in s\<lparr>kernel_running := False, run_pending := False, clear_pending := True,
                       hold_pending := True, hold_poll_at := now + 1 / 5\<rparr>)
               else s);
          s = (if was_killed \<and> \<not> failed s
               then s\<lparr>unplayed := dropped, gf_readback := (if base_valid s then RB_WAIT else RB_LOST)\<rparr>
               else s)
      in ((stop, pad), s))"

text \<open>A reset after a stream fault.\<close>

definition reset_failed :: "'a gf_scheme \<Rightarrow> 'a gf_scheme" where
  "reset_failed s =
     (let s = s\<lparr>failed := False, kernel_running := False, run_pending := False,
                clear_pending := True, hold_pending := False\<rparr>;
          (d, s) = drop_backlog_locked 0 s
      in reset_laser s)"

definition gf_stream_reset :: "os \<Rightarrow> 'a gf_scheme \<Rightarrow> 'a gf_scheme" where
  "gf_stream_reset os s =
     (let was_killed = killed s;
          s = s\<lparr>killed := False, gf_readback := RB_NONE\<rparr>;
          ((stop, pad), s) = (if streaming s \<or> was_killed then reset_live os was_killed s
                              else ((False, False), s));
          acknowledged = failed s;
          stop = (stop \<or> (acknowledged \<and> gf_active s));
          s = (if acknowledged then reset_failed s else s);
          s = s\<lparr>last_lit := pad\<rparr>;
          s = (if stop then wr_attr os Cnc_streaming ''0'' (wr_attr os Cnc_stop ''1'' s) else s)
      in if acknowledged then s\<lparr>latch_fail_reported := False\<rparr> else s)"

section \<open>Read-back\<close>

text \<open>
  One look at the read-back under the lock: \<open>None\<close> is \<open>keep waiting\<close>; otherwise
  the answer (0 nothing owed, 1 with the steps, -1 lost), taken once.
\<close>

definition readback_look :: "os \<Rightarrow> rat \<Rightarrow> 'a gf_scheme \<Rightarrow> (int \<times> steps3) option \<times> 'a gf_scheme" where
  "readback_look os deadline s =
     (let r = gf_readback s;
          (late, s) = (if r \<noteq> RB_WAIT then (True, s)
                       else let (now, s) = wall_s os s in (now \<ge> deadline, s))
      in if late then
           (Some (if r = RB_NONE then 0 else if r = RB_DONE then 1 else - 1,
                  if r = RB_DONE then unplayed s else 0),
            s\<lparr>gf_readback := RB_NONE\<rparr>)
         else (None, s))"

partial_function (option) readback_wait ::
    "os \<Rightarrow> ('a gf_scheme \<Rightarrow> 'a gf_scheme) \<Rightarrow> rat \<Rightarrow> 'a gf_scheme \<Rightarrow> ((int \<times> steps3) \<times> 'a gf_scheme) option" where
  "readback_wait os others deadline s =
     (case readback_look os deadline s of
        (Some a, s') \<Rightarrow> Some (a, s')
      | (None, s') \<Rightarrow> readback_wait os others deadline (others (sleep_ns 2000000 s')))"

definition gf_stream_readback ::
    "os \<Rightarrow> ('a gf_scheme \<Rightarrow> 'a gf_scheme) \<Rightarrow> nat \<Rightarrow> 'a gf_scheme \<Rightarrow> ((int \<times> steps3) \<times> 'a gf_scheme) option" where
  "gf_stream_readback os others wait_ms s =
     (let (now, s) = wall_s os s in readback_wait os others (now + of_nat wait_ms / 1000) s)"

definition gf_stream_clear_position :: "os \<Rightarrow> 'a gf_scheme \<Rightarrow> 'a gf_scheme" where
  "gf_stream_clear_position os s =
     (if gf_active s \<and> gf_fd s \<ge> 0 then
        (let s = s\<lparr>gf_zeros := gf_zeros s + 1\<rparr>; (ok, s) = lseek_dev os (gf_fd s) 2 s
         in if ok then rebase_locked 0 s else s\<lparr>base_valid := False\<rparr>)
      else s)"

definition rebase_at_takeover :: "os \<Rightarrow> bool \<Rightarrow> 'a gf_scheme \<Rightarrow> 'a gf_scheme" where
  "rebase_at_takeover os emptied s =
     (let (r, s) = (if emptied then kernel_steps os s else (None, s))
      in case r of Some counts \<Rightarrow> rebase_locked counts s | None \<Rightarrow> s\<lparr>base_valid := False\<rparr>)"

section \<open>Hand-over of the device\<close>

definition close_dev :: "'a gf_scheme \<Rightarrow> 'a gf_scheme" where
  "close_dev s = emit (Ev_close (gf_fd s)) (s\<lparr>gf_fd := - 1\<rparr>)"

definition gf_stream_suspend :: "os \<Rightarrow> 'a gf_scheme \<Rightarrow> bool \<times> 'a gf_scheme" where
  "gf_stream_suspend os s =
     (if \<not> gf_active s then (True, s\<lparr>suspended := True\<rparr>)
      else let quiet = (\<not> streaming s \<and> \<not> kernel_running s \<and> \<not> clear_pending s \<and> produced s = shipped s);
               (idle, s) = (if quiet then (let (st, s) = gfio_rd_attr os Cnc_state 16 s
                                           in (st = Some ''idle'', s))
                            else (False, s))
           in if \<not> idle then (False, s)
              else let drop_hold = hold_pending s;
                       s = s\<lparr>hold_pending := False, suspended := True\<rparr>;
                       closed = \<not> gfio_pulse_inherited os s;
                       s = (if closed then close_dev s else s);
                       s = (if drop_hold then gfio_currents_hold os s else s);
                       s = (if closed then latch_log ''lock'' (s\<lparr>latch_locked_by_us := True\<rparr>) else s)
                   in (True, s))"

text \<open>The wait for the motor rail. An infinite or never reached end is \<open>None\<close>.\<close>

partial_function (option) settle_wait :: "os \<Rightarrow> cfloat \<Rightarrow> 'a io_scheme \<Rightarrow> 'a io_scheme option" where
  "settle_wait os deadline s =
     (case wall_s os s of (now, s') \<Rightarrow>
        if fl_lt (Fin now) deadline then settle_wait os deadline (sleep_ns 50000000 s') else Some s')"

definition fl_add :: "rat \<Rightarrow> cfloat \<Rightarrow> cfloat" where
  "fl_add x f = (case f of Fin y \<Rightarrow> Fin (x + y) | _ \<Rightarrow> f)"

definition rail_settle :: "os \<Rightarrow> 'a io_scheme \<Rightarrow> 'a io_scheme option" where
  "rail_settle os s =
     (let f = gfio_conf_read_float os ''rail_settle_s'' (Fin (5 / 2)) s in
      if fl_le f (Fin 0) then Some s
      else let s = wr_attr os Cnc_disable ''1'' s; (now, s) = wall_s os s
           in settle_wait os (fl_add now f) s)"

definition apply_tick :: "os \<Rightarrow> 'a gf_scheme \<Rightarrow> bool \<times> 'a gf_scheme" where
  "apply_tick os s =
     (let (rc, s) = gfio_wr_attr os Cnc_step_freq (take 15 (utoa (gf_rate s))) s;
          s = wr_attr os Cnc_ramp_rate (take 15 (utoa (gfio_xy_ramp_for_tick (gf_rate s)))) s
      in (rc = 0, s))"

fun reacquire :: "os \<Rightarrow> nat \<Rightarrow> 'a gf_scheme \<Rightarrow> int option \<times> 'a gf_scheme" where
  "reacquire os 0 s = (None, s)"
| "reacquire os (Suc n) s =
     (let (r, s) = gfio_open_pulse_dev_nb os (gf_dev s) s
      in case r of Some x \<Rightarrow> (Some x, s) | None \<Rightarrow> reacquire os n (sleep_ns 100000000 s))"

text \<open>What a take-over writes to the device once it is open, and the fresh stream state.\<close>

definition resume_swap :: "int \<Rightarrow> 'a gf_scheme \<Rightarrow> 'a gf_scheme" where
  "resume_swap new_fd s =
     dither_reset (s\<lparr>gf_fd := new_fd, killed := False, kill_step := 0, gf_readback := RB_NONE,
        produced := 0, shipped := 0, written := 0, streaming := False, kernel_running := False,
        hold_pending := False, failed := False, suspended := False, lev_head := lev_tail s,
        cur_power := 0, cur_fire := False, last_lit := False, power_sent := False\<rparr>)"

definition resume_device :: "os \<Rightarrow> int \<Rightarrow> 'a gf_scheme \<Rightarrow> bool \<times> 'a gf_scheme" where
  "resume_device os new_fd s =
     (let (ok, s) = gf_stream_laser_latch os True s;
          s = gfio_analog_config os s;
          (tick_ok, s) = apply_tick os s;
          (emptied, s) = lseek_dev os new_fd 1 s;
          s = wr_attr os Cnc_stop ''1'' s;
          s = wr_attr os Cnc_streaming ''0'' s;
          s = (if gfio_pulse_inherited os s then s else wr_attr os Cnc_enable ''1'' s);
          s = rebase_at_takeover os emptied s
      in (tick_ok \<and> ok, resume_swap new_fd s))"

definition gf_stream_resume :: "os \<Rightarrow> 'a gf_scheme \<Rightarrow> (bool \<times> 'a gf_scheme) option" where
  "gf_stream_resume os s =
     (if \<not> gf_active s then Some (True, s\<lparr>suspended := False\<rparr>)
      else if gfio_pulse_inherited os s then Some (resume_device os (gf_fd s) s)
      else (case reacquire os 50 s of
              (None, s) \<Rightarrow> Some (False, s)
            | (Some new_fd, s) \<Rightarrow>
                (case rail_settle os s of None \<Rightarrow> None
                 | Some s \<Rightarrow> Some (resume_device os new_fd s))))"

section \<open>Start and end\<close>

definition env_long :: "os \<Rightarrow> string \<Rightarrow> int option" where
  "env_long os name = map_option strtol (getenv_set os name)"

definition init_rate :: "os \<Rightarrow> nat \<Rightarrow> nat" where
  "init_rate os dflt = (case env_long os ''GFSINK_RATE'' of None \<Rightarrow> dflt
     | Some v \<Rightarrow> if 1000 \<le> v \<and> v \<le> 165000 then nat v else dflt)"

definition init_depth_ms :: "os \<Rightarrow> nat \<Rightarrow> nat" where
  "init_depth_ms os rate_hz = (case env_long os ''GFSINK_DEPTH_MS'' of None \<Rightarrow> 200
     | Some v \<Rightarrow> if 20 \<le> v \<and> rate_hz * nat v div 1000 \<le> RING_SIZE div 2 then nat v else 200)"

definition init_lead_ms :: "os \<Rightarrow> nat" where
  "init_lead_ms os = (case env_long os ''GFSINK_LEAD_MS'' of None \<Rightarrow> 10
     | Some v \<Rightarrow> if 2 \<le> v \<and> v \<le> 10 then nat v else 10)"

definition env_ulong :: "os \<Rightarrow> string \<Rightarrow> u32 \<Rightarrow> u32" where
  "env_ulong os name dflt = (case getenv_set os name of None \<Rightarrow> dflt
     | Some v \<Rightarrow> (case strtoul v of None \<Rightarrow> 0 | Some (x, _) \<Rightarrow> x))"

text \<open>The parameters of the stream, before any device is opened.\<close>

definition init_params :: "os \<Rightarrow> 'a gf_scheme \<Rightarrow> 'a gf_scheme" where
  "init_params os s =
     (let hw = (getenv_set os ''GFSINK'' \<noteq> None);
          s = gfio_set_hw hw s;
          (m, s) = gfio_xy_microsteps os s;
          s = s\<lparr>gf_rate := init_rate os (gfio_xy_tick_hz_of m)\<rparr>;
          s = s\<lparr>gf_depth := gf_rate s * init_depth_ms os (gf_rate s) div 1000\<rparr>;
          s = (if hw then s
               else s\<lparr>stall_ms := env_ulong os ''GFSINK_STALL_MS'' (stall_ms s),
                      write_stall_ms := env_ulong os ''GFSINK_WRITE_STALL_MS'' (write_stall_ms s)\<rparr>);
          s = s\<lparr>lead_s := of_nat (init_lead_ms os) / 1000\<rparr>;
          s = (case getenv_set os ''GFSINK_DUMP'' of None \<Rightarrow> s
               | Some p \<Rightarrow> s\<lparr>gf_dump_fd := (case os_open os (io_tr s) p False of None \<Rightarrow> - 1 | Some x \<Rightarrow> x)\<rparr>)
      in (case getenv_set os ''GFSINK_LATCH_LOG'' of None \<Rightarrow> s
          | Some p \<Rightarrow> s\<lparr>latch_log_fd := (case os_open os (io_tr s) p False of None \<Rightarrow> - 1 | Some x \<Rightarrow> x)\<rparr>))"

text \<open>The device part; False is \<open>exit(1)\<close>.\<close>

definition init_device :: "os \<Rightarrow> string \<Rightarrow> 'a gf_scheme \<Rightarrow> (bool \<times> 'a gf_scheme) option" where
  "init_device os dev s =
     (case gfio_open_pulse_dev os dev (s\<lparr>gf_dev := dev\<rparr>) of
        (None, s) \<Rightarrow> Some (False, s\<lparr>gf_fd := - 1\<rparr>)
      | (Some new_fd, s) \<Rightarrow>
          (case (if gfio_pulse_inherited os s then Some (s\<lparr>gf_fd := new_fd\<rparr>)
                 else rail_settle os (s\<lparr>gf_fd := new_fd\<rparr>)) of
             None \<Rightarrow> None
           | Some s \<Rightarrow>
               (let (ok, s) = gf_stream_laser_latch os True s in
                if \<not> ok then Some (False, s)
                else let s = gfio_analog_config os s; (tick_ok, s) = apply_tick os s in
                  if \<not> tick_ok then Some (False, s)
                  else let (emptied, s) = lseek_dev os (gf_fd s) 1 s;
                           s = rebase_at_takeover os emptied s;
                           s = wr_attr os Cnc_stop ''1'' s;
                           s = wr_attr os Cnc_streaming ''0'' s;
                           s = (if gfio_pulse_inherited os s then s else wr_attr os Cnc_enable ''1'' s)
                       in Some (True, s\<lparr>gf_active := True\<rparr>))))"

text \<open>\<open>threads_ok\<close>: the two threads could be created.\<close>

definition gf_stream_init :: "os \<Rightarrow> bool \<Rightarrow> 'a gf_scheme \<Rightarrow> (bool \<times> 'a gf_scheme) option" where
  "gf_stream_init os threads_ok s =
     (let s = init_params os s;
          r = (case getenv_set os ''GFSINK'' of
                 Some dev \<Rightarrow> init_device os dev s
               | None \<Rightarrow> Some (True, (gfio_analog_config os s)\<lparr>base_valid := True\<rparr>))
      in case r of None \<Rightarrow> None
         | Some (ok, s) \<Rightarrow> if ok \<and> threads_ok then Some (True, s\<lparr>threads_started := True\<rparr>)
                            else Some (False, s))"

fun wait_idle :: "os \<Rightarrow> nat \<Rightarrow> 'a gf_scheme \<Rightarrow> 'a gf_scheme" where
  "wait_idle os 0 s = s"
| "wait_idle os (Suc n) s =
     (let (idle, s) = gf_stream_kernel_idle os s
      in if idle then s else wait_idle os n (sleep_ns 20000000 s))"

definition gf_stream_shutdown :: "os \<Rightarrow> 'a gf_scheme \<Rightarrow> 'a gf_scheme" where
  "gf_stream_shutdown os s =
     (if shutdown_done s \<or> \<not> threads_started s then s
      else let s = s\<lparr>shutdown_done := True, gf_quit := True, gf_armed := False\<rparr>;
               s = (if gf_active s \<and> \<not> suspended s then
                      (let s = wr_attr os Cnc_streaming ''0'' s;
                           s = (if kernel_running s then wait_idle os 100 (wr_attr os Cnc_stop ''1'' s)
                                else s);
                           (idle, s) = gf_stream_kernel_idle os s
                       in if idle then s else wr_attr os Cnc_halt ''1'' s)
                    else s);
               s = (if gf_active s then snd (latch_write_locked os True s) else s);
               s = (if gf_fd s \<ge> 0 then close_dev s else s)
           in s\<lparr>gf_dump_fd := - 1\<rparr>)"

end
