(* ===== verification/Stream_Queue.thy ===== *)
theory Stream_Queue
  imports Stream_Lifecycle
begin

text \<open>
  The queue of laser transitions: a ring of 4096 slots with free-running 32-bit head
  and tail counters implements a bounded list. The interface \<open>event_fifo\<close> states what
  the producer and the shipper rely on; its interpretation on the stream's counters
  and slots carries the functional refinement of every operation that touches the
  queue, for all values of the counters, also across their wrap.
\<close>

section \<open>The interface\<close>

locale event_fifo =
  fixes ok :: "'s \<Rightarrow> bool" and cap :: nat and items :: "'s \<Rightarrow> 'e list"
    and push :: "'e \<Rightarrow> 's \<Rightarrow> 's" and amend :: "('e \<Rightarrow> 'e) \<Rightarrow> 's \<Rightarrow> 's" and pop :: "'s \<Rightarrow> 's"
  assumes cap_pos: "0 < cap"
    and bounded: "ok s \<Longrightarrow> length (items s) \<le> cap"
    and push_items: "ok s \<Longrightarrow> length (items s) < cap \<Longrightarrow> items (push e s) = items s @ [e]"
    and amend_items: "ok s \<Longrightarrow> items s \<noteq> [] \<Longrightarrow>
          items (amend f s) = butlast (items s) @ [f (last (items s))]"
    and pop_items: "ok s \<Longrightarrow> items s \<noteq> [] \<Longrightarrow> items (pop s) = tl (items s)"
    and push_ok: "ok s \<Longrightarrow> length (items s) < cap \<Longrightarrow> ok (push e s)"
    and amend_ok: "ok s \<Longrightarrow> ok (amend f s)"
    and pop_ok: "ok s \<Longrightarrow> items s \<noteq> [] \<Longrightarrow> ok (pop s)"
begin

text \<open>
  Posting with a merge rule: the newest entry is rewritten when the rule says so or
  the queue is full, otherwise a new one is added. Whatever the rule, the newest
  entry afterwards carries what was posted, and nothing older changes.
\<close>

lemma post_newest:
  assumes "ok s" "m \<or> cap \<le> length (items s) \<Longrightarrow> items s \<noteq> []"
    and "\<And>x. P (f x)" "P e"
  shows "P (last (items (if m \<or> cap \<le> length (items s) then amend f s else push e s)))"
    and "items (if m \<or> cap \<le> length (items s) then amend f s else push e s) \<noteq> []"
    and "ok (if m \<or> cap \<le> length (items s) then amend f s else push e s)"
  using assms by (auto simp: amend_items push_items push_ok amend_ok not_le)

lemma post_older:
  assumes "ok s" "m \<or> cap \<le> length (items s) \<Longrightarrow> items s \<noteq> []"
  shows "butlast (items (if m \<or> cap \<le> length (items s) then amend f s else push e s)) =
           (if m \<or> cap \<le> length (items s) then butlast (items s) else items s)"
  using assms by (auto simp: amend_items push_items not_le)

end

section \<open>The ring\<close>

definition lev_ok :: "'a gf_scheme \<Rightarrow> bool" where
  "lev_ok s \<longleftrightarrow> lev_pending s \<le> 4096"

definition lev_amend :: "(laser_ev \<Rightarrow> laser_ev) \<Rightarrow> 'a gf_scheme \<Rightarrow> 'a gf_scheme" where
  "lev_amend f s = s\<lparr>gf_lev := (gf_lev s)(newest_slot s := f (gf_lev s (newest_slot s)))\<rparr>"

definition lev_pop :: "'a gf_scheme \<Rightarrow> 'a gf_scheme" where
  "lev_pop s = s\<lparr>lev_head := lev_head s + 1\<rparr>"

definition lev_append :: "laser_ev \<Rightarrow> 'a gf_scheme \<Rightarrow> 'a gf_scheme" where
  "lev_append e s = s\<lparr>gf_lev := (gf_lev s)(lev_slot (lev_tail s) := e), lev_tail := lev_tail s + 1\<rparr>"

lemma lev_push_append:
  "lev_push i p f s = lev_append \<lparr>ev_idx = i, ev_power = p, ev_fire = f\<rparr> s"
  by (simp add: lev_push_def lev_append_def)

lemma lev_merge_amend: "lev_merge p f s = lev_amend (\<lambda>e. e\<lparr>ev_power := p, ev_fire := f\<rparr>) s"
  by (simp add: lev_merge_def lev_amend_def)

lemma length_lev_list [simp]: "length (lev_list s) = lev_pending s"
  by (simp add: lev_list_def)

lemma lev_list_nonempty: "lev_list s \<noteq> [] \<longleftrightarrow> lev_head s \<noteq> lev_tail s"
  by (simp add: lev_list_def lev_pending_def unat_eq_zero) auto

lemma lev_tail_eq: "lev_tail s = lev_head s + of_nat (lev_pending s)"
  by (simp add: lev_pending_def)

lemma lev_list_nth: "k < lev_pending s \<Longrightarrow> lev_list s ! k = gf_lev s (lev_slot (lev_head s + of_nat k))"
  by (simp add: lev_list_def)

lemma lev_list_pos: "lev_list s \<noteq> [] \<Longrightarrow> 0 < lev_pending s"
  by (simp flip: length_lev_list)

lemma lev_pending_push:
  assumes "lev_ok s"
  shows "unat (lev_tail s + 1 - lev_head s) = lev_pending s + 1"
proof -
  have "unat (lev_tail s - lev_head s) < 4294967295"
    using assms by (simp add: lev_ok_def lev_pending_def)
  then have "unat (lev_tail s - lev_head s + 1) = lev_pending s + 1"
    by (simp add: lev_pending_def unat_word_ariths)
  then show ?thesis by (simp add: algebra_simps)
qed

lemma newest_slot_eq:
  assumes "lev_pending s \<noteq> 0"
  shows "newest_slot s = lev_slot (lev_head s + of_nat (lev_pending s - 1))"
proof -
  have "lev_tail s - 1 = lev_head s + of_nat (lev_pending s - 1)"
    using assms by (subst lev_tail_eq) (simp add: of_nat_diff)
  then show ?thesis by (simp add: newest_slot_def)
qed

lemma lev_append_list:
  assumes "lev_ok s" "lev_pending s < 4096"
  shows "lev_list (lev_append e s) = lev_list s @ [e]"
proof -
  have n: "lev_pending (lev_append e s) = Suc (lev_pending s)"
    using lev_pending_push [OF assms(1)] by (simp add: lev_pending_def lev_append_def)
  have keep: "lev_slot (lev_tail s) \<noteq> lev_slot (lev_head s + of_nat k)" if "k < lev_pending s" for k
    using lev_slot_inj [of k "lev_pending s" "lev_head s"] that assms(2) by (auto simp: lev_tail_eq)
  have last: "lev_slot (lev_head s + of_nat (lev_pending s)) = lev_slot (lev_tail s)"
    by (simp add: lev_tail_eq)
  have "lev_list (lev_append e s) =
          map (\<lambda>k. ((gf_lev s)(lev_slot (lev_tail s) := e)) (lev_slot (lev_head s + of_nat k)))
              [0..<Suc (lev_pending s)]"
    unfolding lev_list_def n by (simp add: lev_append_def)
  also have "\<dots> = lev_list s @ [e]"
    using keep [THEN not_sym] by (auto simp: lev_list_def last)
  finally show ?thesis .
qed

lemma lev_amend_list:
  assumes "lev_ok s" "lev_list s \<noteq> []"
  shows "lev_list (lev_amend f s) = butlast (lev_list s) @ [f (last (lev_list s))]"
proof (rule nth_equalityI)
  have n: "lev_pending (lev_amend f s) = lev_pending s" by (simp add: lev_pending_def lev_amend_def)
  have p: "0 < lev_pending s" using assms(2) by (metis length_lev_list length_greater_0_conv)
  show "length (lev_list (lev_amend f s)) = length (butlast (lev_list s) @ [f (last (lev_list s))])"
    using n p by simp
  fix k assume "k < length (lev_list (lev_amend f s))"
  then have k: "k < lev_pending s" using n by simp
  have slot: "lev_slot (lev_head s + of_nat k) = newest_slot s \<longleftrightarrow> k = lev_pending s - 1"
    using lev_slot_inj [of k "lev_pending s - 1" "lev_head s"] k p assms(1)
    by (auto simp: newest_slot_eq lev_ok_def)
  have "lev_list (lev_amend f s) ! k =
          ((gf_lev s)(newest_slot s := f (gf_lev s (newest_slot s)))) (lev_slot (lev_head s + of_nat k))"
    using k n by (simp add: lev_list_nth) (simp add: lev_amend_def)
  then show "lev_list (lev_amend f s) ! k = (butlast (lev_list s) @ [f (last (lev_list s))]) ! k"
    using slot k p assms(2)
    by (auto simp: nth_append nth_butlast lev_list_nth last_conv_nth newest_slot_eq)
qed

lemma lev_pop_list:
  assumes "lev_list s \<noteq> []"
  shows "lev_list (lev_pop s) = tl (lev_list s)"
proof -
  have p: "0 < lev_pending s" using assms by (metis length_lev_list length_greater_0_conv)
  have "lev_tail s - lev_head s \<noteq> 0" using assms by (simp add: lev_list_nonempty)
  then have "unat (lev_tail s - lev_head s - 1) = lev_pending s - 1"
    by (simp add: unat_minus_one lev_pending_def)
  then have n: "lev_pending (lev_pop s) = lev_pending s - 1"
    by (simp add: lev_pending_def lev_pop_def diff_diff_eq)
  show ?thesis
    by (rule nth_equalityI)
       (use n p in \<open>auto simp: nth_tl lev_list_nth lev_pop_def ac_simps\<close>)
qed

interpretation lev: event_fifo lev_ok 4096 lev_list lev_append lev_amend lev_pop
proof
  fix s :: "'a gf_scheme" and e f
  show "(0::nat) < 4096" by simp
  show "lev_ok s \<Longrightarrow> length (lev_list s) \<le> 4096" by (simp add: lev_ok_def)
  show "lev_ok s \<Longrightarrow> length (lev_list s) < 4096 \<Longrightarrow> lev_list (lev_append e s) = lev_list s @ [e]"
    using lev_append_list [of s e] by simp
  show "lev_ok s \<Longrightarrow> lev_list s \<noteq> [] \<Longrightarrow>
          lev_list (lev_amend f s) = butlast (lev_list s) @ [f (last (lev_list s))]"
    by (rule lev_amend_list)
  show "lev_ok s \<Longrightarrow> lev_list s \<noteq> [] \<Longrightarrow> lev_list (lev_pop s) = tl (lev_list s)"
    by (rule lev_pop_list)
  show "lev_ok s \<Longrightarrow> length (lev_list s) < 4096 \<Longrightarrow> lev_ok (lev_append e s)"
    using lev_append_list [of s e] by (metis length_append_singleton length_lev_list lev_ok_def Suc_leI)
  show "lev_ok s \<Longrightarrow> lev_ok (lev_amend f s)" by (simp add: lev_ok_def lev_pending_def lev_amend_def)
  show "lev_ok s \<Longrightarrow> lev_list s \<noteq> [] \<Longrightarrow> lev_ok (lev_pop s)"
    using lev_pop_list [of s] by (metis length_lev_list length_tl lev_ok_def le_diff_conv le_add1 order_trans)
qed

section \<open>What the operations do to the list\<close>

text \<open>The specification of a posted transition: one per machine tick, the last one wins.\<close>

definition post_event :: "nat \<Rightarrow> u8 \<Rightarrow> bool \<Rightarrow> laser_ev list \<Rightarrow> laser_ev list" where
  "post_event idx p f es =
     (if es \<noteq> [] \<and> ev_idx (last es) = idx \<or> 4096 \<le> length es
      then butlast es @ [(last es)\<lparr>ev_power := p, ev_fire := f\<rparr>]
      else es @ [\<lparr>ev_idx = idx, ev_power = p, ev_fire = f\<rparr>])"

lemma pending_word:
  "lev_tail s - lev_head s > 0 \<longleftrightarrow> lev_list s \<noteq> []"
  "lev_tail s - lev_head s \<noteq> 0 \<longleftrightarrow> lev_list s \<noteq> []"
  "lev_tail s - lev_head s \<ge> LEV_N \<longleftrightarrow> 4096 \<le> length (lev_list s)"
  "lev_tail s - lev_head s < LEV_N \<longleftrightarrow> length (lev_list s) < 4096"
proof -
  show "lev_tail s - lev_head s > 0 \<longleftrightarrow> lev_list s \<noteq> []"
    by (auto simp: lev_list_nonempty word_gt_0)
qed (auto simp: lev_list_nonempty LEV_N_def word_le_nat_alt word_less_nat_alt lev_pending_def)

lemma newest_last: "lev_list s \<noteq> [] \<Longrightarrow> gf_lev s (newest_slot s) = last (lev_list s)"
  by (metis diff_less last_conv_nth length_greater_0_conv length_lev_list lev_list_nth
        newest_slot_eq not_gr_zero zero_less_one less_numeral_extra(1))

lemma laser_queue_refines:
  assumes "lev_ok s"
  shows "lev_list (laser_queue idx p f s) = post_event idx p f (lev_list s)"
    and "lev_ok (laser_queue idx p f s)"
proof -
  have frame: "lev_list (s\<lparr>lev_overflow_warned := b\<rparr>) = lev_list s"
    "lev_ok (s\<lparr>lev_overflow_warned := b\<rparr>) = lev_ok s" for s :: "'a gf_scheme" and b
    by (simp_all add: lev_list_def lev_ok_def lev_pending_def)
  have ne: "4096 \<le> length (lev_list s) \<Longrightarrow> lev_list s \<noteq> []"
    by (cases "lev_list s = []") (auto simp del: length_lev_list)
  show "lev_list (laser_queue idx p f s) = post_event idx p f (lev_list s)"
    using assms ne lev.push_items [OF assms] lev.amend_items [OF assms]
    by (auto simp: laser_queue_def post_event_def pending_word frame lev_push_append
          lev_merge_amend newest_last Let_def)
  show "lev_ok (laser_queue idx p f s)"
    using assms lev.push_ok [OF assms] lev.amend_ok [OF assms]
    by (auto simp: laser_queue_def pending_word frame lev_push_append lev_merge_amend Let_def)
qed

lemma post_event_last:
  "ev_fire (last (post_event i p f es)) = f" "ev_power (last (post_event i p f es)) = p"
  "post_event i p f es \<noteq> []"
  by (auto simp: post_event_def)

text \<open>The drain takes the prefix that the cursor has reached; the last of it is in force.\<close>

definition reached :: "nat \<Rightarrow> laser_ev list \<Rightarrow> laser_ev list" where
  "reached i es = takeWhile (\<lambda>e. ev_idx e \<le> i) es"

lemma drain_events_refines:
  assumes "drain_events d p s = ((d', p'), s')"
  shows "lev_list s' = dropWhile (\<lambda>e. ev_idx e \<le> shipped s) (lev_list s)
       \<and> d' = (d \<or> reached (shipped s) (lev_list s) \<noteq> [])
       \<and> p' = (if reached (shipped s) (lev_list s) = [] then p
               else ev_power (last (reached (shipped s) (lev_list s))))
       \<and> cur_fire s' = (if reached (shipped s) (lev_list s) = [] then cur_fire s
               else ev_fire (last (reached (shipped s) (lev_list s))))"
  using assms
proof (induction d p s arbitrary: d' p' s' rule: drain_events.induct)
  case (1 d p s)
  define e where "e = gf_lev s (lev_slot (lev_head s))"
  define t where "t = s\<lparr>cur_fire := ev_fire e, lev_head := lev_head s + 1\<rparr>"
  have list_t: "lev_list t = lev_list (lev_pop s)"
    by (simp add: t_def lev_pop_def lev_list_def lev_pending_def)
  have hd_e: "lev_list s \<noteq> [] \<Longrightarrow> hd (lev_list s) = e"
    by (simp add: hd_conv_nth lev_list_pos lev_list_nth e_def)
  show ?case
  proof (cases "lev_head s \<noteq> lev_tail s \<and> ev_idx e \<le> shipped s")
    case True
    then have ne: "lev_list s \<noteq> []" by (simp add: lev_list_nonempty)
    then obtain es where es: "lev_list s = e # es" using hd_e by (cases "lev_list s") auto
    have step: "drain_events True (ev_power e) t = ((d', p'), s')"
      using 1(2) True by (subst (asm) drain_events.simps) (simp add: e_def t_def Let_def)
    have lt: "lev_list t = es" using list_t lev_pop_list [OF ne] es by simp
    have sh: "shipped t = shipped s" "cur_fire t = ev_fire e" by (simp_all add: t_def)
    from 1(1) [OF True [unfolded e_def] refl step [unfolded t_def e_def]]
    have "lev_list s' = dropWhile (\<lambda>e. ev_idx e \<le> shipped s) es
       \<and> d' \<and> p' = (if reached (shipped s) es = [] then ev_power e
               else ev_power (last (reached (shipped s) es)))
       \<and> cur_fire s' = (if reached (shipped s) es = [] then ev_fire e
               else ev_fire (last (reached (shipped s) es)))"
      using lt sh by (simp add: t_def e_def)
    with True es show ?thesis by (auto simp: reached_def)
  next
    case False
    then have s': "d' = d" "p' = p" "s' = s"
      using 1(2) by (subst (asm) drain_events.simps, auto simp: e_def)+
    have "reached (shipped s) (lev_list s) = []"
      "dropWhile (\<lambda>e. ev_idx e \<le> shipped s) (lev_list s) = lev_list s"
      using False hd_e lev_list_nonempty [of s] by (cases "lev_list s"; auto simp: reached_def)+
    with s' show ?thesis by simp
  qed
qed

text \<open>The fire state in force once everything queued has been reached.\<close>

definition final_fire :: "'a gf_scheme \<Rightarrow> bool" where
  "final_fire s = (if lev_list s = [] then cur_fire s else ev_fire (last (lev_list s)))"

lemma drain_final_fire: "final_fire (snd (drain_events d p s)) = final_fire s"
proof -
  obtain d' p' s' where e: "drain_events d p s = ((d', p'), s')" by (metis surj_pair)
  have split: "lev_list s = reached (shipped s) (lev_list s) @
                 dropWhile (\<lambda>e. ev_idx e \<le> shipped s) (lev_list s)"
    by (simp add: reached_def)
  show ?thesis
  proof (cases "dropWhile (\<lambda>e. ev_idx e \<le> shipped s) (lev_list s) = []")
    case True
    then have "reached (shipped s) (lev_list s) = lev_list s"
      by (auto simp: reached_def takeWhile_eq_all_conv)
    with True show ?thesis using drain_events_refines [OF e] e by (simp add: final_fire_def)
  next
    case False
    then have "last (lev_list s) = last (dropWhile (\<lambda>e. ev_idx e \<le> shipped s) (lev_list s))"
      "lev_list s \<noteq> []"
      using split by (metis last_appendR, auto)
    with False show ?thesis using drain_events_refines [OF e] e by (auto simp: final_fire_def)
  qed
qed

lemma darken_fold:
  assumes "distinct (map g ks)"
  shows "fold (\<lambda>k lev. lev(g k := (lev (g k))\<lparr>ev_fire := False\<rparr>)) ks lev x =
           (if x \<in> g ` set ks then (lev x)\<lparr>ev_fire := False\<rparr> else lev x)"
  using assms
proof (induction ks arbitrary: lev)
  case (Cons k ks)
  then have "g k \<notin> g ` set ks" by simp
  with Cons show ?case by auto
qed simp

lemma darken_events_list:
  assumes "lev_ok s"
  shows "lev_list (darken_events s) = map (\<lambda>e. e\<lparr>ev_fire := False\<rparr>) (lev_list s)"
proof -
  let ?g = "\<lambda>k. lev_slot (lev_head s + of_nat k)"
  have dis: "distinct (map ?g [0..<lev_pending s])"
    using assms lev_slot_inj [of _ _ "lev_head s"]
    by (auto simp: distinct_map inj_on_def lev_ok_def)
  show ?thesis
    by (auto simp: lev_list_def darken_events_def lev_pending_def darken_fold
          [OF dis [unfolded lev_pending_def]])
qed

section \<open>Where fire comes from\<close>

text \<open>A dark stream: no fire in force and none queued.\<close>

definition stream_dark :: "'a gf_scheme \<Rightarrow> bool" where
  "stream_dark s \<longleftrightarrow> \<not> cur_fire s \<and> (\<forall>e \<in> set (lev_list s). \<not> ev_fire e)"

lemma post_event_dark:
  assumes "\<forall>e \<in> set es. \<not> ev_fire e" "\<not> f"
  shows "\<forall>e \<in> set (post_event i p f es). \<not> ev_fire e"
  using assms by (auto simp: post_event_def dest: in_set_butlastD)

end
