(* ===== verification/Stream_Inv.thy ===== *)
theory Stream_Inv
  imports Stream_Queue
begin

text \<open>
  The invariant of the stream state and its preservation by every operation of
  stepper_stream.c: the transition queue stays bounded, ring bytes carry neither
  FIRE nor the power marker, powers stay in seven bits and the dither in its ranges,
  a power byte has been sent only in a run of ours, and the record of the latch
  agrees with what this process wrote.
\<close>

definition ring_dark :: "'a gf_scheme \<Rightarrow> bool" where
  "ring_dark s \<longleftrightarrow> (\<forall>k. gf_ring s k AND 0x10 = 0 \<and> gf_ring s k AND 0x80 = 0)"

definition power_ok :: "'a gf_scheme \<Rightarrow> bool" where
  "power_ok s \<longleftrightarrow> unat (want_power s) \<le> 127 \<and> (\<forall>k. unat (ev_power (gf_lev s k)) \<le> 127)"

definition run_inv :: "'a gf_scheme \<Rightarrow> bool" where
  "run_inv s \<longleftrightarrow> (power_sent s \<longrightarrow> kernel_running s)"

definition gf_inv :: "'a gf_scheme \<Rightarrow> bool" where
  "gf_inv s \<longleftrightarrow> lev_ok s \<and> ring_dark s \<and> power_ok s \<and> dith_ok s \<and> run_inv s \<and> latch_ok s
      \<and> gf_rate s \<le> 165000"

lemmas gf_inv_defs = gf_inv_def lev_ok_def lev_pending_def ring_dark_def power_ok_def run_inv_def
  latch_ok_def dith_ok_def dith_model_ok_def

text \<open>The fields that the invariant does not read.\<close>

lemma gf_inv_irrel [simp]:
  "gf_inv (s\<lparr>gf_active := x_gf_active\<rparr>) = gf_inv s" "gf_inv (s\<lparr>suspended := x_suspended\<rparr>) = gf_inv s" "gf_inv (s\<lparr>gf_dev := x_gf_dev\<rparr>) = gf_inv s"
  "gf_inv (s\<lparr>gf_fd := x_gf_fd\<rparr>) = gf_inv s" "gf_inv (s\<lparr>gf_dump_fd := x_gf_dump_fd\<rparr>) = gf_inv s" "gf_inv (s\<lparr>gf_depth := x_gf_depth\<rparr>) = gf_inv s"
  "gf_inv (s\<lparr>lead_s := x_lead_s\<rparr>) = gf_inv s" "gf_inv (s\<lparr>min_margin := x_min_margin\<rparr>) = gf_inv s" "gf_inv (s\<lparr>produced := x_produced\<rparr>) = gf_inv s"
  "gf_inv (s\<lparr>shipped := x_shipped\<rparr>) = gf_inv s" "gf_inv (s\<lparr>gf_base := x_gf_base\<rparr>) = gf_inv s" "gf_inv (s\<lparr>streaming := x_streaming\<rparr>) = gf_inv s"
  "gf_inv (s\<lparr>run_pending := x_run_pending\<rparr>) = gf_inv s" "gf_inv (s\<lparr>clear_pending := x_clear_pending\<rparr>) = gf_inv s" "gf_inv (s\<lparr>hold_pending := x_hold_pending\<rparr>) = gf_inv s"
  "gf_inv (s\<lparr>hold_poll_at := x_hold_poll_at\<rparr>) = gf_inv s" "gf_inv (s\<lparr>written := x_written\<rparr>) = gf_inv s" "gf_inv (s\<lparr>run_base := x_run_base\<rparr>) = gf_inv s"
  "gf_inv (s\<lparr>killed := x_killed\<rparr>) = gf_inv s" "gf_inv (s\<lparr>kill_step := x_kill_step\<rparr>) = gf_inv s" "gf_inv (s\<lparr>gf_steps := x_gf_steps\<rparr>) = gf_inv s"
  "gf_inv (s\<lparr>base_steps := x_base_steps\<rparr>) = gf_inv s" "gf_inv (s\<lparr>base_counts := x_base_counts\<rparr>) = gf_inv s" "gf_inv (s\<lparr>base_valid := x_base_valid\<rparr>) = gf_inv s"
  "gf_inv (s\<lparr>gf_zeros := x_gf_zeros\<rparr>) = gf_inv s" "gf_inv (s\<lparr>gf_readback := x_gf_readback\<rparr>) = gf_inv s" "gf_inv (s\<lparr>unplayed := x_unplayed\<rparr>) = gf_inv s"
  "gf_inv (s\<lparr>failed := x_failed\<rparr>) = gf_inv s" "gf_inv (s\<lparr>ship_t0 := x_ship_t0\<rparr>) = gf_inv s" "gf_inv (s\<lparr>clamped := x_clamped\<rparr>) = gf_inv s"
  "gf_inv (s\<lparr>cur_fire := x_cur_fire\<rparr>) = gf_inv s" "gf_inv (s\<lparr>gate_seen := x_gate_seen\<rparr>) = gf_inv s" "gf_inv (s\<lparr>last_lit := x_last_lit\<rparr>) = gf_inv s"
  "gf_inv (s\<lparr>lev_overflow_warned := x_lev_overflow_warned\<rparr>) = gf_inv s" "gf_inv (s\<lparr>want_fire := x_want_fire\<rparr>) = gf_inv s" "gf_inv (s\<lparr>jogging := x_jogging\<rparr>) = gf_inv s"
  "gf_inv (s\<lparr>vticks := x_vticks\<rparr>) = gf_inv s" "gf_inv (s\<lparr>wall_epoch := x_wall_epoch\<rparr>) = gf_inv s" "gf_inv (s\<lparr>period_latched := x_period_latched\<rparr>) = gf_inv s"
  "gf_inv (s\<lparr>threads_started := x_threads_started\<rparr>) = gf_inv s" "gf_inv (s\<lparr>gf_armed := x_gf_armed\<rparr>) = gf_inv s" "gf_inv (s\<lparr>gf_quit := x_gf_quit\<rparr>) = gf_inv s"
  "gf_inv (s\<lparr>fault_flag := x_fault_flag\<rparr>) = gf_inv s" "gf_inv (s\<lparr>laser_armed := x_laser_armed\<rparr>) = gf_inv s" "gf_inv (s\<lparr>fire_gate := x_fire_gate\<rparr>) = gf_inv s"
  "gf_inv (s\<lparr>latch_fail_reported := x_latch_fail_reported\<rparr>) = gf_inv s" "gf_inv (s\<lparr>latch_log_fd := x_latch_log_fd\<rparr>) = gf_inv s" "gf_inv (s\<lparr>stall_ms := x_stall_ms\<rparr>) = gf_inv s"
  "gf_inv (s\<lparr>write_stall_ms := x_write_stall_ms\<rparr>) = gf_inv s" "gf_inv (s\<lparr>gf_stalled := x_gf_stalled\<rparr>) = gf_inv s" "gf_inv (s\<lparr>write_stalled := x_write_stalled\<rparr>) = gf_inv s"
  "gf_inv (s\<lparr>shutdown_done := x_shutdown_done\<rparr>) = gf_inv s" "gf_inv (s\<lparr>io_errno := x_io_errno\<rparr>) = gf_inv s"
  by (simp_all add: gf_inv_defs)

section \<open>I/O helpers\<close>

lemma dev_write_upd [frame_simps]:
  "dev_write os x buf s = (snd (os_write os (io_tr s) x buf),
     s\<lparr>io_tr := Ev_pulse x buf (fst (os_write os (io_tr s) x buf)) (snd (os_write os (io_tr s) x buf)) # io_tr s,
       io_errno := (case snd (os_write os (io_tr s) x buf) of Ret n \<Rightarrow> io_errno s | Err e \<Rightarrow> e)\<rparr>)"
  by (auto simp: dev_write_def emit_def Let_def split: prod.splits sysret.splits)

lemma pulse_write_from_frame:
  "\<exists>t e. snd (pulse_write_from os x buf k s) = s\<lparr>io_tr := t, io_errno := e\<rparr>
      \<and> latch_view t = latch_view (io_tr s) \<and> unlocks_own t = unlocks_own (io_tr s)"
proof (induction os x buf k s rule: pulse_write_from.induct)
  case (1 os x buf k s)
  obtain a s1 where w: "dev_write os x buf s = (a, s1)" by fastforce
  obtain t1 e1 where s1: "s1 = s\<lparr>io_tr := t1, io_errno := e1\<rparr>" "latch_view t1 = latch_view (io_tr s)"
    "unlocks_own t1 = unlocks_own (io_tr s)"
    using w by (auto simp: frame_simps)
  obtain st s2 where r: "gfio_rd_attr os Cnc_state 16 s1 = (st, s2)" by fastforce
  define t2 where "t2 = Ev_rd Cnc_state st # t1"
  have s2: "s2 = s\<lparr>io_tr := t2, io_errno := e1\<rparr>" "latch_view t2 = latch_view (io_tr s)"
    "unlocks_own t2 = unlocks_own (io_tr s)"
    using r s1 by (auto simp: frame_simps t2_def)
  consider "buf = []" | n where "buf \<noteq> []" "a = Ret n" "n = 0" | n where "buf \<noteq> []" "a = Ret n" "n > 0"
    | e where "buf \<noteq> []" "a = Err e" "\<not> ((e = ENOMEM \<or> e = EAGAIN) \<and> k + 1 \<le> PULSE_WRITE_BACKOFF_MAX)"
    | e where "buf \<noteq> []" "a = Err e" "(e = ENOMEM \<or> e = EAGAIN) \<and> k + 1 \<le> PULSE_WRITE_BACKOFF_MAX"
        "(k + 1) mod PULSE_WRITE_STATE_EVERY = 0" "st = Some ''fault'' \<or> st = Some ''underrun''"
    | e where "buf \<noteq> []" "a = Err e" "(e = ENOMEM \<or> e = EAGAIN) \<and> k + 1 \<le> PULSE_WRITE_BACKOFF_MAX"
        "(k + 1) mod PULSE_WRITE_STATE_EVERY = 0" "\<not> (st = Some ''fault'' \<or> st = Some ''underrun'')"
    | e where "buf \<noteq> []" "a = Err e" "(e = ENOMEM \<or> e = EAGAIN) \<and> k + 1 \<le> PULSE_WRITE_BACKOFF_MAX"
        "(k + 1) mod PULSE_WRITE_STATE_EVERY \<noteq> 0"
    by (cases a; cases "buf = []"; fastforce)
  then show ?case
  proof cases
    case 1
    then show ?thesis
      by (intro exI [of _ "io_tr s"] exI [of _ "io_errno s"]) (simp add: pulse_write_from.simps)
  next
    case (2 n)
    then show ?thesis using w s1
      by (intro exI [of _ t1] exI [of _ EIO]) (simp add: pulse_write_from.simps)
  next
    case (3 n)
    then show ?thesis using "1"(1) [OF 3(1) w [symmetric] refl 3(2,3)] w s1
      by (subst pulse_write_from.simps) auto
  next
    case (4 e)
    then show ?thesis using w s1
      by (intro exI [of _ t1] exI [of _ e1]) (subst pulse_write_from.simps, auto)
  next
    case (5 e)
    then show ?thesis using w r s2
      by (intro exI [of _ t2] exI [of _ EIO]) (subst pulse_write_from.simps, auto)
  next
    case (6 e)
    then show ?thesis
      using "1"(2) [OF 6(1) w [symmetric] refl 6(2,3,4) r [symmetric] refl 6(5)] w r s2
      by (subst pulse_write_from.simps) (auto simp: sleep_ns_upd)
  next
    case (7 e)
    then show ?thesis
      using "1"(3) [OF 7(1) w [symmetric] refl 7(2,3,4)] w s1
      by (subst pulse_write_from.simps) (auto simp: sleep_ns_upd)
  qed
qed

lemma pulse_write_frame:
  assumes "pulse_write os x buf s = (ok, s')"
  obtains t e where "s' = s\<lparr>io_tr := t, io_errno := e\<rparr>" "latch_view t = latch_view (io_tr s)"
    "unlocks_own t = unlocks_own (io_tr s)"
  using pulse_write_from_frame [of os x buf 0 s] assms by (auto simp: pulse_write_def)

section \<open>The producer side\<close>

lemma clamp_locked_inv: "gf_inv s \<Longrightarrow> gf_inv (snd (clamp_locked os s))"
  by (simp add: clamp_locked_def gf_inv_defs frame_simps Let_def)

lemma pulse_place_inv:
  assumes "gf_inv s" "b AND 0x10 = 0" "b AND 0x80 = 0"
  shows "gf_inv (pulse_place b i s)"
  using assms by (auto simp: pulse_place_def gf_inv_defs Let_def)

lemma gf_stream_pulse_inv:
  assumes "gf_inv s"
  shows "gf_inv (gf_stream_pulse os sb db s)"
proof -
  define s1 where "s1 = (if int (event_idx s) - int (shipped s) < min_margin s
                         then s\<lparr>min_margin := int (event_idx s) - int (shipped s)\<rparr> else s)"
  have s1: "gf_inv s1" "shipped s1 = shipped s" using assms by (simp_all add: s1_def)
  obtain d s2 where c: "clamp_locked os s1 = (d, s2)" by fastforce
  have s2: "gf_inv s2" using clamp_locked_inv [OF s1(1), of os] c by simp
  have place: "gf_inv (pulse_place (pulse_byte sb db) i s)" if "gf_inv s" for i and s :: "'a gf_scheme"
    using pulse_place_inv [OF that] pulse_byte_dark [of sb db] by (simp add: FIRE_BIT_def)
  show ?thesis
    using assms s1 s2 place c
    by (simp add: gf_stream_pulse_def Let_def flip: s1_def)
qed

lemma gf_invD: "gf_inv s \<Longrightarrow> unat (want_power s) \<le> 127" "gf_inv s \<Longrightarrow> lev_ok s"
  "gf_inv s \<Longrightarrow> unat (ev_power (gf_lev s k)) \<le> 127" "gf_inv s \<Longrightarrow> unat (cur_power s) \<le> 127"
  by (simp_all add: gf_inv_def power_ok_def dith_ok_def)

lemma lev_push_inv:
  assumes "gf_inv s" "lev_pending s < 4096" "unat p \<le> 127"
  shows "gf_inv (lev_push i p f s)"
proof -
  have "lev_ok (lev_push i p f s)"
    using assms lev.push_ok [of s] by (simp add: lev_push_append gf_inv_def)
  then show ?thesis using assms by (auto simp: gf_inv_defs lev_push_def)
qed

lemma lev_merge_inv: "gf_inv s \<Longrightarrow> unat p \<le> 127 \<Longrightarrow> gf_inv (lev_merge p f s)"
  by (auto simp: gf_inv_defs lev_merge_def)

lemma laser_queue_inv:
  assumes "gf_inv s" "unat p \<le> 127"
  shows "gf_inv (laser_queue i p f s)"
proof -
  show ?thesis
    using assms by (auto simp: laser_queue_def Let_def pending_word intro!: lev_push_inv lev_merge_inv)
qed

lemma laser_event_locked_inv:
  assumes "gf_inv s" "unat p \<le> 127"
  shows "gf_inv (laser_event_locked os p f s)"
  using assms clamp_locked_inv [OF assms(1), of os]
  by (auto simp: laser_event_locked_def Let_def intro!: laser_queue_inv split: prod.splits)

lemma and_7f_bound: "unat (p AND 0x7f :: u8) \<le> 127"
proof -
  have "p AND 0x7f \<le> 0x7f" by (rule word_and_le1)
  then show ?thesis by (simp add: word_le_nat_alt)
qed

lemma gf_stream_laser_inv: "gf_inv s \<Longrightarrow> gf_inv (gf_stream_laser os p f s)"
proof -
  assume "gf_inv s"
  then have "gf_inv (s\<lparr>want_power := p AND 0x7f, want_fire := f\<rparr>)"
    using and_7f_bound [of p] by (simp add: gf_inv_def lev_ok_def lev_pending_def ring_dark_def
        power_ok_def run_inv_def latch_ok_def dith_ok_def dith_model_ok_def)
  then show ?thesis using \<open>gf_inv s\<close> and_7f_bound [of p]
    by (auto simp: gf_stream_laser_def Let_def intro!: laser_event_locked_inv)
qed

lemma gf_stream_jog_inv: "gf_inv s \<Longrightarrow> gf_inv (gf_stream_jog os j s)"
  by (auto simp: gf_stream_jog_def Let_def intro!: laser_event_locked_inv gf_invD)

lemma wake_fresh_inv: "gf_inv s \<Longrightarrow> gf_inv (wake_fresh s)"
  by (auto simp: wake_fresh_def gf_inv_defs)

lemma wake_continue_inv: "gf_inv s \<Longrightarrow> gf_inv (wake_continue os s)"
  by (auto simp: wake_continue_def gf_inv_defs frame_simps Let_def)

lemma wake_reassert_inv: "gf_inv s \<Longrightarrow> gf_inv (wake_reassert s)"
  by (auto simp: wake_reassert_def Let_def pending_word intro!: lev_push_inv gf_invD)

lemma wr_attr_inv:
  "a \<noteq> Cnc_laser_latch \<Longrightarrow> gf_inv s \<Longrightarrow> gf_inv (wr_attr os a v s)"
  by (simp add: gf_inv_defs frame_simps)

lemma wake_locked_inv:
  assumes "gf_inv s"
  shows "gf_inv (wake_locked os s)"
proof -
  obtain now s1 where w: "wall_s os (s\<lparr>streaming := True, vticks := 0\<rparr>) = (now, s1)" by fastforce
  let ?s2 = "s1\<lparr>wall_epoch := now, hold_pending := False\<rparr>"
  have s2: "gf_inv ?s2" using assms w by (auto simp: gf_inv_defs frame_simps)
  define s3 where "s3 = (if \<not> kernel_running ?s2 then wake_fresh ?s2 else wake_continue os ?s2)"
  have s3: "gf_inv s3" using s2 by (simp add: s3_def wake_fresh_inv wake_continue_inv del: gf.simps)
  then have s4: "gf_inv (wake_reassert (s3\<lparr>gf_base := produced s3\<rparr>))"
    by (intro wake_reassert_inv) simp
  then show ?thesis using s4 w
    by (simp add: wake_locked_def Let_def s3_def [simplified] wr_attr_inv)
qed

lemma currents_inv:
  "gf_inv s \<Longrightarrow> gf_inv (gfio_currents_run os s)" "gf_inv s \<Longrightarrow> gf_inv (gfio_currents_hold os s)"
  by (simp_all add: gfio_currents_run_def gfio_currents_hold_def Let_def wr_attr_inv)

lemma gf_stream_wakeup_inv:
  assumes "gf_inv s"
  shows "gf_inv (gf_stream_wakeup os s)"
proof -
  define s1 where "s1 = (if gf_active s then gfio_currents_run os s else s)"
  have s1: "gf_inv s1" using assms by (simp add: s1_def currents_inv)
  define s2 where "s2 = s1\<lparr>killed := False, kill_step := 0\<rparr>"
  have s2: "gf_inv s2" using s1 by (simp add: s2_def)
  then show ?thesis using assms wake_locked_inv [OF s2, of os]
    by (simp add: gf_stream_wakeup_def Let_def flip: s1_def s2_def)
qed

lemma idle_dark_inv: "gf_inv s \<Longrightarrow> gf_inv (idle_dark s)"
  by (auto simp: idle_dark_def Let_def pending_word intro!: lev_push_inv lev_merge_inv gf_invD)
     (auto simp: lev_pending_def)

lemma gf_stream_go_idle_inv:
  assumes "gf_inv s"
  shows "gf_inv (gf_stream_go_idle r sb db s)"
proof -
  define s1 where "s1 = (if r \<and> (streaming s \<or> \<not> suspended s)
     then s\<lparr>gf_armed := False, kill_step := (if streaming s then pulse_byte sb db
            else if \<not> killed s then 0 else kill_step s), killed := True\<rparr>
     else s\<lparr>gf_armed := False\<rparr>)"
  have s1: "gf_inv s1" using assms by (simp add: s1_def)
  have "gf_stream_go_idle r sb db s = (if streaming s1 then (idle_dark s1)\<lparr>streaming := False\<rparr> else s1)"
    by (simp add: gf_stream_go_idle_def Let_def s1_def)
  then show ?thesis using s1 idle_dark_inv [OF s1] by simp
qed

section \<open>The shipper side\<close>

lemma pulse_write_inv:
  assumes "gf_inv s" "pulse_write os x buf s = (ok, s')"
  shows "gf_inv s'"
proof -
  obtain t e where "s' = s\<lparr>io_tr := t, io_errno := e\<rparr>" "latch_view t = latch_view (io_tr s)"
    "unlocks_own t = unlocks_own (io_tr s)"
    using pulse_write_frame [OF assms(2)] .
  then show ?thesis using assms(1) by (simp add: gf_inv_defs)
qed

text \<open>Events of no concern to the latch.\<close>

lemma emit_inv:
  assumes "gf_inv s" "latch_view (e # io_tr s) = latch_view (io_tr s)"
    "unlocks_own (e # io_tr s) = unlocks_own (io_tr s)"
  shows "gf_inv (emit e s)"
  using assms by (simp add: gf_inv_defs emit_def)

lemma io_inv:
  "gf_inv s \<Longrightarrow> gf_inv (snd (wall_s os s))" "gf_inv s \<Longrightarrow> gf_inv (snd (gfio_rd_attr os a n s))"
  "gf_inv s \<Longrightarrow> gf_inv (snd (gfio_rd_bin os a n s))" "gf_inv s \<Longrightarrow> gf_inv (sleep_ns k s)"
  "gf_inv s \<Longrightarrow> gf_inv (snd (lseek_dev os x p s))" "gf_inv s \<Longrightarrow> gf_inv (latch_log w s)"
  "gf_inv s \<Longrightarrow> gf_inv (dump_write buf s)"
  by (simp_all add: wall_s_def gfio_rd_attr_def gfio_rd_bin_def sleep_ns_def lseek_dev_def
        latch_log_def dump_write_def Let_def emit_inv)

lemma kernel_reads_inv:
  "gf_inv s \<Longrightarrow> gf_inv (snd (kernel_steps os s))" "gf_inv s \<Longrightarrow> gf_inv (snd (kernel_counts os s))"
  "gf_inv s \<Longrightarrow> gf_inv (snd (gf_stream_kernel_idle os s))"
  using io_inv(3) [of s os Cnc_position 32] io_inv(2) [of s os Cnc_state 16]
  by (auto simp: kernel_steps_def kernel_counts_def gf_stream_kernel_idle_def Let_def
           split: prod.splits option.splits)

lemma sink_write_inv:
  assumes "gf_inv s"
  shows "gf_inv (snd (sink_write os a x buf r s))"
  using assms pulse_write_inv [OF assms, of os x buf]
  by (cases "pulse_write os x buf s") (auto simp: sink_write_def io_inv)

lemma dark_pad_inv:
  assumes "gf_inv s"
  shows "gf_inv (dark_pad os s)"
proof -
  have d: "gf_inv (dump_write [0] s)" by (simp add: io_inv assms)
  obtain ok s1 where p: "pulse_write os (gf_fd (dump_write [0] s)) [0] (dump_write [0] s) = (ok, s1)"
    by fastforce
  show ?thesis using d pulse_write_inv [OF d p] p by (simp add: dark_pad_def Let_def)
qed

lemma dither_reset_inv: "gf_inv s \<Longrightarrow> gf_inv (dither_reset s)"
  using dither_reset_ok [of s]
  by (simp add: gf_inv_def lev_ok_def lev_pending_def ring_dark_def power_ok_def run_inv_def
        latch_ok_def dither_reset_def)

lemma run_end_inv:
  "gf_inv s \<Longrightarrow> gf_inv (s\<lparr>kernel_running := False, power_sent := False\<rparr>)"
  "gf_inv s \<Longrightarrow> gf_inv (s\<lparr>power_sent := False\<rparr>)" "gf_inv s \<Longrightarrow> gf_inv (s\<lparr>kernel_running := True\<rparr>)"
  by (simp_all add: gf_inv_defs)

lemma pending_first_inv: "gf_inv s \<Longrightarrow> gf_inv (snd (pending_first os s))"
  by (simp add: pending_first_def Let_def dark_pad_inv)

lemma clear_locked_inv:
  assumes "gf_inv s"
  shows "gf_inv (clear_locked a c z r s)"
proof -
  have k: "gf_inv (s\<lparr>clear_pending := x, run_pending := y, kernel_running := False, power_sent := False\<rparr>)"
    if "gf_inv s" for s :: "'a gf_scheme" and x y
    using run_end_inv(1) [of "s\<lparr>clear_pending := x, run_pending := y\<rparr>"] that by simp
  show ?thesis
    using assms unfolding clear_locked_def Let_def
    by (intro dither_reset_inv k) (auto simp: settle_readback_def rebase_locked_def)
qed

lemma pending_dead_inv: "gf_inv s \<Longrightarrow> gf_inv (pending_dead s)"
  by (simp add: pending_dead_def Let_def)

text \<open>What the invariant asks of the other threads.\<close>

definition keeps :: "('s \<Rightarrow> bool) \<Rightarrow> (nat \<Rightarrow> 's \<Rightarrow> 's) \<Rightarrow> bool" where
  "keeps P others \<longleftrightarrow> (\<forall>k s. P s \<longrightarrow> P (others k s))"

lemma keepsD: "keeps P others \<Longrightarrow> P s \<Longrightarrow> P (others k s)"
  by (simp add: keeps_def)

lemma pending_pass_inv:
  assumes "gf_inv s" "keeps gf_inv others"
  shows "gf_inv (snd (pending_pass os others s))"
proof -
  obtain c r a z s1 where f: "pending_first os s = ((c, r, a, z), s1)" by (metis surj_pair)
  have s1: "gf_inv s1" using pending_first_inv [OF assms(1), of os] f by simp
  obtain st s2 where r: "(if a then gfio_rd_attr os Cnc_state 16 s1 else (Some [], s1)) = (st, s2)"
    by fastforce
  have s2: "gf_inv s2" using s1 r io_inv(2) [OF s1, of os Cnc_state 16] by (auto split: if_splits)
  obtain cl s3 where l: "(if a then lseek_dev os (gf_fd s2) 1 s2 else (True, s2)) = (cl, s3)" by fastforce
  have s3: "gf_inv s3" using s2 l io_inv(5) [OF s2, of os "gf_fd s2" 1] by (auto split: if_splits)
  obtain rd s4 where k: "(if cl \<and> a then kernel_steps os s3 else (None, s3)) = (rd, s4)" by fastforce
  have s4: "gf_inv s4" using s3 k kernel_reads_inv(1) [OF s3, of os] by (auto split: if_splits)
  have "gf_inv (others 2 s2)" "gf_inv (others 2 s4)" using keepsD [OF assms(2)] s2 s4 by blast+
  then show ?thesis
    using f r l k s1 s2 by (auto simp: pending_pass_def Let_def clear_locked_inv pending_dead_inv)
qed

end
