(* ===== verification/Stream_Inv2.thy ===== *)
theory Stream_Inv2
  imports Stream_Inv
begin

text \<open>
  The invariant through the shipper's loops and the life cycle of the stream: what
  a tick, a chunk, a pass, a reset and a hand-over keep.
\<close>

text \<open>Inside a chunk the power byte is in the buffer and the run is not yet marked ours.\<close>

definition tick_inv :: "'a gf_scheme \<Rightarrow> bool" where
  "tick_inv s \<longleftrightarrow> gf_inv (s\<lparr>kernel_running := True\<rparr>)"

lemma tick_inv_alt:
  "tick_inv s \<longleftrightarrow> lev_ok s \<and> ring_dark s \<and> power_ok s \<and> dith_ok s \<and> latch_ok s \<and> gf_rate s \<le> 165000"
  by (simp add: tick_inv_def gf_inv_defs)

lemma gf_inv_tick: "gf_inv s \<longleftrightarrow> tick_inv s \<and> run_inv s"
  by (auto simp: tick_inv_alt gf_inv_def)

lemma lev_pop_ok: "lev_head s \<noteq> lev_tail s \<Longrightarrow> lev_ok s \<Longrightarrow> lev_ok (lev_pop s)"
  using lev.pop_ok [of s] by (simp add: lev_list_nonempty)

lemma drain_events_inv:
  assumes "tick_inv s" "unat p \<le> 127" "drain_events d p s = ((d', p'), s')"
  shows "tick_inv s' \<and> unat p' \<le> 127"
  using assms
proof (induction d p s arbitrary: d' p' s' rule: drain_events.induct)
  case (1 d p s)
  let ?e = "gf_lev s (lev_slot (lev_head s))"
  let ?t = "s\<lparr>cur_fire := ev_fire ?e, lev_head := lev_head s + 1\<rparr>"
  show ?case
  proof (cases "lev_head s \<noteq> lev_tail s \<and> ev_idx ?e \<le> shipped s")
    case True
    then have step: "drain_events True (ev_power ?e) ?t = ((d', p'), s')"
      using "1.prems"(3) by (subst (asm) drain_events.simps) (simp add: Let_def)
    have "lev_ok (lev_pop s)" using True "1.prems"(1) by (simp add: tick_inv_alt lev_pop_ok)
    then have "lev_ok ?t" by (simp add: lev_ok_def lev_pending_def lev_pop_def)
    then have "tick_inv ?t" using "1.prems"(1)
      by (simp add: tick_inv_alt ring_dark_def power_ok_def dith_ok_def dith_model_ok_def latch_ok_def)
    moreover have "unat (ev_power ?e) \<le> 127" using "1.prems"(1) by (simp add: tick_inv_alt power_ok_def)
    ultimately show ?thesis using "1.IH" [OF True refl] step by blast
  next
    case False
    then have "s' = s" "p' = p" using "1.prems"(3) by (subst (asm) drain_events.simps, auto)+
    then show ?thesis using "1.prems" by simp
  qed
qed

lemma power_bytes_inv:
  assumes "tick_inv s" "unat p \<le> 127"
  shows "tick_inv (snd (power_bytes d p s))"
  using assms
  by (simp add: power_bytes_def Let_def tick_inv_alt lev_ok_def lev_pending_def ring_dark_def
        power_ok_def dith_ok_def dith_model_ok_def latch_ok_def)

lemma dither_tick_inv:
  assumes "tick_inv s" "dith_period s \<noteq> 0"
  shows "tick_inv (snd (dither_tick s))"
proof -
  obtain l on a where d: "snd (dither_tick s) = s\<lparr>dith_left := l, dith_on := on, dith_acc := a\<rparr>"
    using dither_tick_frame by blast
  have "dith_ok (snd (dither_tick s))" using assms by (simp add: tick_inv_alt dither_tick_ok)
  then show ?thesis using assms(1)
    by (simp add: d tick_inv_alt lev_ok_def lev_pending_def ring_dark_def power_ok_def latch_ok_def)
qed

lemma ship_tick_inv:
  assumes "tick_inv s"
  shows "tick_inv (snd (ship_tick gate s))"
proof -
  obtain d p1 s1 where d: "drain_events False (cur_power s) s = ((d, p1), s1)" by (metis surj_pair)
  have "unat (cur_power s) \<le> 127" using assms by (simp add: tick_inv_alt dith_ok_def)
  then have s1: "tick_inv s1" "unat p1 \<le> 127" using drain_events_inv [OF assms _ d] by auto
  define s2 where "s2 = (if d \<and> \<not> cur_fire s1 then dither_reset s1 else s1)"
  have s2: "tick_inv s2" using s1 dither_reset_ok [of s1]
    by (simp add: s2_def tick_inv_alt dither_reset_def lev_ok_def lev_pending_def ring_dark_def
          power_ok_def latch_ok_def)
  obtain pb s3 where p: "power_bytes d p1 s2 = (pb, s3)" by fastforce
  have s3: "tick_inv s3" using power_bytes_inv [OF s2 s1(2), of d] p by simp
  define s4 where "s4 = s3\<lparr>gf_ring := (gf_ring s3)(ring_slot (shipped s3) := 0)\<rparr>"
  have s4: "tick_inv s4" using s3
    by (simp add: s4_def tick_inv_alt ring_dark_def lev_ok_def lev_pending_def power_ok_def
          dith_ok_def dith_model_ok_def latch_ok_def)
  obtain lit s5 where fi: "fire_tick gate s4 = (lit, s5)" by fastforce
  have s5: "tick_inv s5" using s4 dither_tick_inv [OF s4] fi
    by (auto simp: fire_tick_def split: if_splits)
  have "tick_inv (s5\<lparr>last_lit := l, shipped := n\<rparr>)" for l n
    using s5 by (simp add: tick_inv_alt lev_ok_def lev_pending_def ring_dark_def power_ok_def
        dith_ok_def dith_model_ok_def latch_ok_def)
  then show ?thesis using d p fi by (simp add: ship_tick_def Let_def flip: s2_def s4_def)
qed

lemma build_chunk_inv:
  assumes "tick_inv s"
  shows "tick_inv (snd (build_chunk gate strm due n s))"
  using assms
proof (induction gate strm due n s rule: build_chunk.induct)
  case (1 gate strm due n s)
  show ?case
  proof (cases "n < SHIP_CHUNK - 1 \<and> shipped s < due \<and> (strm \<or> shipped s < produced s)")
    case True
    have "tick_inv (snd (ship_tick gate s))" using ship_tick_inv "1.prems" by blast
    then show ?thesis using "1.IH" [OF True refl refl] True
      by (subst build_chunk.simps) (auto simp: Let_def split: prod.splits)
  next
    case False
    then show ?thesis using "1.prems" by (subst build_chunk.simps) auto
  qed
qed

text \<open>The frame of a chunk: only the shipped part of the state moves.\<close>

lemma build_chunk_frame:
  "\<exists>h f p b l on a lit r sh. snd (build_chunk gate strm due n s) =
     s\<lparr>lev_head := h, cur_fire := f, cur_power := p, power_sent := b,
       dith_left := l, dith_on := on, dith_acc := a, last_lit := lit,
       gf_ring := r, shipped := sh\<rparr>"
proof (induction gate strm due n s rule: build_chunk.induct)
  case (1 gate strm due n s)
  show ?case
  proof (cases "n < SHIP_CHUNK - 1 \<and> shipped s < due \<and> (strm \<or> shipped s < produced s)")
    case True
    let ?t = "snd (ship_tick gate s)"
    obtain h f p b l on a lit r sh where
      "snd (build_chunk gate strm due (n + length (fst (fst (ship_tick gate s))) + 1) ?t) =
       ?t\<lparr>lev_head := h, cur_fire := f, cur_power := p, power_sent := b,
         dith_left := l, dith_on := on, dith_acc := a, last_lit := lit, gf_ring := r, shipped := sh\<rparr>"
      using "1.IH" [OF True refl refl] by blast
    moreover have "\<dots> = s\<lparr>lev_head := h, cur_fire := f, cur_power := p, power_sent := b,
         dith_left := l, dith_on := on, dith_acc := a, last_lit := lit, gf_ring := r, shipped := sh\<rparr>"
    proof -
      obtain h' f' p' b' l' on' a' lit' where
        t: "?t = s\<lparr>lev_head := h', cur_fire := f', cur_power := p', power_sent := b',
           dith_left := l', dith_on := on', dith_acc := a', last_lit := lit',
           gf_ring := (gf_ring s)(ring_slot (shipped s) := 0), shipped := shipped s + 1\<rparr>"
        using ship_tick_frame [of gate s] by blast
      show ?thesis unfolding t by simp
    qed
    ultimately have "snd (build_chunk gate strm due n s) =
        s\<lparr>lev_head := h, cur_fire := f, cur_power := p, power_sent := b,
         dith_left := l, dith_on := on, dith_acc := a, last_lit := lit, gf_ring := r, shipped := sh\<rparr>"
      using True by (subst build_chunk.simps) (auto simp: Let_def split: prod.splits)
    then show ?thesis by blast
  next
    case False
    then have eq: "snd (build_chunk gate strm due n s) = s" by (subst build_chunk.simps) auto
    show ?thesis unfolding eq
      by (rule exI [of _ "lev_head s"],
          rule exI [of _ "cur_fire s"],
          rule exI [of _ "cur_power s"],
          rule exI [of _ "power_sent s"],
          rule exI [of _ "dith_left s"],
          rule exI [of _ "dith_on s"],
          rule exI [of _ "dith_acc s"],
          rule exI [of _ "last_lit s"],
          rule exI [of _ "gf_ring s"],
          rule exI [of _ "shipped s"]) simp
  qed
qed

lemma chunk_claim_inv: "tick_inv s \<Longrightarrow> gf_inv (chunk_claim s)"
  by (simp add: chunk_claim_def tick_inv_def)

lemma chunk_write_inv:
  assumes "gf_inv s" "keeps gf_inv others"
  shows "gf_inv (snd (chunk_write os others ch s))"
proof -
  obtain now s1 where w: "wall_s os s = (now, s1)" by fastforce
  have s1: "gf_inv (dump_write ch s1)" using io_inv(1) [OF assms(1), of os] w by (simp add: io_inv)
  then show ?thesis
    using sink_write_inv [OF s1, of os "gf_active s1" "gf_fd s1" ch "now - ship_t0 s1"] w
    by (simp add: chunk_write_def Let_def keepsD [OF assms(2)] case_prod_beta)
qed

lemma chunk_end_inv:
  "gf_inv s \<Longrightarrow> gf_inv (chunk_failed s)" "gf_inv s \<Longrightarrow> gf_inv (chunk_taken a ch cs s)"
  by (simp_all add: chunk_failed_def chunk_taken_def)

lemma ship_chunks_inv:
  assumes "gf_inv s" "keeps gf_inv others"
  shows "gf_inv (snd (ship_chunks os others gate due fuel strm sr s))"
  using assms(1)
proof (induction fuel arbitrary: strm sr s)
  case (Suc fuel)
  obtain ch cs s1 where b: "build_chunk gate strm due 0 s = ((ch, cs), s1)" by (metis surj_pair)
  have "tick_inv s1" using build_chunk_inv [of s gate strm due 0] Suc.prems b by (simp add: gf_inv_tick)
  then have s2: "gf_inv (chunk_claim s1)" by (rule chunk_claim_inv)
  obtain ok s3 where w: "chunk_write os others ch (chunk_claim s1) = (ok, s3)" by fastforce
  have s3: "gf_inv s3" using chunk_write_inv [OF s2 assms(2), of os ch] w by simp
  then have "gf_inv (chunk_failed s3)" "gf_inv (chunk_taken a ch cs s3)" for a
    by (simp_all add: chunk_end_inv)
  then show ?case using Suc b w by (simp add: Let_def)
qed simp

section \<open>The pass\<close>

lemma darken_events_frame:
  "darken_events s = s\<lparr>gf_lev := gf_lev (darken_events s)\<rparr>"
  by (simp add: darken_events_def)

lemma gate_edge_inv:
  assumes "gf_inv s"
  shows "gf_inv (gate_edge gate s)"
proof -
  have fold: "unat (ev_power (fold (\<lambda>k lev. lev(g k := (lev (g k))\<lparr>ev_fire := False\<rparr>)) ks lev x)) \<le> 127"
    if "\<forall>k. unat (ev_power (lev k)) \<le> 127" for g :: "nat \<Rightarrow> nat" and ks and lev :: "nat \<Rightarrow> laser_ev" and x
    using that by (induction ks arbitrary: lev) auto
  have "gf_inv (darken_events s)" if "gf_inv s" for s :: "'a gf_scheme"
    using that by (simp add: darken_events_def gf_inv_def lev_ok_def lev_pending_def ring_dark_def
        power_ok_def run_inv_def latch_ok_def dith_ok_def dith_model_ok_def fold)
  then show ?thesis using assms by (simp add: gate_edge_def Let_def dither_reset_inv)
qed

lemma stream_end_inv:
  assumes "gf_inv s"
  shows "gf_inv (stream_end os s)"
proof -
  define s1 where "s1 = (if last_lit s then (let s = dark_pad os s; s = s\<lparr>shipped := shipped s + 1\<rparr>
       in s\<lparr>produced := shipped s, cur_fire := False, last_lit := False\<rparr>) else s)"
  have s1: "gf_inv s1" using assms by (simp add: s1_def Let_def dark_pad_inv)
  define s2 where "s2 = (if gf_active s1 then wr_attr os Cnc_streaming ''0'' s1 else s1)"
  have s2: "gf_inv s2" using s1 by (simp add: s2_def wr_attr_inv)
  have "gf_inv (s2\<lparr>kernel_running := False, run_pending := False, power_sent := False\<rparr>)"
    using run_end_inv(1) [OF s2] by (simp add: gf_inv_defs)
  then have "gf_inv ((dither_reset (s2\<lparr>kernel_running := False, run_pending := False,
       power_sent := False\<rparr>))\<lparr>hold_pending := True\<rparr>)"
    by (simp add: dither_reset_inv)
  from io_inv(1) [OF this, of os] show ?thesis
    by (simp add: stream_end_def Let_def case_prod_beta flip: s1_def s2_def)
qed

lemma hold_poll_inv:
  assumes "gf_inv s"
  shows "gf_inv (hold_poll os s)"
proof -
  obtain now s1 where w: "wall_s os s = (now, s1)" by fastforce
  have s1: "gf_inv s1" using io_inv(1) [OF assms, of os] w by simp
  obtain st s2 where r: "gfio_rd_attr os Cnc_state 16 s1 = (st, s2)" by fastforce
  have s2: "gf_inv s2" using io_inv(2) [OF s1, of os Cnc_state 16] r by simp
  obtain n2 s3 where w2: "wall_s os s2 = (n2, s3)" by fastforce
  have "gf_inv s3" using io_inv(1) [OF s2, of os] w2 by simp
  then show ?thesis using assms s1 s2 w r w2
    by (simp add: hold_poll_def currents_inv split del: if_split) (simp add: currents_inv)
qed

lemma fail_once_inv: "gf_inv s \<Longrightarrow> gf_inv (fail_once s)"
  by (simp add: fail_once_def)

lemma run_gate_inv:
  assumes "gf_inv s"
  shows "gf_inv (snd (run_gate os b w s))"
proof -
  obtain st s1 where r: "gfio_rd_attr os Cnc_state 16 s = (st, s1)" by fastforce
  have s1: "gf_inv s1" using io_inv(2) [OF assms, of os Cnc_state 16] r by simp
  obtain c s2 where k: "kernel_counts os s1 = (c, s2)" by fastforce
  have s2: "gf_inv s2" using kernel_reads_inv(2) [OF s1, of os] k by simp
  show ?thesis using r k s1 s2
    by (auto simp: run_gate_def Let_def fail_once_inv split: option.splits)
qed

lemma latch_write_locked_inv:
  assumes "gf_inv s"
  shows "gf_inv (snd (latch_write_locked os lock s))"
proof -
  obtain ok s' where w: "latch_write_locked os lock s = (ok, s')" by fastforce
  obtain t e r where s': "s' = s\<lparr>io_tr := t, io_errno := e,
      latch_locked_by_us := (if ok then lock else latch_locked_by_us s), latch_fail_reported := r\<rparr>"
    using latch_write_locked_frame [OF w] .
  have "latch_ok s'" using latch_write_locked_ok [OF w] assms by (simp add: gf_inv_def)
  then have "gf_inv s'" using assms
    by (simp add: s' gf_inv_def lev_ok_def lev_pending_def ring_dark_def power_ok_def run_inv_def
          dith_ok_def dith_model_ok_def)
  then show ?thesis using w by simp
qed

lemma latch_fault_inv: "gf_inv s \<Longrightarrow> gf_inv (latch_fault s)"
  by (simp add: latch_fault_def)

lemma gf_stream_laser_latch_inv:
  "gf_inv s \<Longrightarrow> gf_inv (snd (gf_stream_laser_latch os lock s))"
  using latch_write_locked_inv [of s os lock]
  by (auto simp: gf_stream_laser_latch_def Let_def case_prod_beta latch_fault_inv)

lemma gfhome_invalidate_inv: "gf_inv s \<Longrightarrow> gf_inv (gfhome_invalidate s)"
  by (simp add: gfhome_invalidate_upd gf_inv_defs)

lemma issue_request_inv:
  assumes "gf_inv s"
  shows "gf_inv (snd (issue_request os n s))"
  using assms
proof (induction n arbitrary: s)
  case 0
  obtain rc s1 where w: "gfio_wr_attr os Cnc_run ''1'' s = (rc, s1)" by fastforce
  have s1: "gf_inv s1" using wr_attr_inv [of Cnc_run s os "''1''"] 0 w by (simp add: wr_attr_def)
  obtain st s2 where r: "gfio_rd_attr os Cnc_state 16 s1 = (st, s2)" by fastforce
  have s2: "gf_inv s2" using io_inv(2) [OF s1, of os Cnc_state 16] r by simp
  show ?case using w r s1 s2
    by (simp add: issue_request.simps [of os 0 s] Let_def fail_once_inv wr_attr_inv)
next
  case (Suc n)
  obtain rc s1 where w: "gfio_wr_attr os Cnc_run ''1'' s = (rc, s1)" by fastforce
  have s1: "gf_inv s1" using wr_attr_inv [of Cnc_run s os "''1''"] Suc.prems w by (simp add: wr_attr_def)
  obtain st s2 where r: "gfio_rd_attr os Cnc_state 16 s1 = (st, s2)" by fastforce
  have s2: "gf_inv s2" using io_inv(2) [OF s1, of os Cnc_state 16] r by simp
  show ?case using w r s1 s2 Suc.IH
    by (simp add: issue_request.simps [of os "Suc n" s] Let_def fail_once_inv wr_attr_inv
          gfhome_invalidate_inv)
qed

lemma issue_run_inv:
  assumes "gf_inv s" "\<And>s. gf_inv s \<Longrightarrow> gf_inv (oth s)"
  shows "gf_inv (snd (issue_run os oth s))"
proof -
  define relight where "relight = (laser_armed s \<and> fire_gate s \<and> latch_locked_by_us s)"
  obtain ok s1 where w: "(if relight then latch_write_locked os False s else (True, s)) = (ok, s1)"
    by fastforce
  have s1: "gf_inv s1" using latch_write_locked_inv [OF assms(1), of os False] w assms(1)
    by (auto split: if_splits)
  obtain rc s2 where i: "issue_request os 1 s1 = (rc, s2)" by fastforce
  have s2: "gf_inv (oth s2)" using issue_request_inv [OF s1, of os 1] i assms(2) by simp
  show ?thesis using w i s1 s2 latch_write_locked_inv [OF s2, of os True]
    by (simp add: issue_run_def Let_def latch_fault_inv flip: relight_def)
qed

lemma start_kernel_run_inv:
  assumes "gf_inv s" "keeps gf_inv others"
  shows "gf_inv (start_kernel_run os others s)"
proof -
  obtain rc s1 where g: "run_gate os (run_base s) (written s) s = (rc, s1)" by fastforce
  have s1: "gf_inv s1" using run_gate_inv [OF assms(1), of os "run_base s" "written s"] g by simp
  obtain rc2 s2 where i: "(if rc > 0 then issue_run os (others 1) s1 else (rc, s1)) = (rc2, s2)"
    by fastforce
  have "gf_inv (snd (issue_run os (others 1) s1))"
    by (rule issue_run_inv [OF s1]) (rule keepsD [OF assms(2)])
  then have "gf_inv s2" using i s1 by (auto split: if_splits)
  then show ?thesis using g i by (simp add: start_kernel_run_def fail_once_inv)
qed

lemma ship_due_inv:
  assumes "gf_inv s" "keeps gf_inv others"
  shows "gf_inv (ship_due os others gate s)"
proof -
  define anchor where "anchor = (shipped s = 0 \<or> \<not> kernel_running s)"
  define s1 where "s1 = (if anchor then (let (now, s) = wall_s os s in s\<lparr>ship_t0 := now\<rparr>) else s)"
  have s1: "gf_inv s1" using assms(1) by (simp add: s1_def case_prod_beta io_inv)
  obtain now s2 where w: "wall_s os s1 = (now, s2)" by fastforce
  have s2: "gf_inv s2" using io_inv(1) [OF s1, of os] w by simp
  obtain sr s3 where c: "ship_chunks os others gate (due_index now s2) (due_index now s2)
      (streaming s) False s2 = (sr, s3)" by fastforce
  have "gf_inv s3" using ship_chunks_inv [OF s2 assms(2), of os gate "due_index now s2" "due_index now s2"
      "streaming s" False] c by simp
  then show ?thesis using assms w c
    by (simp add: ship_due_def Let_def start_kernel_run_inv flip: anchor_def s1_def)
qed

lemma ship_pass_inv:
  assumes "gf_inv s" "keeps gf_inv others"
  shows "gf_inv (ship_pass os others s)"
proof -
  obtain go s1 where p: "pending_pass os others s = (go, s1)" by fastforce
  have s1: "gf_inv s1" using pending_pass_inv [OF assms, of os] p by simp
  have s2: "gf_inv (gate_edge g s1)" for g using gate_edge_inv [OF s1] .
  have "gf_inv (if kernel_running (gate_edge g s1) then stream_end os (gate_edge g s1)
          else gate_edge g s1)" for g
    using s2 by (simp add: stream_end_inv)
  from hold_poll_inv [OF this] show ?thesis using p s1 s2 assms(2)
    by (simp add: ship_pass_def Let_def dark_pad_inv ship_due_inv)
qed

lemma shipper_turn_inv:
  assumes "gf_inv s" "keeps gf_inv others"
  shows "gf_inv (shipper_turn os others s)"
proof -
  let ?s = "ship_pass os others s"
  have s1: "gf_inv ?s" using ship_pass_inv [OF assms] .
  obtain st s2 where r: "gfio_rd_attr os Cnc_state 16 ?s = (st, s2)" by fastforce
  have "gf_inv s2" using io_inv(2) [OF s1, of os Cnc_state 16] r by simp
  then have "gf_inv (others 3 s2)" using keepsD [OF assms(2)] by blast
  then have "gf_inv (check_kernel_state os others ?s)" using s1 r
    by (simp add: check_kernel_state_def fail_once_inv Let_def)
  then show ?thesis by (simp add: shipper_turn_def io_inv)
qed

section \<open>Reset, read-back, hand-over\<close>

lemma drop_backlog_inv:
  assumes "gf_inv s"
  shows "gf_inv (snd (drop_backlog_locked d s))"
proof -
  have "\<forall>k. snd (fold (\<lambda>i (d, r). (tick_steps d (r (ring_slot i)), r(ring_slot i := 0))) is (d, r)) k AND 0x10 = 0 \<and>
            snd (fold (\<lambda>i (d, r). (tick_steps d (r (ring_slot i)), r(ring_slot i := 0))) is (d, r)) k AND 0x80 = 0"
    if "\<forall>k. r k AND 0x10 = 0 \<and> r k AND 0x80 = 0" for "is" and r :: "nat \<Rightarrow> u8" and d
    using that by (induction "is" arbitrary: d r) auto
  then show ?thesis using assms
    by (simp add: drop_backlog_locked_def case_prod_beta gf_inv_def lev_ok_def lev_pending_def
          ring_dark_def power_ok_def run_inv_def latch_ok_def dith_ok_def dith_model_ok_def)
qed

lemma reset_laser_inv: "gf_inv s \<Longrightarrow> gf_inv (reset_laser s)"
  unfolding reset_laser_def
  by (intro dither_reset_inv) (simp add: gf_inv_defs)

lemma reset_live_inv:
  assumes "gf_inv s"
  shows "gf_inv (snd (reset_live os k s))"
proof -
  define d0 where "d0 = (if k then tick_steps 0 (kill_step s) else 0)"
  obtain d s1 where db: "drop_backlog_locked d0 s = (d, s1)" by fastforce
  have s1: "gf_inv (reset_laser s1)" using drop_backlog_inv [OF assms, of d0] db
    by (simp add: reset_laser_inv)
  let ?s = "reset_laser s1"
  obtain now s3 where w: "wall_s os ?s = (now, s3)" by fastforce
  have "power_sent s3 = False" using w by (auto simp: frame_simps reset_laser_def dither_reset_def)
  then have "gf_inv (s3\<lparr>kernel_running := False\<rparr>)" using io_inv(1) [OF s1, of os] w by (simp add: gf_inv_defs)
  then have "gf_inv (s3\<lparr>kernel_running := False, run_pending := False, clear_pending := True,
                       hold_pending := True, hold_poll_at := now + 1 / 5\<rparr>)"
    by simp
  then show ?thesis using db s1 w by (simp add: reset_live_def Let_def flip: d0_def)
qed

lemma reset_failed_inv: "gf_inv s \<Longrightarrow> gf_inv (reset_failed s)"
proof -
  assume s: "gf_inv s"
  let ?u = "s\<lparr>failed := False, kernel_running := False, run_pending := False,
                clear_pending := True, hold_pending := False\<rparr>"
  have "tick_inv ?u" using s by (simp add: gf_inv_tick tick_inv_alt lev_ok_def lev_pending_def
      ring_dark_def power_ok_def latch_ok_def dith_ok_def dith_model_ok_def)
  then have "gf_inv (?u\<lparr>kernel_running := True\<rparr>)" by (simp only: tick_inv_def)
  then have "gf_inv (snd (drop_backlog_locked 0 (?u\<lparr>kernel_running := True\<rparr>)))" by (rule drop_backlog_inv)
  then have "gf_inv (reset_laser (snd (drop_backlog_locked 0 (?u\<lparr>kernel_running := True\<rparr>))))"
    by (rule reset_laser_inv)
  then show ?thesis
    by (simp add: reset_failed_def case_prod_beta drop_backlog_locked_def reset_laser_def
          dither_reset_def gf_inv_def lev_ok_def lev_pending_def ring_dark_def power_ok_def
          run_inv_def latch_ok_def dith_ok_def dith_model_ok_def)
qed

lemma gf_stream_reset_inv:
  assumes "gf_inv s"
  shows "gf_inv (gf_stream_reset os s)"
proof -
  let ?k = "killed s" and ?s0 = "s\<lparr>killed := False, gf_readback := RB_NONE\<rparr>"
  obtain st pad s1 where l: "(if streaming s \<or> ?k then reset_live os ?k ?s0 else ((False, False), ?s0))
      = ((st, pad), s1)" by (metis surj_pair)
  have s0: "gf_inv ?s0" using assms by simp
  have s1: "gf_inv s1" using l reset_live_inv [OF s0, of os ?k] s0 by (auto split: if_splits)
  then show ?thesis using l
    by (simp add: gf_stream_reset_def Let_def wr_attr_inv reset_failed_inv)
qed

lemma readback_look_inv: "gf_inv s \<Longrightarrow> gf_inv (snd (readback_look os d s))"
  by (simp add: readback_look_def Let_def case_prod_beta io_inv)

lemma gf_stream_clear_position_inv: "gf_inv s \<Longrightarrow> gf_inv (gf_stream_clear_position os s)"
  by (simp add: gf_stream_clear_position_def Let_def case_prod_beta rebase_locked_def io_inv)

lemma gf_stream_suspend_inv:
  assumes "gf_inv s"
  shows "gf_inv (snd (gf_stream_suspend os s))"
proof -
  have r: "gf_inv (snd (gfio_rd_attr os Cnc_state 16 s))" using assms by (simp add: io_inv)
  have close: "gf_inv ((close_dev u)\<lparr>latch_locked_by_us := True\<rparr>)" if "gf_inv u" for u :: "'a gf_scheme"
    using that by (simp add: close_dev_def emit_def gf_inv_defs)
  have close_hold: "gf_inv ((gfio_currents_hold os (close_dev u))\<lparr>latch_locked_by_us := True\<rparr>)"
    if "gf_inv u" for u :: "'a gf_scheme"
    using that by (simp add: close_dev_def emit_def gf_inv_defs gfio_currents_hold_def frame_simps)
  show ?thesis using assms r
    by (simp add: gf_stream_suspend_def Let_def case_prod_beta io_inv close close_hold currents_inv)
qed

lemma gf_stream_laser_model_inv:
  assumes "gf_inv s" "unat m \<le> 100000"
  shows "gf_inv (gf_stream_laser_model p m s)"
proof -
  have "dith_ok (gf_stream_laser_model p m s)"
    using gf_stream_laser_model_ok [of s m p] assms gf_invD(4) [OF assms(1)] by (simp add: gf_inv_def)
  then show ?thesis using assms(1)
    by (simp add: gf_inv_def lev_ok_def lev_pending_def ring_dark_def power_ok_def run_inv_def
          latch_ok_def gf_stream_laser_model_def Let_def dither_reset_def)
qed

lemma gfio_analog_config_inv: "gf_inv s \<Longrightarrow> gf_inv (gfio_analog_config os s)"
proof -
  assume "gf_inv s"
  then have "gf_inv (snd (gfio_xy_microsteps os s))"
    by (simp add: gfio_xy_microsteps_def Let_def gf_inv_defs)
  then show ?thesis
    by (simp add: gfio_analog_config_def Let_def case_prod_beta wr_attr_inv currents_inv)
qed

lemma apply_tick_inv: "gf_inv s \<Longrightarrow> gf_inv (snd (apply_tick os s))"
  by (simp add: apply_tick_def Let_def case_prod_beta wr_attr_inv wr_attr_def [symmetric])

lemma rebase_at_takeover_inv: "gf_inv s \<Longrightarrow> gf_inv (rebase_at_takeover os e s)"
  by (simp add: rebase_at_takeover_def case_prod_beta rebase_locked_def kernel_reads_inv
        split: option.splits)

lemma resume_swap_inv: "gf_inv s \<Longrightarrow> gf_inv (resume_swap x s)"
  unfolding resume_swap_def
  by (auto simp: dither_reset_def gf_inv_def lev_ok_def lev_pending_def ring_dark_def power_ok_def
        run_inv_def latch_ok_def dith_ok_def dith_model_ok_def)

lemma resume_device_inv:
  assumes "gf_inv s"
  shows "gf_inv (snd (resume_device os x s))"
proof -
  obtain ok s1 where l: "gf_stream_laser_latch os True s = (ok, s1)" by fastforce
  have s1: "gf_inv s1" using gf_stream_laser_latch_inv [OF assms, of os True] l by simp
  obtain tk s2 where a: "apply_tick os (gfio_analog_config os s1) = (tk, s2)" by fastforce
  have s2: "gf_inv s2" using apply_tick_inv [OF gfio_analog_config_inv [OF s1, of os], of os] a by simp
  obtain em s3 where k: "lseek_dev os x 1 s2 = (em, s3)" by fastforce
  have s3: "gf_inv s3" using io_inv(5) [OF s2, of os x 1] k by simp
  then show ?thesis using l a k
    by (simp add: resume_device_def Let_def resume_swap_inv rebase_at_takeover_inv wr_attr_inv)
qed

lemma settle_wait_inv:
  assumes "settle_wait os d s = Some s'" "gf_inv s"
  shows "gf_inv s'"
proof -
  have "gf_inv s \<longrightarrow> gf_inv s'"
  proof (rule settle_wait.raw_induct [where P = "\<lambda>os d s s'. gf_inv s \<longrightarrow> gf_inv s'", OF _ assms(1)])
    fix w os d s s'
    assume IH: "\<And>os d s s'. w os d s = Some s' \<Longrightarrow> gf_inv s \<longrightarrow> gf_inv s'"
      and eq: "(case wall_s os s of (now, s') \<Rightarrow> if fl_lt (Fin now) d
          then w os d (sleep_ns 50000000 s') else Some s') = Some s'"
    obtain now s1 where t: "wall_s os s = (now, s1)" by fastforce
    have "gf_inv s \<Longrightarrow> gf_inv (sleep_ns 50000000 s1) \<and> gf_inv s1" using io_inv(1) [of s os] t by (simp add: io_inv)
    then show "gf_inv s \<longrightarrow> gf_inv s'" using IH eq t by (auto split: if_splits)
  qed
  then show ?thesis using assms(2) by simp
qed

lemma rail_settle_inv:
  assumes "rail_settle os s = Some s'" "gf_inv s"
  shows "gf_inv s'"
proof -
  have "gf_inv (snd (wall_s os (wr_attr os Cnc_disable ''1'' s)))"
    using assms(2) by (simp add: io_inv wr_attr_inv)
  then show ?thesis
    using assms by (auto simp: rail_settle_def Let_def case_prod_beta split: if_splits
        dest: settle_wait_inv)
qed

lemma reacquire_inv: "gf_inv s \<Longrightarrow> gf_inv (snd (reacquire os n s))"
proof (induction n arbitrary: s)
  case (Suc n)
  have "gf_inv (snd (gfio_open_pulse_dev_nb os (gf_dev s) s))"
    using Suc.prems by (auto simp: gfio_open_pulse_dev_nb_def open_pulse_dev_def Let_def emit_inv
        split: option.splits)
  then show ?case using Suc.IH by (simp add: case_prod_beta io_inv split: option.splits)
qed simp

lemma gf_stream_resume_inv:
  assumes "gf_stream_resume os s = Some (ok, s')" "gf_inv s"
  shows "gf_inv s'"
proof -
  obtain r s1 where a: "reacquire os 50 s = (r, s1)" by fastforce
  have s1: "gf_inv s1" using reacquire_inv [OF assms(2), of os 50] a by simp
  have dev: "gf_inv (snd (resume_device os x u))" if "gf_inv u" for x and u :: "'a gf_scheme"
    using that by (rule resume_device_inv)
  have rail: "gf_inv u" if "rail_settle os s1 = Some u" for u
    using rail_settle_inv [OF that s1] .
  show ?thesis
  proof (cases "gf_active s \<and> \<not> gfio_pulse_inherited os s")
    case True
    then show ?thesis using assms a s1 dev rail
      by (auto simp: gf_stream_resume_def split: option.splits)
         (metis snd_conv)
  next
    case False
    then show ?thesis using assms dev [OF assms(2), of "gf_fd s"]
      by (auto simp: gf_stream_resume_def split: if_splits)
  qed
qed

end
