(* ===== verification/Stream_System.thy ===== *)
theory Stream_System
  imports Stream_Inv2
begin

text \<open>
  The stream as a system of threads: what the protocol and the producer thread can
  do between two steps of the shipper (\<open>estep\<close>, one locked section each), and the
  shipper's turns, in whose unlocked windows any number of those steps can land.
  Every invariant is proved for all interleavings and for every kernel.
\<close>

text \<open>The static initial values.\<close>

definition gf0 :: gf where
  "gf0 = \<lparr>io_tr = [], io_hw = False, io_errno = EOTHER, xy_released = False, xy_mode_cached = 0,
     z_referenced = False, z_env_min = 0, z_env_max = 0, anchor_home = (0, 0, 0), anchor_axes = 0,
     anchor_source = [], anchor_file = None, z_spm = 1, sys_position_z = 0, sys_home_z = 0,
     sys_env_z = (0, 0), sys_homed = 0, sys_soft_limits = 0,
     gf_active = False, suspended = False, gf_dev = [], gf_fd = - 1, gf_dump_fd = - 1, gf_rate = 0,
     gf_depth = 0, lead_s = 0, min_margin = 0, gf_ring = (\<lambda>_. 0), produced = 0, shipped = 0,
     gf_base = 0, streaming = False, kernel_running = False, run_pending = False,
     clear_pending = False, hold_pending = False, hold_poll_at = 0, written = 0, run_base = 0,
     killed = False, kill_step = 0, gf_steps = 0, base_steps = 0, base_counts = 0,
     base_valid = False, gf_zeros = 0, gf_readback = RB_NONE, unplayed = 0, failed = False,
     ship_t0 = 0, clamped = 0, gf_lev = (\<lambda>_. \<lparr>ev_idx = 0, ev_power = 0, ev_fire = False\<rparr>),
     lev_head = 0, lev_tail = 0, cur_power = 0, cur_fire = False, gate_seen = False,
     last_lit = False, power_sent = False, lev_overflow_warned = False, dith_period = 0,
     dith_min = 0, dith_left = 0, dith_on = 0, dith_acc = 0, want_power = 0, want_fire = False,
     jogging = False, vticks = 0, wall_epoch = 0, period_latched = 1000, threads_started = False,
     gf_armed = False, gf_quit = False, fault_flag = False, laser_armed = False, fire_gate = False,
     latch_locked_by_us = True, latch_fail_reported = False, latch_log_fd = - 1, stall_ms = 0,
     write_stall_ms = 0, gf_stalled = False, write_stalled = False, shutdown_done = False\<rparr>"

text \<open>One locked section of a thread other than the shipper.\<close>

inductive estep :: "os \<Rightarrow> 'a gf_scheme \<Rightarrow> 'a gf_scheme \<Rightarrow> bool" for os where
  e_pulse: "estep os s (gf_stream_pulse os sb db s)"
| e_laser: "estep os s (gf_stream_laser os p f s)"
| e_jog: "estep os s (gf_stream_jog os j s)"
| e_wakeup: "estep os s (gf_stream_wakeup os s)"
| e_go_idle: "estep os s (gf_stream_go_idle r sb db s)"
| e_cycles: "estep os s (gf_stream_cycles_per_tick c s)"
| e_fire: "gf_armed s \<Longrightarrow> estep os s (producer_fire id s)"
| e_model: "unat m \<le> 100000 \<Longrightarrow> estep os s (gf_stream_laser_model p m s)"
| e_latch: "estep os s (snd (gf_stream_laser_latch os lock s))"
| e_gate: "estep os s (gf_stream_fire_gate g s)"
| e_arm: "estep os s (gf_stream_laser_arm a s)"
| e_reset: "estep os s (gf_stream_reset os s)"
| e_readback: "estep os s (snd (readback_look os d s))"
| e_clear: "estep os s (gf_stream_clear_position os s)"
| e_suspend: "estep os s (snd (gf_stream_suspend os s))"
| e_resume: "gf_stream_resume os s = Some (ok, s') \<Longrightarrow> estep os s s'"
| e_fault: "estep os s (snd (gf_stream_fault_take s))"

text \<open>What can land in an unlocked window of the shipper: any number of such sections.\<close>

definition interleaves :: "os \<Rightarrow> (nat \<Rightarrow> 'a gf_scheme \<Rightarrow> 'a gf_scheme) \<Rightarrow> bool" where
  "interleaves os others \<longleftrightarrow> (\<forall>k s. (estep os)\<^sup>*\<^sup>* s (others k s))"

inductive sstep :: "os \<Rightarrow> 'a gf_scheme \<Rightarrow> 'a gf_scheme \<Rightarrow> bool" for os where
  s_other: "estep os s s' \<Longrightarrow> sstep os s s'"
| s_ship: "interleaves os others \<Longrightarrow> sstep os s (shipper_turn os others s)"

definition stream_start :: "os \<Rightarrow> gf \<Rightarrow> bool" where
  "stream_start os s \<longleftrightarrow> gf_stream_init os True gf0 = Some (True, s)"

inductive_cases estep_cases: "estep os s s'"

section \<open>The invariant holds in every reachable state\<close>

lemma estep_inv:
  assumes "estep os s s'" "gf_inv s"
  shows "gf_inv s'"
  using assms
proof cases
  case (e_fire)
  then show ?thesis using assms(2) by (simp add: producer_fire_def Let_def)
next
  case (e_resume ok)
  then show ?thesis using assms(2) gf_stream_resume_inv by blast
qed (auto simp: gf_stream_pulse_inv gf_stream_laser_inv gf_stream_jog_inv gf_stream_wakeup_inv
      gf_stream_go_idle_inv gf_stream_laser_model_inv gf_stream_laser_latch_inv gf_stream_reset_inv
      readback_look_inv gf_stream_clear_position_inv gf_stream_suspend_inv
      gf_stream_cycles_per_tick_def gf_stream_fire_gate_def gf_stream_laser_arm_def
      gf_stream_fault_take_def)

lemma interleaves_keeps:
  assumes "interleaves os others" "\<And>s s'. estep os s s' \<Longrightarrow> P s \<Longrightarrow> P s'"
  shows "keeps P others"
proof -
  have "P s'" if "(estep os)\<^sup>*\<^sup>* s s'" "P s" for s s'
    using that by (induction rule: rtranclp_induct) (auto intro: assms(2))
  then show ?thesis using assms(1) by (auto simp: keeps_def interleaves_def)
qed

lemma sstep_inv:
  assumes "sstep os s s'" "gf_inv s"
  shows "gf_inv s'"
  using assms
proof cases
  case s_other
  then show ?thesis using estep_inv assms(2) by blast
next
  case (s_ship others)
  have "keeps gf_inv others" by (rule interleaves_keeps [OF s_ship(2)]) (rule estep_inv)
  then show ?thesis using s_ship(1) shipper_turn_inv [OF assms(2)] by blast
qed

lemma xy_mode_range:
  assumes "xy_mode_cached s = 0"
  shows "fst (gfio_xy_microsteps os s) \<in> {8, 16, 32}"
  using assms
  by (auto simp: gfio_xy_microsteps_def gfio_xy_mode_parse_def XY_MICROSTEPS_DEFAULT_def Let_def
           split: option.splits prod.splits if_splits)

lemma init_rate_bounds:
  assumes "m \<in> {8, 16, 32}"
  shows "init_rate os (gfio_xy_tick_hz_of m) \<le> 165000" "1000 \<le> init_rate os (gfio_xy_tick_hz_of m)"
  using assms
  by (auto simp: init_rate_def gfio_xy_tick_hz_of_def gfio_xy_scale_of_def GF_TICK_X8_HZ_def
        XY_MICROSTEPS_BASE_def split: option.splits)

lemma init_params_inv: "gf_inv (init_params os gf0)"
proof -
  define s where "s = gfio_set_hw (getenv_set os ''GFSINK'' \<noteq> None) gf0"
  obtain m s1 where m: "gfio_xy_microsteps os s = (m, s1)" by fastforce
  have "xy_mode_cached s = 0" by (simp add: s_def gfio_set_hw_def gf0_def)
  then have m3: "m \<in> {8, 16, 32}" using xy_mode_range [of s os] m by simp
  have s1: "s1 = gf0\<lparr>io_hw := io_hw s1, xy_mode_cached := xy_mode_cached s1\<rparr>"
    using m by (auto simp: gfio_xy_microsteps_def s_def gfio_set_hw_def Let_def gf0_def split: if_splits)
  have "gf_inv (s1\<lparr>gf_rate := init_rate os (gfio_xy_tick_hz_of m)\<rparr>)"
    by (subst s1) (use init_rate_bounds [OF m3, of os] in
        \<open>simp add: gf0_def gf_inv_defs\<close>)
  then show ?thesis unfolding init_params_def Let_def s_def [symmetric] m
    by (simp split: option.splits)
qed

lemma stream_start_inv:
  assumes "stream_start os s"
  shows "gf_inv s"
proof -
  define p where "p = init_params os gf0"
  have p: "gf_inv p" unfolding p_def by (rule init_params_inv)
  have dev: "gf_inv u" if d: "init_device os dev p = Some (True, u)" for dev u
  proof -
    obtain r s1 where op: "gfio_open_pulse_dev os dev (p\<lparr>gf_dev := dev\<rparr>) = (r, s1)" by fastforce
    have s1: "gf_inv s1"
      using op p by (auto simp: gfio_open_pulse_dev_def open_pulse_dev_def Let_def emit_inv split: option.splits)
    obtain x where x: "r = Some x" using d op by (cases r) (auto simp: init_device_def)
    obtain s2 where s2e: "(if gfio_pulse_inherited os s1 then Some (s1\<lparr>gf_fd := x\<rparr>)
         else rail_settle os (s1\<lparr>gf_fd := x\<rparr>)) = Some s2"
      using d op x by (auto simp: init_device_def split: option.splits)
    have s2: "gf_inv s2" using s2e s1 rail_settle_inv [of os "s1\<lparr>gf_fd := x\<rparr>" s2]
      by (auto split: if_splits)
    obtain ok s3 where l: "gf_stream_laser_latch os True s2 = (ok, s3)" by fastforce
    have s3: "gf_inv s3" using gf_stream_laser_latch_inv [OF s2, of os True] l by simp
    obtain tk s4 where a: "apply_tick os (gfio_analog_config os s3) = (tk, s4)" by fastforce
    have s4: "gf_inv s4" using apply_tick_inv [OF gfio_analog_config_inv [OF s3, of os], of os] a by simp
    obtain em s5 where k: "lseek_dev os (gf_fd s4) 1 s4 = (em, s5)" by fastforce
    have s5: "gf_inv s5" using io_inv(5) [OF s4, of os "gf_fd s4" 1] k by simp
    show ?thesis using d op x s2e l a k s5
      by (auto simp: init_device_def Let_def rebase_at_takeover_inv wr_attr_inv split: if_splits)
  qed
  show ?thesis
    using assms dev p unfolding stream_start_def gf_stream_init_def Let_def p_def [symmetric]
    by (auto simp: gfio_analog_config_inv split: option.splits if_splits)
qed

interpretation stream_sys: guarded_system "stream_start os" "sstep os" gf_inv
  by unfold_locales (auto intro: stream_start_inv sstep_inv)

end
