(* ===== verification/Stream_Wire.thy ===== *)
theory Stream_Wire
  imports Stream_System
begin

text \<open>
  What goes down the wire: the grammar of the shipped byte stream (a power byte is
  always followed by its tick byte, a kernel run is led by one), where the FIRE bit
  can come from, and how the steps of a chunk are accounted against the ring.
\<close>

definition is_power :: "u8 \<Rightarrow> bool" where "is_power b \<longleftrightarrow> b AND 0x80 \<noteq> 0"

definition is_lit :: "u8 \<Rightarrow> bool" where "is_lit b \<longleftrightarrow> \<not> is_power b \<and> b AND 0x10 \<noteq> 0"

text \<open>The kernel script drops back-to-back power bytes, and a stream never ends on one.\<close>

fun wire_ok :: "u8 list \<Rightarrow> bool" where
  "wire_ok [] = True"
| "wire_ok [b] = (\<not> is_power b)"
| "wire_ok (b # c # bs) = (if is_power b then \<not> is_power c \<and> wire_ok bs else wire_ok (c # bs))"

definition tick_bytes :: "u8 list \<Rightarrow> u8 list" where
  "tick_bytes bs = filter (\<lambda>b. \<not> is_power b) bs"

definition ring_total :: "'a gf_scheme \<Rightarrow> steps3" where
  "ring_total s = (\<Sum>k<RING_SIZE. byte_steps (gf_ring s k))"

lemma sum_update:
  fixes f :: "'k \<Rightarrow> 'v" and g :: "'v \<Rightarrow> 'b::ab_group_add"
  assumes "finite A" "k \<in> A"
  shows "(\<Sum>x\<in>A. g ((f(k := v)) x)) = (\<Sum>x\<in>A. g (f x)) - g (f k) + g v"
proof -
  have "(\<Sum>x\<in>A. g ((f(k := v)) x)) = g v + (\<Sum>x\<in>A - {k}. g ((f(k := v)) x))"
    using assms by (simp add: sum.remove)
  also have "(\<Sum>x\<in>A - {k}. g ((f(k := v)) x)) = (\<Sum>x\<in>A - {k}. g (f x))" by (intro sum.cong) auto
  also have "\<dots> = (\<Sum>x\<in>A. g (f x)) - g (f k)" using assms by (simp add: sum.remove)
  finally show ?thesis by simp
qed

lemma ring_slot_less [simp]: "ring_slot i < RING_SIZE"
  by (simp add: ring_slot_def RING_SIZE_def)

lemma ring_total_update:
  "(\<Sum>k<RING_SIZE. byte_steps ((r(ring_slot i := b)) k)) =
     (\<Sum>k<RING_SIZE. byte_steps (r k)) - byte_steps (r (ring_slot i)) + byte_steps b"
  by (rule sum_update) auto

lemma power_byte_bit: "is_power (0x80 OR p)"
  by (simp add: is_power_def u8_mask_bits bit_simps)

lemma not_power_fire:
  assumes "b AND 0x80 = 0"
  shows "\<not> is_power (b OR 0x10)" "\<not> is_power b" "byte_steps (b OR 0x10) = byte_steps b"
  using assms byte_steps_fire [of b]
  by (simp_all add: is_power_def u8_mask_bits bit_simps FIRE_BIT_def)

lemma power_bytes_out:
  "(fst (power_bytes d p s) = [] \<and> power_sent s \<or>
    (\<exists>x. fst (power_bytes d p s) = [x] \<and> is_power x)) \<and>
   power_sent (snd (power_bytes d p s))"
  by (auto simp: power_bytes_def Let_def power_byte_bit)

text \<open>One tick: at most one power byte, then a tick byte; FIRE only under an open gate and a fire request.\<close>

lemma ship_tick_out:
  assumes r: "ring_dark s" and e: "ship_tick gate s = ((pb, b), s')"
  shows "pb = [] \<and> power_sent s \<or> (\<exists>x. pb = [x] \<and> is_power x)"
    and "\<not> is_power b" and "power_sent s'"
    and "is_lit b \<Longrightarrow> gate \<and> cur_fire s'"
    and "last_lit s' = is_lit b"
    and "byte_steps b = byte_steps (gf_ring s (ring_slot (shipped s)))"
    and "cur_fire s' = cur_fire (snd (drain_events False (cur_power s) s))"
proof -
  obtain d p1 s1 where d: "drain_events False (cur_power s) s = ((d, p1), s1)" by (metis surj_pair)
  obtain f h where s1: "s1 = s\<lparr>cur_fire := f, lev_head := h\<rparr>"
    using drain_events_frame [of False "cur_power s" s] d by auto
  define s2 where "s2 = (if d \<and> \<not> cur_fire s1 then dither_reset s1 else s1)"
  obtain pb' s3 where p: "power_bytes d p1 s2 = (pb', s3)" by fastforce
  obtain p' x where s3: "s3 = s2\<lparr>cur_power := p', power_sent := x\<rparr>"
    using power_bytes_frame [of d p1 s2] p by auto
  define s4 where "s4 = s3\<lparr>gf_ring := (gf_ring s3)(ring_slot (shipped s3) := 0)\<rparr>"
  obtain lit s5 where fi: "fire_tick gate s4 = (lit, s5)" by fastforce
  obtain l on a where s5: "s5 = s4\<lparr>dith_left := l, dith_on := on, dith_acc := a\<rparr>"
    using fire_tick_frame [of gate s4] fi by auto
  define rb where "rb = gf_ring s (ring_slot (shipped s))"
  have s2f: "gf_ring s2 = gf_ring s" "shipped s2 = shipped s" "power_sent s2 = power_sent s"
    "cur_fire s2 = f" by (auto simp: s2_def s1 dither_reset_def)
  define B where "B = (if lit then gf_ring s3 (ring_slot (shipped s3)) OR 0x10
                        else gf_ring s3 (ring_slot (shipped s3)))"
  have "ship_tick gate s = ((pb', B), s5\<lparr>last_lit := (B AND 0x10 \<noteq> 0), shipped := shipped s5 + 1\<rparr>)"
    using d p fi by (simp add: ship_tick_def Let_def B_def flip: s2_def s4_def)
  moreover have "B = (if lit then rb OR 0x10 else rb)" by (simp add: B_def s3 s2f rb_def)
  ultimately have out: "pb = pb'" "b = (if lit then rb OR 0x10 else rb)"
    "s' = s5\<lparr>last_lit := (b AND 0x10 \<noteq> 0), shipped := shipped s5 + 1\<rparr>"
    using e by simp_all
  have dark: "rb AND 0x80 = 0" "rb AND 0x10 = 0" using r by (simp_all add: rb_def ring_dark_def)
  have f': "cur_fire s' = f" by (simp add: out(3) s5 s4_def s3 s2f)
  show "pb = [] \<and> power_sent s \<or> (\<exists>x. pb = [x] \<and> is_power x)" "power_sent s'"
    using power_bytes_out [of d p1 s2] p s2f out by (auto simp: s5 s4_def s3)
  show np: "\<not> is_power b" "byte_steps b = byte_steps (gf_ring s (ring_slot (shipped s)))"
    using not_power_fire [OF dark(1)] by (auto simp: out(2) rb_def)
  have lit: "lit \<Longrightarrow> gate \<and> f" using fi by (auto simp: fire_tick_def s4_def s3 s2f split: if_splits)
  show "is_lit b \<Longrightarrow> gate \<and> cur_fire s'"
    using lit dark f' by (auto simp: out(2) is_lit_def split: if_splits)
  show "last_lit s' = is_lit b" using np by (simp add: out(3) is_lit_def)
  show "cur_fire s' = cur_fire (snd (drain_events False (cur_power s) s))" using d f' by (simp add: s1)
qed

lemma ship_tick_ring_total:
  assumes "ring_dark s" "ship_tick gate s = ((pb, b), s')"
  shows "ring_total s = ring_total s' + byte_steps b"
proof -
  have r: "gf_ring s' = (gf_ring s)(ring_slot (shipped s) := 0)"
    using ship_tick_frame [of gate s] assms(2) by auto
  show ?thesis
    unfolding ring_total_def r ring_total_update using ship_tick_out(6) [OF assms] by simp
qed

section \<open>A chunk on the wire\<close>

lemma wire_ok_tick: "\<not> is_power b \<Longrightarrow> wire_ok (b # bs) = wire_ok bs"
  by (cases bs) auto

lemma wire_ok_power: "is_power x \<Longrightarrow> \<not> is_power b \<Longrightarrow> wire_ok (x # b # bs) = wire_ok bs"
  by simp

text \<open>
  The facts of a chunk, by induction over its ticks: its length, its grammar, its
  steps against the ring, the cursor, and the sources of FIRE.
\<close>

lemma ring_dark_tick: "ring_dark s \<Longrightarrow> ring_dark (snd (ship_tick gate s))"
  using ship_tick_frame [of gate s] by (auto simp: ring_dark_def)

lemma build_chunk_out:
  assumes "ring_dark s" "build_chunk gate strm due n s = ((bs, st), s')"
  shows "wire_ok bs"
    and "n \<le> 256 \<Longrightarrow> n + length bs \<le> 256"
    and "length (tick_bytes bs) = shipped s' - shipped s" "shipped s \<le> shipped s'"
    and "ring_total s = ring_total s' + st"
    and "\<not> gate \<Longrightarrow> \<forall>b \<in> set bs. \<not> is_lit b"
    and "bs \<noteq> [] \<Longrightarrow> \<not> power_sent s \<Longrightarrow> is_power (hd bs)"
    and "bs \<noteq> [] \<Longrightarrow> last_lit s' = is_lit (last bs)"
proof -
  have "wire_ok bs \<and> (n \<le> 256 \<longrightarrow> n + length bs \<le> 256)
     \<and> length (tick_bytes bs) = shipped s' - shipped s \<and> shipped s \<le> shipped s'
     \<and> ring_total s = ring_total s' + st \<and> (\<not> gate \<longrightarrow> (\<forall>b \<in> set bs. \<not> is_lit b))
     \<and> (bs \<noteq> [] \<longrightarrow> \<not> power_sent s \<longrightarrow> is_power (hd bs))
     \<and> (bs \<noteq> [] \<longrightarrow> last_lit s' = is_lit (last bs))"
    using assms
  proof (induction gate strm due n s arbitrary: bs st s' rule: build_chunk.induct)
    case (1 gate strm due n s)
    show ?case
    proof (cases "n < SHIP_CHUNK - 1 \<and> shipped s < due \<and> (strm \<or> shipped s < produced s)")
      case True
      obtain pb b t where k: "ship_tick gate s = ((pb, b), t)" by (metis surj_pair)
      obtain bs' st' u where r: "build_chunk gate strm due (n + length pb + 1) t = ((bs', st'), u)"
        by (metis surj_pair)
      have out: "bs = pb @ b # bs'" "st = tick_steps st' b" "s' = u"
        using "1.prems"(2) True k r by (subst (asm) build_chunk.simps, simp add: Let_def)+
      note tk = ship_tick_out [OF "1.prems"(1) k]
      have dark: "ring_dark t" using ring_dark_tick [OF "1.prems"(1), of gate] k by simp
      have IH: "wire_ok bs' \<and> (n + length pb + 1 \<le> 256 \<longrightarrow> n + length pb + 1 + length bs' \<le> 256)
         \<and> length (tick_bytes bs') = shipped u - shipped t \<and> shipped t \<le> shipped u
         \<and> ring_total t = ring_total u + st' \<and> (\<not> gate \<longrightarrow> (\<forall>b \<in> set bs'. \<not> is_lit b))
         \<and> (bs' \<noteq> [] \<longrightarrow> \<not> power_sent t \<longrightarrow> is_power (hd bs'))
         \<and> (bs' \<noteq> [] \<longrightarrow> last_lit u = is_lit (last bs'))"
        using "1.IH" [OF True refl refl, of bs' st' u] k r dark by simp
      have sh: "shipped t = shipped s + 1" using ship_tick_shipped [of gate s] k by simp
      have ub: "bs' = [] \<Longrightarrow> u = t"
        using r by (subst (asm) build_chunk.simps) (auto simp: Let_def split: if_splits prod.splits)
      have pb: "length pb \<le> 1" "tick_bytes pb = []" "\<forall>x \<in> set pb. \<not> is_lit x"
        using tk(1) by (auto simp: tick_bytes_def is_lit_def)
      have "wire_ok bs" using IH tk(1,2) out(1) by (auto simp: wire_ok_tick)
      moreover have "ring_total s = ring_total s' + st"
        using ship_tick_ring_total [OF "1.prems"(1) k] IH out by (simp add: tick_steps_byte algebra_simps)
      moreover have "length (tick_bytes bs) = shipped s' - shipped s" "shipped s \<le> shipped s'"
      proof -
        have "length (tick_bytes bs') = shipped u - shipped t" "shipped t \<le> shipped u" using IH by blast+
        moreover have "length (tick_bytes bs) = Suc (length (tick_bytes bs'))"
          using out(1) tk(2) pb(2) by (simp add: tick_bytes_def)
        ultimately show "length (tick_bytes bs) = shipped s' - shipped s" "shipped s \<le> shipped s'"
          using out(3) sh by simp_all
      qed
      moreover have "bs \<noteq> [] \<longrightarrow> last_lit s' = is_lit (last bs)"
      proof -
        have "bs' \<noteq> [] \<longrightarrow> last_lit u = is_lit (last bs')" using IH by blast
        then show ?thesis using out(1,3) tk(5) ub by (cases "bs' = []") simp_all
      qed
      moreover have "n \<le> 256 \<longrightarrow> n + length bs \<le> 256"
      proof -
        have "n + length pb + 1 \<le> 256" using True pb(1) by (simp add: SHIP_CHUNK_def)
        with IH have "n + length pb + 1 + length bs' \<le> 256" by blast
        then show ?thesis using out(1) by simp
      qed
      moreover have "\<not> gate \<longrightarrow> (\<forall>b \<in> set bs. \<not> is_lit b)"
      proof -
        have "\<not> gate \<longrightarrow> (\<forall>b \<in> set bs'. \<not> is_lit b)" using IH by blast
        then show ?thesis using out(1) tk(4) pb(3) by auto
      qed
      moreover have "bs \<noteq> [] \<longrightarrow> \<not> power_sent s \<longrightarrow> is_power (hd bs)"
        using tk(1) out(1) by auto
      ultimately show ?thesis by blast
    next
      case False
      then have "bs = []" "st = 0" "s' = s"
        using "1.prems"(2) by (subst (asm) build_chunk.simps, auto)+
      then show ?thesis by (simp add: tick_bytes_def)
    qed
  qed
  then show "wire_ok bs" "n \<le> 256 \<Longrightarrow> n + length bs \<le> 256"
    "length (tick_bytes bs) = shipped s' - shipped s" "shipped s \<le> shipped s'"
    "ring_total s = ring_total s' + st" "\<not> gate \<Longrightarrow> \<forall>b \<in> set bs. \<not> is_lit b"
    "bs \<noteq> [] \<Longrightarrow> \<not> power_sent s \<Longrightarrow> is_power (hd bs)"
    "bs \<noteq> [] \<Longrightarrow> last_lit s' = is_lit (last bs)"
    by blast+
qed

section \<open>The bytes the device took\<close>

text \<open>In order, oldest first: of every write the bytes that the device accepted.\<close>

fun pulse_taken :: "trace \<Rightarrow> u8 list" where
  "pulse_taken [] = []"
| "pulse_taken (Ev_pulse x buf k (Ret n) # tr) = pulse_taken tr @ take n buf"
| "pulse_taken (e # tr) = pulse_taken tr"

definition taken :: "'a io_scheme \<Rightarrow> u8 list" where
  "taken s = pulse_taken (io_tr s)"

lemma pulse_taken_wr [simp]: "pulse_taken (wr_tr os a v hw tr) = pulse_taken tr"
  by (simp add: wr_tr_def)

text \<open>
  A write either delivers the whole buffer, in order and once, or a proper prefix of
  it and reports the failure.
\<close>

lemma taken_none:
  assumes "buf \<noteq> []" "taken (snd r) = taken s" "\<not> fst r"
  shows "\<exists>p q. buf = p @ q \<and> taken (snd r) = taken s @ p \<and> fst r = (q = [])"
  by (rule exI [of _ "[]"], rule exI [of _ buf]) (use assms in simp)

lemma pulse_write_from_taken:
  "\<exists>p q. buf = p @ q \<and> taken (snd (pulse_write_from os x buf k s)) = taken s @ p \<and>
         fst (pulse_write_from os x buf k s) = (q = [])"
proof (induction os x buf k s rule: pulse_write_from.induct)
  case (1 os x buf k s)
  obtain a s1 where w: "dev_write os x buf s = (a, s1)" by fastforce
  have t1: "taken s1 = taken s @ (case a of Ret n \<Rightarrow> take n buf | Err e \<Rightarrow> [])"
    using w by (auto simp: frame_simps taken_def split: sysret.splits)
  obtain st s2 where r: "gfio_rd_attr os Cnc_state 16 s1 = (st, s2)" by fastforce
  have t2: "taken s2 = taken s1" using r by (auto simp: frame_simps taken_def)
  have sl: "taken (sleep_ns n u) = taken u" for n and u :: "'a io_scheme" by (simp add: frame_simps taken_def)
  have er: "taken (u\<lparr>io_errno := e\<rparr>) = taken u" for e and u :: "'a io_scheme" by (simp add: taken_def)
  show ?case
  proof (cases "buf = []")
    case True
    then show ?thesis by (simp add: pulse_write_from.simps)
  next
    case ne: False
    show ?thesis
    proof (cases a)
      case (Ret n)
      show ?thesis
      proof (cases "n > 0")
        case True
        from "1"(1) [OF ne w [symmetric] refl Ret True]
        obtain p q where pq: "drop n buf = p @ q"
          "taken (snd (pulse_write_from os x (drop n buf) k s1)) = taken s1 @ p"
          "fst (pulse_write_from os x (drop n buf) k s1) = (q = [])" by blast
        have "buf = (take n buf @ p) @ q" using pq(1) by (metis append_assoc append_take_drop_id)
        moreover have "pulse_write_from os x buf k s = pulse_write_from os x (drop n buf) k s1"
          using ne w Ret True by (subst pulse_write_from.simps) simp
        moreover have "taken s1 @ p = taken s @ (take n buf @ p)" using t1 Ret by simp
        ultimately show ?thesis using pq(2,3) by metis
      next
        case False
        then show ?thesis using ne w Ret t1 er
          by (intro taken_none [OF ne]) (subst pulse_write_from.simps, simp)+
      qed
    next
      case (Err e)
      show ?thesis
      proof (cases "(e = ENOMEM \<or> e = EAGAIN) \<and> k + 1 \<le> PULSE_WRITE_BACKOFF_MAX")
        case False
        then have "pulse_write_from os x buf k s = (False, s1)"
          using ne w Err by (subst pulse_write_from.simps) auto
        then show ?thesis using t1 Err by (intro taken_none [OF ne]) simp_all
      next
        case bk: True
        consider "(k + 1) mod PULSE_WRITE_STATE_EVERY = 0" "st = Some ''fault'' \<or> st = Some ''underrun''"
          | "(k + 1) mod PULSE_WRITE_STATE_EVERY = 0" "\<not> (st = Some ''fault'' \<or> st = Some ''underrun'')"
          | "(k + 1) mod PULSE_WRITE_STATE_EVERY \<noteq> 0" by blast
        then show ?thesis
        proof cases
          case 1
          then have "pulse_write_from os x buf k s = (False, s2\<lparr>io_errno := EIO\<rparr>)"
            using ne w Err bk r by (subst pulse_write_from.simps) auto
          then show ?thesis using t1 t2 er Err by (intro taken_none [OF ne]) simp_all
        next
          case 2
          from "1"(2) [OF ne w [symmetric] refl Err bk 2(1) r [symmetric] refl 2(2)]
          show ?thesis using ne w Err bk r t1 t2 sl 2 by (subst (1 2) pulse_write_from.simps) auto
        next
          case 3
          from "1"(3) [OF ne w [symmetric] refl Err bk 3]
          show ?thesis using ne w Err bk t1 sl 3 by (subst (1 2) pulse_write_from.simps) auto
        qed
      qed
    qed
  qed
qed

section \<open>Who writes to the device\<close>

text \<open>Nothing but the shipper: every section of another thread leaves what the device took.\<close>

lemma taken_io [simp]:
  "taken (snd (wall_s os s)) = taken s" "taken (wr_attr os a v s) = taken s"
  "taken (snd (gfio_wr_attr os a v s)) = taken s" "taken (snd (gfio_rd_attr os a n s)) = taken s"
  "taken (snd (gfio_rd_bin os a n s)) = taken s" "taken (sleep_ns k s) = taken s"
  "taken (snd (lseek_dev os x p s)) = taken s" "taken (latch_log w u) = taken u"
  "taken (dump_write buf u) = taken u" "taken (close_dev u) = taken u"
  by (simp_all add: taken_def frame_simps dump_write_def close_dev_def emit_def)

lemma taken_irrel [simp]:
  "taken (s\<lparr>io_errno := x_io_errno\<rparr>) = taken s" "taken (s\<lparr>io_hw := x_io_hw\<rparr>) = taken s" "taken (s\<lparr>xy_mode_cached := x_xy_mode_cached\<rparr>) = taken s"
  "taken (s\<lparr>gf_active := x_gf_active\<rparr>) = taken s" "taken (s\<lparr>suspended := x_suspended\<rparr>) = taken s" "taken (s\<lparr>gf_dev := x_gf_dev\<rparr>) = taken s"
  "taken (s\<lparr>gf_fd := x_gf_fd\<rparr>) = taken s" "taken (s\<lparr>gf_dump_fd := x_gf_dump_fd\<rparr>) = taken s" "taken (s\<lparr>gf_rate := x_gf_rate\<rparr>) = taken s"
  "taken (s\<lparr>gf_depth := x_gf_depth\<rparr>) = taken s" "taken (s\<lparr>lead_s := x_lead_s\<rparr>) = taken s" "taken (s\<lparr>min_margin := x_min_margin\<rparr>) = taken s"
  "taken (s\<lparr>gf_ring := x_gf_ring\<rparr>) = taken s" "taken (s\<lparr>produced := x_produced\<rparr>) = taken s" "taken (s\<lparr>shipped := x_shipped\<rparr>) = taken s"
  "taken (s\<lparr>gf_base := x_gf_base\<rparr>) = taken s" "taken (s\<lparr>streaming := x_streaming\<rparr>) = taken s" "taken (s\<lparr>kernel_running := x_kernel_running\<rparr>) = taken s"
  "taken (s\<lparr>run_pending := x_run_pending\<rparr>) = taken s" "taken (s\<lparr>clear_pending := x_clear_pending\<rparr>) = taken s" "taken (s\<lparr>hold_pending := x_hold_pending\<rparr>) = taken s"
  "taken (s\<lparr>hold_poll_at := x_hold_poll_at\<rparr>) = taken s" "taken (s\<lparr>written := x_written\<rparr>) = taken s" "taken (s\<lparr>run_base := x_run_base\<rparr>) = taken s"
  "taken (s\<lparr>killed := x_killed\<rparr>) = taken s" "taken (s\<lparr>kill_step := x_kill_step\<rparr>) = taken s" "taken (s\<lparr>gf_steps := x_gf_steps\<rparr>) = taken s"
  "taken (s\<lparr>base_steps := x_base_steps\<rparr>) = taken s" "taken (s\<lparr>base_counts := x_base_counts\<rparr>) = taken s" "taken (s\<lparr>base_valid := x_base_valid\<rparr>) = taken s"
  "taken (s\<lparr>gf_zeros := x_gf_zeros\<rparr>) = taken s" "taken (s\<lparr>gf_readback := x_gf_readback\<rparr>) = taken s" "taken (s\<lparr>unplayed := x_unplayed\<rparr>) = taken s"
  "taken (s\<lparr>failed := x_failed\<rparr>) = taken s" "taken (s\<lparr>ship_t0 := x_ship_t0\<rparr>) = taken s" "taken (s\<lparr>clamped := x_clamped\<rparr>) = taken s"
  "taken (s\<lparr>gf_lev := x_gf_lev\<rparr>) = taken s" "taken (s\<lparr>lev_head := x_lev_head\<rparr>) = taken s" "taken (s\<lparr>lev_tail := x_lev_tail\<rparr>) = taken s"
  "taken (s\<lparr>cur_power := x_cur_power\<rparr>) = taken s" "taken (s\<lparr>cur_fire := x_cur_fire\<rparr>) = taken s" "taken (s\<lparr>gate_seen := x_gate_seen\<rparr>) = taken s"
  "taken (s\<lparr>last_lit := x_last_lit\<rparr>) = taken s" "taken (s\<lparr>power_sent := x_power_sent\<rparr>) = taken s" "taken (s\<lparr>lev_overflow_warned := x_lev_overflow_warned\<rparr>) = taken s"
  "taken (s\<lparr>dith_period := x_dith_period\<rparr>) = taken s" "taken (s\<lparr>dith_min := x_dith_min\<rparr>) = taken s" "taken (s\<lparr>dith_left := x_dith_left\<rparr>) = taken s"
  "taken (s\<lparr>dith_on := x_dith_on\<rparr>) = taken s" "taken (s\<lparr>dith_acc := x_dith_acc\<rparr>) = taken s" "taken (s\<lparr>want_power := x_want_power\<rparr>) = taken s"
  "taken (s\<lparr>want_fire := x_want_fire\<rparr>) = taken s" "taken (s\<lparr>jogging := x_jogging\<rparr>) = taken s" "taken (s\<lparr>vticks := x_vticks\<rparr>) = taken s"
  "taken (s\<lparr>wall_epoch := x_wall_epoch\<rparr>) = taken s" "taken (s\<lparr>period_latched := x_period_latched\<rparr>) = taken s" "taken (s\<lparr>threads_started := x_threads_started\<rparr>) = taken s"
  "taken (s\<lparr>gf_armed := x_gf_armed\<rparr>) = taken s" "taken (s\<lparr>gf_quit := x_gf_quit\<rparr>) = taken s" "taken (s\<lparr>fault_flag := x_fault_flag\<rparr>) = taken s"
  "taken (s\<lparr>laser_armed := x_laser_armed\<rparr>) = taken s" "taken (s\<lparr>fire_gate := x_fire_gate\<rparr>) = taken s" "taken (s\<lparr>latch_locked_by_us := x_latch_locked_by_us\<rparr>) = taken s"
  "taken (s\<lparr>latch_fail_reported := x_latch_fail_reported\<rparr>) = taken s" "taken (s\<lparr>latch_log_fd := x_latch_log_fd\<rparr>) = taken s" "taken (s\<lparr>stall_ms := x_stall_ms\<rparr>) = taken s"
  "taken (s\<lparr>write_stall_ms := x_write_stall_ms\<rparr>) = taken s" "taken (s\<lparr>gf_stalled := x_gf_stalled\<rparr>) = taken s" "taken (s\<lparr>write_stalled := x_write_stalled\<rparr>) = taken s"
  "taken (s\<lparr>shutdown_done := x_shutdown_done\<rparr>) = taken s"
  by (simp_all add: taken_def)

lemma taken_currents [simp]:
  "taken (gfio_currents_run os s) = taken s" "taken (gfio_currents_hold os s) = taken s"
  by (simp_all add: gfio_currents_run_def gfio_currents_hold_def Let_def)

lemma taken_latch [simp]:
  "taken (snd (latch_write_locked os lock s)) = taken s"
  "taken (snd (gf_stream_laser_latch os lock s)) = taken s"
proof -
  have retry: "taken (snd (latch_retry os v n rc s)) = taken s" for v n rc and s :: "'a gf_scheme"
    by (induction n arbitrary: rc s) (simp_all add: case_prod_beta)
  show w: "taken (snd (latch_write_locked os lock s)) = taken s"
    by (simp add: latch_write_locked_def case_prod_beta Let_def retry)
  have "taken (latch_fault u) = taken u" for u :: "'a gf_scheme" by (simp add: latch_fault_def)
  then show "taken (snd (gf_stream_laser_latch os lock s)) = taken s"
    using w by (auto simp: gf_stream_laser_latch_def Let_def case_prod_beta)
qed

lemma taken_helpers [simp]:
  "taken (snd (clamp_locked os s)) = taken s" "taken (lev_merge p f s) = taken s"
  "taken (lev_push i p f s) = taken s" "taken (pulse_place b i s) = taken s"
  "taken (dither_reset s) = taken s" "taken (rebase_locked c s) = taken s"
  "taken (snd (drop_backlog_locked d s)) = taken s"
  by (simp_all add: clamp_locked_def lev_merge_def lev_push_def pulse_place_def dither_reset_def
        rebase_locked_def drop_backlog_locked_def case_prod_beta Let_def)

lemma taken_helpers2 [simp]:
  "taken (laser_queue i p f s) = taken s" "taken (wake_fresh s) = taken s"
  "taken (wake_continue os s) = taken s" "taken (wake_reassert s) = taken s"
  "taken (idle_dark s) = taken s" "taken (reset_laser s) = taken s"
  by (simp_all add: laser_queue_def wake_fresh_def wake_continue_def wake_reassert_def idle_dark_def
        reset_laser_def case_prod_beta Let_def)

lemma taken_helpers3 [simp]:
  "taken (laser_event_locked os p f s) = taken s" "taken (wake_locked os s) = taken s"
  "taken (reset_failed s) = taken s" "taken (snd (reset_live os k s)) = taken s"
  by (simp_all add: laser_event_locked_def wake_locked_def reset_failed_def reset_live_def
        case_prod_beta Let_def)

lemma taken_entry [simp]:
  "taken (gf_stream_pulse os sb db s) = taken s"
  "taken (gf_stream_laser os p f s) = taken s" "taken (gf_stream_jog os j s) = taken s"
  "taken (gf_stream_wakeup os s) = taken s" "taken (gf_stream_go_idle r sb db s) = taken s"
  "taken (gf_stream_reset os s) = taken s" "taken (gf_stream_clear_position os s) = taken s"
  "taken (snd (gf_stream_suspend os s)) = taken s" "taken (snd (readback_look os d s)) = taken s"
  "taken (gf_stream_laser_model pt mt s) = taken s"
  by (simp_all add: gf_stream_pulse_def gf_stream_laser_def gf_stream_jog_def gf_stream_wakeup_def
        gf_stream_go_idle_def gf_stream_reset_def gf_stream_clear_position_def
        gf_stream_suspend_def readback_look_def gf_stream_laser_model_def case_prod_beta Let_def)

lemma taken_resume:
  assumes "gf_stream_resume os s = Some (ok, s')"
  shows "taken s' = taken s"
proof -
  have re: "taken (snd (reacquire os n u)) = taken u" for n and u :: "'a gf_scheme"
  proof (induction n arbitrary: u)
    case (Suc n)
    have "taken (snd (gfio_open_pulse_dev_nb os (gf_dev u) u)) = taken u"
      by (simp add: gfio_open_pulse_dev_nb_def open_pulse_dev_def taken_def emit_def Let_def
            split: option.splits)
    then show ?case using Suc by (simp add: case_prod_beta split: option.splits)
  qed simp
  have st: "taken u' = taken u" if "settle_wait os d u = Some u'" for d and u u' :: "'a gf_scheme"
    by (rule settle_wait.raw_induct [where P = "\<lambda>os d s s'. taken s' = taken s", OF _ that])
       (auto simp: case_prod_beta split: if_splits)
  have rs: "taken u' = taken u" if "rail_settle os u = Some u'" for u u' :: "'a gf_scheme"
    using that by (auto simp: rail_settle_def Let_def case_prod_beta split: if_splits dest: st)
  have an: "taken (gfio_analog_config os u) = taken u" for u :: "'a gf_scheme"
    by (simp add: gfio_analog_config_def gfio_xy_microsteps_def Let_def case_prod_beta)
  have ap: "taken (snd (apply_tick os u)) = taken u" for u :: "'a gf_scheme"
    by (simp add: apply_tick_def Let_def case_prod_beta)
  have rb: "taken (rebase_at_takeover os e u) = taken u" for e and u :: "'a gf_scheme"
    by (simp add: rebase_at_takeover_def kernel_steps_def case_prod_beta Let_def split: option.splits)
  have sw: "taken (resume_swap x u) = taken u" for x and u :: "'a gf_scheme"
    by (simp add: resume_swap_def)
  have rd: "taken (snd (resume_device os x u)) = taken u" for x and u :: "'a gf_scheme"
    by (simp add: resume_device_def Let_def case_prod_beta sw rb ap an)
  obtain r s1 where a: "reacquire os 50 s = (r, s1)" by fastforce
  have s1: "taken s1 = taken s" using re [of 50 s] a by simp
  consider "\<not> gf_active s" | "gf_active s" "gfio_pulse_inherited os s"
    | "gf_active s" "\<not> gfio_pulse_inherited os s" by blast
  then show ?thesis
  proof cases
    case 1
    then show ?thesis using assms by (auto simp: gf_stream_resume_def)
  next
    case 2
    then show ?thesis using assms rd [of "gf_fd s" s] by (auto simp: gf_stream_resume_def)
  next
    case 3
    show ?thesis
    proof (cases r)
      case None
      then show ?thesis using assms 3 a s1 by (simp add: gf_stream_resume_def)
    next
      case (Some x)
      then obtain u where u: "rail_settle os s1 = Some u" "resume_device os x u = (ok, s')"
        using assms 3 a by (auto simp: gf_stream_resume_def split: option.splits)
      then show ?thesis using rs [OF u(1)] rd [of x u] s1 by simp
    qed
  qed
qed

lemma estep_taken:
  assumes "estep os s s'"
  shows "taken s' = taken s"
  using assms
proof cases
  case (e_resume ok)
  then show ?thesis using taken_resume by blast
qed (simp_all add: gf_stream_cycles_per_tick_def producer_fire_def gf_stream_fire_gate_def
      gf_stream_laser_arm_def gf_stream_fault_take_def Let_def)

section \<open>A closed gate\<close>

text \<open>The lit bytes the device took.\<close>

definition lits :: "'a io_scheme \<Rightarrow> u8 list" where
  "lits s = filter is_lit (taken s)"

lemma others_taken:
  assumes "interleaves os others"
  shows "taken (others k s) = taken s"
proof -
  have "taken s' = taken s" if "(estep os)\<^sup>*\<^sup>* s s'" for s s' :: "'a gf_scheme"
    using that by (induction rule: rtranclp_induct) (auto dest: estep_taken)
  then show ?thesis using assms by (auto simp: interleaves_def)
qed

lemma pulse_write_lits:
  assumes "pulse_write os x buf s = (ok, s')" "\<forall>b \<in> set buf. \<not> is_lit b"
  shows "lits s' = lits s"
proof -
  obtain p q where "buf = p @ q" "taken s' = taken s @ p"
    using pulse_write_from_taken [of buf os x 0 s] assms(1) by (auto simp: pulse_write_def)
  then show ?thesis using assms(2) by (auto simp: lits_def filter_empty_conv)
qed

lemma dark_not_lit: "\<forall>b \<in> set [0]. \<not> is_lit b"
  by (simp add: is_lit_def is_power_def)

lemma dark_pad_lits: "lits (dark_pad os s) = lits s"
proof -
  obtain ok s1 where p: "pulse_write os (gf_fd (dump_write [0] s)) [0] (dump_write [0] s) = (ok, s1)"
    by fastforce
  have "lits s1 = lits s" using pulse_write_lits [OF p dark_not_lit] by (simp add: lits_def)
  then show ?thesis using p by (simp add: dark_pad_def Let_def lits_def)
qed

lemma taken_kernel [simp]:
  "taken (snd (kernel_steps os s)) = taken s" "taken (snd (kernel_counts os s)) = taken s"
  by (simp_all add: kernel_steps_def kernel_counts_def case_prod_beta Let_def split: option.splits)

lemma pending_pass_lits:
  assumes "interleaves os others"
  shows "lits (snd (pending_pass os others s)) = lits s"
proof -
  have first: "lits (snd (pending_first os s)) = lits s"
    using dark_pad_lits [of os s]
    by (simp add: pending_first_def Let_def lits_def)
  have cl: "taken (clear_locked a c z r u) = taken u" for a c z r and u :: "'a gf_scheme"
    by (simp add: clear_locked_def settle_readback_def Let_def)
  have pd: "taken (pending_dead u) = taken u" for u :: "'a gf_scheme"
    by (simp add: pending_dead_def Let_def)
  show ?thesis
    using first by (simp add: pending_pass_def Let_def case_prod_beta lits_def cl pd
        others_taken [OF assms])
qed

lemma chunk_write_lits:
  assumes "interleaves os others" "chunk_write os others ch s = (ok, s')" "\<forall>b \<in> set ch. \<not> is_lit b"
  shows "lits s' = lits s"
proof -
  obtain now s1 where w: "wall_s os s = (now, s1)" by fastforce
  obtain ok' s2 where k: "sink_write os (gf_active s1) (gf_fd s1) ch (now - ship_t0 s1) (dump_write ch s1)
      = (ok', s2)" by fastforce
  have s1: "lits (dump_write ch s1) = lits s" using w taken_io(1) [of os s] by (simp add: lits_def)
  have "lits s2 = lits (dump_write ch s1)"
  proof (cases "gf_active s1")
    case True
    then show ?thesis using k pulse_write_lits [OF _ assms(3)] by (simp add: sink_write_def)
  next
    case False
    then show ?thesis using k by (auto simp: sink_write_def lits_def split: if_splits)
  qed
  then show ?thesis using assms w k s1 others_taken [OF assms(1), of 0 s2]
    by (simp add: chunk_write_def lits_def)
qed

lemma ship_chunks_lits:
  assumes "interleaves os others" "gf_inv s"
  shows "lits (snd (ship_chunks os others False due fuel strm sr s)) = lits s"
  using assms(2)
proof (induction fuel arbitrary: strm sr s)
  case (Suc fuel)
  obtain ch cs s1 where b: "build_chunk False strm due 0 s = ((ch, cs), s1)" by (metis surj_pair)
  have rd: "ring_dark s" using Suc.prems by (simp add: gf_inv_def)
  have dark: "\<forall>b \<in> set ch. \<not> is_lit b" using build_chunk_out(6) [OF rd b] by simp
  have "taken s1 = taken s" using build_chunk_frame [of False strm due 0 s] b by (auto simp: taken_def)
  then have c1: "lits (chunk_claim s1) = lits s" by (simp add: chunk_claim_def lits_def)
  have i1: "gf_inv (chunk_claim s1)"
    using build_chunk_inv [of s False strm due 0] Suc.prems [unfolded gf_inv_tick] b
    by (intro chunk_claim_inv) simp
  obtain ok s2 where w: "chunk_write os others ch (chunk_claim s1) = (ok, s2)" by fastforce
  have l2: "lits s2 = lits s" using chunk_write_lits [OF assms(1) w dark] c1 by simp
  have k: "keeps gf_inv others" by (rule interleaves_keeps [OF assms(1)]) (rule estep_inv)
  have i2: "gf_inv s2" using chunk_write_inv [OF i1 k, of os ch] w by simp
  have l3: "lits (chunk_failed s2) = lits s" "lits (chunk_taken a ch cs s2) = lits s"
    "gf_inv (chunk_taken a ch cs s2)" for a
    using l2 i2 by (simp_all add: chunk_failed_def chunk_taken_def lits_def)
  show ?case using Suc.IH [OF l3(3)] b w l3 by (simp add: Let_def)
qed simp

lemma start_kernel_run_taken:
  assumes "interleaves os others"
  shows "taken (start_kernel_run os others s) = taken s"
proof -
  have fo: "taken (fail_once u) = taken u" for u :: "'a gf_scheme" by (simp add: fail_once_def)
  have lf: "taken (latch_fault u) = taken u" for u :: "'a gf_scheme" by (simp add: latch_fault_def)
  have gi: "taken (gfhome_invalidate u) = taken u" for u :: "'a gf_scheme"
    by (simp add: gfhome_invalidate_upd taken_def)
  have rg: "taken (snd (run_gate os b w u)) = taken u" for b w and u :: "'a gf_scheme"
    by (simp add: run_gate_def case_prod_beta Let_def fo split: option.splits)
  have ir: "taken (snd (issue_request os n u)) = taken u" for n and u :: "'a gf_scheme"
    by (induction n arbitrary: u; subst issue_request.simps)
       (simp_all add: Let_def case_prod_beta fo gi)
  have iss: "taken (snd (issue_run os (others (Suc 0)) u)) = taken u" for u :: "'a gf_scheme"
    by (simp add: issue_run_def Let_def case_prod_beta lf ir others_taken [OF assms])
  show ?thesis by (simp add: start_kernel_run_def case_prod_beta Let_def rg iss fo)
qed

text \<open>A pass that samples a closed gate adds no lit byte to what the device took.\<close>

lemma closed_gate_pass_dark:
  assumes il: "interleaves os others" and inv: "gf_inv s"
    and gate: "\<not> fire_gate (snd (pending_pass os others s))"
  shows "lits (ship_pass os others s) = lits s"
proof -
  have k: "keeps gf_inv others" by (rule interleaves_keeps [OF il]) (rule estep_inv)
  obtain go s1 where p: "pending_pass os others s = (go, s1)" by fastforce
  have s1: "lits s1 = lits s" "gf_inv s1" "\<not> fire_gate s1"
    using pending_pass_lits [OF il, of s] pending_pass_inv [OF inv k, of os] p gate by simp_all
  define s2 where "s2 = gate_edge False s1"
  have s2: "lits s2 = lits s" "gf_inv s2"
    using s1 gate_edge_inv [OF s1(2), of False]
    by (simp_all add: s2_def gate_edge_def darken_events_def Let_def lits_def)
  have pad: "lits ((dark_pad os u)\<lparr>last_lit := a, cur_fire := b\<rparr>) = lits u" for a b and u :: "'a gf_scheme"
    using dark_pad_lits [of os u] by (simp add: lits_def)
  have se: "lits (stream_end os u) = lits u" for u :: "'a gf_scheme"
    using dark_pad_lits [of os u] by (simp add: stream_end_def Let_def case_prod_beta lits_def)
  have hp: "taken (hold_poll os u) = taken u" for u :: "'a gf_scheme"
    by (simp add: hold_poll_def case_prod_beta Let_def)
  have sd: "lits (ship_due os others False s2) = lits s2"
  proof -
    define s3 where "s3 = (if shipped s2 = 0 \<or> \<not> kernel_running s2
                            then (let (now, s) = wall_s os s2 in s\<lparr>ship_t0 := now\<rparr>) else s2)"
    have s3: "lits s3 = lits s2" "gf_inv s3"
      using s2(2) by (simp_all add: s3_def case_prod_beta lits_def io_inv)
    obtain now s4 where w: "wall_s os s3 = (now, s4)" by fastforce
    have s4: "lits s4 = lits s2" "gf_inv s4"
      using s3 w io_inv(1) [OF s3(2), of os] taken_io(1) [of os s3] by (simp_all add: lits_def)
    obtain sr s5 where c: "ship_chunks os others False (due_index now s4) (due_index now s4)
        (streaming s2) False s4 = (sr, s5)" by fastforce
    have s5: "lits s5 = lits s2"
      using ship_chunks_lits [OF il s4(2), of "due_index now s4" "due_index now s4" "streaming s2" False]
        c s4 by simp
    show ?thesis using w c s5 start_kernel_run_taken [OF il, of s5]
      by (simp add: ship_due_def Let_def lits_def flip: s3_def)
  qed
  show ?thesis using p s1 s2 sd pad [where u = s1] se [of s2] hp
    by (simp add: ship_pass_def Let_def lits_def flip: s2_def)
qed

end
