(* ===== verification/Stream_Ledger.thy ===== *)
theory Stream_Ledger
  imports Stream_Wire
begin

text \<open>
  The position ledger. The core counts every step it hands over; the kernel counts
  every step it plays. The steps between the two are in the ring, in a chunk being
  written, in the kernel's queue, or owed back by a reset. The theory shows that no
  section of the stream loses or invents a step, for every interleaving of the
  producer, the protocol thread and the shipper, so that the read-back after a
  reset gives the core exactly the position the kernel's counters stand for.

  The system here is the fault-free one: a faulted stream alarms and its position is
  not trusted until a home. One more condition is the ledger's, and the code does
  not enforce it: a fresh start needs an empty backlog.
\<close>

text \<open>The slots ahead of the produced index are zero, a lap around.\<close>

definition ring_clean :: "'a gf_scheme \<Rightarrow> bool" where
  "ring_clean s \<longleftrightarrow>
     (\<forall>i. produced s \<le> i \<and> shipped s \<le> i \<and> i < shipped s + RING_SIZE \<longrightarrow> gf_ring s (ring_slot i) = 0)"

definition owed :: "'a gf_scheme \<Rightarrow> steps3" where
  "owed s = (if gf_readback s = RB_WAIT \<or> gf_readback s = RB_DONE then unplayed s else 0)
            + (if killed s then byte_steps (kill_step s) else 0)"

text \<open>Every step counted since the base: shipped, still in the ring, or owed back.\<close>

definition account :: "'a gf_scheme \<Rightarrow> steps3" where
  "account s = base_counts s + (gf_steps s - base_steps s) + ring_total s + owed s"

section \<open>The sections of the stream against the ledger\<close>

lemma core_steps_of_zero: "pulse_byte sb db = 0 \<Longrightarrow> core_steps sb db = 0"
  using pulse_byte_steps [of sb db] by simp

lemma account_fields:
  "account s = base_counts s + (gf_steps s - base_steps s)
     + (\<Sum>k<RING_SIZE. byte_steps (gf_ring s k))
     + ((if gf_readback s = RB_WAIT \<or> gf_readback s = RB_DONE then unplayed s else 0)
        + (if killed s then byte_steps (kill_step s) else 0))"
  by (simp add: account_def ring_total_def owed_def)

text \<open>Operations that touch none of the ledger's fields.\<close>

definition ledger_view :: "'a gf_scheme \<Rightarrow> (nat \<Rightarrow> u8) \<times> nat \<times> nat \<times> steps3 \<times> steps3 \<times> steps3 \<times> steps3 \<times> rb \<times> bool \<times> u8" where
  "ledger_view s = (gf_ring s, produced s, shipped s, base_counts s, gf_steps s, base_steps s,
                    unplayed s, gf_readback s, killed s, kill_step s)"

lemma ledger_cong:
  assumes "ledger_view s = ledger_view t"
  shows "account s = account t" "ring_clean s = ring_clean t"
  using assms by (simp_all add: ledger_view_def account_fields ring_clean_def)

lemma ledger_view_clamp: "ledger_view (snd (clamp_locked os s)) = ledger_view s"
  by (simp add: ledger_view_def clamp_locked_def Let_def frame_simps)

lemma ledger_view_event: "ledger_view (laser_event_locked os p f s) = ledger_view s"
proof -
  have q: "ledger_view (laser_queue i p f u) = ledger_view u" for i and u :: "'a gf_scheme"
    by (simp add: ledger_view_def laser_queue_def lev_merge_def lev_push_def Let_def)
  show ?thesis by (simp add: laser_event_locked_def Let_def case_prod_beta q ledger_view_clamp)
qed

lemma ledger_view_laser: "ledger_view (gf_stream_laser os p f s) = ledger_view s"
  by (simp add: gf_stream_laser_def Let_def ledger_view_event) (simp add: ledger_view_def)

lemma ledger_view_jog: "ledger_view (gf_stream_jog os j s) = ledger_view s"
  by (simp add: gf_stream_jog_def Let_def ledger_view_event) (simp add: ledger_view_def)

text \<open>A step event placed in the ring.\<close>

lemma pulse_place_ledger:
  assumes "ring_clean s" "shipped s \<le> i" "pulse_place b i s = s'" "\<not> failed s'"
  shows "account s' = account s + byte_steps b" "ring_clean s'"
proof -
  define j where "j = (if i < produced s then produced s else i)"
  have j: "produced s \<le> j" "shipped s \<le> j" using assms(2) by (auto simp: j_def)
  have fits: "j - shipped s < RING_SIZE - 1"
    using assms(3,4) by (auto simp: pulse_place_def Let_def j_def split: if_splits)
  then have jl: "j < shipped s + RING_SIZE" using j by linarith
  have s': "s' = s\<lparr>gf_ring := (gf_ring s)(ring_slot j := b), produced := j + 1\<rparr>"
    using assms(3) fits by (auto simp: pulse_place_def Let_def j_def split: if_splits)
  have z: "gf_ring s (ring_slot j) = 0" using assms(1) j jl by (auto simp: ring_clean_def)
  have "(\<Sum>k<RING_SIZE. byte_steps (gf_ring s' k)) =
      (\<Sum>k<RING_SIZE. byte_steps (gf_ring s k)) + byte_steps b"
    using ring_total_update [of "gf_ring s" j b] z by (simp add: s' del: fun_upd_apply)
  then show "account s' = account s + byte_steps b"
    unfolding account_fields by (simp add: s' del: fun_upd_apply)
  show "ring_clean s'"
    unfolding ring_clean_def
  proof (intro allI impI)
    fix k assume k: "produced s' \<le> k \<and> shipped s' \<le> k \<and> k < shipped s' + RING_SIZE"
    then have "ring_slot k \<noteq> ring_slot j"
      using ring_slot_inj [of j k] j jl by (auto simp: s')
    then show "gf_ring s' (ring_slot k) = 0"
      using assms(1) k j by (auto simp: s' ring_clean_def)
  qed
qed

lemma pulse_ledger:
  assumes "ring_clean s" "streaming s" "\<not> failed s" "\<not> failed (gf_stream_pulse os sb db s)"
  shows "account (gf_stream_pulse os sb db s) = account s + core_steps sb db
       \<and> ring_clean (gf_stream_pulse os sb db s)"
proof (cases "pulse_byte sb db = 0")
  case True
  then show ?thesis using assms by (simp add: gf_stream_pulse_def core_steps_of_zero)
next
  case False
  define s1 where "s1 = (if int (event_idx s) - int (shipped s) < min_margin s
                         then s\<lparr>min_margin := int (event_idx s) - int (shipped s)\<rparr> else s)"
  have v1: "ledger_view s1 = ledger_view s" by (simp add: s1_def ledger_view_def)
  obtain d s2 where c: "clamp_locked os s1 = (d, s2)" by fastforce
  have v2: "ledger_view s2 = ledger_view s" using ledger_view_clamp [of os s1] c v1 by simp
  have sh: "shipped s1 = shipped s" "shipped s2 = shipped s" using v1 v2 by (simp_all add: ledger_view_def)
  have eq: "gf_stream_pulse os sb db s =
      (if event_idx s < shipped s then (if d then s2 else pulse_place (pulse_byte sb db) (shipped s2) s2)
       else pulse_place (pulse_byte sb db) (event_idx s) s1)"
    using False assms(2,3) c sh by (simp add: gf_stream_pulse_def Let_def flip: s1_def)
  have d: "d \<Longrightarrow> failed s2" using c by (auto simp: clamp_locked_def Let_def frame_simps split: if_splits)
  have place: "account (pulse_place (pulse_byte sb db) i u) = account s + core_steps sb db
      \<and> ring_clean (pulse_place (pulse_byte sb db) i u)"
    if "ledger_view u = ledger_view s" "shipped u \<le> i" "\<not> failed (pulse_place (pulse_byte sb db) i u)"
    for i and u :: "'a gf_scheme"
    using pulse_place_ledger [OF _ that(2) refl that(3)] ledger_cong [OF that(1)] assms(1)
    by (simp add: pulse_byte_steps)
  show ?thesis
  proof (cases "event_idx s < shipped s")
    case True
    then show ?thesis using assms(4) d place [OF v2, of "shipped s2"] eq by (cases d) auto
  next
    case False
    then show ?thesis using assms(4) place [OF v1, of "event_idx s"] eq sh by auto
  qed
qed

text \<open>An empty backlog and a clean ring are a ring of zeros.\<close>

lemma ring_clean_zero:
  assumes "ring_clean s" "produced s \<le> shipped s"
  shows "gf_ring s (ring_slot i) = 0"
proof -
  define d where "d = (ring_slot i + RING_SIZE - ring_slot (shipped s)) mod RING_SIZE"
  have R: "0 < RING_SIZE" by (simp add: RING_SIZE_def)
  have "ring_slot (shipped s + d) = (ring_slot (shipped s) + d) mod RING_SIZE"
    by (simp add: ring_slot_def mod_add_left_eq)
  also have "\<dots> = (ring_slot (shipped s) + (ring_slot i + RING_SIZE - ring_slot (shipped s))) mod RING_SIZE"
    by (simp add: d_def mod_add_right_eq)
  also have "ring_slot (shipped s) + (ring_slot i + RING_SIZE - ring_slot (shipped s)) = ring_slot i + RING_SIZE"
    using ring_slot_less [of "shipped s"] by linarith
  finally have "ring_slot (shipped s + d) = ring_slot i"
    by (simp add: ring_slot_def)
  moreover have "d < RING_SIZE" using R by (simp add: d_def)
  ultimately show ?thesis using assms by (metis ring_clean_def add_less_cancel_left le_add1 order_trans)
qed

lemma wakeup_ledger:
  assumes "ring_clean s" "\<not> killed s" "streaming s \<or> kernel_running s \<or> produced s \<le> shipped s"
  shows "account (gf_stream_wakeup os s) = account s \<and> ring_clean (gf_stream_wakeup os s)"
proof (cases "failed s")
  case True
  then show ?thesis using assms by (simp add: gf_stream_wakeup_def)
next
  case nf: False
  define s1 where "s1 = (if gf_active s then gfio_currents_run os s else s)\<lparr>killed := False, kill_step := 0\<rparr>"
  have v: "gf_ring s1 = gf_ring s" "produced s1 = produced s" "shipped s1 = shipped s"
    "base_counts s1 = base_counts s" "gf_steps s1 = gf_steps s" "base_steps s1 = base_steps s"
    "unplayed s1 = unplayed s" "gf_readback s1 = gf_readback s" "killed s1 = False"
    "streaming s1 = streaming s" "kernel_running s1 = kernel_running s"
    by (simp_all add: s1_def gfio_currents_run_def frame_simps Let_def)
  have a1: "account s1 = account s" "ring_clean s1"
    using assms(1,2) by (simp_all add: account_fields ring_clean_def v)
  have w: "gf_stream_wakeup os s = (if streaming s1 then s1 else wake_locked os s1)\<lparr>gf_armed := True\<rparr>"
    using nf by (simp add: gf_stream_wakeup_def Let_def s1_def)
  have wl: "gf_ring (wake_locked os s1) = gf_ring s1" "base_counts (wake_locked os s1) = base_counts s1"
    "gf_steps (wake_locked os s1) = gf_steps s1" "base_steps (wake_locked os s1) = base_steps s1"
    "unplayed (wake_locked os s1) = unplayed s1" "gf_readback (wake_locked os s1) = gf_readback s1"
    "killed (wake_locked os s1) = killed s1" "kill_step (wake_locked os s1) = kill_step s1"
    "kernel_running s1 \<Longrightarrow> shipped (wake_locked os s1) = shipped s1"
    "kernel_running s1 \<Longrightarrow> produced s1 \<le> produced (wake_locked os s1)"
    by (simp_all add: wake_locked_def wake_fresh_def wake_continue_def wake_reassert_def lev_push_def
          frame_simps Let_def)
  have acc: "account (wake_locked os s1) = account s1" by (simp add: account_fields wl)
  have cl: "ring_clean (wake_locked os s1)" if ns: "\<not> streaming s1"
  proof (cases "kernel_running s1")
    case True
    then show ?thesis using a1(2) wl by (auto simp: ring_clean_def)
  next
    case False
    then have "gf_ring s1 (ring_slot i) = 0" for i
      using ring_clean_zero [OF a1(2)] assms(3) ns v by simp
    then show ?thesis by (simp add: ring_clean_def wl)
  qed
  have irr: "account (u\<lparr>gf_armed := b\<rparr>) = account u" "ring_clean (u\<lparr>gf_armed := b\<rparr>) = ring_clean u"
    for u :: "'a gf_scheme" and b by (simp_all add: account_fields ring_clean_def)
  show ?thesis unfolding w irr using a1 acc cl by simp
qed

lemma go_idle_ledger:
  assumes "ring_clean s" "\<not> killed s"
  shows "account (gf_stream_go_idle r sb db s) =
           account s + (if r \<and> streaming s then core_steps sb db else 0)
       \<and> ring_clean (gf_stream_go_idle r sb db s)"
proof -
  have d: "account (idle_dark u) = account u" "ring_clean (idle_dark u) = ring_clean u" for u :: "'a gf_scheme"
    by (rule ledger_cong, simp add: ledger_view_def idle_dark_def lev_merge_def lev_push_def Let_def)+
  have st: "account (u\<lparr>streaming := b\<rparr>) = account u" "ring_clean (u\<lparr>streaming := b\<rparr>) = ring_clean u"
    for u :: "'a gf_scheme" and b by (simp_all add: account_fields ring_clean_def)
  have ar: "account (u\<lparr>gf_armed := b\<rparr>) = account u" "ring_clean (u\<lparr>gf_armed := b\<rparr>) = ring_clean u"
    for u :: "'a gf_scheme" and b by (simp_all add: account_fields ring_clean_def)
  have k: "account (s\<lparr>gf_armed := b, kill_step := x, killed := True\<rparr>) = account s + byte_steps x"
    "ring_clean (s\<lparr>gf_armed := b, kill_step := x, killed := True\<rparr>) = ring_clean s" for b x
    using assms(2) by (simp_all add: account_fields ring_clean_def)
  show ?thesis using assms
    by (simp add: gf_stream_go_idle_def Let_def d st ar k pulse_byte_steps)
qed

text \<open>Dropping the backlog moves its steps from the ring to the caller's count.\<close>

lemma drop_fold:
  assumes "fold (\<lambda>i (d, r). (tick_steps d (r (ring_slot i)), r(ring_slot i := 0))) is (d, r) = (d', r')"
  shows "d' + (\<Sum>k<RING_SIZE. byte_steps (r' k)) = d + (\<Sum>k<RING_SIZE. byte_steps (r k))
       \<and> (\<forall>x. r' x = (if x \<in> ring_slot ` set is then 0 else r x))"
  using assms
proof (induction "is" arbitrary: d r)
  case (Cons i "is")
  let ?d = "tick_steps d (r (ring_slot i))" and ?r = "r(ring_slot i := 0)"
  have "fold (\<lambda>i (d, r). (tick_steps d (r (ring_slot i)), r(ring_slot i := 0))) is (?d, ?r) = (d', r')"
    using Cons.prems by (simp del: fun_upd_apply)
  note IH = Cons.IH [OF this]
  have "(\<Sum>k<RING_SIZE. byte_steps (?r k)) = (\<Sum>k<RING_SIZE. byte_steps (r k)) - byte_steps (r (ring_slot i))"
    using ring_total_update [of r i 0] by (simp del: fun_upd_apply)
  then have "d' + (\<Sum>k<RING_SIZE. byte_steps (r' k)) = d + (\<Sum>k<RING_SIZE. byte_steps (r k))"
    unfolding conjunct1 [OF IH] by (simp add: tick_steps_byte)
  moreover have "r' x = (if x \<in> ring_slot ` set (i # is) then 0 else r x)" for x
    using conjunct2 [OF IH] by simp
  ultimately show ?case by blast
qed simp

lemma drop_backlog_ledger:
  assumes "ring_clean s" "drop_backlog_locked d s = (d', s')"
  shows "d' + ring_total s' = d + ring_total s" "ring_clean s'"
    "\<exists>r. s' = s\<lparr>gf_ring := r, produced := shipped s\<rparr>"
proof -
  obtain r where f: "fold (\<lambda>i (d, r). (tick_steps d (r (ring_slot i)), r(ring_slot i := 0)))
      [shipped s..<produced s] (d, gf_ring s) = (d', r)"
    and s': "s' = s\<lparr>gf_ring := r, produced := shipped s\<rparr>"
    using assms(2) by (auto simp: drop_backlog_locked_def split: prod.splits)
  note D = drop_fold [OF f]
  show "d' + ring_total s' = d + ring_total s" using conjunct1 [OF D] by (simp add: ring_total_def s')
  show "\<exists>r. s' = s\<lparr>gf_ring := r, produced := shipped s\<rparr>" using s' by blast
  have "r (ring_slot i) = 0" if "shipped s \<le> i" "i < shipped s + RING_SIZE" for i
    using D assms(1) that by (cases "i < produced s") (auto simp: ring_clean_def)
  then show "ring_clean s'" by (simp add: ring_clean_def s')
qed

text \<open>A soft reset moves what was not shipped to the read-back.\<close>

lemma reset_ledger:
  assumes "ring_clean s" "\<not> failed s" "gf_readback s = RB_NONE"
    "killed s \<and> base_valid s \<or> \<not> killed s \<and> \<not> streaming s"
  shows "account (gf_stream_reset os s) = account s \<and> ring_clean (gf_stream_reset os s)"
proof (cases "killed s")
  case False
  then have "ledger_view (gf_stream_reset os s) = ledger_view s"
    using assms by (simp add: gf_stream_reset_def Let_def ledger_view_def)
  then show ?thesis using ledger_cong assms(1) by metis
next
  case True
  define s0 where "s0 = s\<lparr>killed := False, gf_readback := RB_NONE\<rparr>"
  obtain d s1 where dr: "drop_backlog_locked (tick_steps 0 (kill_step s0)) s0 = (d, s1)" by fastforce
  have c0: "ring_clean s0" using assms(1) by (simp add: s0_def ring_clean_def)
  note D = drop_backlog_ledger [OF c0 dr]
  obtain r where s1: "s1 = s0\<lparr>gf_ring := r, produced := shipped s0\<rparr>" using D(3) by blast
  have lv: "ledger_view (gf_stream_reset os s) =
      ledger_view (s1\<lparr>unplayed := d, gf_readback := RB_WAIT\<rparr>)"
    using True assms(2,4) dr
    by (simp add: gf_stream_reset_def reset_live_def Let_def ledger_view_def s1 reset_laser_def
          dither_reset_def frame_simps flip: s0_def) (simp add: s0_def)
  have "byte_steps (kill_step s) + ring_total s0 = d + ring_total s1"
    using D(1) by (simp add: s0_def tick_steps_byte)
  then have "account (s1\<lparr>unplayed := d, gf_readback := RB_WAIT\<rparr>) = account s"
    using True assms(3) by (simp add: account_def owed_def ring_total_def s1 s0_def algebra_simps)
  moreover have "ring_clean (s1\<lparr>unplayed := d, gf_readback := RB_WAIT\<rparr>)"
    using D(2) by (simp add: ring_clean_def)
  ultimately show ?thesis using ledger_cong [OF lv] by simp
qed

text \<open>The clear: the base moves to the kernel's counters, and the read-back takes up the rest.\<close>

lemma clear_ledger:
  assumes "ring_clean s" "gf_readback s = RB_WAIT" "base_valid s" "zeros = gf_zeros s"
  shows "account (clear_locked True True zeros (Some counts) s) = account s
       \<and> ring_clean (clear_locked True True zeros (Some counts) s)
       \<and> base_counts (clear_locked True True zeros (Some counts) s) = counts
       \<and> gf_readback (clear_locked True True zeros (Some counts) s) = RB_DONE"
  using assms
  by (simp add: clear_locked_def settle_readback_def rebase_locked_def dither_reset_def
        account_fields ring_clean_def algebra_simps)

lemma ship_tick_clean:
  assumes "ring_clean s"
  shows "ring_clean (snd (ship_tick gate s))"
proof -
  have f: "gf_ring (snd (ship_tick gate s)) = (gf_ring s)(ring_slot (shipped s) := 0)"
    "produced (snd (ship_tick gate s)) = produced s"
    using ship_tick_frame [of gate s] by auto
  show ?thesis
    unfolding ring_clean_def f ship_tick_shipped
  proof (intro allI impI)
    fix i assume i: "produced s \<le> i \<and> shipped s + 1 \<le> i \<and> i < shipped s + 1 + RING_SIZE"
    show "((gf_ring s)(ring_slot (shipped s) := 0)) (ring_slot i) = 0"
    proof (cases "i = shipped s + RING_SIZE")
      case True
      then show ?thesis by (simp add: ring_slot_def)
    next
      case False
      then show ?thesis using i assms by (simp add: ring_clean_def)
    qed
  qed
qed

lemma build_chunk_clean:
  "ring_clean s \<Longrightarrow> ring_clean (snd (build_chunk gate strm due n s))"
proof (induction gate strm due n s rule: build_chunk.induct)
  case (1 gate strm due n s)
  show ?case
  proof (cases "n < SHIP_CHUNK - 1 \<and> shipped s < due \<and> (strm \<or> shipped s < produced s)")
    case True
    then show ?thesis using "1.IH" [OF True refl refl ship_tick_clean [OF "1.prems"]]
      by (subst build_chunk.simps) (simp add: Let_def case_prod_beta)
  next
    case False
    then show ?thesis using "1.prems" by (subst build_chunk.simps) auto
  qed
qed

text \<open>Building a chunk moves its steps from the ring to the chunk.\<close>

lemma build_ledger:
  assumes "gf_inv s" "ring_clean s" "build_chunk gate strm due n s = ((bs, st), s')"
  shows "account s = account (chunk_claim s') + st \<and> ring_clean (chunk_claim s')"
proof -
  have rd: "ring_dark s" using assms(1) by (simp add: gf_inv_def)
  have t: "ring_total s = ring_total s' + st" using build_chunk_out(5) [OF rd assms(3)] .
  have f: "base_counts s' = base_counts s" "gf_steps s' = gf_steps s" "base_steps s' = base_steps s"
    "owed s' = owed s"
    using build_chunk_frame [of gate strm due n s] assms(3) by (auto simp: owed_def)
  have "account s = account s' + st" by (simp add: account_def f t)
  moreover have "ledger_view (chunk_claim s') = ledger_view s'"
    by (simp add: ledger_view_def chunk_claim_def)
  moreover have "ring_clean s'" using build_chunk_clean [OF assms(2), of gate strm due n] assms(3) by simp
  ultimately show ?thesis using ledger_cong by metis
qed

lemma taken_ledger:
  "account (chunk_taken a bs st s) = account s + st" "ring_clean (chunk_taken a bs st s) = ring_clean s"
  by (simp_all add: chunk_taken_def account_fields ring_clean_def)

lemma dark_pad_frame:
  obtains tr e w where "dark_pad os s = s\<lparr>io_tr := tr, io_errno := e, written := w\<rparr>"
proof -
  define u where "u = dump_write [0] s"
  obtain t0 where u: "u = s\<lparr>io_tr := t0\<rparr>"
    by (rule that [of "io_tr u"]) (simp add: u_def dump_write_def emit_def)
  obtain ok v where p: "pulse_write os (gf_fd u) [0] u = (ok, v)" by fastforce
  obtain t e where v: "v = u\<lparr>io_tr := t, io_errno := e\<rparr>" using pulse_write_frame [OF p] by blast
  have "dark_pad os s = (if gf_active u then (if ok then v\<lparr>written := written v + 1\<rparr> else v) else u)"
    using p by (simp add: dark_pad_def Let_def flip: u_def)
  also have "\<dots> = s\<lparr>io_tr := if gf_active u then t else t0, io_errno := if gf_active u then e else io_errno s,
      written := if gf_active u \<and> ok then written s + 1 else written s\<rparr>"
    by (simp add: u v)
  finally show ?thesis by (rule that)
qed

lemma stream_end_ledger:
  assumes "ring_clean s" "produced s \<le> shipped s"
  shows "account (stream_end os s) = account s \<and> ring_clean (stream_end os s)"
proof -
  have z: "gf_ring s (ring_slot i) = 0" for i by (rule ring_clean_zero [OF assms])
  obtain tr e w where dp: "dark_pad os s = s\<lparr>io_tr := tr, io_errno := e, written := w\<rparr>"
    by (rule dark_pad_frame)
  have f: "gf_ring (stream_end os s) = gf_ring s" "base_counts (stream_end os s) = base_counts s"
    "gf_steps (stream_end os s) = gf_steps s" "base_steps (stream_end os s) = base_steps s"
    "unplayed (stream_end os s) = unplayed s" "gf_readback (stream_end os s) = gf_readback s"
    "killed (stream_end os s) = killed s" "kill_step (stream_end os s) = kill_step s"
    by (simp_all add: stream_end_def dp Let_def frame_simps dither_reset_def)
  show ?thesis by (simp add: account_fields ring_clean_def f z)
qed

section \<open>The ledger of the whole stream\<close>

text \<open>
  The sections of the threads on a state, the core's position and the steps of the
  chunk being written, if one is. A section of the producer or of the protocol
  thread can land while a chunk is out; the shipper's own wait for it.
\<close>

type_synonym ledger = "gf \<times> steps3 \<times> steps3 option"

fun in_flight :: "steps3 option \<Rightarrow> steps3" where
  "in_flight None = 0"
| "in_flight (Some st) = st"

inductive lstep :: "os \<Rightarrow> ledger \<Rightarrow> ledger \<Rightarrow> bool" for os where
  l_pulse: "streaming s \<Longrightarrow> \<not> failed s \<Longrightarrow> s' = gf_stream_pulse os sb db s \<Longrightarrow> \<not> failed s'
      \<Longrightarrow> lstep os (s, pos, fl) (s', pos + core_steps sb db, fl)"
| l_laser: "lstep os (s, pos, fl) (gf_stream_laser os p f s, pos, fl)"
| l_jog: "lstep os (s, pos, fl) (gf_stream_jog os j s, pos, fl)"
| l_fire: "gf_armed s \<Longrightarrow> lstep os (s, pos, fl) (producer_fire id s, pos, fl)"
| l_wakeup: "\<not> killed s \<Longrightarrow> streaming s \<or> kernel_running s \<or> produced s \<le> shipped s
      \<Longrightarrow> lstep os (s, pos, fl) (gf_stream_wakeup os s, pos, fl)"
| l_go_idle: "\<not> killed s \<Longrightarrow> lstep os (s, pos, fl)
      (gf_stream_go_idle r sb db s, pos + (if r \<and> streaming s then core_steps sb db else 0), fl)"
| l_reset: "\<not> failed s \<Longrightarrow> gf_readback s = RB_NONE
      \<Longrightarrow> killed s \<and> base_valid s \<or> \<not> killed s \<and> \<not> streaming s
      \<Longrightarrow> lstep os (s, pos, fl) (gf_stream_reset os s, pos, fl)"
| l_build: "build_chunk gate strm due 0 s = ((bs, st), s')
      \<Longrightarrow> lstep os (s, pos, None) (chunk_claim s', pos, Some st)"
| l_taken: "lstep os (s, pos, Some st) (chunk_taken a bs st s, pos, None)"
| l_end: "\<not> streaming s \<Longrightarrow> produced s \<le> shipped s
      \<Longrightarrow> lstep os (s, pos, None) (stream_end os s, pos, None)"
| l_clear: "gf_readback s = RB_WAIT \<Longrightarrow> base_valid s
      \<Longrightarrow> lstep os (s, pos, None) (clear_locked True True (gf_zeros s) (Some counts) s, pos, None)"
| l_read: "gf_readback s = RB_DONE \<Longrightarrow> readback_look os d s = (Some (1, st), s')
      \<Longrightarrow> lstep os (s, pos, fl) (s', pos - st, fl)"

definition ledger_inv :: "steps3 \<Rightarrow> ledger \<Rightarrow> bool" where
  "ledger_inv c = (\<lambda>(s, pos, fl). gf_inv s \<and> ring_clean s \<and> pos = c + account s + in_flight fl)"

definition ledger_start :: "steps3 \<Rightarrow> ledger \<Rightarrow> bool" where
  "ledger_start c = (\<lambda>(s, pos, fl). gf_inv s \<and> fl = None \<and> gf_ring s = (\<lambda>_. 0) \<and> \<not> killed s
      \<and> gf_readback s = RB_NONE \<and> base_steps s = gf_steps s \<and> pos = c + base_counts s)"

lemma readback_ledger:
  assumes "ring_clean s" "gf_readback s = RB_DONE" "readback_look os d s = (Some (1, st), s')"
  shows "account s = account s' + st" "ring_clean s'"
  using assms by (auto simp: readback_look_def account_fields ring_clean_def)

lemma lstep_inv:
  assumes "lstep os l l'" "ledger_inv c l"
  shows "ledger_inv c l'"
  using assms
proof cases
  case (l_pulse s s' sb db pos fl)
  then show ?thesis
    using assms(2) pulse_ledger [of s os sb db] gf_stream_pulse_inv [of s os sb db]
    by (auto simp: ledger_inv_def algebra_simps)
next
  case (l_laser s pos fl p f)
  then show ?thesis using assms(2) ledger_cong [OF ledger_view_laser [of os p f s]]
    by (auto simp: ledger_inv_def gf_stream_laser_inv)
next
  case (l_jog s pos fl j)
  then show ?thesis using assms(2) ledger_cong [OF ledger_view_jog [of os j s]]
    by (auto simp: ledger_inv_def gf_stream_jog_inv)
next
  case (l_fire s pos fl)
  have "ledger_view (producer_fire id s) = ledger_view s" "gf_inv (producer_fire id s) = gf_inv s"
    by (simp_all add: producer_fire_def ledger_view_def Let_def)
  then show ?thesis using l_fire assms(2) ledger_cong [of "producer_fire id s" s] by (auto simp: ledger_inv_def)
next
  case (l_wakeup s pos fl)
  then show ?thesis using assms(2) wakeup_ledger [of s os] gf_stream_wakeup_inv [of s os]
    by (auto simp: ledger_inv_def)
next
  case (l_go_idle s pos fl r sb db)
  then show ?thesis using assms(2) go_idle_ledger [of s r sb db] gf_stream_go_idle_inv [of s r sb db]
    by (auto simp: ledger_inv_def algebra_simps)
next
  case (l_reset s pos fl)
  then show ?thesis using assms(2) reset_ledger [of s os] gf_stream_reset_inv [of s os]
    by (auto simp: ledger_inv_def)
next
  case (l_build gate strm due s bs st s' pos)
  then have "tick_inv s'" using assms(2) build_chunk_inv [of s gate strm due 0]
    by (simp add: ledger_inv_def gf_inv_tick)
  then show ?thesis using l_build assms(2) build_ledger [of s gate strm due 0 bs st s'] chunk_claim_inv
    by (auto simp: ledger_inv_def algebra_simps)
next
  case (l_taken s pos st a bs)
  then show ?thesis using assms(2) by (auto simp: ledger_inv_def taken_ledger chunk_end_inv algebra_simps)
next
  case (l_end s pos)
  then show ?thesis using assms(2) stream_end_ledger [of s os] stream_end_inv [of s os]
    by (auto simp: ledger_inv_def)
next
  case (l_clear s pos counts)
  then show ?thesis using assms(2) clear_ledger [of s "gf_zeros s" counts] clear_locked_inv [of s]
    by (auto simp: ledger_inv_def)
next
  case (l_read s d st s' pos fl)
  then show ?thesis using assms(2) readback_ledger [of s os d st s'] readback_look_inv [of s os d]
    by (auto simp: ledger_inv_def algebra_simps)
qed

lemma ledger_start_inv: "ledger_start c l \<Longrightarrow> ledger_inv c l"
  by (auto simp: ledger_start_def ledger_inv_def account_fields ring_clean_def)

interpretation ledger_sys: guarded_system "ledger_start c" "lstep os" "ledger_inv c"
  by unfold_locales (auto intro: ledger_start_inv lstep_inv)

text \<open>An empty backlog holds no step.\<close>

lemma ring_total_empty:
  assumes "ring_clean s" "produced s \<le> shipped s"
  shows "ring_total s = 0"
proof -
  have "gf_ring s k = 0" if "k < RING_SIZE" for k
    using ring_clean_zero [OF assms, of k] that by (simp add: ring_slot_def)
  then show ?thesis by (simp add: ring_total_def)
qed

end
