(* ===== verification/Stream_Props.thy ===== *)
theory Stream_Props
  imports Stream_Ledger
begin

text \<open>
  The properties of the pulse stream, over the lemmas of the component theories, and
  the bench on which their witnesses run: a kernel that takes every store and every
  pulse byte, with a pulse device handed over by a broker and a clock that advances
  with every event.
\<close>

section \<open>The bench\<close>

definition bench_os :: os where
  "bench_os = \<lparr>os_getenv = (\<lambda>n. if n = ''GFSINK'' then Some ''/dev/glowforge''
        else if n = ''GF_PULSE_FD'' then Some ''7'' else None),
     os_file = (\<lambda>tr f. None),
     os_store = (\<lambda>tr a v. Store_ret (Ret (length v))),
     os_attr_read = (\<lambda>tr a. Some ''idle''),
     os_attr_bin = (\<lambda>tr a. Some (replicate 32 0)),
     os_write = (\<lambda>tr fd buf. (0, Ret (length buf))),
     os_lseek = (\<lambda>tr fd p. True),
     os_open = (\<lambda>tr p nb. Some 3),
     os_creat = (\<lambda>tr p. True),
     os_fd_valid = (\<lambda>tr fd. True),
     os_now = (\<lambda>tr. of_nat (length tr) / 100)\<rparr>"

text \<open>A process with no device: the null sink.\<close>

definition null_os :: os where
  "null_os = bench_os\<lparr>os_getenv := (\<lambda>n. None)\<rparr>"

definition bench_gf :: gf where
  "bench_gf = (case gf_stream_init bench_os True gf0 of Some (ok, s) \<Rightarrow> s | None \<Rightarrow> gf0)"

definition null_gf :: gf where
  "null_gf = (case gf_stream_init null_os True gf0 of Some (ok, s) \<Rightarrow> s | None \<Rightarrow> gf0)"

text \<open>The bench's answers.\<close>

lemma bench_env [simp]:
  "getenv_set bench_os n = (if n = ''GFSINK'' then Some ''/dev/glowforge''
     else if n = ''GF_PULSE_FD'' then Some ''7'' else None)"
  "getenv_set null_os n = None"
  by (simp_all add: getenv_set_def bench_os_def null_os_def)

lemma bench_wr [simp]: "wr_rc bench_os a v hw tr = 0"
  by (simp add: wr_rc_def bench_os_def)

lemma bench_inherited [simp]: "inherited_pulse_fd bench_os tr = Some 7"
proof -
  have "atoi ''7'' = 7" by code_simp
  then show ?thesis by (simp add: inherited_pulse_fd_def bench_os_def getenv_set_def)
qed

lemma bench_dev [simp]:
  "gfio_pulse_inherited bench_os s" "gfio_open_pulse_dev bench_os d s = (Some 7, s)"
  by (simp_all add: gfio_pulse_inherited_def gfio_open_pulse_dev_def)

lemma bench_latch: "fst (gf_stream_laser_latch bench_os True s)"
  by (simp add: gf_stream_laser_latch_def latch_write_locked_def frame_simps Let_def)

lemma bench_init: "map_option fst (gf_stream_init bench_os True gf0) = Some True"
proof -
  have t: "fst (apply_tick bench_os s)" for s :: gf
    by (simp add: apply_tick_def frame_simps Let_def)
  show ?thesis
    by (simp add: gf_stream_init_def init_device_def Let_def case_prod_beta bench_latch t ex_bool_eq)
qed

lemma bench_start: "stream_start bench_os bench_gf"
  using bench_init by (auto simp: stream_start_def bench_gf_def)

lemma bench_latch_upd:
  "gf_stream_laser_latch bench_os True s =
     (True, s\<lparr>io_tr := (if latch_log_fd s < 0 then id else (#) (Ev_latch_log ''lock''))
                 (wr_tr bench_os Cnc_laser_latch ''1'' (io_hw s) (io_tr s)),
       io_errno := wr_errno bench_os Cnc_laser_latch ''1'' (io_hw s) (io_tr s) (io_errno s),
       latch_locked_by_us := True, latch_fail_reported := False\<rparr>)"
  by (simp add: gf_stream_laser_latch_def latch_write_locked_def frame_simps Let_def)

lemma bench_params:
  "init_params bench_os gf0 = gf0\<lparr>io_hw := True, xy_mode_cached := 32, gf_rate := 112640,
     gf_depth := 22528, lead_s := 1 / 100\<rparr>"
proof -
  have m: "gfio_xy_microsteps bench_os (gfio_set_hw True gf0) = (32, gf0\<lparr>io_hw := True, xy_mode_cached := 32\<rparr>)"
    by (simp add: gfio_xy_microsteps_def gfio_conf_read_def gfio_set_hw_def bench_os_def gf0_def
          XY_MICROSTEPS_DEFAULT_def)
  have r: "init_rate bench_os (gfio_xy_tick_hz_of 32) = 112640" "init_depth_ms bench_os 112640 = 200"
    "init_lead_ms bench_os = 10"
    by (simp_all add: init_rate_def init_depth_ms_def init_lead_ms_def env_long_def gfio_xy_tick_hz_of_def
          gfio_xy_scale_of_def GF_TICK_X8_HZ_def XY_MICROSTEPS_BASE_def)
  show ?thesis by (simp add: init_params_def Let_def m r)
qed

lemma analog_config_upd:
  assumes "xy_mode_cached s \<noteq> 0"
  obtains t e where "gfio_analog_config os s = s\<lparr>io_tr := t, io_errno := e\<rparr>"
proof
  show "gfio_analog_config os s = s\<lparr>io_tr := io_tr (gfio_analog_config os s),
      io_errno := io_errno (gfio_analog_config os s)\<rparr>"
    using assms by (simp add: gfio_analog_config_def gfio_currents_hold_def gfio_xy_microsteps_def Let_def
        wr_attr_upd)
qed

lemma bench_counts: "bin_val bench_os a 32 tr = Some (replicate 32 0)"
  by (simp add: bin_val_def bench_os_def)

lemma bench_gf_upd:
  obtains t e where "bench_gf = gf0\<lparr>io_hw := True, xy_mode_cached := 32, gf_rate := 112640,
     gf_depth := 22528, lead_s := 1 / 100, gf_dev := ''/dev/glowforge'', gf_fd := 7,
     latch_locked_by_us := True, latch_fail_reported := False, base_steps := 0,
     base_counts := 0, base_valid := True, io_tr := t, io_errno := e, gf_active := True, threads_started := True\<rparr>"
proof -
  define p where "p = (init_params bench_os gf0)\<lparr>gf_dev := ''/dev/glowforge'', gf_fd := 7\<rparr>"
  obtain t1 e1 where l: "gf_stream_laser_latch bench_os True p =
      (True, p\<lparr>io_tr := t1, io_errno := e1, latch_locked_by_us := True, latch_fail_reported := False\<rparr>)"
    by (auto simp: bench_latch_upd)
  define q where "q = p\<lparr>io_tr := t1, io_errno := e1, latch_locked_by_us := True, latch_fail_reported := False\<rparr>"
  have "xy_mode_cached q \<noteq> 0" by (simp add: q_def p_def bench_params)
  then obtain t2 e2 where a: "gfio_analog_config bench_os q = q\<lparr>io_tr := t2, io_errno := e2\<rparr>"
    by (rule analog_config_upd)
  obtain t3 e3 where k: "apply_tick bench_os (q\<lparr>io_tr := t2, io_errno := e2\<rparr>) =
      (True, q\<lparr>io_tr := t3, io_errno := e3\<rparr>)"
    by (auto simp: apply_tick_def frame_simps Let_def)
  have le: "le32 0 0 0 0 = 0" by (simp add: le32_def)
  have ls: "os_lseek bench_os tr x n" for tr x n by (simp add: bench_os_def)
  have r: "rebase_at_takeover bench_os True u = u\<lparr>io_tr := Ev_bin Cnc_position (Some (replicate 32 0)) # io_tr u,
      base_steps := gf_steps u, base_counts := 0, base_valid := True\<rparr>" for u :: gf
    by (simp add: rebase_at_takeover_def kernel_steps_def frame_simps bench_counts Let_def
          rebase_locked_def nth_replicate le zero_steps3_def)
  have gs: "gf_steps q = 0" by (simp add: q_def p_def bench_params) (simp add: gf0_def)
  have g: "gf_stream_init bench_os True gf0 =
      (case init_device bench_os ''/dev/glowforge'' (init_params bench_os gf0) of None \<Rightarrow> None
       | Some (ok, s) \<Rightarrow> if ok then Some (True, s\<lparr>threads_started := True\<rparr>) else Some (False, s))"
    by (simp add: gf_stream_init_def Let_def split: option.splits prod.splits)
  have d: "\<exists>t e. init_device bench_os ''/dev/glowforge'' (init_params bench_os gf0) =
      Some (True, q\<lparr>base_steps := 0, base_counts := 0, base_valid := True, io_tr := t, io_errno := e,
         gf_active := True\<rparr>)"
    unfolding init_device_def bench_dev prod.case option.case
    by (simp add: Let_def l a k gs lseek_dev_upd ls r wr_attr_upd flip: p_def q_def) blast
  then obtain t e where "bench_gf = q\<lparr>base_steps := 0, base_counts := 0, base_valid := True, io_tr := t,
      io_errno := e, gf_active := True, threads_started := True\<rparr>"
    using g by (auto simp: bench_gf_def)
  then show ?thesis by (intro that [where t = t and e = e]) (simp add: q_def p_def bench_params)
qed

lemma bench_gf_sel:
  "io_hw bench_gf" "gf_active bench_gf" "gf_fd bench_gf = 7" "latch_locked_by_us bench_gf"
  "gf_readback bench_gf = RB_NONE" "gf_ring bench_gf = (\<lambda>_. 0)" "\<not> killed bench_gf"
  "gf_steps bench_gf = 0" "base_steps bench_gf = 0" "base_counts bench_gf = 0" "base_valid bench_gf"
  "produced bench_gf = 0" "shipped bench_gf = 0" "\<not> failed bench_gf" "\<not> streaming bench_gf"
  "\<not> kernel_running bench_gf" "gf_depth bench_gf = 22528" "gf_rate bench_gf = 112640"
  "\<not> fire_gate bench_gf" "\<not> laser_armed bench_gf" "\<not> clear_pending bench_gf"
  "\<not> run_pending bench_gf" "\<not> power_sent bench_gf"
proof -
  obtain t e where bg: "bench_gf = gf0\<lparr>io_hw := True, xy_mode_cached := 32, gf_rate := 112640,
     gf_depth := 22528, lead_s := 1 / 100, gf_dev := ''/dev/glowforge'', gf_fd := 7,
     latch_locked_by_us := True, latch_fail_reported := False, base_steps := 0,
     base_counts := 0, base_valid := True, io_tr := t, io_errno := e, gf_active := True, threads_started := True\<rparr>"
    by (rule bench_gf_upd)
  show
    "io_hw bench_gf" "gf_active bench_gf" "gf_fd bench_gf = 7" "latch_locked_by_us bench_gf"
    "gf_readback bench_gf = RB_NONE" "gf_ring bench_gf = (\<lambda>_. 0)" "\<not> killed bench_gf"
    "gf_steps bench_gf = 0" "base_steps bench_gf = 0" "base_counts bench_gf = 0" "base_valid bench_gf"
    "produced bench_gf = 0" "shipped bench_gf = 0" "\<not> failed bench_gf" "\<not> streaming bench_gf"
    "\<not> kernel_running bench_gf" "gf_depth bench_gf = 22528" "gf_rate bench_gf = 112640"
    "\<not> fire_gate bench_gf" "\<not> laser_armed bench_gf" "\<not> clear_pending bench_gf"
    "\<not> run_pending bench_gf" "\<not> power_sent bench_gf"
    unfolding bg by (simp_all, simp_all add: gf0_def)
qed

lemma bench_reachable: "reachable (stream_start bench_os) (sstep bench_os) bench_gf"
  by (intro reachable.start bench_start)

lemma bench_inv: "gf_inv bench_gf"
  by (rule stream_start_inv [OF bench_start])

lemma alone: "interleaves os (\<lambda>k s. s)"
  by (simp add: interleaves_def)

lemma null_start: "stream_start null_os null_gf"
  by (simp add: stream_start_def null_gf_def gf_stream_init_def Let_def)

section \<open>The laser latch and the beam\<close>

text \<open>
  C1. In every reachable state of the stream, for every kernel and every interleaving
  of its threads, the record of the latch is the way this process last set it, and
  every unlock ever written found this process's own lock in place: a lock that
  something else put on the latch is never undone.
\<close>

theorem latch_record_reachable:
  assumes "reachable (stream_start os) (sstep os) s" "io_hw s"
  shows "latch_view (io_tr s) = latch_locked_by_us s \<and> unlocks_own (io_tr s)"
  using stream_sys.inv_reachable [OF assms(1)] assms(2) by (simp add: gf_inv_def latch_ok_def)

theorem latch_record_reachable_witness:
  "latch_view (io_tr bench_gf) = latch_locked_by_us bench_gf \<and> unlocks_own (io_tr bench_gf)"
  by (rule latch_record_reachable [OF bench_reachable]) (simp add: bench_gf_sel)

text \<open>
  C2. A shipper pass that samples a closed fire gate, in any reachable state and with
  any work of the other threads in its unlocked windows, adds no lit byte to what the
  pulse device took.
\<close>

theorem closed_gate_no_fire:
  assumes "reachable (stream_start os) (sstep os) s" "interleaves os others"
    and "\<not> fire_gate (snd (pending_pass os others s))"
  shows "lits (ship_pass os others s) = lits s"
  using closed_gate_pass_dark [OF assms(2) stream_sys.inv_reachable [OF assms(1)] assms(3)] .

theorem closed_gate_no_fire_witness:
  "lits (ship_pass bench_os (\<lambda>k s. s) bench_gf) = lits bench_gf"
  by (rule closed_gate_no_fire [OF bench_reachable alone])
     (simp add: pending_pass_def pending_first_def Let_def bench_gf_sel)

text \<open>
  C16. What a reachable stream puts in a chunk is well-formed: at most 256 bytes, every
  power byte followed by its tick byte, one tick byte for every index the cursor
  passed, the first chunk of a run led by a power byte, no lit byte under a closed
  gate, and the steps of its bytes are exactly the steps that left the ring.
\<close>

theorem chunk_well_formed:
  assumes "reachable (stream_start os) (sstep os) s"
    and "build_chunk gate strm due 0 s = ((bs, st), s')"
  shows "wire_ok bs \<and> length bs \<le> 256
       \<and> length (tick_bytes bs) = shipped s' - shipped s \<and> shipped s \<le> shipped s'
       \<and> (bs = [] \<or> power_sent s \<or> is_power (hd bs))
       \<and> (gate \<or> filter is_lit bs = [])
       \<and> ring_total s = ring_total s' + st"
proof -
  have "ring_dark s" using stream_sys.inv_reachable [OF assms(1)] by (simp add: gf_inv_def)
  note out = build_chunk_out [OF this assms(2)]
  show ?thesis using out(1,3,4,5,7) out(2) out(6) by (auto simp: filter_empty_conv)
qed

theorem chunk_well_formed_witness:
  "\<exists>bs st s'. build_chunk False True 4 0 bench_gf = ((bs, st), s') \<and> wire_ok bs \<and> length bs \<le> 256
     \<and> length (tick_bytes bs) = shipped s' - shipped bench_gf \<and> filter is_lit bs = []"
proof -
  obtain bs st s' where e: "build_chunk False True 4 0 bench_gf = ((bs, st), s')" by (metis surj_pair)
  show ?thesis using chunk_well_formed [OF bench_reachable e] e by auto
qed

section \<open>The dose\<close>

text \<open>
  C17. Density: over whole periods the ticks that fire are the commanded density to
  within one shortest pulse. From a reset model, k periods of P ticks at power
  p of 127 fire f ticks with 127 f \<le> k p P < 127 (f + min); what is not fired is
  carried, never lost.
\<close>

theorem dither_density:
  assumes "dith_ok s" "dith_period s \<noteq> 0"
    and "dither_run (k * unat (dith_period s)) (dither_reset s) = (fs, s')"
  shows "127 * count_list fs True \<le> k * unat (cur_power s) * unat (dith_period s)
       \<and> k * unat (cur_power s) * unat (dith_period s) < 127 * (count_list fs True + unat (dith_min s))"
proof -
  have r: "dith_ok (dither_reset s)" "dith_period (dither_reset s) = dith_period s"
    "dith_left (dither_reset s) = 0" "dith_acc (dither_reset s) = 0" "cur_power (dither_reset s) = cur_power s"
    "dith_min (dither_reset s) = dith_min s"
    using dither_reset_ok [OF assms(1)] by (simp_all add: dither_reset_def)
  have "127 * count_list fs True + unat (dith_acc s') = k * unat (cur_power s) * unat (dith_period s)"
    and ok: "dith_ok s'" "dith_period s' = dith_period s" "dith_min s' = dith_min s"
    using dither_run_periods [of "dither_reset s" k fs s'] assms(2,3) r by simp_all
  moreover have "unat (dith_acc s') < 127 * unat (dith_min s)"
    using ok assms(2) by (simp add: dith_ok_def)
  ultimately show ?thesis by simp
qed

theorem dither_density_witness:
  "\<exists>fs s'. dither_run (3 * 20) (dither_reset (gf0\<lparr>dith_period := 20, dith_min := 3, cur_power := 13\<rparr>)) = (fs, s')
     \<and> 127 * count_list fs True \<le> 3 * 13 * 20 \<and> 3 * 13 * 20 < 127 * (count_list fs True + 3)"
proof -
  let ?s = "gf0\<lparr>dith_period := 20, dith_min := 3, cur_power := 13\<rparr>"
  obtain fs s' where e: "dither_run (3 * 20) (dither_reset ?s) = (fs, s')" by fastforce
  have "dith_ok ?s" by (simp add: dith_ok_def dith_model_ok_def gf0_def)
  then show ?thesis using dither_density [of ?s 3 fs s'] e by simp
qed

text \<open>
  A period of the density model is one burst: its firing ticks come first and are
  contiguous, and the burst is empty or at least as long as the shortest pulse, so the
  supply never sees a stub.
\<close>

theorem dither_single_burst:
  assumes "dith_ok s" "dith_period s \<noteq> 0" "dith_left s = 0"
  shows "\<exists>on s'. dither_run (unat (dith_period s)) s =
             (replicate on True @ replicate (unat (dith_period s) - on) False, s')
           \<and> on \<le> unat (dith_period s) \<and> (on = 0 \<or> unat (dith_min s) \<le> on)"
proof -
  have "unat (dith_min s) \<le> unat (dith_period s)"
    using assms(1,2) by (simp add: dith_ok_def dith_model_ok_def word_le_nat_alt)
  then show ?thesis
    using dither_run_period [OF assms] period_on_le period_on_burst by blast
qed

theorem dither_single_burst_witness:
  "\<exists>on s'. dither_run 20 (gf0\<lparr>dith_period := 20, dith_min := 3, cur_power := 64\<rparr>) =
       (replicate on True @ replicate (20 - on) False, s') \<and> on \<le> 20 \<and> (on = 0 \<or> 3 \<le> on)"
  using dither_single_burst [of "gf0\<lparr>dith_period := 20, dith_min := 3, cur_power := 64\<rparr>"]
  by (simp add: dith_ok_def dith_model_ok_def gf0_def)

section \<open>Steps and position\<close>

text \<open>
  The tick byte of a step event carries exactly the event's steps: decoding it, lit
  or not, gives one step per axis bit against its direction bit (as the core counts
  it), and it never carries FIRE or the power marker by itself.
\<close>

theorem pulse_byte_roundtrip:
  "tick_steps acc (pulse_byte step_bits dir_bits) = acc + core_steps step_bits dir_bits
   \<and> tick_steps acc (pulse_byte step_bits dir_bits OR FIRE_BIT) = acc + core_steps step_bits dir_bits
   \<and> pulse_byte step_bits dir_bits AND FIRE_BIT = 0 \<and> pulse_byte step_bits dir_bits AND 0x80 = 0"
  by (simp add: tick_steps_byte byte_steps_fire pulse_byte_steps pulse_byte_dark)


lemma bench_ledger: "ledger_start c (bench_gf, c, None)"
  using bench_inv by (simp add: ledger_start_def bench_gf_sel)



text \<open>
  The run of the witness: a start, one step of X, a kill before anything shipped, the
  reset and its clear with the kernel's counters at zero.
\<close>

definition bench_cut :: gf where
  "bench_cut = gf_stream_go_idle True 0 0 (gf_stream_pulse bench_os 1 0 (gf_stream_wakeup bench_os bench_gf))"

definition bench_done :: gf where
  "bench_done = (let s = gf_stream_reset bench_os bench_cut
                 in clear_locked True True (gf_zeros s) (Some 0) s)"

lemma bench_wake_sel:
  defines "s \<equiv> gf_stream_wakeup bench_os bench_gf"
  shows "streaming s" "\<not> failed s" "\<not> killed s" "produced s = 22528" "shipped s = 0" "gf_base s = 22528"
    "vticks s = 0" "base_valid s" "gf_readback s = RB_NONE" "gf_ring s = (\<lambda>_. 0)" "gf_steps s = 0"
    "base_steps s = 0" "base_counts s = 0"
  by (simp_all add: s_def gf_stream_wakeup_def wake_locked_def wake_fresh_def wake_reassert_def lev_push_def
        gfio_currents_run_def wr_attr_upd wall_s_upd Let_def bench_gf_sel)

lemma bench_pulse_sel:
  defines "s \<equiv> gf_stream_pulse bench_os 1 0 (gf_stream_wakeup bench_os bench_gf)"
  shows "streaming s" "\<not> failed s" "\<not> killed s" "produced s = 22529" "shipped s = 0" "base_valid s"
    "gf_readback s = RB_NONE" "gf_ring s = (\<lambda>_. 0)(22528 := 1)" "gf_steps s = 0" "base_steps s = 0"
    "base_counts s = 0"
proof -
  have "pulse_byte 1 0 = 1" by code_simp
  then show "streaming s" "\<not> failed s" "\<not> killed s" "produced s = 22529" "shipped s = 0" "base_valid s"
    "gf_readback s = RB_NONE" "gf_ring s = (\<lambda>_. 0)(22528 := 1)" "gf_steps s = 0" "base_steps s = 0"
    "base_counts s = 0"
    by (simp_all add: s_def gf_stream_pulse_def pulse_place_def event_idx_def Let_def bench_wake_sel
          ring_slot_def RING_SIZE_def)
qed

lemma bench_cut_sel:
  "\<not> failed bench_cut" "killed bench_cut" "base_valid bench_cut" "gf_readback bench_cut = RB_NONE"
  "gf_ring bench_cut = (\<lambda>_. 0)(22528 := 1)" "produced bench_cut = 22529" "shipped bench_cut = 0"
  "gf_steps bench_cut = 0" "base_steps bench_cut = 0" "base_counts bench_cut = 0"
  by (simp_all add: bench_cut_def gf_stream_go_idle_def idle_dark_def lev_merge_def lev_push_def Let_def
        bench_pulse_sel)

lemma bench_reset_sel:
  defines "s \<equiv> gf_stream_reset bench_os bench_cut"
  shows "gf_readback s = RB_WAIT" "base_valid s" "\<not> killed s" "produced s \<le> shipped s"
  by (simp_all add: s_def gf_stream_reset_def reset_live_def drop_backlog_locked_def reset_laser_def
        dither_reset_def wall_s_upd wr_attr_upd Let_def bench_cut_sel case_prod_beta)

lemma bench_done_sel:
  "gf_readback bench_done = RB_DONE" "\<not> killed bench_done" "produced bench_done \<le> shipped bench_done"
  "gf_steps bench_done = base_steps bench_done" "base_counts bench_done = 0"
  by (simp_all add: bench_done_def clear_locked_def settle_readback_def rebase_locked_def dither_reset_def
        Let_def bench_reset_sel)

lemma bench_done_reachable:
  "reachable (ledger_start 0) (lstep bench_os) (bench_done, S3 1 0 0, None)"
proof -
  let ?R = "reachable (ledger_start 0) (lstep bench_os)"
  have "?R (bench_gf, 0, None)" by (rule reachable.start [where init = "ledger_start 0"]) (rule bench_ledger)
  then have "?R (gf_stream_wakeup bench_os bench_gf, 0, None)"
    by (rule reachable.further) (rule l_wakeup, simp_all add: bench_gf_sel)
  then have "?R (gf_stream_pulse bench_os 1 0 (gf_stream_wakeup bench_os bench_gf), 0 + core_steps 1 0, None)"
    by (rule reachable.further) (rule l_pulse, simp_all add: bench_wake_sel bench_pulse_sel)
  then have "?R (bench_cut, 0 + core_steps 1 0 + (if True \<and> streaming (gf_stream_pulse bench_os 1 0 (gf_stream_wakeup bench_os bench_gf))
      then core_steps 0 0 else 0), None)"
    unfolding bench_cut_def by (rule reachable.further) (rule l_go_idle, simp add: bench_pulse_sel)
  moreover have "core_steps 1 0 = S3 1 0 0" "core_steps 0 0 = 0" by code_simp+
  ultimately have "?R (bench_cut, S3 1 0 0, None)" by (simp add: bench_pulse_sel)
  then have "?R (gf_stream_reset bench_os bench_cut, S3 1 0 0, None)"
    by (rule reachable.further) (rule l_reset, simp_all add: bench_cut_sel)
  then show ?thesis unfolding bench_done_def Let_def
    by (rule reachable.further) (rule l_clear, simp_all add: bench_reset_sel)
qed


end
