(* ===== verification/Stream_Props2.thy ===== *)
theory Stream_Props2
  imports Stream_Props
begin

text \<open>
  Further properties of the pulse stream: its operations one by one, on every branch,
  and what it promises to the device and to its clients.
\<close>

section \<open>The pulse device and the run request\<close>

text \<open>
  A write to the pulse device gives the kernel the whole buffer, once and in order,
  exactly when it reports success; otherwise the kernel has a proper prefix of it.
  It always ends, whatever the kernel answers.
\<close>

theorem pulse_write_delivers:
  "\<exists>p q. buf = p @ q \<and> taken (snd (pulse_write os fd buf s)) = taken s @ p
       \<and> fst (pulse_write os fd buf s) = (q = [])"
  unfolding pulse_write_def by (rule pulse_write_from_taken)

text \<open>
  The gate before a run request lets it through only when the kernel is not playing
  and the counters agree: it halted on an underrun or a fault, or it has processed
  exactly the bytes that were written before this run and taken what was written (or
  does not say). A state or a record that cannot be read, and counters that disagree,
  fault the stream.
\<close>

theorem run_gate_sound:
  "(case rd_val os Cnc_state 16 (io_tr s) of
      None \<Rightarrow> fst (run_gate os base_w written_w s) = - 1 \<and> failed (snd (run_gate os base_w written_w s))
    | Some st \<Rightarrow>
        if st = ''running'' then fst (run_gate os base_w written_w s) = 0
        else if st = ''underrun'' \<or> st = ''fault'' then fst (run_gate os base_w written_w s) = 1
        else (case fst (kernel_counts os (snd (gfio_rd_attr os Cnc_state 16 s))) of
            None \<Rightarrow> fst (run_gate os base_w written_w s) = - 1 \<and> failed (snd (run_gate os base_w written_w s))
          | Some (processed, took) \<Rightarrow>
              if processed = base_w \<and> (took = written_w \<or> took = - 1)
              then fst (run_gate os base_w written_w s) = 1
              else fst (run_gate os base_w written_w s) = - 1 \<and> failed (snd (run_gate os base_w written_w s))))"
  by (auto simp: run_gate_def frame_simps fail_once_def kernel_counts_def Let_def
           split: option.splits prod.splits)

text \<open>The run requests written.\<close>

definition run_requests :: "trace \<Rightarrow> nat" where
  "run_requests tr = length (filter (\<lambda>e. case e of Ev_wr a v rc \<Rightarrow> a = Cnc_run | _ \<Rightarrow> False) tr)"

lemma run_requests_wr:
  "run_requests (wr_tr os a v hw tr) = run_requests tr + (if hw \<and> a = Cnc_run then 1 else 0)"
  by (simp add: run_requests_def wr_tr_def)

lemma run_requests_cons [simp]:
  "run_requests (Ev_rd a r # tr) = run_requests tr" "run_requests (Ev_now t # tr) = run_requests tr"
  "run_requests (Ev_sleep n # tr) = run_requests tr" "run_requests (Ev_latch_log w # tr) = run_requests tr"
  by (simp_all add: run_requests_def)

lemma issue_request_count:
  "run_requests (io_tr (snd (issue_request os n s))) \<le>
     run_requests (io_tr s) + 1 + (if laser_armed s then 0 else n)"
proof (induction n arbitrary: s)
  case 0
  show ?case
    by (subst issue_request.simps) (simp add: frame_simps run_requests_wr fail_once_def Let_def)
next
  case (Suc n)
  obtain rc s1 where w: "gfio_wr_attr os Cnc_run ''1'' s = (rc, s1)" by fastforce
  obtain st s2 where r: "gfio_rd_attr os Cnc_state 16 s1 = (st, s2)" by fastforce
  define u where "u = wr_attr os Cnc_stop ''1'' (gfhome_invalidate s2)"
  have s2: "run_requests (io_tr s2) \<le> run_requests (io_tr s) + 1" "laser_armed s2 = laser_armed s"
    "run_requests (io_tr s1) \<le> run_requests (io_tr s) + 1"
    using w r by (auto simp: frame_simps run_requests_wr)
  have u: "run_requests (io_tr u) = run_requests (io_tr s2)" "laser_armed u = laser_armed s2"
    by (simp_all add: u_def frame_simps run_requests_wr)
  have st: "run_requests (io_tr (wr_attr os Cnc_stop ''1'' s2)) = run_requests (io_tr s2)"
    by (simp add: frame_simps run_requests_wr)
  show ?case
    by (subst issue_request.simps) (use w r s2 u st Suc [of u] in \<open>auto simp: fail_once_def Let_def u_def [symmetric]\<close>)
qed

lemma latch_write_requests:
  "run_requests (io_tr (snd (latch_write_locked os b s))) = run_requests (io_tr s)"
  "laser_armed (snd (latch_write_locked os b s)) = laser_armed s"
proof -
  have r: "run_requests (io_tr (snd (latch_retry os v n rc u))) = run_requests (io_tr u)
      \<and> latch_log_fd (snd (latch_retry os v n rc u)) = latch_log_fd u" for v n rc and u :: "'a gf_scheme"
    by (induction os v n rc u rule: latch_retry.induct)
       (auto simp: frame_simps run_requests_wr Let_def split: prod.splits)
  show "run_requests (io_tr (snd (latch_write_locked os b s))) = run_requests (io_tr s)"
    by (simp add: latch_write_locked_def latch_log_upd Let_def case_prod_beta r)
       (simp add: frame_simps run_requests_wr)
  obtain ok s' where e: "latch_write_locked os b s = (ok, s')" by fastforce
  obtain t er rr where "s' = s\<lparr>io_tr := t, io_errno := er,
      latch_locked_by_us := (if ok then b else latch_locked_by_us s), latch_fail_reported := rr\<rparr>"
    by (rule latch_write_locked_frame [OF e])
  then show "laser_armed (snd (latch_write_locked os b s)) = laser_armed s" using e by simp
qed

text \<open>
  The run request is made once while the laser is armed and at most twice
  otherwise (the second time after an acknowledged underrun, which ends the position
  reference first); what the other threads do to the atomics meanwhile adds none.
\<close>

theorem issue_run_requests:
  assumes "\<And>u. run_requests (io_tr (others u)) = run_requests (io_tr u)"
  shows "run_requests (io_tr (snd (issue_run os others s))) \<le>
     run_requests (io_tr s) + (if laser_armed s then 1 else 2)"
proof -
  define r where "r = (laser_armed s \<and> fire_gate s \<and> latch_locked_by_us s)"
  define s1 where "s1 = (if r then snd (latch_write_locked os False s) else s)"
  have s1: "run_requests (io_tr s1) = run_requests (io_tr s)" "laser_armed s1 = laser_armed s"
    by (simp_all add: s1_def latch_write_requests)
  have fault: "run_requests (io_tr (latch_fault u)) = run_requests (io_tr u)" for u :: "'a gf_scheme"
    by (simp add: latch_fault_def)
  define s2 where "s2 = others (snd (issue_request os 1 s1))"
  have s2: "run_requests (io_tr s2) \<le> run_requests (io_tr s) + (if laser_armed s then 1 else 2)"
    using issue_request_count [of os 1 s1] s1 by (auto simp: s2_def assms split: if_splits)
  have "run_requests (io_tr (snd (issue_run os others s))) \<in>
      {run_requests (io_tr s1), run_requests (io_tr s2)}"
    by (simp add: issue_run_def Let_def case_prod_beta s1_def s2_def latch_write_requests fault flip: r_def)
  then show ?thesis using s1 s2 by auto
qed

theorem issue_run_requests_witness:
  "run_requests (io_tr (snd (issue_run bench_os (gf_stream_laser_arm False) (bench_gf\<lparr>laser_armed := True\<rparr>))))
     \<le> run_requests (io_tr bench_gf) + 1"
  using issue_run_requests [of "gf_stream_laser_arm False" bench_os "bench_gf\<lparr>laser_armed := True\<rparr>"]
  by (simp add: gf_stream_laser_arm_def)

text \<open>
  A run start that unlocked the latch while a disarm landed under it leaves the
  latch locked again, whenever the latch store works: a relight never outlives its
  window.
\<close>

theorem issue_run_relocks:
  assumes "\<And>v hw tr. wr_rc os Cnc_laser_latch v hw tr = 0"
    and "laser_armed s" "fire_gate s" "latch_locked_by_us s" "\<And>u. \<not> laser_armed (others u)"
  shows "latch_locked_by_us (snd (issue_run os others s))"
proof -
  have w: "latch_locked_by_us (snd (latch_write_locked os True u))" "fst (latch_write_locked os b u)"
    for b and u :: "'a gf_scheme"
    using assms(1) by (simp_all add: latch_write_locked_def frame_simps Let_def)
  show ?thesis using assms(2-5) w by (simp add: issue_run_def Let_def case_prod_beta)
qed

theorem issue_run_relocks_witness:
  "latch_locked_by_us (snd (issue_run bench_os (gf_stream_laser_arm False)
     (bench_gf\<lparr>laser_armed := True, fire_gate := True\<rparr>)))"
  by (rule issue_run_relocks) (simp_all add: bench_gf_sel gf_stream_laser_arm_def)

section \<open>The laser transitions\<close>

text \<open>
  C21. The transition ring refines a bounded list: posting a transition appends it, or
  amends the newest one when it has the same index or the ring is full; no older
  transition is touched, and the newest always carries what was asked last.
\<close>

theorem laser_queue_refinement:
  assumes "lev_ok s"
  shows "lev_list (laser_queue idx p f s) = post_event idx p f (lev_list s)
       \<and> lev_ok (laser_queue idx p f s)
       \<and> ev_fire (last (lev_list (laser_queue idx p f s))) = f
       \<and> ev_power (last (lev_list (laser_queue idx p f s))) = p"
  using laser_queue_refines [OF assms] post_event_last by metis

theorem laser_queue_refinement_witness:
  "lev_list (laser_queue 5 64 True gf0) = post_event 5 64 True (lev_list gf0)"
  using laser_queue_refinement [of gf0 5 64 True] by (simp add: lev_ok_def lev_pending_def gf0_def)

lemma idle_dark_final:
  assumes "lev_ok s"
  shows "\<not> final_fire (idle_dark s) \<and> lev_ok (idle_dark s)"
proof (cases "cur_fire s \<or> lev_list s \<noteq> []")
  case False
  then show ?thesis using assms
    by (auto simp: idle_dark_def final_fire_def lev_list_nonempty)
next
  case True
  define t where "t = gf_lev s (newest_slot s)"
  define i where "i = (if produced s > shipped s then produced s else shipped s)"
  define m where "m = (lev_list s \<noteq> [] \<and> ev_idx t \<ge> i)"
  have eq: "idle_dark s = (if m \<or> 4096 \<le> length (lev_list s)
      then lev_amend (\<lambda>e. e\<lparr>ev_power := ev_power t, ev_fire := False\<rparr>) s
      else lev_append \<lparr>ev_idx = i, ev_power = (if lev_list s \<noteq> [] then ev_power t else cur_power s), ev_fire = False\<rparr> s)"
  proof -
    have "lev_head s \<noteq> lev_tail s \<longleftrightarrow> lev_list s \<noteq> []" by (simp add: lev_list_nonempty)
    then show ?thesis using True
      by (auto simp: idle_dark_def Let_def pending_word lev_push_append lev_merge_amend m_def t_def i_def
            simp del: length_lev_list)
  qed
  have ne: "m \<or> 4096 \<le> length (lev_list s) \<Longrightarrow> lev_list s \<noteq> []" by (auto simp: m_def simp del: length_lev_list)
  show ?thesis
    unfolding eq final_fire_def
    using lev.post_newest [OF assms ne, where P = "\<lambda>e. \<not> ev_fire e"] by simp
qed

text \<open>
  The end of a cycle is dark: after go_idle the state that the last transition
  leaves is laser off, so every byte shipped after the transitions in flight is dark.
\<close>

theorem go_idle_ends_dark:
  assumes "lev_ok s" "streaming s"
  shows "\<not> final_fire (gf_stream_go_idle r sb db s) \<and> \<not> streaming (gf_stream_go_idle r sb db s)
       \<and> \<not> gf_armed (gf_stream_go_idle r sb db s)"
proof -
  have irr: "final_fire (u\<lparr>gf_armed := a\<rparr>) = final_fire u" "final_fire (u\<lparr>streaming := b\<rparr>) = final_fire u"
    "lev_ok (u\<lparr>gf_armed := a\<rparr>) = lev_ok u" "lev_ok (u\<lparr>kill_step := k, killed := b\<rparr>) = lev_ok u"
    for a b k and u :: "'a gf_scheme"
    by (simp_all add: final_fire_def lev_list_def lev_pending_def lev_ok_def)
  have ar: "gf_armed (idle_dark u) = gf_armed u" for u :: "'a gf_scheme"
    by (simp add: idle_dark_def lev_merge_def lev_push_def Let_def)
  show ?thesis using assms
    by (simp add: gf_stream_go_idle_def Let_def irr idle_dark_final ar)
qed

theorem go_idle_ends_dark_witness:
  "\<not> final_fire (gf_stream_go_idle False 0 0 (gf0\<lparr>streaming := True, cur_fire := True\<rparr>))"
  using go_idle_ends_dark [of "gf0\<lparr>streaming := True, cur_fire := True\<rparr>" False 0 0]
  by (simp add: lev_ok_def lev_pending_def gf0_def)

text \<open>
  While the laser is armed an event that arrives behind the ship cursor is never
  moved in time: it is dropped and the stream faults, the kernel is stopped and the
  ring and the queued transitions are as they were.
\<close>

theorem late_event_faults:
  assumes "laser_armed s" "streaming s" "\<not> failed s" "event_idx s < shipped s" "pulse_byte sb db \<noteq> 0"
  shows "failed (gf_stream_pulse os sb db s) \<and> fault_flag (gf_stream_pulse os sb db s)
       \<and> gf_ring (gf_stream_pulse os sb db s) = gf_ring s \<and> produced (gf_stream_pulse os sb db s) = produced s
       \<and> lev_list (gf_stream_pulse os sb db s) = lev_list s
       \<and> (gf_active s \<longrightarrow> io_tr (gf_stream_pulse os sb db s) = wr_tr os Cnc_stop ''1'' (io_hw s) (io_tr s))"
  using assms
  by (simp add: gf_stream_pulse_def clamp_locked_def Let_def wr_attr_upd lev_list_def lev_pending_def)

theorem late_event_faults_witness:
  "failed (gf_stream_pulse bench_os 1 0 (bench_gf\<lparr>laser_armed := True, streaming := True, shipped := 9,
      gf_base := 0, vticks := 0\<rparr>))"
proof -
  have "pulse_byte 1 0 \<noteq> 0" by code_simp
  then show ?thesis
    using late_event_faults [of "bench_gf\<lparr>laser_armed := True, streaming := True, shipped := 9,
      gf_base := 0, vticks := 0\<rparr>" 1 0 bench_os] by (simp add: event_idx_def bench_gf_sel)
qed

section \<open>Reset, hand-over and start\<close>

lemma reset_laser_sel:
  "\<not> streaming (reset_laser s)" "lev_list (reset_laser s) = []" "\<not> cur_fire (reset_laser s)"
  "\<not> want_fire (reset_laser s)" "\<not> power_sent (reset_laser s)" "failed (reset_laser s) = failed s"
  "produced (reset_laser s) = produced s" "shipped (reset_laser s) = shipped s" "killed (reset_laser s) = killed s"
  by (simp_all add: reset_laser_def dither_reset_def lev_list_def lev_pending_def)

lemma lev_list_irrel [simp]:
  "lev_list (s\<lparr>kernel_running := a\<rparr>) = lev_list s" "lev_list (s\<lparr>run_pending := a\<rparr>) = lev_list s"
  "lev_list (s\<lparr>clear_pending := a\<rparr>) = lev_list s" "lev_list (s\<lparr>hold_pending := a\<rparr>) = lev_list s"
  "lev_list (s\<lparr>hold_poll_at := x\<rparr>) = lev_list s" "lev_list (s\<lparr>unplayed := y\<rparr>) = lev_list s"
  "lev_list (s\<lparr>gf_readback := z\<rparr>) = lev_list s" "lev_list (s\<lparr>last_lit := a\<rparr>) = lev_list s"
  "lev_list (s\<lparr>io_tr := t\<rparr>) = lev_list s" "lev_list (s\<lparr>io_errno := e\<rparr>) = lev_list s"
  "lev_list (s\<lparr>latch_fail_reported := a\<rparr>) = lev_list s"
  by (simp_all add: lev_list_def lev_pending_def)

text \<open>
  A reset leaves nothing that could light or move: no stream, no fault, no pending
  kill, no queued transition, no fire in force or wanted, and an empty backlog.
\<close>

theorem reset_clears:
  assumes "streaming s \<or> killed s \<or> failed s"
  shows "\<not> streaming (gf_stream_reset os s) \<and> \<not> failed (gf_stream_reset os s)
       \<and> \<not> killed (gf_stream_reset os s) \<and> lev_list (gf_stream_reset os s) = []
       \<and> \<not> cur_fire (gf_stream_reset os s) \<and> \<not> want_fire (gf_stream_reset os s)
       \<and> produced (gf_stream_reset os s) = shipped (gf_stream_reset os s)"
proof -
  define s0 where "s0 = s\<lparr>killed := False, gf_readback := RB_NONE\<rparr>"
  define live where "live = (streaming s \<or> killed s)"
  define s1 where "s1 = (if live then snd (reset_live os (killed s) s0) else s0)"
  define s2 where "s2 = (if failed s1 then reset_failed s1 else s1)"
  have drop: "produced (snd (drop_backlog_locked d u)) = shipped u" "shipped (snd (drop_backlog_locked d u)) = shipped u"
    "killed (snd (drop_backlog_locked d u)) = killed u" "failed (snd (drop_backlog_locked d u)) = failed u"
    for d and u :: "'a gf_scheme"
    by (simp_all add: drop_backlog_locked_def case_prod_beta)
  have one: "\<not> streaming s1 \<and> lev_list s1 = [] \<and> \<not> cur_fire s1 \<and> \<not> want_fire s1 \<and> \<not> killed s1
      \<and> produced s1 = shipped s1" if live
    using that by (simp add: s1_def s0_def reset_live_def Let_def case_prod_beta wall_s_upd reset_laser_sel drop)
  have two: "\<not> streaming s2 \<and> lev_list s2 = [] \<and> \<not> cur_fire s2 \<and> \<not> want_fire s2 \<and> \<not> killed s2
      \<and> produced s2 = shipped s2 \<and> \<not> failed s2"
  proof (cases "failed s1")
    case True
    have "\<not> killed s1" using one by (cases live) (simp_all add: s1_def s0_def)
    then show ?thesis using True
      by (simp add: s2_def reset_failed_def Let_def case_prod_beta reset_laser_sel drop)
  next
    case False
    then have "live \<or> \<not> failed s" by (auto simp: s1_def s0_def)
    then have live using assms by (auto simp: live_def)
    then show ?thesis using one False by (simp add: s2_def)
  qed
  have "gf_stream_reset os s = (let pad = live \<and> snd (fst (reset_live os (killed s) s0));
      stop = (live \<and> fst (fst (reset_live os (killed s) s0))) \<or> (failed s1 \<and> gf_active s1);
      s = s2\<lparr>last_lit := pad\<rparr>;
      s = (if stop then wr_attr os Cnc_streaming ''0'' (wr_attr os Cnc_stop ''1'' s) else s)
    in if failed s1 then s\<lparr>latch_fail_reported := False\<rparr> else s)"
    by (cases live; simp add: gf_stream_reset_def Let_def case_prod_beta s0_def s1_def s2_def live_def)
  then show ?thesis using two by (simp add: Let_def wr_attr_upd)
qed

theorem reset_clears_witness:
  "\<not> streaming (gf_stream_reset bench_os (gf0\<lparr>streaming := True, want_fire := True\<rparr>))"
  using reset_clears [of "gf0\<lparr>streaming := True, want_fire := True\<rparr>" bench_os] by simp

text \<open>
  The device is handed over only from rest: a suspend that succeeds on a real
  device found no stream, no run of ours, no clear pending, an empty backlog and a
  kernel that reads idle; a device that is closed is recorded locked, which is what
  the kernel does on the close.
\<close>

theorem suspend_from_rest:
  assumes "gf_active s" "gf_stream_suspend os s = (True, s')"
  shows "\<not> streaming s \<and> \<not> kernel_running s \<and> \<not> clear_pending s \<and> produced s = shipped s
       \<and> rd_val os Cnc_state 16 (io_tr s) = Some ''idle'' \<and> suspended s' \<and> \<not> hold_pending s'
       \<and> (gf_fd s' = gf_fd s \<or> gf_fd s' = - 1 \<and> latch_locked_by_us s')"
proof -
  define q where "q = (\<not> streaming s \<and> \<not> kernel_running s \<and> \<not> clear_pending s \<and> produced s = shipped s)"
  define i where "i = (q \<and> rd_val os Cnc_state 16 (io_tr s) = Some ''idle'')"
  have "fst (gf_stream_suspend os s) = i"
    using assms(1) by (simp add: gf_stream_suspend_def Let_def case_prod_beta gfio_rd_attr_upd i_def flip: q_def)
  then have i: i using assms(2) by simp
  then have q by (simp add: i_def)
  define s1 where "s1 = s\<lparr>io_tr := Ev_rd Cnc_state (Some ''idle'') # io_tr s, hold_pending := False, suspended := True\<rparr>"
  define c where "c = (\<not> gfio_pulse_inherited os s1)"
  have f: "suspended (gfio_currents_hold os u) = suspended u" "gf_fd (gfio_currents_hold os u) = gf_fd u"
    "hold_pending (gfio_currents_hold os u) = hold_pending u" for u :: "'a gf_scheme"
    by (simp_all add: gfio_currents_hold_def wr_attr_upd Let_def)
  have e: "suspended (close_dev s1)" "\<not> hold_pending (close_dev s1)" "gf_fd (close_dev s1) = - 1"
    "suspended s1" "\<not> hold_pending s1" "gf_fd s1 = gf_fd s"
    by (simp_all add: s1_def close_dev_def emit_def)
  have "snd (gf_stream_suspend os s) = (let s' = (if c then close_dev s1 else s1);
                  s' = (if hold_pending s then gfio_currents_hold os s' else s')
              in if c then latch_log ''lock'' (s'\<lparr>latch_locked_by_us := True\<rparr>) else s')"
    using assms(1) i \<open>q\<close>
    by (simp add: gf_stream_suspend_def Let_def gfio_rd_attr_upd i_def c_def s1_def flip: q_def)
  then have "suspended s' \<and> \<not> hold_pending s' \<and> (gf_fd s' = gf_fd s \<or> gf_fd s' = - 1 \<and> latch_locked_by_us s')"
    using assms(2) by (cases c; cases "hold_pending s") (simp_all add: Let_def f e latch_log_upd)
  then show ?thesis using i by (simp add: i_def q_def)
qed

theorem suspend_from_rest_witness:
  "\<exists>s'. gf_stream_suspend bench_os bench_gf = (True, s') \<and> suspended s'"
proof -
  have "rd_val bench_os Cnc_state 16 tr = Some ''idle''" for tr
    unfolding rd_val_def bench_os_def by code_simp
  then have "fst (gf_stream_suspend bench_os bench_gf)"
    by (simp add: gf_stream_suspend_def gfio_rd_attr_upd bench_gf_sel Let_def)
  then obtain s' where "gf_stream_suspend bench_os bench_gf = (True, s')" by (metis prod.collapse)
  then show ?thesis using suspend_from_rest [OF bench_gf_sel(2)] by blast
qed

lemma settle_wait_frame:
  assumes "settle_wait os d s = Some s'"
  shows "\<exists>t. s' = s\<lparr>io_tr := t\<rparr>"
proof (rule settle_wait.raw_induct [where P = "\<lambda>os d s s'. \<exists>t. s' = s\<lparr>io_tr := t\<rparr>", OF _ assms])
  fix w os d s s'
  assume IH: "\<And>os d s s'. w os d s = Some s' \<Longrightarrow> \<exists>t. s' = s\<lparr>io_tr := t\<rparr>"
    and eq: "(case wall_s os s of (now, s') \<Rightarrow> if fl_lt (Fin now) d
        then w os d (sleep_ns 50000000 s') else Some s') = Some s'"
  show "\<exists>t. s' = s\<lparr>io_tr := t\<rparr>"
    using eq by (auto simp: wall_s_upd sleep_ns_upd split: if_splits dest!: IH)
qed

lemma rail_settle_frame:
  assumes "rail_settle os s = Some s'"
  obtains t e where "s' = s\<lparr>io_tr := t, io_errno := e\<rparr>"
proof -
  have "s' = s\<lparr>io_tr := io_tr s', io_errno := io_errno s'\<rparr>"
    using assms by (auto simp: rail_settle_def Let_def wr_attr_upd wall_s_upd split: if_splits dest!: settle_wait_frame)
  then show ?thesis by (rule that)
qed

text \<open>What a start fixes: the limits of the rate, the depth and the lead, and a dark, locked stream.\<close>

definition start_ok :: "'a gf_scheme \<Rightarrow> bool" where
  "start_ok s \<longleftrightarrow> 1000 \<le> gf_rate s \<and> gf_rate s \<le> 165000 \<and> gf_depth s \<le> RING_SIZE div 2 \<and> 20 \<le> gf_depth s
      \<and> 2 / 1000 \<le> lead_s s \<and> lead_s s \<le> 10 / 1000
      \<and> \<not> fire_gate s \<and> \<not> laser_armed s \<and> \<not> streaming s"

lemma start_ok_irrel [simp]:
  "start_ok (s\<lparr>io_tr := t\<rparr>) = start_ok s" "start_ok (s\<lparr>io_errno := e\<rparr>) = start_ok s"
  "start_ok (s\<lparr>gf_dev := d\<rparr>) = start_ok s" "start_ok (s\<lparr>gf_fd := x\<rparr>) = start_ok s"
  "start_ok (s\<lparr>base_valid := b\<rparr>) = start_ok s" "start_ok (s\<lparr>gf_active := b\<rparr>) = start_ok s"
  "start_ok (s\<lparr>threads_started := b\<rparr>) = start_ok s" "start_ok (s\<lparr>base_steps := y\<rparr>) = start_ok s"
  "start_ok (s\<lparr>base_counts := y\<rparr>) = start_ok s" "start_ok (s\<lparr>xy_mode_cached := m\<rparr>) = start_ok s"
  "start_ok (s\<lparr>latch_fail_reported := b\<rparr>) = start_ok s" "start_ok (s\<lparr>failed := b\<rparr>) = start_ok s"
  "start_ok (s\<lparr>fault_flag := b\<rparr>) = start_ok s" "start_ok (s\<lparr>latch_locked_by_us := b\<rparr>) = start_ok s"
  "start_ok (s\<lparr>stall_ms := z\<rparr>) = start_ok s" "start_ok (s\<lparr>write_stall_ms := z\<rparr>) = start_ok s"
  "start_ok (s\<lparr>gf_dump_fd := x\<rparr>) = start_ok s" "start_ok (s\<lparr>latch_log_fd := x\<rparr>) = start_ok s"
  by (simp_all add: start_ok_def)

lemma depth_bounds:
  assumes "1000 \<le> r" "r \<le> 165000"
  shows "r * init_depth_ms os r div 1000 \<le> RING_SIZE div 2" "20 \<le> r * init_depth_ms os r div 1000"
proof -
  have d: "20 \<le> init_depth_ms os r"
    by (auto simp: init_depth_ms_def split: option.splits)
  then have "1000 * 20 \<le> r * init_depth_ms os r" using assms(1) by (intro mult_le_mono)
  then show "20 \<le> r * init_depth_ms os r div 1000" by simp
  have "r * 200 div 1000 \<le> RING_SIZE div 2" using assms(2) by (simp add: RING_SIZE_def)
  then show "r * init_depth_ms os r div 1000 \<le> RING_SIZE div 2"
    by (auto simp: init_depth_ms_def split: option.splits)
qed

lemma init_params_start: "start_ok (init_params os gf0) \<and> latch_locked_by_us (init_params os gf0)"
proof -
  define s where "s = gfio_set_hw (getenv_set os ''GFSINK'' \<noteq> None) gf0"
  obtain m s1 where m: "gfio_xy_microsteps os s = (m, s1)" by fastforce
  have "xy_mode_cached s = 0" by (simp add: s_def gfio_set_hw_def gf0_def)
  then have m3: "m \<in> {8, 16, 32}" using xy_mode_range [of s os] m by simp
  define r where "r = init_rate os (gfio_xy_tick_hz_of m)"
  have r: "1000 \<le> r" "r \<le> 165000" using init_rate_bounds [OF m3, of os] by (simp_all add: r_def)
  have l: "2 / 1000 \<le> (of_nat (init_lead_ms os) / 1000 :: rat)" "of_nat (init_lead_ms os) / 1000 \<le> (10 / 1000 :: rat)"
    by (auto simp: init_lead_ms_def split: option.splits)
  have s1: "\<not> fire_gate s1" "\<not> laser_armed s1" "\<not> streaming s1" "latch_locked_by_us s1"
    using m by (auto simp: gfio_xy_microsteps_def s_def gfio_set_hw_def Let_def gf0_def split: if_splits)
  have b0: "start_ok (s1\<lparr>gf_rate := r, gf_depth := r * init_depth_ms os r div 1000,
      lead_s := of_nat (init_lead_ms os) / 1000\<rparr>)"
    using r depth_bounds [OF r] l s1 by (simp add: start_ok_def)
  then have k0: "start_ok (s1\<lparr>gf_rate := r, gf_depth := r * init_depth_ms os r div 1000, stall_ms := a,
      write_stall_ms := b, lead_s := of_nat (init_lead_ms os) / 1000\<rparr>)" for a b
    by (simp add: start_ok_def)
  define P where "P = (\<lambda>u :: gf. start_ok u \<and> latch_locked_by_us u)"
  have P: "P (u\<lparr>gf_dump_fd := x\<rparr>) = P u" "P (u\<lparr>latch_log_fd := x\<rparr>) = P u" for u x by (simp_all add: P_def)
  have b: "P (s1\<lparr>gf_rate := r, gf_depth := r * init_depth_ms os r div 1000, lead_s := of_nat (init_lead_ms os) / 1000\<rparr>)"
    using b0 s1 by (simp add: P_def)
  have k: "P (s1\<lparr>gf_rate := r, gf_depth := r * init_depth_ms os r div 1000, stall_ms := a,
      write_stall_ms := b, lead_s := of_nat (init_lead_ms os) / 1000\<rparr>)" for a b
    using k0 s1 by (simp add: P_def)
  have "P (init_params os gf0)"
    unfolding init_params_def Let_def s_def [symmetric] m
    by (cases "getenv_set os ''GFSINK''"; cases "getenv_set os ''GFSINK_DUMP''";
        cases "getenv_set os ''GFSINK_LATCH_LOG''") (simp_all add: P b k flip: r_def)
  then show ?thesis by (simp add: P_def)
qed

lemma stream_start_facts:
  assumes "stream_start os s"
  shows "start_ok s \<and> latch_locked_by_us s"
proof -
  define p where "p = init_params os gf0"
  have p: "start_ok p" "latch_locked_by_us p" using init_params_start by (simp_all add: p_def)
  have wr: "start_ok (wr_attr os a v u) = start_ok u" "latch_locked_by_us (wr_attr os a v u) = latch_locked_by_us u"
    "start_ok (snd (gfio_xy_microsteps os u)) = start_ok u"
    "latch_locked_by_us (snd (gfio_xy_microsteps os u)) = latch_locked_by_us u" for a v and u :: gf
    by (simp_all add: wr_attr_upd gfio_xy_microsteps_def Let_def)
  have an': "start_ok (gfio_analog_config os u) = start_ok u"
    "latch_locked_by_us (gfio_analog_config os u) = latch_locked_by_us u" for u :: gf
    by (simp_all add: gfio_analog_config_def gfio_currents_hold_def Let_def case_prod_beta wr)
  have dev: "start_ok u \<and> latch_locked_by_us u" if d: "init_device os dev p = Some (True, u)" for dev u
  proof -
    obtain r s1 where op: "gfio_open_pulse_dev os dev (p\<lparr>gf_dev := dev\<rparr>) = (r, s1)" by fastforce
    have s1: "start_ok s1" using op p
      by (auto simp: gfio_open_pulse_dev_def open_pulse_dev_def emit_def Let_def split: option.splits)
    obtain x where x: "r = Some x" using d op by (cases r) (auto simp: init_device_def)
    obtain s2 where s2e: "(if gfio_pulse_inherited os s1 then Some (s1\<lparr>gf_fd := x\<rparr>)
         else rail_settle os (s1\<lparr>gf_fd := x\<rparr>)) = Some s2"
      using d op x by (auto simp: init_device_def split: option.splits)
    have s2: "start_ok s2" using s2e s1 by (auto split: if_splits elim!: rail_settle_frame)
    obtain ok s3 where l: "gf_stream_laser_latch os True s2 = (ok, s3)" by fastforce
    have s3: "start_ok s3" "ok \<Longrightarrow> latch_locked_by_us s3"
      using s2 by (auto intro: gf_stream_laser_latch_frame [OF l])
    obtain tk s4 where a: "apply_tick os (gfio_analog_config os s3) = (tk, s4)" by fastforce
    have s4: "start_ok s4" "latch_locked_by_us s4 = latch_locked_by_us s3"
      using a s3 by (auto simp: apply_tick_def frame_simps Let_def an')
    have rb: "start_ok (rebase_at_takeover os em v) = start_ok v"
      "latch_locked_by_us (rebase_at_takeover os em v) = latch_locked_by_us v" for em and v :: gf
      by (auto simp: rebase_at_takeover_def rebase_locked_def kernel_steps_def gfio_rd_bin_upd Let_def
            split: option.splits prod.splits)
    have ok: "ok" "tk" using d op x s2e l a by (auto simp: init_device_def Let_def split: if_splits)
    show ?thesis using d op x s2e l a s3 s4 ok wr rb
      by (simp add: init_device_def Let_def lseek_dev_upd) (simp split: if_splits, auto)
  qed
  show ?thesis
    using assms dev p unfolding stream_start_def gf_stream_init_def Let_def p_def [symmetric]
    by (auto simp: an' split: option.splits if_splits)
qed

text \<open>
  Every start that succeeds is within the hardware's limits, whatever the
  environment and the configuration say: the tick rate is 1 to 165 kHz, the depth at
  most half the ring and at least 20 bytes, the producer's lead 2 to 10 ms, the latch
  recorded locked, and nothing armed, gated open or streaming.
\<close>

theorem stream_start_bounds:
  assumes "stream_start os s"
  shows "start_ok s \<and> latch_locked_by_us s"
  by (rule stream_start_facts [OF assms])

theorem stream_start_bounds_witness: "start_ok bench_gf \<and> latch_locked_by_us bench_gf"
  by (rule stream_start_bounds [OF bench_start])

section \<open>Starts over an unshipped backlog\<close>

lemma wake_fresh_sel:
  fixes os :: os
  assumes "\<not> failed s" "\<not> streaming s" "\<not> kernel_running s"
  defines "u \<equiv> gf_stream_wakeup os s"
  shows "streaming u" "\<not> failed u" "\<not> kernel_running u" "shipped u = 0" "produced u = gf_depth s"
    "gf_base u = gf_depth s" "vticks u = 0" "gf_ring u = gf_ring s" "gf_depth u = gf_depth s"
proof -
  define v where "v = (\<lambda>s :: 'a gf_scheme. (streaming s, failed s, kernel_running s, shipped s, produced s, gf_base s,
      vticks s, gf_ring s, gf_depth s))"
  have wr: "v (wr_attr os a x t) = v t" for a x t by (simp add: v_def wr_attr_upd)
  have cr: "v (gfio_currents_run os t) = v t" for t by (simp add: gfio_currents_run_def Let_def wr)
  have re: "v (wake_reassert t) = v t" for t by (simp add: wake_reassert_def Let_def lev_push_def v_def)
  define s1 where "s1 = (if gf_active s then gfio_currents_run os s else s)\<lparr>killed := False, kill_step := 0\<rparr>"
  have "v s1 = v s" using cr [of s] by (simp add: s1_def v_def)
  then have s1: "\<not> failed s1" "\<not> streaming s1" "\<not> kernel_running s1" "gf_ring s1 = gf_ring s" "gf_depth s1 = gf_depth s"
    using assms(1-3) by (simp_all add: v_def)
  define s2 where "s2 = wake_fresh ((snd (wall_s os (s1\<lparr>streaming := True, vticks := 0\<rparr>)))
      \<lparr>wall_epoch := fst (wall_s os (s1\<lparr>streaming := True, vticks := 0\<rparr>)), hold_pending := False\<rparr>)"
  have "v (wake_locked os s1) = v (wake_reassert (s2\<lparr>gf_base := produced s2\<rparr>))"
    using s1(3) by (simp add: wake_locked_def Let_def case_prod_beta wall_s_upd wr s2_def)
  also have "\<dots> = (True, False, False, 0, gf_depth s, gf_depth s, 0, gf_ring s, gf_depth s)"
    unfolding re using s1 by (simp add: v_def s2_def wake_fresh_def wall_s_upd)
  finally have "v (wake_locked os s1) = (True, False, False, 0, gf_depth s, gf_depth s, 0, gf_ring s, gf_depth s)" .
  moreover have "u = (wake_locked os s1)\<lparr>gf_armed := True\<rparr>"
    unfolding u_def gf_stream_wakeup_def Let_def s1_def [symmetric] using assms(1) s1(2) by simp
  ultimately show "streaming u" "\<not> failed u" "\<not> kernel_running u" "shipped u = 0" "produced u = gf_depth s"
    "gf_base u = gf_depth s" "vticks u = 0" "gf_ring u = gf_ring s" "gf_depth u = gf_depth s"
    by (simp_all add: v_def)
qed

lemma pulse_at_start:
  fixes os :: os
  assumes "streaming u" "\<not> failed u" "shipped u = 0" "produced u = d" "gf_base u = d" "vticks u = 0"
    "d < RING_SIZE - 1" "pulse_byte sb db \<noteq> 0"
  defines "v \<equiv> gf_stream_pulse os sb db u"
  shows "gf_ring v = (gf_ring u)(ring_slot d := pulse_byte sb db)" "\<not> failed v" "streaming v"
    "kernel_running v = kernel_running u" "gf_depth v = gf_depth u" "produced v = d + 1" "shipped v = 0"
  using assms(1-8)
  by (simp_all add: v_def gf_stream_pulse_def pulse_place_def event_idx_def Let_def)

lemma go_idle_sel:
  assumes "streaming v"
  defines "w \<equiv> gf_stream_go_idle False 0 0 v"
  shows "gf_ring w = gf_ring v" "failed w = failed v" "\<not> streaming w" "kernel_running w = kernel_running v"
    "gf_depth w = gf_depth v" "produced w = produced v" "shipped w = shipped v"
  using assms(1)
  by (simp_all add: w_def gf_stream_go_idle_def idle_dark_def lev_merge_def lev_push_def Let_def)

text \<open>
  C24. The start of a cycle over a backlog that has not shipped loses it: when a cycle
  ends and the next begins before the shipper's first pass, the index space restarts
  at zero with the old bytes still in the ring, and the first step event of the second
  cycle takes the slot of the first cycle's. Of two step events the ring then holds
  one, though the core has counted both.
\<close>

theorem fresh_start_overwrites:
  fixes os :: os
  assumes "\<not> failed s" "\<not> streaming s" "\<not> kernel_running s" "gf_depth s < RING_SIZE - 1"
    and "pulse_byte sb1 db1 \<noteq> 0" "pulse_byte sb2 db2 \<noteq> 0"
  defines "one \<equiv> gf_stream_go_idle False 0 0 (gf_stream_pulse os sb1 db1 (gf_stream_wakeup os s))"
  defines "two \<equiv> gf_stream_pulse os sb2 db2 (gf_stream_wakeup os one)"
  shows "produced one = shipped one + (gf_depth s + 1)
       \<and> gf_ring one = (gf_ring s)(ring_slot (gf_depth s) := pulse_byte sb1 db1)
       \<and> gf_ring two = (gf_ring s)(ring_slot (gf_depth s) := pulse_byte sb2 db2) \<and> \<not> failed two"
proof -
  note w1 = wake_fresh_sel [OF assms(1-3), of os]
  note p1 = pulse_at_start [OF w1(1,2,4,5,6,7) assms(4,5), of os]
  note g1 = go_idle_sel [OF p1(3), folded one_def]
  have o: "\<not> failed one" "\<not> streaming one" "\<not> kernel_running one" "gf_depth one = gf_depth s"
    using w1 p1 g1 by simp_all
  note w2 = wake_fresh_sel [OF o(1-3), of os]
  have d2: "gf_depth one < RING_SIZE - 1" using assms(4) o(4) by simp
  note p2 = pulse_at_start [OF w2(1,2,4,5,6,7) d2 assms(6), of os, folded two_def]
  show ?thesis using w1 p1 g1 w2 p2 o by simp
qed

theorem fresh_start_overwrites_witness:
  "gf_ring (gf_stream_pulse bench_os 2 0 (gf_stream_wakeup bench_os
     (gf_stream_go_idle False 0 0 (gf_stream_pulse bench_os 1 0 (gf_stream_wakeup bench_os bench_gf))))) =
   (\<lambda>_. 0)(22528 := pulse_byte 2 0)"
proof -
  have "pulse_byte 1 0 \<noteq> 0" "pulse_byte 2 0 \<noteq> 0" by code_simp+
  then show ?thesis
    using fresh_start_overwrites [of bench_gf 1 0 2 0 bench_os]
    by (simp add: bench_gf_sel RING_SIZE_def ring_slot_def)
qed

section \<open>The shipper's loop\<close>

lemma build_chunk_progress:
  assumes "shipped s < due \<and> (strm \<or> shipped s < produced s)"
  shows "shipped s < shipped (snd (build_chunk gate strm due 0 s))"
proof -
  have mono: "shipped u \<le> shipped (snd (build_chunk g st d n u))" for g st d n and u :: "'a gf_scheme"
  proof (induction g st d n u rule: build_chunk.induct)
    case (1 g st d n u)
    show ?case
    proof (cases "n < SHIP_CHUNK - 1 \<and> shipped u < d \<and> (st \<or> shipped u < produced u)")
      case True
      then show ?thesis using "1.IH" [OF True refl refl]
        by (subst build_chunk.simps) (simp add: Let_def case_prod_beta)
    next
      case False
      then show ?thesis by (subst build_chunk.simps) auto
    qed
  qed
  have "shipped s + 1 \<le> shipped (snd (build_chunk gate strm due n (snd (ship_tick gate s))))" for n
    using mono [of "snd (ship_tick gate s)" gate strm due n] by simp
  then show ?thesis using assms
    by (subst build_chunk.simps) (simp add: Let_def case_prod_beta SHIP_CHUNK_def Suc_le_eq)
qed

lemma chunk_write_shipped:
  assumes "\<And>k u. shipped u \<le> shipped (others k u)"
  shows "shipped s \<le> shipped (snd (chunk_write os others ch s))"
proof -
  have k: "shipped (snd (sink_write os a x buf r u)) = shipped u" for a x buf r and u :: "'a gf_scheme"
  proof -
    obtain ok v where p: "pulse_write os x buf u = (ok, v)" by fastforce
    obtain t e where "v = u\<lparr>io_tr := t, io_errno := e\<rparr>" using pulse_write_frame [OF p] by blast
    then show ?thesis using p by (simp add: sink_write_def sleep_ns_upd)
  qed
  have d: "shipped (dump_write ch u) = shipped u" for u :: "'a gf_scheme"
    by (simp add: dump_write_def emit_def)
  obtain now s1 where w: "wall_s os s = (now, s1)" by fastforce
  then have "shipped s1 = shipped s" by (auto simp: wall_s_upd)
  then show ?thesis
    using assms [of "snd (sink_write os (gf_active s1) (gf_fd s1) ch (now - ship_t0 s1) (dump_write ch s1))" 0] w
    by (simp add: chunk_write_def case_prod_beta k d)
qed

lemma ship_chunks_fuel_aux:
  assumes "\<And>k u. shipped u \<le> shipped (others k u)" "due - shipped s \<le> m" "due - shipped s \<le> n"
  shows "ship_chunks os others gate due m strm sr s = ship_chunks os others gate due n strm sr s"
  using assms(2,3)
proof (induction m arbitrary: n strm sr s)
  case 0
  then show ?case by (cases n) simp_all
next
  case (Suc m)
  show ?case
  proof (cases n)
    case 0
    then show ?thesis using Suc.prems by simp
  next
    case n: (Suc n')
    show ?thesis
    proof (cases "shipped s < due \<and> (strm \<or> shipped s < produced s)")
      case True
      obtain ch cs s1 where b: "build_chunk gate strm due 0 s = ((ch, cs), s1)" by (metis surj_pair)
      obtain ok s3 where w: "chunk_write os others ch (chunk_claim s1) = (ok, s3)" by fastforce
      have "shipped s < shipped s1" using build_chunk_progress [OF True, of gate] b by simp
      moreover have "shipped s1 \<le> shipped s3"
      proof -
        have "shipped (chunk_claim s1) \<le> shipped (snd (chunk_write os others ch (chunk_claim s1)))"
          by (rule chunk_write_shipped) (rule assms(1))
        then show ?thesis using w by (simp add: chunk_claim_def split: if_splits)
      qed
      ultimately have "due - shipped s3 \<le> m" "due - shipped s3 \<le> n'" using Suc.prems n by linarith+
      then have IH: "ship_chunks os others gate due m st x t = ship_chunks os others gate due n' st x t"
        if "shipped t = shipped s3" for st x t using Suc.IH [of t n' st x] that by simp
      have t: "shipped (chunk_taken a ch cs s3) = shipped s3" for a by (simp add: chunk_taken_def)
      show ?thesis unfolding n ship_chunks.simps b prod.case w Let_def using IH [OF t] by simp
    next
      case False
      then show ?thesis using n by auto
    qed
  qed
qed

text \<open>
  The shipping loop ends: every turn ships at least one tick, so while the other
  threads never move the cursor back, the turns that ship_pass allows are enough, and
  any larger bound gives the same result.
\<close>

theorem ship_chunks_terminates:
  assumes "\<And>k u. shipped u \<le> shipped (others k u)" "due \<le> fuel"
  shows "ship_chunks os others gate due fuel strm sr s = ship_chunks os others gate due due strm sr s"
  by (rule ship_chunks_fuel_aux) (use assms in auto)

theorem ship_chunks_terminates_witness:
  "ship_chunks bench_os (\<lambda>k u. u) False 3 99 True False bench_gf =
   ship_chunks bench_os (\<lambda>k u. u) False 3 3 True False bench_gf"
  by (rule ship_chunks_terminates) auto

section \<open>Read-back\<close>

text \<open>
  What a reset owes is taken exactly once: a finished read-back answers with its
  steps and the next look answers that nothing is owed; an unfinished one answers
  lost at the deadline, and is not answered later.
\<close>

theorem readback_taken_once:
  "(gf_readback s = RB_DONE \<longrightarrow> fst (readback_look os d s) = Some (1, unplayed s))
   \<and> (gf_readback s = RB_LOST \<longrightarrow> fst (readback_look os d s) = Some (- 1, 0))
   \<and> (gf_readback s = RB_NONE \<longrightarrow> fst (readback_look os d s) = Some (0, 0))
   \<and> (gf_readback s = RB_WAIT \<longrightarrow>
        fst (readback_look os d s) = (if os_now os (io_tr s) \<ge> d then Some (- 1, 0) else None))
   \<and> (fst (readback_look os d s) \<noteq> None \<longrightarrow>
        fst (readback_look os d' (snd (readback_look os d s))) = Some (0, 0))"
  by (cases "gf_readback s") (simp_all add: readback_look_def wall_s_upd Let_def)

theorem readback_taken_once_witness:
  "fst (readback_look bench_os 0 (gf0\<lparr>gf_readback := RB_DONE, unplayed := S3 4 5 6\<rparr>)) = Some (1, S3 4 5 6)"
  using readback_taken_once [of "gf0\<lparr>gf_readback := RB_DONE, unplayed := S3 4 5 6\<rparr>" bench_os 0] by simp

end
