(* ===== verification/Ctl_State.thy ===== *)
theory Ctl_State
  imports Stream_System
begin

text \<open>
  The controller above the stream: the state of glowforge_switches.c,
  glowforge_cooling.c and glowforge_laser.c, as one record that extends the stream's,
  and the grblHAL core as these modules see it.

  The core is not part of this program. What the modules read of it (the state word,
  the hold and parking states, the modal spindle, the planner, the sender's
  generation) is a record of functions from the history to the answer; what they ask
  of it (real-time commands, alarms, messages, queued lines, signals) is an event
  added to the core trace, newest first. The switch input device and the two LED
  files are there too. Formatted messages carry their constant part only.
\<close>

text \<open>
  The core's state word is a set of flags: the code tests it with a mask (an
  intersection here) and compares it with a single state (a singleton here). Idle is
  no flag at all.
\<close>

datatype sflag = ALARM | CHECK_MODE | HOMING | CYCLE | HOLD | JOG | SAFETY_DOOR | SLEEP | ESTOP | TOOL_CHANGE

type_synonym sys_state = "sflag set"

definition STATE_IDLE :: sys_state where "STATE_IDLE = {}"

datatype rtcmd = CMD_RESET | CMD_CYCLE_START | CMD_FEED_HOLD | CMD_JOG_CANCEL

text \<open>\<open>control_signals_t\<close>: the one input these modules set, and the mark of a deassertion report.\<close>

record signals =
  safety_door_ajar :: bool
  deasserted :: bool

text \<open>
  What the homing, tray, release and M-code modules ask of the core: alarms, the bits of
  the real-time word, the state word, the position of planner and parser, the hooks of a
  completed home, a jog with its answer, and the signals and answers of a homing runner.
\<close>

datatype corereq =
    Alarm_HomingRequired
  | Alarm_HomingFail
  | Alarm_MotorFault
  | Alarm_clear
  | Exec_feed_hold
  | Exec_motion_cancel
  | State_set sys_state
  | Sync_position
  | Homing_completed u8
  | Report_homed
  | Go_idle
  | Jog_execute "rat \<times> rat \<times> rat" rat nat
  | Marker_file string bool bool
  | Runner_spawn string nat int bool
  | Runner_wait "int option"
  | Runner_term
  | Runner_kill

datatype coreev =
    Cmd rtcmd
  | Alarm_AbortCycle
  | Msg string
  | Gcode string bool
  | Signals signals
  | Sw_read "u8 list option"
  | Led nat
  | Pump bool
  | Post string bool bool
  | Ask corereq

type_synonym core_trace = "coreev list"

text \<open>The PWM values that the core precomputes from the spindle settings.\<close>

record pwm_data =
  off_value :: nat
  min_value :: nat
  max_value :: nat
  pwm_rpm_min :: real

record core =
  co_state :: "core_trace \<Rightarrow> trace \<Rightarrow> sys_state"
  co_reset_pending :: "core_trace \<Rightarrow> trace \<Rightarrow> bool"
  co_hold_complete :: "core_trace \<Rightarrow> trace \<Rightarrow> bool"
  co_door_parked :: "core_trace \<Rightarrow> trace \<Rightarrow> bool"
  co_spindle_on :: "core_trace \<Rightarrow> trace \<Rightarrow> bool"
  co_plan_empty :: "core_trace \<Rightarrow> trace \<Rightarrow> bool"
  co_position :: "core_trace \<Rightarrow> trace \<Rightarrow> rat \<times> rat \<times> rat"
  co_client_gen :: "core_trace \<Rightarrow> trace \<Rightarrow> nat"
  co_switches :: "core_trace \<Rightarrow> trace \<Rightarrow> u8 list option"
  co_sw_open :: "string \<Rightarrow> int"
  co_sw_name :: "string \<Rightarrow> string option"
  co_enqueue_ok :: "core_trace \<Rightarrow> string \<Rightarrow> bool"
  co_precompute :: "cfloat \<Rightarrow> pwm_data"
  co_has_compute :: bool
  co_compute :: "pwm_data \<Rightarrow> real \<Rightarrow> nat"
  co_rpm_range :: "real \<times> real"
  co_cast_u32 :: "cfloat \<Rightarrow> u32"

datatype dose_model = Model_Density | Model_Analog

record dose_curve =
  density :: "rat list"
  light :: "rat list"
  curve_name :: string

datatype suppress = Suppress_None | Suppress_Unarmed | Suppress_Coolant

datatype cancel = Cancel_None | Cancel_WaitDrain | Cancel_ResetSent | Cancel_ParkQueued

record coolant_state =
  flood :: bool
  mist :: bool

record spindle_state =
  spindle_on :: bool
  spindle_ccw :: bool

text \<open>The statics of the three files, each on top of the one before.\<close>

record switches = gf +
  core_tr :: core_trace
  cap_e_stop :: bool
  cap_door :: bool
  sw_fd :: int
  fake_path :: "string option"
  sw_state :: signals
  delivered :: signals
  sw_raw :: "u8 list"
  button_prev :: bool
  cancel_state :: cancel
  door_hidden :: bool
  park_at :: rat
  park_saw_cycle :: bool
  hold_seen :: bool
  have_job_start :: bool
  job_start :: "rat \<times> rat \<times> rat"
  job_active :: bool
  prev_state :: sys_state

record cooling = switches +
  verdict_file :: string
  coolant_reported :: coolant_state
  laser_on_window :: bool
  was_run :: bool
  v_fire_ok :: bool
  v_hold :: bool
  v_resume_ok :: bool
  v_armed :: bool
  v_fresh_until_ms :: u32
  v_reason :: string
  v_reason_shown :: string
  v_name :: string
  pause_said :: bool
  decel_lit :: bool
  hold_ours :: bool
  rehold_said :: bool
  jog_warned :: bool
  fallback_done :: bool
  stale_warned :: bool
  next_report_ms :: u32
  next_verdict_ms :: u32
  http_port :: int
  report_secret :: string
  rep_mode :: string
  rep_armed :: bool
  rep_density :: bool
  rep_seq :: nat

record ctl = cooling +
  cur_state :: spindle_state
  spindle_pwm :: pwm_data
  hal_spindle :: bool
  compute_set :: bool
  hw_active :: bool
  laser_ok :: bool
  disarm_at :: rat
  armed_client_gen :: nat
  disarm_request :: bool
  arming :: bool
  rearm_pending :: bool
  rearm_deadline :: rat
  rearm_client_gen :: nat
  rearm_unreadable :: nat
  rearm_released :: bool
  disarmed_at :: rat
  fail_alarm_pending :: bool
  next_emission_check :: rat
  cur_model :: dose_model
  core_jogging :: bool
  rate_param :: bool
  rate_ratio :: real
  suppressed :: suppress
  suppress_shown :: suppress
  suppress_last :: rat
  curve :: dose_curve
  corner_gamma :: rat
  pwm_min_value :: cfloat
  unreadable_since :: rat

section \<open>The calls into the core\<close>

definition core_emit :: "coreev \<Rightarrow> 'a ctl_scheme \<Rightarrow> 'a ctl_scheme" where
  "core_emit e s = s\<lparr>core_tr := e # core_tr s\<rparr>"

definition report_message :: "string \<Rightarrow> 'a ctl_scheme \<Rightarrow> 'a ctl_scheme" where
  "report_message m s = core_emit (Msg m) s"

definition protocol_enqueue_realtime_command :: "rtcmd \<Rightarrow> 'a ctl_scheme \<Rightarrow> 'a ctl_scheme" where
  "protocol_enqueue_realtime_command c s = core_emit (Cmd c) s"

definition system_raise_alarm :: "'a ctl_scheme \<Rightarrow> 'a ctl_scheme" where
  "system_raise_alarm s = core_emit Alarm_AbortCycle s"

definition state_get :: "core \<Rightarrow> 'a ctl_scheme \<Rightarrow> sys_state" where
  "state_get co s = co_state co (core_tr s) (io_tr s)"

definition serial_client_generation :: "core \<Rightarrow> 'a ctl_scheme \<Rightarrow> nat" where
  "serial_client_generation co s = co_client_gen co (core_tr s) (io_tr s)"

text \<open>\<open>st & mask\<close>\<close>

definition in_state :: "sys_state \<Rightarrow> sys_state \<Rightarrow> bool" where
  "in_state st flags \<longleftrightarrow> st \<inter> flags \<noteq> {}"

definition button_led :: "nat \<Rightarrow> 'a ctl_scheme \<Rightarrow> 'a ctl_scheme" where
  "button_led v s = core_emit (Led v) s"

lemmas core_defs = core_emit_def report_message_def protocol_enqueue_realtime_command_def
  system_raise_alarm_def button_led_def

end
