(* ===== verification/Switches_Read.thy ===== *)
theory Switches_Read
  imports Ctl_State
begin

text \<open>
  The pure decode of glowforge_switch_map.h and the reading of the switch device of
  glowforge_switches.c: the bits of the switch word, the door signal derived from
  them, what the core may see of it, and the edges between two views.
\<close>

section \<open>The switch word\<close>

definition SW_BIT_BUTTON :: nat where "SW_BIT_BUTTON = 2"
definition SW_BIT_DOORS :: nat where "SW_BIT_DOORS = 3"
definition SW_BIT_HV_ENABLE :: nat where "SW_BIT_HV_ENABLE = 4"
definition SW_BIT_INTERLOCK :: nat where "SW_BIT_INTERLOCK = 5"
definition SW_BYTES :: nat where "SW_BYTES = 2"

text \<open>Every word read has \<open>SW_BYTES\<close> bytes and every bit asked for is in them.\<close>

definition gfsw_bit_set :: "u8 list \<Rightarrow> nat \<Rightarrow> bool" where
  "gfsw_bit_set sw b = ((sw ! (b div 8)) AND push_bit (b mod 8) 1 \<noteq> 0)"

definition no_signals :: signals where
  "no_signals = \<lparr>safety_door_ajar = False, deasserted = False\<rparr>"

definition gfsw_map_bits :: "u8 list \<Rightarrow> signals" where
  "gfsw_map_bits sw = no_signals\<lparr>safety_door_ajar :=
     (\<not> gfsw_bit_set sw SW_BIT_DOORS \<or> gfsw_bit_set sw SW_BIT_INTERLOCK)\<rparr>"

definition gfsw_visible :: "signals \<Rightarrow> sys_state \<Rightarrow> signals" where
  "gfsw_visible now st =
     (if st = STATE_IDLE \<or> st = {JOG} \<or> st = {HOMING} then now\<lparr>safety_door_ajar := False\<rparr> else now)"

definition any_signal :: "signals \<Rightarrow> bool" where
  "any_signal sg = (safety_door_ajar sg \<or> deasserted sg)"

text \<open>Newly asserted, to report as deasserted, and the new told state.\<close>

definition gfsw_edges :: "signals \<Rightarrow> signals \<Rightarrow> signals \<times> signals \<times> signals" where
  "gfsw_edges want told =
     (let on = \<lparr>safety_door_ajar = safety_door_ajar want \<and> \<not> safety_door_ajar told,
                deasserted = deasserted want \<and> \<not> deasserted told\<rparr>;
          off = \<lparr>safety_door_ajar = safety_door_ajar told \<and> \<not> safety_door_ajar want,
                 deasserted = deasserted told \<and> \<not> deasserted want\<rparr>;
          off = (if any_signal off then off\<lparr>deasserted := True\<rparr> else off)
      in (want, on, off))"

section \<open>Reading it\<close>

definition gfsw_available :: "'a ctl_scheme \<Rightarrow> bool" where
  "gfsw_available s = (sw_fd s \<ge> 0 \<or> fake_path s \<noteq> None)"

definition oct_val :: "char \<Rightarrow> nat option" where
  "oct_val c = (case digit_val c of None \<Rightarrow> None | Some d \<Rightarrow> if d < 8 then Some d else None)"

text \<open>\<open>strtoul(buf, NULL, 0)\<close>: hexadecimal after \<open>0x\<close>, octal after \<open>0\<close>, decimal otherwise.\<close>

definition strtoul0 :: "string \<Rightarrow> u32" where
  "strtoul0 t =
     (let (neg, t) = scan_sign (skip_space t);
          (v, n, r) = (if starts_ci ''0x'' t \<and> fst (snd (scan_digits hex_val 16 0 0 (drop 2 t))) > 0
                       then scan_digits hex_val 16 0 0 (drop 2 t)
                       else if t \<noteq> [] \<and> hd t = CHR ''0'' then scan_digits oct_val 8 0 0 t
                       else scan_digits digit_val 10 0 0 t)
      in if n = 0 then 0 else if v \<ge> 2 ^ 32 then - 1 else if neg then - of_nat v else of_nat v)"

text \<open>The word, or none when it cannot be read.\<close>

definition gfsw_read_raw :: "os \<Rightarrow> core \<Rightarrow> 'a ctl_scheme \<Rightarrow> u8 list option \<times> 'a ctl_scheme" where
  "gfsw_read_raw os co s =
     (let r = (if sw_fd s \<ge> 0
               then map_option (\<lambda>w. take SW_BYTES (w @ replicate SW_BYTES 0)) (co_switches co (core_tr s) (io_tr s))
               else case fake_path s of None \<Rightarrow> None
                 | Some p \<Rightarrow> (case os_file os (io_tr s) p of None \<Rightarrow> None
                    | Some txt \<Rightarrow> if txt = [] then None
                        else let w = strtoul0 (cstr (fst (fgets1 31 txt)))
                             in Some (map (\<lambda>i. ucast (drop_bit (8 * i) w)) [0..<SW_BYTES])))
      in (r, core_emit (Sw_read r) s))"

text \<open>\<open>memset(sw, 0)\<close> comes first: a word that cannot be read leaves zeros.\<close>

definition read_signals :: "os \<Rightarrow> core \<Rightarrow> 'a ctl_scheme \<Rightarrow> signals option \<times> 'a ctl_scheme" where
  "read_signals os co s =
     (let (r, s) = gfsw_read_raw os co s in
      case r of None \<Rightarrow> (None, s\<lparr>sw_raw := replicate SW_BYTES 0\<rparr>)
      | Some w \<Rightarrow> (Some (gfsw_map_bits w), s\<lparr>sw_raw := w\<rparr>))"

text \<open>The press that the laser module took is no edge of the next poll.\<close>

definition gfsw_button_consumed :: "'a ctl_scheme \<Rightarrow> 'a ctl_scheme" where
  "gfsw_button_consumed s = s\<lparr>button_prev := True\<rparr>"

section \<open>Facts\<close>

lemma gfsw_bit_set_bit: "gfsw_bit_set sw b = bit (sw ! (b div 8)) (b mod 8)"
proof -
  have "b mod 8 < LENGTH(8)" by simp
  from and_pow_bit [OF this, of "sw ! (b div 8)"] show ?thesis unfolding gfsw_bit_set_def by blast
qed

lemma gfsw_edges_told: "fst (gfsw_edges want told) = want"
  by (simp add: gfsw_edges_def Let_def)

end
