(* ===== verification/Cooling.thy ===== *)
theory Cooling
  imports Switches_Read
begin

text \<open>
  The cooling-service client of glowforge_cooling.c: the job reports, the verdict file
  and its cache, the freshness deadline, and the gates that the laser module reads.
  The enforcement in \<open>gfcool_poll\<close> is in the theory Cooling\_Poll, after the laser
  module, which it calls. The socket traffic of a report is one event of the core
  trace.
\<close>

definition VERDICT_FILE :: string where "VERDICT_FILE = ''/run/forgefirm/cooling.state''"
definition VERDICT_MAX_AGE_MS :: u32 where "VERDICT_MAX_AGE_MS = 2000"
definition REPORT_PERIOD_MS :: u32 where "REPORT_PERIOD_MS = 1000"

definition mono_ms :: "os \<Rightarrow> 'a ctl_scheme \<Rightarrow> u32 \<times> 'a ctl_scheme" where
  "mono_ms os s = (let (t, s) = wall_s os s in (of_int \<lfloor>t * 1000\<rfloor>, s))"

definition warn :: "string \<Rightarrow> 'a ctl_scheme \<Rightarrow> 'a ctl_scheme" where
  "warn msg s = report_message msg s"

definition hold_take :: "bool \<Rightarrow> 'a ctl_scheme \<Rightarrow> 'a ctl_scheme" where
  "hold_take stale s =
     (let s = (if hold_ours s \<and> \<not> rehold_said s
               then warn (if stale then ''cooling service lost - job held again''
                          else ''cooling hold stands - job held again; reset the job'')
                      (s\<lparr>rehold_said := True\<rparr>)
               else s);
          s = (if \<not> hold_ours s then s\<lparr>decel_lit := True\<rparr> else s)
      in protocol_enqueue_realtime_command CMD_FEED_HOLD (s\<lparr>hold_ours := True\<rparr>))"

definition decel_track :: "core \<Rightarrow> sys_state \<Rightarrow> 'a ctl_scheme \<Rightarrow> 'a ctl_scheme" where
  "decel_track co st s =
     (if \<not> decel_lit s then s
      else if st = {HOLD} \<and> co_hold_complete co (core_tr s) (io_tr s) then s\<lparr>decel_lit := False\<rparr>
      else if \<not> in_state st {CYCLE, HOLD} then s\<lparr>decel_lit := False\<rparr>
      else s)"

definition gfcool_decel_lit :: "'a ctl_scheme \<Rightarrow> bool" where
  "gfcool_decel_lit s = decel_lit s"

section \<open>Job reports\<close>

definition gflaser_density :: "'a ctl_scheme \<Rightarrow> bool" where
  "gflaser_density s = (cur_model s = Model_Density)"

definition report_mode :: "core \<Rightarrow> 'a ctl_scheme \<Rightarrow> string" where
  "report_mode co s =
     (if flood (coolant_reported s) \<or> laser_on_window s then ''run''
      else if was_run s \<and> in_state (state_get co s) {CYCLE, HOLD} then ''cooldown''
      else ''idle'')"

text \<open>The deposit for the reporter thread: only the newest matters.\<close>

definition report_now :: "os \<Rightarrow> core \<Rightarrow> 'a ctl_scheme \<Rightarrow> 'a ctl_scheme" where
  "report_now os co s =
     (let mode = report_mode co s;
          s = (if mode = ''idle'' then s\<lparr>was_run := False\<rparr> else s);
          s = s\<lparr>rep_mode := take 11 mode, rep_armed := laser_on_window s,
                rep_density := gflaser_density s, rep_seq := rep_seq s + 1\<rparr>;
          (now, s) = mono_ms os s
      in s\<lparr>next_report_ms := now + REPORT_PERIOD_MS\<rparr>)"

text \<open>One turn of the reporter thread, from the sequence number it has seen.\<close>

definition reporter_turn :: "nat \<Rightarrow> 'a ctl_scheme \<Rightarrow> nat \<times> 'a ctl_scheme" where
  "reporter_turn seen s =
     (if rep_seq s = seen then (seen, s)
      else (rep_seq s, core_emit (Post (rep_mode s) (rep_armed s) (rep_density s)) s))"

section \<open>The verdict\<close>

text \<open>\<open>strstr\<close>: the text from the first occurrence on.\<close>

fun strstr :: "string \<Rightarrow> string \<Rightarrow> string option" where
  "strstr [] pat = (if pat = [] then Some [] else None)"
| "strstr (c # t) pat = (if take (length pat) (c # t) = pat then Some (c # t) else strstr t pat)"

definition json_pat :: "string \<Rightarrow> string" where
  "json_pat key = take 23 ([CHR 0x22] @ key @ [CHR 0x22, CHR '':''])"

definition json_after :: "string \<Rightarrow> string \<Rightarrow> string option" where
  "json_after body pat = map_option (drop (length pat)) (strstr body pat)"

definition json_bool :: "string \<Rightarrow> string \<Rightarrow> bool \<Rightarrow> bool" where
  "json_bool body key dflt =
     (case json_after body (json_pat key) of None \<Rightarrow> dflt
      | Some p \<Rightarrow> if take 4 p = ''true'' then True
                  else if take 5 p = ''false'' then False else dflt)"

text \<open>\<open>atof\<close>: 0 when nothing converts.\<close>

definition json_num :: "string \<Rightarrow> string \<Rightarrow> cfloat option" where
  "json_num body key =
     map_option (\<lambda>p. case strtof p of None \<Rightarrow> Fin 0 | Some (f, _) \<Rightarrow> f) (json_after body (json_pat key))"

definition json_str :: "string \<Rightarrow> string \<Rightarrow> nat \<Rightarrow> string" where
  "json_str body key len =
     (case json_after body (take 23 ([CHR 0x22] @ key @ [CHR 0x22, CHR '':'', CHR 0x22])) of
        None \<Rightarrow> []
      | Some p \<Rightarrow> if CHR 0x22 \<in> set p then take (len - 1) (takeWhile (\<lambda>c. c \<noteq> CHR 0x22) p) else [])"

text \<open>
  The age of a verdict in milliseconds, when it is accepted: in 0 to 2 s. A timestamp
  that is not a number passes both comparisons of the code; its cast to an integer is
  the platform's.
\<close>

definition verdict_age_ms :: "core \<Rightarrow> rat \<Rightarrow> cfloat \<Rightarrow> u32 option" where
  "verdict_age_ms co now ts =
     (case ts of
        Fin t \<Rightarrow> let age = now - t in
          if age < 0 \<or> age > 2 then None else Some (of_int \<lfloor>age * 1000\<rfloor>)
      | NaN \<Rightarrow> Some (co_cast_u32 co NaN)
      | _ \<Rightarrow> None)"

definition verdict_read :: "os \<Rightarrow> core \<Rightarrow> 'a ctl_scheme \<Rightarrow> 'a ctl_scheme" where
  "verdict_read os co s =
     (case os_file os (io_tr s) (verdict_file s) of None \<Rightarrow> s
      | Some txt \<Rightarrow>
          (let buf = take 1023 txt; body = cstr buf in
           if buf = [] \<or> CHR ''}'' \<notin> set buf then s
           else case json_num body ''ts_mono'' of None \<Rightarrow> s
            | Some ts \<Rightarrow>
                (let (now, s) = wall_s os s in
                 case verdict_age_ms co now ts of None \<Rightarrow> s
                 | Some age_ms \<Rightarrow>
                     (let s = s\<lparr>v_hold := json_bool body ''hold'' True,
                                v_resume_ok := json_bool body ''resume_ok'' False,
                                v_fire_ok := json_bool body ''fire_ok'' False,
                                v_armed := json_bool body ''armed'' False,
                                v_reason := json_str body ''reason'' 112,
                                v_name := json_str body ''verdict'' 16\<rparr>;
                          (ms, s) = mono_ms os s
                      in s\<lparr>v_fresh_until_ms := ms + (VERDICT_MAX_AGE_MS - age_ms)\<rparr>))))"

text \<open>The signed comparison of two 32-bit times.\<close>

definition fresh_at :: "u32 \<Rightarrow> u32 \<Rightarrow> bool" where
  "fresh_at now until = (sint (now - until) < 0)"

definition verdict_fresh :: "os \<Rightarrow> 'a ctl_scheme \<Rightarrow> bool \<times> 'a ctl_scheme" where
  "verdict_fresh os s = (let (now, s) = mono_ms os s in (fresh_at now (v_fresh_until_ms s), s))"

definition verdict_fail_tier :: "string \<Rightarrow> bool" where
  "verdict_fail_tier name = (name \<in> {''FIRE'', ''CRASH'', ''AIRFLOW'', ''CRITICAL''})"

definition fallback_fans :: "os \<Rightarrow> 'a ctl_scheme \<Rightarrow> 'a ctl_scheme" where
  "fallback_fans os s =
     (let s = wr_attr os Head_air_assist_pwm ''1023'' s;
          s = wr_attr os Thermal_exhaust_pwm ''65535'' s
      in wr_attr os Thermal_intake_pwm ''43278'' s)"

section \<open>The interface\<close>

definition hex_lower :: "char \<Rightarrow> bool" where
  "hex_lower c = (c \<in> set ''0123456789abcdef'')"

definition gfcool_init :: "os \<Rightarrow> 'a ctl_scheme \<Rightarrow> 'a ctl_scheme" where
  "gfcool_init os s =
     (let s = (case os_getenv os ''FORGECTRL_PORT'' of
                 Some v \<Rightarrow> if 0 < atoi v \<and> atoi v < 65536 then s\<lparr>http_port := atoi v\<rparr> else s
               | None \<Rightarrow> s);
          s = (case gfio_test_hook os ''GF_VERDICT_FILE'' of
                 Some vf \<Rightarrow> if vf \<noteq> [] then s\<lparr>verdict_file := vf\<rparr> else s
               | None \<Rightarrow> s);
          s = (case os_getenv os ''GF_REPORT_SECRET'' of
                 Some rs \<Rightarrow> if length rs = 32 \<and> list_all hex_lower rs then s\<lparr>report_secret := rs\<rparr> else s
               | None \<Rightarrow> s);
          (a, s) = mono_ms os s;
          s = s\<lparr>next_report_ms := a\<rparr>;
          (b, s) = mono_ms os s
      in s\<lparr>next_verdict_ms := b\<rparr>)"

definition gfcool_coolant_set :: "os \<Rightarrow> core \<Rightarrow> coolant_state \<Rightarrow> 'a ctl_scheme \<Rightarrow> 'a ctl_scheme" where
  "gfcool_coolant_set os co st s =
     (let was = flood (coolant_reported s) \<or> laser_on_window s;
          s = s\<lparr>coolant_reported := st\<rparr>
      in if (flood st \<or> laser_on_window s) \<noteq> was
         then report_now os co (if \<not> was then s\<lparr>was_run := True\<rparr> else s)
         else s)"

definition gfcool_coolant_get :: "'a ctl_scheme \<Rightarrow> coolant_state" where
  "gfcool_coolant_get s = coolant_reported s"

definition gfcool_laser_armed :: "os \<Rightarrow> core \<Rightarrow> bool \<Rightarrow> 'a ctl_scheme \<Rightarrow> 'a ctl_scheme" where
  "gfcool_laser_armed os co armed s =
     (if laser_on_window s = armed then s
      else let was = flood (coolant_reported s) \<or> laser_on_window s;
               s = s\<lparr>laser_on_window := armed\<rparr>;
               s = (if \<not> was \<and> (flood (coolant_reported s) \<or> armed) then s\<lparr>was_run := True\<rparr> else s)
           in report_now os co s)"

definition gfcool_verdict_fire_ok :: "os \<Rightarrow> 'a ctl_scheme \<Rightarrow> bool \<times> 'a ctl_scheme" where
  "gfcool_verdict_fire_ok os s =
     (let (f, s) = verdict_fresh os s in (f \<and> v_fire_ok s, s))"

definition gfcool_fire_ok :: "os \<Rightarrow> 'a ctl_scheme \<Rightarrow> bool \<times> 'a ctl_scheme" where
  "gfcool_fire_ok os s =
     (let (ok, s) = gfcool_verdict_fire_ok os s
      in (ok \<and> \<not> (laser_on_window s \<and> \<not> v_armed s), s))"

definition gfcool_run_ack :: "os \<Rightarrow> 'a ctl_scheme \<Rightarrow> bool \<times> 'a ctl_scheme" where
  "gfcool_run_ack os s = (let (f, s) = verdict_fresh os s in (f \<and> v_armed s, s))"

end
