(* ===== verification/Laser_Dose.thy ===== *)
theory Laser_Dose
  imports Cooling
begin

text \<open>
  The dose of glowforge_laser.c: the dose curve (its parser, its default, its
  inverse), the corner rolloff, and the spindle computation that turns a commanded
  speed into a power level. The curve is computed over the reals; the rounding of
  single precision is not modelled.
\<close>

definition CURVE_MAX_POINTS :: nat where "CURVE_MAX_POINTS = 12"
definition GAMMA_DEFAULT :: rat where "GAMMA_DEFAULT = 2"
definition PWM_PERIOD :: nat where "PWM_PERIOD = 127"

definition curve_default :: dose_curve where
  "curve_default = \<lparr>density = [10, 20, 30, 45, 60, 80, 100], light = [1 / 2, 2, 7, 21, 37, 50, 100],
     curve_name = ''bench-default''\<rparr>"

text \<open>One point \<open>d:l\<close> of the text: the two values and the text behind it.\<close>

definition curve_point :: "string \<Rightarrow> (cfloat \<times> cfloat \<times> string) option" where
  "curve_point p =
     (case strtof p of None \<Rightarrow> None
      | Some (d, e) \<Rightarrow>
          if e = [] \<or> hd e \<noteq> CHR '':'' then None
          else (case strtof (tl e) of None \<Rightarrow> None
                | Some (l, e) \<Rightarrow> Some (d, l, if e \<noteq> [] \<and> hd e = CHR '','' then tl e else e)))"

text \<open>The checks of a point against the ones before it; a value that is not a number fails them.\<close>

definition point_ok :: "rat list \<Rightarrow> rat list \<Rightarrow> cfloat \<Rightarrow> cfloat \<Rightarrow> bool" where
  "point_ok ds ls d l =
     (fl_le (Fin 0) d \<and> fl_le d (Fin 100) \<and> fl_le (Fin 0) l \<and> fl_le l (Fin 100)
      \<and> \<not> (ds = [] \<and> fl_le l (Fin 0))
      \<and> (ds \<noteq> [] \<longrightarrow> fl_lt (Fin (last ds)) d \<and> fl_lt (Fin (last ls)) l))"

fun fl_rat :: "cfloat \<Rightarrow> rat" where
  "fl_rat (Fin x) = x"
| "fl_rat f = 0"

text \<open>The loop, with the room left; what is left of the text is the caller's to refuse.\<close>

fun curve_loop :: "nat \<Rightarrow> string \<Rightarrow> rat list \<Rightarrow> rat list \<Rightarrow> (string \<times> rat list \<times> rat list) option" where
  "curve_loop 0 p ds ls = Some (p, ds, ls)"
| "curve_loop (Suc room) p ds ls =
     (if p = [] then Some (p, ds, ls)
      else case curve_point p of None \<Rightarrow> None
       | Some (d, l, p) \<Rightarrow>
           if point_ok ds ls d l then curve_loop room p (ds @ [fl_rat d]) (ls @ [fl_rat l]) else None)"

definition curve_parse :: "string \<Rightarrow> dose_curve option" where
  "curve_parse txt =
     (case curve_loop CURVE_MAX_POINTS txt [] [] of None \<Rightarrow> None
      | Some (p, ds, ls) \<Rightarrow> if p \<noteq> [] \<or> length ds < 2 then None
          else Some \<lparr>density = ds, light = ls, curve_name = ''custom''\<rparr>)"

text \<open>The curve that the text of the key puts in force.\<close>

definition loaded_curve :: "string option \<Rightarrow> dose_curve" where
  "loaded_curve conf =
     (case conf of None \<Rightarrow> curve_default
      | Some t \<Rightarrow> if t = [] then curve_default
          else if t = ''off'' then \<lparr>density = [], light = [], curve_name = ''off''\<rparr>
          else (case curve_parse t of Some c \<Rightarrow> c | None \<Rightarrow> curve_default\<lparr>curve_name := ''invalid: bench-default''\<rparr>))"

definition curve_load :: "os \<Rightarrow> 'a ctl_scheme \<Rightarrow> 'a ctl_scheme" where
  "curve_load os s = s\<lparr>curve := loaded_curve (gfio_conf_read os ''laser_dose_curve'' 192 s)\<rparr>"

definition gamma_load :: "os \<Rightarrow> 'a ctl_scheme \<Rightarrow> 'a ctl_scheme" where
  "gamma_load os s =
     (let g = gfio_conf_read_float os ''laser_corner_gamma'' (Fin GAMMA_DEFAULT) s
      in s\<lparr>corner_gamma := (if fl_le (Fin (1 / 4)) g \<and> fl_le g (Fin 4) then fl_rat g else GAMMA_DEFAULT)\<rparr>)"

text \<open>The first segment that reaches the value, or the last one.\<close>

function curve_index :: "rat list \<Rightarrow> real \<Rightarrow> nat \<Rightarrow> nat" where
  "curve_index ls l i =
     (if i < length ls - 1 \<and> l > of_rat (ls ! i) then curve_index ls l (i + 1) else i)"
  by pat_completeness auto
termination
  by (relation "measure (\<lambda>(ls, l, i). length ls - i)") auto

declare curve_index.simps [simp del]

definition segment_apply :: "dose_curve \<Rightarrow> nat \<Rightarrow> real \<Rightarrow> real" where
  "segment_apply c i l =
     (let span = of_rat (light c ! i) - of_rat (light c ! (i - 1));
          f = (if span > 0 then (l - of_rat (light c ! (i - 1))) / span else 0);
          f = (if f > 1 then 1 else f)
      in (of_rat (density c ! (i - 1)) + f * (of_rat (density c ! i) - of_rat (density c ! (i - 1)))) / 100)"

definition curve_apply :: "dose_curve \<Rightarrow> real \<Rightarrow> real" where
  "curve_apply c lt =
     (if density c = [] then lt
      else let l = lt * 100 in
        if l \<le> of_rat (light c ! 0) then of_rat (density c ! 0) * (l / of_rat (light c ! 0)) / 100
        else segment_apply c (curve_index (light c) l 1) l)"

definition gflaser_curve :: "'a ctl_scheme \<Rightarrow> string" where
  "gflaser_curve s = (if density (curve s) \<noteq> [] then curve_name (curve s) else ''off'')"

definition gflaser_gamma :: "'a ctl_scheme \<Rightarrow> rat" where
  "gflaser_gamma s = corner_gamma s"

text \<open>The light that a speed commands, bent by the corner rolloff.\<close>

definition commanded_light :: "core \<Rightarrow> real \<Rightarrow> 'a ctl_scheme \<Rightarrow> real" where
  "commanded_light co rpm s =
     (let (lo, hi) = co_rpm_range co;
          lt = (rpm - lo) / (hi - lo);
          lt = (if lt > 1 then 1 else lt)
      in if corner_gamma s \<noteq> 1 \<and> rate_param s \<and> 0 < rate_ratio s \<and> rate_ratio s < 1
         then lt * rate_ratio s powr (of_rat (corner_gamma s) - 1) else lt)"

definition level_of :: "pwm_data \<Rightarrow> real \<Rightarrow> nat" where
  "level_of pwm x =
     (let v = nat \<lfloor>x * real PWM_PERIOD + 1 / 2\<rfloor>;
          v = (if v > max_value pwm then max_value pwm else v)
      in if v < min_value pwm then min_value pwm else v)"

definition curveComputeValue :: "core \<Rightarrow> real \<Rightarrow> 'a ctl_scheme \<Rightarrow> nat" where
  "curveComputeValue co rpm s =
     (let pwm = spindle_pwm s; (lo, hi) = co_rpm_range co in
      if density (curve s) \<noteq> [] \<and> rpm > pwm_rpm_min pwm \<and> hal_spindle s \<and> hi > lo
      then level_of pwm (curve_apply (curve s) (commanded_light co rpm s))
      else co_compute co pwm rpm)"

section \<open>The curve is increasing and meets its points\<close>

text \<open>A curve in force: at least two points, both sequences strictly increasing in 0 to 100.\<close>

definition curve_ok :: "dose_curve \<Rightarrow> bool" where
  "curve_ok c \<longleftrightarrow> density c = [] \<and> light c = [] \<or>
     (length (density c) = length (light c) \<and> 2 \<le> length (density c) \<and>
      sorted_wrt (<) (density c) \<and> sorted_wrt (<) (light c) \<and>
      0 \<le> hd (density c) \<and> last (density c) \<le> 100 \<and> 0 < hd (light c) \<and> last (light c) \<le> 100)"

text \<open>Points as the parser collects them.\<close>

definition points_ok :: "rat list \<Rightarrow> rat list \<Rightarrow> bool" where
  "points_ok ds ls \<longleftrightarrow> length ds = length ls \<and> sorted_wrt (<) ds \<and> sorted_wrt (<) ls \<and>
     (\<forall>d \<in> set ds. 0 \<le> d \<and> d \<le> 100) \<and> (\<forall>l \<in> set ls. 0 < l \<and> l \<le> 100)"

lemma sorted_lt_snoc:
  fixes xs :: "'a::linorder list"
  assumes "sorted_wrt (<) xs" "xs \<noteq> [] \<Longrightarrow> last xs < x"
  shows "sorted_wrt (<) (xs @ [x])"
proof -
  have "\<forall>y \<in> set xs. y < x"
  proof
    fix y assume y: "y \<in> set xs"
    then have ne: "xs \<noteq> []" by auto
    have xs: "butlast xs @ [last xs] = xs" using ne by simp
    have "y \<le> last xs"
      using assms(1) y by (subst (asm) (1 2) xs [symmetric]) (auto simp: sorted_wrt_append less_imp_le)
    then show "y < x" using assms(2) ne by simp
  qed
  then show ?thesis using assms(1) by (auto simp: sorted_wrt_append)
qed

lemma point_ok_snoc:
  assumes "points_ok ds ls" "point_ok ds ls d l"
  shows "points_ok (ds @ [fl_rat d]) (ls @ [fl_rat l])"
proof -
  obtain dv lv where v: "d = Fin dv" "l = Fin lv" "0 \<le> dv" "dv \<le> 100" "0 \<le> lv" "lv \<le> 100"
    using assms(2) by (cases d; cases l) (auto simp: point_ok_def fl_le_def)
  have em: "ds = [] \<longleftrightarrow> ls = []" using assms(1) by (auto simp: points_ok_def)
  have gt: "ds \<noteq> [] \<Longrightarrow> last ds < dv \<and> last ls < lv"
    using assms(2) v by (auto simp: point_ok_def fl_lt_def)
  have "0 < lv"
  proof (cases "ls = []")
    case True
    then show ?thesis using assms(2) v em by (auto simp: point_ok_def fl_le_def)
  next
    case False
    then have "0 < last ls" using assms(1) last_in_set [of ls] by (auto simp: points_ok_def)
    then show ?thesis using gt em False by force
  qed
  then show ?thesis using assms(1) v gt em by (auto simp: points_ok_def intro!: sorted_lt_snoc)
qed

lemma curve_loop_points:
  assumes "points_ok ds ls" "curve_loop room p ds ls = Some (q, ds', ls')"
  shows "points_ok ds' ls'" "length ds' \<le> length ds + room"
proof -
  have "points_ok ds' ls' \<and> length ds' \<le> length ds + room"
    using assms
  proof (induction room p ds ls rule: curve_loop.induct)
    case (2 room p ds ls)
    then show ?case
      by (force split: if_splits option.splits prod.splits intro: point_ok_snoc)
  qed auto
  then show "points_ok ds' ls'" "length ds' \<le> length ds + room" by auto
qed

lemma sorted_wrt_lt_le_nth:
  fixes xs :: "'a::linorder list"
  assumes "sorted_wrt (<) xs" "i \<le> j" "j < length xs"
  shows "xs ! i \<le> xs ! j"
  using assms sorted_wrt_nth_less [of "(<)" xs i j] by (cases "i = j") (auto simp: less_imp_le)

lemma points_curve_ok:
  assumes "points_ok ds ls" "2 \<le> length ds"
  shows "curve_ok \<lparr>density = ds, light = ls, curve_name = n\<rparr>"
proof -
  have "ds \<noteq> []" "ls \<noteq> []" using assms by (auto simp: points_ok_def)
  then show ?thesis using assms by (auto simp: curve_ok_def points_ok_def)
qed

lemma curve_parse_ok: "curve_parse t = Some c \<Longrightarrow> curve_ok c \<and> length (density c) \<le> CURVE_MAX_POINTS"
  using curve_loop_points [of "[]" "[]" CURVE_MAX_POINTS t]
  by (auto simp: curve_parse_def points_ok_def split: option.splits if_splits
      intro!: points_curve_ok) 

lemma curve_default_ok: "curve_ok (curve_default\<lparr>curve_name := n\<rparr>)"
  by (simp add: curve_ok_def curve_default_def)

lemma loaded_curve_ok: "curve_ok (loaded_curve conf)"
proof -
  have "curve_ok curve_default" by (simp add: curve_ok_def curve_default_def)
  moreover have "curve_ok \<lparr>density = [], light = [], curve_name = n\<rparr>" for n by (simp add: curve_ok_def)
  ultimately show ?thesis
    using curve_default_ok curve_parse_ok by (auto simp: loaded_curve_def split: option.split)
qed

text \<open>Where the search stops.\<close>

lemma curve_index_spec:
  assumes "i \<le> length ls - 1"
  shows "i \<le> curve_index ls l i \<and> curve_index ls l i \<le> length ls - 1 \<and>
         (\<forall>k. i \<le> k \<and> k < curve_index ls l i \<longrightarrow> l > of_rat (ls ! k)) \<and>
         (curve_index ls l i < length ls - 1 \<longrightarrow> l \<le> of_rat (ls ! curve_index ls l i))"
  using assms
proof (induction ls l i rule: curve_index.induct)
  case (1 ls l i)
  show ?case
  proof (cases "i < length ls - 1 \<and> l > of_rat (ls ! i)")
    case True
    have IH: "i + 1 \<le> curve_index ls l (i + 1) \<and> curve_index ls l (i + 1) \<le> length ls - 1 \<and>
         (\<forall>k. i + 1 \<le> k \<and> k < curve_index ls l (i + 1) \<longrightarrow> l > of_rat (ls ! k)) \<and>
         (curve_index ls l (i + 1) < length ls - 1 \<longrightarrow> l \<le> of_rat (ls ! curve_index ls l (i + 1)))"
      using 1(1) [OF True] True by simp
    have e: "curve_index ls l i = curve_index ls l (i + 1)" using True by (simp add: curve_index.simps [of ls l i])
    have "l > of_rat (ls ! k)" if "i \<le> k" "k < curve_index ls l (i + 1)" for k
      using that IH True by (cases "k = i") auto
    then show ?thesis unfolding e using IH by auto
  next
    case False
    then have "curve_index ls l i = i" by (subst curve_index.simps) auto
    then show ?thesis using 1(2) False by auto
  qed
qed

text \<open>The search, for a curve in force and a value beyond its first point.\<close>

lemma curve_index_bounds:
  assumes "2 \<le> length ls" "l > of_rat (ls ! 0)"
  defines "j \<equiv> curve_index ls l 1"
  shows "1 \<le> j" "j < length ls" "l > of_rat (ls ! (j - 1))" "j < length ls - 1 \<Longrightarrow> l \<le> of_rat (ls ! j)"
proof -
  have sp: "1 \<le> j \<and> j \<le> length ls - 1 \<and> (\<forall>k. 1 \<le> k \<and> k < j \<longrightarrow> l > of_rat (ls ! k)) \<and>
      (j < length ls - 1 \<longrightarrow> l \<le> of_rat (ls ! j))"
    unfolding j_def by (rule curve_index_spec) (use assms(1) in simp)
  then show "1 \<le> j" "j < length ls" "j < length ls - 1 \<Longrightarrow> l \<le> of_rat (ls ! j)" using assms(1) by auto
  show "l > of_rat (ls ! (j - 1))"
  proof (cases "j = 1")
    case False
    then have "1 \<le> j - 1" "j - 1 < j" using sp by auto
    then show ?thesis using sp by blast
  qed (use assms(2) in simp)
qed

lemma curve_index_mono:
  assumes "2 \<le> length ls" "l > of_rat (ls ! 0)" "l \<le> m"
  shows "curve_index ls l 1 \<le> curve_index ls m 1"
proof (rule ccontr)
  assume "\<not> ?thesis"
  then have lt: "curve_index ls m 1 < curve_index ls l 1" by simp
  have m: "of_rat (ls ! 0) < m" using assms by simp
  have "l > of_rat (ls ! curve_index ls m 1)"
    using curve_index_spec [of 1 ls l] lt curve_index_bounds(1) [OF assms(1) m] assms(1) by auto
  moreover have "m \<le> of_rat (ls ! curve_index ls m 1)"
    using curve_index_bounds(2) [OF assms(1,2)] lt by (intro curve_index_bounds(4) [OF assms(1) m]) simp
  ultimately show False using assms(3) by simp
qed

text \<open>The facts of a curve with points, in the reals.\<close>

lemma curve_points:
  assumes "curve_ok c" "density c \<noteq> []"
  shows "2 \<le> length (light c)" "length (density c) = length (light c)"
    "i < j \<Longrightarrow> j < length (light c) \<Longrightarrow> (of_rat (light c ! i) :: real) < of_rat (light c ! j)"
    "i \<le> j \<Longrightarrow> j < length (light c) \<Longrightarrow> (of_rat (density c ! i) :: real) \<le> of_rat (density c ! j)"
    "(0 :: real) < of_rat (light c ! 0)" "(0 :: real) \<le> of_rat (density c ! 0)"
    "j < length (light c) \<Longrightarrow> (of_rat (density c ! j) :: real) \<le> 100"
proof -
  have c: "length (density c) = length (light c)" "2 \<le> length (density c)" "sorted_wrt (<) (density c)"
    "sorted_wrt (<) (light c)" "0 \<le> hd (density c)" "last (density c) \<le> 100" "0 < hd (light c)"
    using assms by (auto simp: curve_ok_def)
  show "2 \<le> length (light c)" "length (density c) = length (light c)" using c by auto
  show "i < j \<Longrightarrow> j < length (light c) \<Longrightarrow> (of_rat (light c ! i) :: real) < of_rat (light c ! j)"
    using sorted_wrt_nth_less [OF c(4)] by (simp add: of_rat_less)
  show mono: "i \<le> j \<Longrightarrow> j < length (light c) \<Longrightarrow> (of_rat (density c ! i) :: real) \<le> of_rat (density c ! j)" for i j
    using sorted_wrt_lt_le_nth [OF c(3)] c(1) by (simp add: of_rat_less_eq)
  show "(0 :: real) < of_rat (light c ! 0)" "(0 :: real) \<le> of_rat (density c ! 0)"
    using c(1,2,5,7) by (auto simp: hd_conv_nth [symmetric] simp flip: length_greater_0_conv)
  have "(of_rat (density c ! (length (light c) - 1)) :: real) \<le> of_rat 100"
    unfolding of_rat_less_eq using c(1,6) assms(2) by (simp add: last_conv_nth)
  then show "j < length (light c) \<Longrightarrow> (of_rat (density c ! j) :: real) \<le> 100"
    using mono [of j "length (light c) - 1"] by force
qed

lemma segment_apply_range:
  assumes "curve_ok c" "density c \<noteq> []" "1 \<le> j" "j < length (light c)" "l > of_rat (light c ! (j - 1))"
  shows "of_rat (density c ! (j - 1)) / 100 \<le> segment_apply c j l" "segment_apply c j l \<le> of_rat (density c ! j) / 100"
proof -
  let ?a = "of_rat (density c ! (j - 1)) :: real" and ?b = "of_rat (density c ! j) :: real"
  let ?s = "of_rat (light c ! j) - of_rat (light c ! (j - 1)) :: real"
  define f where "f = min 1 ((l - of_rat (light c ! (j - 1))) / ?s)"
  have s: "0 < ?s" using curve_points(3) [OF assms(1,2), of "j - 1" j] assms(3,4) by simp
  have ab: "?a \<le> ?b" using curve_points(4) [OF assms(1,2), of "j - 1" j] assms(3,4) by simp
  have f: "0 \<le> f" "f \<le> 1" using s assms(5) by (auto simp: f_def)
  have e: "segment_apply c j l = (?a + f * (?b - ?a)) / 100"
    using s by (simp add: segment_apply_def Let_def f_def min_def)
  have "0 \<le> f * (?b - ?a)" "f * (?b - ?a) \<le> 1 * (?b - ?a)"
    using f ab by (simp, intro mult_right_mono) auto
  then show "of_rat (density c ! (j - 1)) / 100 \<le> segment_apply c j l" "segment_apply c j l \<le> of_rat (density c ! j) / 100"
    unfolding e by auto
qed

lemma segment_apply_mono:
  assumes "curve_ok c" "density c \<noteq> []" "1 \<le> j" "j < length (light c)" "l \<le> m"
  shows "segment_apply c j l \<le> segment_apply c j m"
proof -
  let ?s = "of_rat (light c ! j) - of_rat (light c ! (j - 1)) :: real"
  have s: "0 < ?s" using curve_points(3) [OF assms(1,2), of "j - 1" j] assms(3,4) by simp
  have ab: "(of_rat (density c ! (j - 1)) :: real) \<le> of_rat (density c ! j)"
    using curve_points(4) [OF assms(1,2), of "j - 1" j] assms(3,4) by simp
  define p q where "p = (l - of_rat (light c ! (j - 1))) / ?s" and "q = (m - of_rat (light c ! (j - 1))) / ?s"
  have "p \<le> q" unfolding p_def q_def using s assms(5) by (intro divide_right_mono) auto
  then have le: "(if p > 1 then 1 else p) \<le> (if q > 1 then 1 else q)" by auto
  show ?thesis unfolding segment_apply_def Let_def if_P [OF s] p_def [symmetric] q_def [symmetric]
    using le ab by (intro divide_right_mono add_left_mono mult_right_mono) auto
qed

lemma curve_apply_mono:
  assumes "curve_ok c" "0 \<le> x" "x \<le> y"
  shows "curve_apply c x \<le> curve_apply c y"
proof (cases "density c = []")
  case True
  then show ?thesis using assms by (simp add: curve_apply_def)
next
  case False
  let ?L0 = "of_rat (light c ! 0) :: real" and ?D0 = "of_rat (density c ! 0) :: real"
  note P = curve_points [OF assms(1) False]
  have head: "?D0 * (l / ?L0) / 100 \<le> ?D0 / 100" if "l \<le> ?L0" for l
  proof -
    have "?D0 * (l / ?L0) \<le> ?D0 * 1" using that P(5,6) by (intro mult_left_mono) auto
    then show ?thesis by simp
  qed
  consider "y * 100 \<le> ?L0" | "x * 100 \<le> ?L0" "y * 100 > ?L0" | "x * 100 > ?L0" by linarith
  then show ?thesis
  proof cases
    case 1
    have "?D0 * (x * 100 / ?L0) / 100 \<le> ?D0 * (y * 100 / ?L0) / 100"
      using assms(3) P(5,6) by (intro mult_left_mono divide_right_mono) auto
    moreover have "x * 100 \<le> ?L0" using 1 assms(3) by linarith
    ultimately show ?thesis unfolding curve_apply_def Let_def using 1 False by (simp only: if_True if_False)
  next
    case 2
    let ?j = "curve_index (light c) (y * 100) 1"
    note B = curve_index_bounds [OF P(1) 2(2)]
    have "?D0 \<le> of_rat (density c ! (?j - 1))" using B(1,2) by (intro P(4)) auto
    then have "?D0 / 100 \<le> segment_apply c ?j (y * 100)"
      using segment_apply_range(1) [OF assms(1) False B(1,2,3)] by linarith
    with head [OF 2(1)] have "?D0 * (x * 100 / ?L0) / 100 \<le> segment_apply c ?j (y * 100)" by (rule order_trans)
    then show ?thesis unfolding curve_apply_def Let_def using 2 False by (simp only: if_True if_False not_le [symmetric])
  next
    case 3
    then have y: "y * 100 > ?L0" using assms(3) by linarith
    let ?i = "curve_index (light c) (x * 100) 1" and ?j = "curve_index (light c) (y * 100) 1"
    note A = curve_index_bounds [OF P(1) 3] and B = curve_index_bounds [OF P(1) y]
    have "segment_apply c ?i (x * 100) \<le> segment_apply c ?j (y * 100)"
    proof (cases "?i = ?j")
      case True
      then show ?thesis using segment_apply_mono [OF assms(1) False A(1,2)] assms(3) by simp
    next
      case ne: False
      then have "?i \<le> ?j - 1" using curve_index_mono [OF P(1) 3, of "y * 100"] assms(3) by simp
      then have "(of_rat (density c ! ?i) :: real) \<le> of_rat (density c ! (?j - 1))" using P(4) B(2) by simp
      then show ?thesis
        using segment_apply_range(2) [OF assms(1) False A(1,2,3)] segment_apply_range(1) [OF assms(1) False B(1,2,3)]
        by linarith
    qed
    then show ?thesis using 3 y False by (simp add: curve_apply_def Let_def)
  qed
qed

lemma curve_apply_range:
  assumes "curve_ok c" "0 \<le> x" "x \<le> 1"
  shows "0 \<le> curve_apply c x" "curve_apply c x \<le> 1"
proof -
  have "0 = curve_apply c 0"
    using curve_points(5) [OF assms(1)] by (simp add: curve_apply_def Let_def less_imp_le)
  then show "0 \<le> curve_apply c x" using curve_apply_mono [OF assms(1), of 0 x] assms(2) by simp
  show "curve_apply c x \<le> 1"
  proof (cases "density c = [] \<or> x * 100 \<le> of_rat (light c ! 0)")
    case True
    show ?thesis
    proof (cases "density c = []")
      case False
      note P = curve_points [OF assms(1) False]
      have hundred: "z \<le> 100 * 1 \<Longrightarrow> z / 100 \<le> 1" for z :: real by simp
      have D0: "(of_rat (density c ! 0) :: real) \<le> 100" using P(1) by (intro P(7)) linarith
      have "of_rat (density c ! 0) * (x * 100 / of_rat (light c ! 0)) \<le> 100 * (1 :: real)"
        using P(5,6) D0 True False assms(2) by (intro mult_mono) auto
      then have "of_rat (density c ! 0) * (x * 100 / of_rat (light c ! 0)) / 100 \<le> (1 :: real)" by (rule hundred)
      then show ?thesis unfolding curve_apply_def Let_def using True False by (simp only: if_True if_False simp_thms)
    qed (use assms(3) in \<open>simp add: curve_apply_def\<close>)
  next
    case False
    then have ne: "density c \<noteq> []" and gt: "x * 100 > of_rat (light c ! 0)" by auto
    note P = curve_points [OF assms(1) ne] and B = curve_index_bounds [OF curve_points(1) [OF assms(1) ne] gt]
    show ?thesis
      using segment_apply_range(2) [OF assms(1) ne B(1,2,3)] P(7) [OF B(2)] gt ne by (simp add: curve_apply_def Let_def)
  qed
qed

text \<open>At the light of a measured point the density is the point's.\<close>

lemma curve_apply_point:
  assumes "curve_ok c" "density c \<noteq> []" "i < length (light c)"
  shows "curve_apply c (of_rat (light c ! i) / 100) = of_rat (density c ! i) / 100"
proof (cases "i = 0")
  case True
  then show ?thesis using assms curve_points(5) [OF assms(1,2)] by (simp add: curve_apply_def Let_def)
next
  case False
  note P = curve_points [OF assms(1,2)]
  have gt: "(of_rat (light c ! i) :: real) > of_rat (light c ! 0)" using P(3) False assms(3) by simp
  let ?j = "curve_index (light c) (of_rat (light c ! i) :: real) 1"
  note B = curve_index_bounds [OF P(1) gt]
  have "\<not> ?j < i" using B(2,4) P(3) [of ?j i] assms(3) by force
  moreover have "\<not> i \<le> ?j - 1" using B(3) P(3) [of i "?j - 1"] B(1,2) by (cases "i = ?j - 1") force+
  ultimately have j: "?j = i" by simp
  have s: "(0 :: real) < of_rat (light c ! i) - of_rat (light c ! (i - 1))" using P(3) [of "i - 1" i] False assms(3) by simp
  have ne: "light c ! i \<noteq> light c ! (i - 1)" using s by auto
  have "segment_apply c i (of_rat (light c ! i)) = of_rat (density c ! i) / 100"
    using s unfolding segment_apply_def Let_def if_P [OF s] using ne by simp
  then show ?thesis using gt assms(2) j by (simp add: curve_apply_def Let_def)
qed

lemma level_of_bounds:
  assumes "min_value p \<le> max_value p"
  shows "min_value p \<le> level_of p x" "level_of p x \<le> max_value p"
  using assms by (auto simp: level_of_def Let_def)

lemma level_of_mono: "x \<le> y \<Longrightarrow> level_of p x \<le> level_of p y"
proof -
  assume "x \<le> y"
  then have "nat \<lfloor>x * real PWM_PERIOD + 1 / 2\<rfloor> \<le> nat \<lfloor>y * real PWM_PERIOD + 1 / 2\<rfloor>"
    by (intro nat_mono floor_mono) (simp add: PWM_PERIOD_def)
  then show ?thesis by (auto simp: level_of_def Let_def)
qed

end
