(* ===== verification/Laser_Window.thy ===== *)
theory Laser_Window
  imports Laser_Dose
begin

text \<open>
  The armed window of glowforge_laser.c: the gates of an arm, the wait for the
  operator's press, the wait for the cooling engine's acknowledgment, the disarm, and
  the dose model that is put in force when the window opens.

  The two waits pump the protocol, \<open>serial_wait\<close>, \<open>serial_poll\<close> and
  \<open>protocol_execute_realtime\<close>. What runs inside is the core and everything it calls
  back, so it is an argument \<open>rt\<close> of the waits: any function of the state, whose
  boolean is false once the system is aborting. A wait can last forever under some
  \<open>rt\<close>, so the two loops are partial functions and their end is a theorem.
\<close>

type_synonym 'a rt = "'a ctl_scheme \<Rightarrow> bool \<times> 'a ctl_scheme"

definition BUTTON_TIMEOUT_S_DEFAULT :: rat where "BUTTON_TIMEOUT_S_DEFAULT = 300"
definition SWITCH_READ_FAILS_MAX :: nat where "SWITCH_READ_FAILS_MAX = 3"
definition COOL_ACK_S :: rat where "COOL_ACK_S = 5"
definition PULSE_TICKS_DEFAULT :: rat where "PULSE_TICKS_DEFAULT = 20"
definition PULSE_MIN_TICKS_DEFAULT :: rat where "PULSE_MIN_TICKS_DEFAULT = 3"
definition FLOOR_DENSITY_DEFAULT :: rat where "FLOOR_DENSITY_DEFAULT = 10"
definition FLOOR_ANALOG_DEFAULT :: rat where "FLOOR_ANALOG_DEFAULT = 16"

section \<open>The switches, the pump and the latch\<close>

datatype arm_sw = Arm_Waiting | Arm_Pressed | Arm_LidOpen | Arm_InterlockOpen | Arm_Unreadable

text \<open>What one word of the switches means to an arm.\<close>

definition arm_word :: "u8 list option \<Rightarrow> arm_sw" where
  "arm_word r =
     (case r of None \<Rightarrow> Arm_Unreadable
      | Some sw \<Rightarrow> if \<not> gfsw_bit_set sw SW_BIT_DOORS then Arm_LidOpen
          else if gfsw_bit_set sw SW_BIT_INTERLOCK then Arm_InterlockOpen
          else if gfsw_bit_set sw SW_BIT_BUTTON then Arm_Pressed else Arm_Waiting)"

definition arm_switches :: "os \<Rightarrow> core \<Rightarrow> 'a ctl_scheme \<Rightarrow> arm_sw \<times> 'a ctl_scheme" where
  "arm_switches os co s = (let (r, s) = gfsw_read_raw os co s in (arm_word r, s))"

definition pump :: "'a rt \<Rightarrow> 'a ctl_scheme \<Rightarrow> bool \<times> 'a ctl_scheme" where
  "pump rt s = (let (ok, s) = rt s in (ok, core_emit (Pump ok) s))"

definition latch_lock :: "os \<Rightarrow> bool \<Rightarrow> 'a ctl_scheme \<Rightarrow> bool \<times> 'a ctl_scheme" where
  "latch_lock os lock s = gf_stream_laser_latch os lock s"

definition fire_gate_publish :: "os \<Rightarrow> 'a ctl_scheme \<Rightarrow> 'a ctl_scheme" where
  "fire_gate_publish os s =
     (if laser_ok s
      then let (ok, s) = gfcool_verdict_fire_ok os s in gf_stream_fire_gate (ok \<or> gfcool_decel_lit s) s
      else gf_stream_fire_gate False s)"

definition gflaser_arming :: "'a ctl_scheme \<Rightarrow> bool" where
  "gflaser_arming s = arming s"

definition gflaser_armed :: "'a ctl_scheme \<Rightarrow> bool" where
  "gflaser_armed s = laser_ok s"

definition gflaser_disarm :: "os \<Rightarrow> core \<Rightarrow> 'a ctl_scheme \<Rightarrow> 'a ctl_scheme" where
  "gflaser_disarm os co s =
     (let was = laser_ok s;
          unlocked = (\<not> gf_stream_latch_locked_by_us s);
          s = gf_stream_fire_gate False (gf_stream_laser_arm False (s\<lparr>laser_ok := False\<rparr>));
          s = (if unlocked then snd (latch_lock os True s) else s)
      in if \<not> was \<and> \<not> unlocked then s
         else let s = button_led 0 s;
                  s = gfcool_laser_armed os co False s;
                  s = s\<lparr>disarm_at := 0, disarm_request := False\<rparr>;
                  (now, s) = wall_s os s;
                  s = s\<lparr>disarmed_at := now\<rparr>
              in if was then report_message ''laser disarmed - latch locked'' s else s)"

section \<open>The dose model\<close>

definition selected_model :: "os \<Rightarrow> 'a ctl_scheme \<Rightarrow> dose_model" where
  "selected_model os s =
     (if \<not> hw_active s \<and> gfio_conf_read os ''laser_power_model'' 16 s = Some ''analog''
      then Model_Analog else Model_Density)"

definition model_floor :: "os \<Rightarrow> dose_model \<Rightarrow> 'a ctl_scheme \<Rightarrow> cfloat" where
  "model_floor os m s =
     (let dflt = (if m = Model_Analog then FLOOR_ANALOG_DEFAULT else FLOOR_DENSITY_DEFAULT);
          pct = (if m = Model_Analog then gfio_conf_read_float os ''laser_floor_analog'' (Fin dflt) s
                 else gfio_conf_read_float os ''laser_floor_density'' (Fin dflt) s)
      in if fl_le (Fin 0) pct \<and> fl_le pct (Fin 100) then pct else Fin dflt)"

definition spindleConfig :: "os \<Rightarrow> core \<Rightarrow> bool \<Rightarrow> 'a ctl_scheme \<Rightarrow> bool \<times> 'a ctl_scheme" where
  "spindleConfig os co spindle s =
     (if \<not> spindle then (False, s)
      else let s = s\<lparr>hal_spindle := True\<rparr>;
               s = s\<lparr>pwm_min_value := model_floor os (cur_model s) s\<rparr>;
               s = gamma_load os (curve_load os s)
           in (True, s\<lparr>spindle_pwm := co_precompute co (pwm_min_value s), compute_set := co_has_compute co\<rparr>))"

text \<open>
  A tick count of the configuration: at least 1, or the default. The cast of a value
  beyond the 32-bit range is the platform's.
\<close>

definition fl_u32 :: "core \<Rightarrow> cfloat \<Rightarrow> u32" where
  "fl_u32 co f =
     (case f of Fin x \<Rightarrow> if 0 \<le> x \<and> x < 2 ^ 32 then of_int \<lfloor>x\<rfloor> else co_cast_u32 co f
      | _ \<Rightarrow> co_cast_u32 co f)"

definition model_ticks :: "os \<Rightarrow> core \<Rightarrow> string \<Rightarrow> rat \<Rightarrow> 'a ctl_scheme \<Rightarrow> u32" where
  "model_ticks os co key dflt s =
     (let t = gfio_conf_read_float os key (Fin dflt) s;
          t = (if fl_le (Fin 1) t then t else Fin dflt)
      in fl_u32 co t)"

definition apply_model :: "os \<Rightarrow> core \<Rightarrow> dose_model \<Rightarrow> 'a ctl_scheme \<Rightarrow> 'a ctl_scheme" where
  "apply_model os co m s =
     (let s = (if m = Model_Density
               then gf_stream_laser_model (model_ticks os co ''laser_pulse_ticks'' PULSE_TICKS_DEFAULT s)
                      (model_ticks os co ''laser_pulse_min_ticks'' PULSE_MIN_TICKS_DEFAULT s) s
               else gf_stream_laser_model 0 0 s);
          s = s\<lparr>cur_model := m\<rparr>
      in snd (spindleConfig os co (hal_spindle s) s))"

definition report_model :: "string \<Rightarrow> 'a ctl_scheme \<Rightarrow> 'a ctl_scheme" where
  "report_model what s = report_message what s"

section \<open>The gates\<close>

text \<open>The refusal of a job: the message, then the alarm.\<close>

definition refuse :: "string \<Rightarrow> 'a ctl_scheme \<Rightarrow> 'a ctl_scheme" where
  "refuse msg s = system_raise_alarm (report_message msg s)"

definition head_present :: "os \<Rightarrow> 'a ctl_scheme \<Rightarrow> bool \<times> 'a ctl_scheme" where
  "head_present os s =
     (if \<not> hw_active s then (True, s)
      else let (r, s) = gfio_rd_attr os Head_hall_sensor 16 s in
        if r \<noteq> None then (True, s)
        else (False, refuse ''laser fire blocked: no head detected'' s))"

definition arm_gates :: "os \<Rightarrow> 'a ctl_scheme \<Rightarrow> bool \<times> 'a ctl_scheme" where
  "arm_gates os s =
     (let (ok, s) = gfcool_fire_ok os s in
      if \<not> ok then (False, refuse ''laser fire blocked: coolant flow fault or over-temperature'' s)
      else let (here, s) = head_present os s in
        if \<not> here then (False, s)
        else if hw_active s \<and> \<not> gfsw_available s
        then (False, refuse ''laser fire blocked: no switch device (the button cannot be read)'' s)
        else (True, s))"

definition ack_budget_s :: "os \<Rightarrow> 'a ctl_scheme \<Rightarrow> rat" where
  "ack_budget_s os s =
     (let grace = gfio_conf_read_float os ''cool_fan_grace_s'' (Fin 15) s;
          grace = (if fl_le (Fin 0) grace \<and> fl_le grace (Fin 120) then fl_rat grace else 15);
          budget = grace + COOL_ACK_S
      in if budget < COOL_ACK_S then COOL_ACK_S else budget)"

text \<open>The way out of an arm that is not completed.\<close>

definition arm_back_out :: "os \<Rightarrow> core \<Rightarrow> 'a ctl_scheme \<Rightarrow> 'a ctl_scheme" where
  "arm_back_out os co s = gfcool_laser_armed os co False (snd (latch_lock os True s))"

text \<open>One turn of the acknowledgment wait: the end of it, or the state to go on from.\<close>

definition ack_turn :: "os \<Rightarrow> core \<Rightarrow> 'a rt \<Rightarrow> rat \<Rightarrow> 'a ctl_scheme \<Rightarrow> bool \<times> 'a ctl_scheme + 'a ctl_scheme" where
  "ack_turn os co rt deadline s =
     (let (ack, s) = gfcool_run_ack os s in
      if ack then Inl (True, s)
      else let (ok, s) = pump rt s in
        if \<not> ok then Inl (False, arm_back_out os co s)
        else let (now, s) = wall_s os s in
          if now > deadline
          then Inl (False, refuse ''laser fire blocked: the cooling service did not take the job''
                             (arm_back_out os co s))
          else Inr s)"

partial_function (option) ack_wait ::
    "os \<Rightarrow> core \<Rightarrow> 'a rt \<Rightarrow> rat \<Rightarrow> 'a ctl_scheme \<Rightarrow> (bool \<times> 'a ctl_scheme) option" where
  "ack_wait os co rt deadline s =
     (case ack_turn os co rt deadline s of Inl r \<Rightarrow> Some r | Inr s \<Rightarrow> ack_wait os co rt deadline s)"

text \<open>The window opens.\<close>

definition window_open :: "os \<Rightarrow> core \<Rightarrow> 'a ctl_scheme \<Rightarrow> 'a ctl_scheme" where
  "window_open os co s =
     (let s = apply_model os co (selected_model os s) s;
          s = (if fl_le (pwm_min_value s) (Fin 0)
               then report_message ''laser floor is 0: the bottom of the S range will not fire'' s else s);
          s = s\<lparr>disarm_request := False, laser_ok := True, disarm_at := 0\<rparr>;
          s = s\<lparr>armed_client_gen := serial_client_generation co s\<rparr>;
          s = fire_gate_publish os (gf_stream_laser_arm True s)
      in report_model ''laser armed'' s)"

definition arm_final :: "os \<Rightarrow> core \<Rightarrow> 'a ctl_scheme \<Rightarrow> bool \<times> 'a ctl_scheme" where
  "arm_final os co s =
     (let (ok, s) = gfcool_fire_ok os s in
      if \<not> ok then (False, refuse ''laser fire blocked: coolant flow fault or over-temperature'' (arm_back_out os co s))
      else let (here, s) = head_present os s in
        if \<not> here then (False, arm_back_out os co s)
        else (True, window_open os co s))"

definition arm_complete :: "os \<Rightarrow> core \<Rightarrow> 'a rt \<Rightarrow> 'a ctl_scheme \<Rightarrow> (bool \<times> 'a ctl_scheme) option" where
  "arm_complete os co rt s =
     (let budget = ack_budget_s os s; (now, s) = wall_s os s in
      case ack_wait os co rt (now + budget) s of
        None \<Rightarrow> None
      | Some (acked, s) \<Rightarrow> Some (if acked then arm_final os co s else (False, s)))"

definition arm_unlock :: "os \<Rightarrow> core \<Rightarrow> 'a ctl_scheme \<Rightarrow> bool \<times> 'a ctl_scheme" where
  "arm_unlock os co s =
     (let (ok, s) = latch_lock os False s in
      if ok then (True, s)
      else (False, refuse ''laser fire blocked: the laser latch did not unlock''
                     (gfcool_laser_armed os co False s)))"

section \<open>The button wait\<close>

definition button_timeout_s :: "os \<Rightarrow> 'a ctl_scheme \<Rightarrow> rat" where
  "button_timeout_s os s =
     (let t = gfio_conf_read_float os ''laser_button_timeout_s'' (Fin BUTTON_TIMEOUT_S_DEFAULT) s
      in if fl_le (Fin 1) t \<and> fl_le t (Fin 3600) then fl_rat t else BUTTON_TIMEOUT_S_DEFAULT)"

text \<open>The pump of a turn that neither ends nor arms: the reset path, and the waiting path.\<close>

definition arm_cancel :: "'a rt \<Rightarrow> string \<Rightarrow> bool \<Rightarrow> nat \<Rightarrow> 'a ctl_scheme
    \<Rightarrow> bool \<times> 'a ctl_scheme + bool \<times> nat \<times> 'a ctl_scheme" where
  "arm_cancel rt msg released unreadable s =
     (let (ok, s) = pump rt (protocol_enqueue_realtime_command CMD_RESET (report_message msg s))
      in if ok then Inr (released, unreadable, s) else Inl (False, s))"

definition arm_idle :: "os \<Rightarrow> 'a rt \<Rightarrow> rat \<Rightarrow> bool \<Rightarrow> nat \<Rightarrow> 'a ctl_scheme
    \<Rightarrow> bool \<times> 'a ctl_scheme + bool \<times> nat \<times> 'a ctl_scheme" where
  "arm_idle os rt deadline released unreadable s =
     (let (ok, s) = pump rt s in
      if \<not> ok then Inl (False, s)
      else let (now, s) = wall_s os s in
        if now > deadline then Inl (False, refuse ''laser arm timed out waiting for the button'' s)
        else Inr (released, unreadable, s))"

text \<open>
  One turn of the button wait, on the two counters of the loop: whether the button has
  been seen up, and the consecutive readings that failed. A turn ends the wait with
  pressed or aborted, or gives the counters and the state of the next turn.
\<close>

definition arm_turn :: "os \<Rightarrow> core \<Rightarrow> 'a rt \<Rightarrow> rat \<Rightarrow> nat \<Rightarrow> bool \<Rightarrow> nat \<Rightarrow> 'a ctl_scheme
    \<Rightarrow> bool \<times> 'a ctl_scheme + bool \<times> nat \<times> 'a ctl_scheme" where
  "arm_turn os co rt deadline sender_gen released unreadable s =
     (if serial_client_generation co s \<noteq> sender_gen
      then Inl (False, refuse ''sender changed during arm - job canceled'' s)
      else if in_state (state_get co s) {ALARM, ESTOP}
      then Inl (False, report_message ''alarm during arm - job canceled'' s)
      else let (sw, s) = arm_switches os co s;
               released = (released \<or> sw = Arm_Waiting);
               sw = (if sw = Arm_Pressed \<and> \<not> released then Arm_Waiting else sw);
               unreadable = (if sw = Arm_Unreadable then unreadable + 1 else 0)
           in if sw = Arm_Unreadable \<and> unreadable \<ge> SWITCH_READ_FAILS_MAX
              then Inl (False, refuse ''laser arm canceled: the switches cannot be read'' s)
              else case sw of
                Arm_Pressed \<Rightarrow> Inl (True, gfsw_button_consumed s)
              | Arm_LidOpen \<Rightarrow> arm_cancel rt ''lid opened during arm - job canceled'' released unreadable s
              | Arm_InterlockOpen \<Rightarrow> arm_cancel rt ''interlock open during arm - job canceled'' released unreadable s
              | _ \<Rightarrow> arm_idle os rt deadline released unreadable s)"

partial_function (option) arm_wait ::
    "os \<Rightarrow> core \<Rightarrow> 'a rt \<Rightarrow> rat \<Rightarrow> nat \<Rightarrow> bool \<Rightarrow> nat \<Rightarrow> 'a ctl_scheme \<Rightarrow> (bool \<times> 'a ctl_scheme) option" where
  "arm_wait os co rt deadline sender_gen released unreadable s =
     (case arm_turn os co rt deadline sender_gen released unreadable s of
        Inl r \<Rightarrow> Some r
      | Inr (released, unreadable, s) \<Rightarrow> arm_wait os co rt deadline sender_gen released unreadable s)"

definition arm_button :: "os \<Rightarrow> core \<Rightarrow> 'a rt \<Rightarrow> 'a ctl_scheme \<Rightarrow> (bool \<times> 'a ctl_scheme) option" where
  "arm_button os co rt s =
     (let timeout_s = button_timeout_s os s;
          (now, s) = wall_s os s;
          s = report_message ''press the button to start the laser job'' (button_led 255 s);
          sender_gen = serial_client_generation co s
      in case arm_wait os co rt (now + timeout_s) sender_gen False 0 (s\<lparr>arming := True\<rparr>) of
           None \<Rightarrow> None
         | Some (pressed, s) \<Rightarrow>
             (let s = button_led 0 (s\<lparr>arming := False\<rparr>)
              in Some (pressed, if pressed then s else arm_back_out os co s)))"

definition gflaser_arm :: "os \<Rightarrow> core \<Rightarrow> 'a rt \<Rightarrow> 'a ctl_scheme \<Rightarrow> (bool \<times> 'a ctl_scheme) option" where
  "gflaser_arm os co rt s =
     (let (ok, s) = arm_gates os s in
      if \<not> ok then Some (False, s)
      else let (ok, s) = arm_unlock os co (gfcool_laser_armed os co True s) in
        if \<not> ok then Some (False, s)
        else if gfsw_available s
        then (case arm_button os co rt s of
                None \<Rightarrow> None
              | Some (pressed, s) \<Rightarrow> if pressed then arm_complete os co rt s else Some (False, s))
        else arm_complete os co rt s)"

section \<open>The rules of the two loops\<close>

text \<open>What holds before every turn and what a last turn gives of it.\<close>

lemma ack_wait_rule:
  assumes "ack_wait os co rt d s = Some r" "P s"
    and "\<And>s r. P s \<Longrightarrow> ack_turn os co rt d s = Inl r \<Longrightarrow> Q r"
    and "\<And>s s'. P s \<Longrightarrow> ack_turn os co rt d s = Inr s' \<Longrightarrow> P s'"
  shows "Q r"
proof -
  have "P s \<longrightarrow> Q r"
  proof (rule ack_wait.raw_induct [where P = "\<lambda>o' c' t' d' s r. (o', c', t', d') = (os, co, rt, d) \<longrightarrow> P s \<longrightarrow> Q r",
        OF _ assms(1), THEN mp, OF _ refl], intro impI)
    fix w o' c' t' d' s r
    assume IH: "\<And>o' c' t' d' s r. w o' c' t' d' s = Some r \<Longrightarrow> (o', c', t', d') = (os, co, rt, d) \<longrightarrow> P s \<longrightarrow> Q r"
      and body: "(case ack_turn o' c' t' d' s of Inl r \<Rightarrow> Some r | Inr s \<Rightarrow> w o' c' t' d' s) = Some r"
      and eq: "(o', c', t', d') = (os, co, rt, d)" and P: "P s"
    show "Q r"
    proof (cases "ack_turn os co rt d s")
      case (Inl x)
      then show ?thesis using body eq assms(3) [OF P Inl] by simp
    next
      case (Inr s')
      then show ?thesis using body eq IH [of os co rt d s' r] assms(4) [OF P Inr] by simp
    qed
  qed
  then show ?thesis using assms(2) by simp
qed

lemma arm_wait_rule:
  assumes "arm_wait os co rt d g rel un s = Some r" "P rel un s"
    and "\<And>rel un s r. P rel un s \<Longrightarrow> arm_turn os co rt d g rel un s = Inl r \<Longrightarrow> Q r"
    and "\<And>rel un s rel' un' s'. P rel un s \<Longrightarrow> arm_turn os co rt d g rel un s = Inr (rel', un', s') \<Longrightarrow> P rel' un' s'"
  shows "Q r"
proof -
  have "P rel un s \<longrightarrow> Q r"
  proof (rule arm_wait.raw_induct [where P = "\<lambda>o' c' t' d' g' rel un s r. (o', c', t', d', g') = (os, co, rt, d, g) \<longrightarrow> P rel un s \<longrightarrow> Q r",
        OF _ assms(1), THEN mp, OF _ refl], intro impI)
    fix w o' c' t' d' g' rel un s r
    assume IH: "\<And>o' c' t' d' g' rel un s r. w o' c' t' d' g' rel un s = Some r \<Longrightarrow>
          (o', c', t', d', g') = (os, co, rt, d, g) \<longrightarrow> P rel un s \<longrightarrow> Q r"
      and body: "(case arm_turn o' c' t' d' g' rel un s of Inl r \<Rightarrow> Some r
          | Inr (rel, un, s) \<Rightarrow> w o' c' t' d' g' rel un s) = Some r"
      and eq: "(o', c', t', d', g') = (os, co, rt, d, g)" and P: "P rel un s"
    show "Q r"
    proof (cases "arm_turn os co rt d g rel un s")
      case (Inl x)
      then show ?thesis using body eq assms(3) [OF P Inl] by simp
    next
      case (Inr x)
      obtain rel' un' s' where x: "x = (rel', un', s')" by (cases x)
      show ?thesis using Inr x body eq IH [of os co rt d g rel' un' s' r] assms(4) [OF P, of rel' un' s'] by simp
    qed
  qed
  then show ?thesis using assms(2) by simp
qed

end
