(* ===== verification/Laser_Poll.thy ===== *)
theory Laser_Poll
  imports Laser_Window
begin

text \<open>
  The rest of glowforge_laser.c: the resume of a held job whose window has closed, the
  fail tier of the cooling verdict, the spindle backends, the poll that closes the
  window, and the hooks into the core. A hook ends with the handler that was installed
  before it; that handler is an argument \<open>chain\<close>.
\<close>

definition DISARM_S_DEFAULT :: rat where "DISARM_S_DEFAULT = 60"
definition DISARM_UNREADABLE_S :: rat where "DISARM_UNREADABLE_S = 2"

section \<open>Resuming a held job whose window has closed\<close>

definition rearm_end :: "os \<Rightarrow> core \<Rightarrow> bool \<Rightarrow> 'a ctl_scheme \<Rightarrow> 'a ctl_scheme" where
  "rearm_end os co armed s =
     (let s = button_led 0 (s\<lparr>rearm_pending := False, arming := False\<rparr>)
      in if armed then s else arm_back_out os co s)"

definition modal_spindle_on :: "core \<Rightarrow> 'a ctl_scheme \<Rightarrow> bool" where
  "modal_spindle_on co s = co_spindle_on co (core_tr s) (io_tr s)"

text \<open>The start of the wait for the press: its deadline, its sender, the lamp.\<close>

definition rearm_begin :: "os \<Rightarrow> core \<Rightarrow> 'a ctl_scheme \<Rightarrow> 'a ctl_scheme" where
  "rearm_begin os co s =
     (let timeout_s = button_timeout_s os s;
          (now, s) = wall_s os s;
          s = s\<lparr>rearm_deadline := now + timeout_s, rearm_pending := True, rearm_released := False,
                rearm_client_gen := serial_client_generation co s, rearm_unreadable := 0, arming := True\<rparr>
      in report_message ''press the button to resume the laser job'' (button_led 255 s))"

text \<open>True when the gate took the cycle start, false when the core may have it.\<close>

definition gflaser_resume_gate :: "os \<Rightarrow> core \<Rightarrow> 'a rt \<Rightarrow> 'a ctl_scheme \<Rightarrow> (bool \<times> 'a ctl_scheme) option" where
  "gflaser_resume_gate os co rt s =
     (if \<not> in_state (state_get co s) {HOLD, SAFETY_DOOR} then Some (False, s)
      else if rearm_pending s then Some (True, s)
      else if laser_ok s \<or> \<not> modal_spindle_on co s then Some (False, s)
      else let (ok, s) = arm_gates os s in
        if \<not> ok then Some (True, s)
        else let (ok, s) = arm_unlock os co (gfcool_laser_armed os co True s) in
          if \<not> ok then Some (True, s)
          else if \<not> gfsw_available s
          then map_option (\<lambda>(done, s). (\<not> done, s)) (arm_complete os co rt s)
          else Some (True, rearm_begin os co s))"

text \<open>The press of a re-arm: the window opens, then the core gets its cycle start.\<close>

definition rearm_press :: "os \<Rightarrow> core \<Rightarrow> 'a rt \<Rightarrow> 'a ctl_scheme \<Rightarrow> 'a ctl_scheme option" where
  "rearm_press os co rt s =
     (case arm_complete os co rt (gfsw_button_consumed s) of
        None \<Rightarrow> None
      | Some (done, s) \<Rightarrow>
          (let s = rearm_end os co done s
           in Some (if laser_ok s then protocol_enqueue_realtime_command CMD_CYCLE_START s else s)))"

definition rearm_timeout :: "os \<Rightarrow> core \<Rightarrow> 'a ctl_scheme \<Rightarrow> 'a ctl_scheme" where
  "rearm_timeout os co s =
     (let (now, s) = wall_s os s in
      if now > rearm_deadline s
      then report_message ''laser arm timed out waiting for the button - the job stays held''
             (rearm_end os co False s)
      else s)"

definition rearm_unread :: "os \<Rightarrow> core \<Rightarrow> 'a ctl_scheme \<Rightarrow> 'a ctl_scheme" where
  "rearm_unread os co s =
     (let s = s\<lparr>rearm_unreadable := rearm_unreadable s + 1\<rparr> in
      if rearm_unreadable s \<ge> SWITCH_READ_FAILS_MAX
      then refuse ''laser re-arm canceled: the switches cannot be read'' (rearm_end os co False s)
      else s)"

definition rearm_poll :: "os \<Rightarrow> core \<Rightarrow> 'a rt \<Rightarrow> 'a ctl_scheme \<Rightarrow> 'a ctl_scheme option" where
  "rearm_poll os co rt s =
     (if \<not> rearm_pending s then Some s
      else if \<not> in_state (state_get co s) {HOLD, SAFETY_DOOR} then Some (rearm_end os co False s)
      else if serial_client_generation co s \<noteq> rearm_client_gen s
      then Some (report_message ''sender changed - the resume is canceled; the job stays held''
                   (rearm_end os co False s))
      else let (sw, s) = arm_switches os co s in
        if sw = Arm_Unreadable then Some (rearm_unread os co s)
        else let s = s\<lparr>rearm_unreadable := 0\<rparr> in
          (case sw of
             Arm_Pressed \<Rightarrow> if \<not> rearm_released s then Some s else rearm_press os co rt s
           | Arm_Waiting \<Rightarrow> Some (rearm_timeout os co (s\<lparr>rearm_released := True\<rparr>))
           | _ \<Rightarrow> Some (report_message ''lid or interlock open - the resume is canceled''
                         (rearm_end os co False s))))"

section \<open>The fail tier\<close>

definition gflaser_verdict_fail :: "os \<Rightarrow> core \<Rightarrow> string \<Rightarrow> 'a ctl_scheme \<Rightarrow> 'a ctl_scheme" where
  "gflaser_verdict_fail os co name s =
     (if \<not> laser_ok s then s
      else let s = gflaser_disarm os co s;
               s = report_message (''cooling verdict '' @ name @ '' - job aborted, laser disarmed'') s;
               s = protocol_enqueue_realtime_command CMD_RESET s
           in s\<lparr>fail_alarm_pending := True\<rparr>)"

section \<open>The spindle backends\<close>

definition spindleUpdatePWM :: "os \<Rightarrow> nat \<Rightarrow> 'a ctl_scheme \<Rightarrow> 'a ctl_scheme" where
  "spindleUpdatePWM os pwm s =
     (let fire = (pwm \<noteq> off_value (spindle_pwm s));
          (fire, pwm, s) =
            (if fire \<and> \<not> laser_ok s
             then (False, off_value (spindle_pwm s), s\<lparr>suppressed := Suppress_Unarmed\<rparr>)
             else if fire
             then let (ok, s) = gfcool_fire_ok os s in
               if \<not> ok then (False, off_value (spindle_pwm s), s\<lparr>suppressed := Suppress_Coolant\<rparr>)
               else (True, pwm, s)
             else (False, pwm, s))
      in gf_stream_laser os (of_nat (if pwm > PWM_PERIOD then PWM_PERIOD else pwm)) fire s)"

text \<open>The laser-on question, asked of the window: the state that is stored, or a wait without end.\<close>

definition set_state_arm :: "os \<Rightarrow> core \<Rightarrow> 'a rt \<Rightarrow> spindle_state \<Rightarrow> 'a ctl_scheme
    \<Rightarrow> (spindle_state \<times> 'a ctl_scheme) option" where
  "set_state_arm os co rt st s =
     (if spindle_on st \<and> \<not> laser_ok s
      then if state_get co s = {CHECK_MODE}
           then Some (st\<lparr>spindle_on := False\<rparr>, report_message ''laser not armed in check mode'' s)
           else if in_state (state_get co s) {HOLD, SAFETY_DOOR}
           then Some (st\<lparr>spindle_on := False\<rparr>,
                      report_message ''laser not armed - hold and resume again to re-arm'' s)
           else map_option (\<lambda>(ok, s). (if ok then st else st\<lparr>spindle_on := False\<rparr>, s)) (gflaser_arm os co rt s)
      else Some (st, s))"

definition set_state_push :: "os \<Rightarrow> core \<Rightarrow> bool \<Rightarrow> spindle_state \<Rightarrow> real \<Rightarrow> 'a ctl_scheme \<Rightarrow> 'a ctl_scheme" where
  "set_state_push os co has_param st rpm s =
     (let s = s\<lparr>cur_state := st\<rparr> in
      if spindle_on st \<and> compute_set s
      then let s = (if has_param then s\<lparr>rate_ratio := 1, rate_param := True\<rparr> else s)
           in spindleUpdatePWM os (curveComputeValue co rpm s) s
      else spindleUpdatePWM os (off_value (spindle_pwm s)) s)"

definition spindleSetState :: "os \<Rightarrow> core \<Rightarrow> 'a rt \<Rightarrow> bool \<Rightarrow> spindle_state \<Rightarrow> real \<Rightarrow> 'a ctl_scheme
    \<Rightarrow> 'a ctl_scheme option" where
  "spindleSetState os co rt has_param st rpm s =
     map_option (\<lambda>(st, s). set_state_push os co has_param st rpm s) (set_state_arm os co rt st s)"

definition spindleGetState :: "'a ctl_scheme \<Rightarrow> spindle_state" where
  "spindleGetState s = cur_state s"

text \<open>The core has just written the segment's velocity ratio into the spindle's parameters.\<close>

definition spindleGetPWM :: "core \<Rightarrow> bool \<Rightarrow> real \<Rightarrow> 'a ctl_scheme \<Rightarrow> nat \<times> 'a ctl_scheme" where
  "spindleGetPWM co has_param rpm s =
     (let s = (if has_param then s\<lparr>rate_param := True\<rparr> else s)
      in (if \<not> compute_set s then off_value (spindle_pwm s) else curveComputeValue co rpm s, s))"

section \<open>The poll\<close>

definition relock_ready :: "os \<Rightarrow> 'a ctl_scheme \<Rightarrow> bool \<times> 'a ctl_scheme" where
  "relock_ready os s =
     (if \<not> hw_active s then (True, s)
      else let (r, s) = gfio_rd_attr os Cnc_state 16 s in
        case r of
          None \<Rightarrow>
            (let (now, s) = wall_s os s;
                 s = (if unreadable_since s = 0 then s\<lparr>unreadable_since := now\<rparr> else s)
             in if now - unreadable_since s < DISARM_UNREADABLE_S then (False, s)
                else (True, s\<lparr>unreadable_since := 0\<rparr>))
        | Some st \<Rightarrow>
            (st \<in> {''idle'', ''disabled'', ''fault'', ''underrun''}, s\<lparr>unreadable_since := 0\<rparr>))"

definition reset_pending :: "core \<Rightarrow> 'a ctl_scheme \<Rightarrow> bool" where
  "reset_pending co s = co_reset_pending co (core_tr s) (io_tr s)"

definition poll_fail_alarm :: "core \<Rightarrow> 'a ctl_scheme \<Rightarrow> 'a ctl_scheme" where
  "poll_fail_alarm co s =
     (if \<not> fail_alarm_pending s then s
      else if in_state (state_get co s) {ALARM, ESTOP} then s\<lparr>fail_alarm_pending := False\<rparr>
      else if state_get co s = STATE_IDLE \<and> \<not> reset_pending co s
      then system_raise_alarm (s\<lparr>fail_alarm_pending := False\<rparr>)
      else s)"

definition poll_suppress :: "os \<Rightarrow> 'a ctl_scheme \<Rightarrow> 'a ctl_scheme" where
  "poll_suppress os s =
     (let note = suppressed s;
          (t, s) = wall_s os (s\<lparr>suppressed := Suppress_None\<rparr>)
      in if note \<noteq> Suppress_None
         then let s = (if note \<noteq> suppress_shown s
                       then report_message (if note = Suppress_Coolant
                              then ''laser fire suppressed: coolant flow fault or over-temperature''
                              else ''laser fire suppressed: laser not armed'') s
                       else s)
              in s\<lparr>suppress_shown := note, suppress_last := t\<rparr>
         else if suppress_shown s \<noteq> Suppress_None \<and> t - suppress_last s > 1
         then s\<lparr>suppress_shown := Suppress_None\<rparr>
         else s)"

definition poll_emission :: "os \<Rightarrow> 'a ctl_scheme \<Rightarrow> 'a ctl_scheme" where
  "poll_emission os s =
     (if \<not> hw_active s then s
      else let (t, s) = wall_s os s in
        if t < next_emission_check s then s
        else let s = s\<lparr>next_emission_check := t + 1\<rparr> in
          if \<not> laser_ok s \<and> (disarmed_at s = 0 \<or> t - disarmed_at s > 3)
          then let (r, s) = gfio_rd_attr os Cnc_laser_on_sampled 8 s in
            (case r of None \<Rightarrow> s
             | Some v \<Rightarrow>
                 if atoi v > 0
                 then refuse ''uncommanded laser emission sensed - latch relocked'' (snd (latch_lock os True s))
                 else s)
          else s)"

definition disarm_grace_s :: "os \<Rightarrow> 'a ctl_scheme \<Rightarrow> rat" where
  "disarm_grace_s os s =
     (let g = gfio_conf_read_float os ''laser_disarm_s'' (Fin DISARM_S_DEFAULT) s
      in if fl_le (Fin 1) g \<and> fl_le g (Fin 3600) then fl_rat g else DISARM_S_DEFAULT)"

text \<open>The spindle-off grace.\<close>

definition poll_grace :: "os \<Rightarrow> core \<Rightarrow> sys_state \<Rightarrow> 'a ctl_scheme \<Rightarrow> 'a ctl_scheme" where
  "poll_grace os co st s =
     (if spindle_on (cur_state s) \<or> in_state st {CYCLE} then s\<lparr>disarm_at := 0\<rparr>
      else let (now, s) = wall_s os s in
        if disarm_at s = 0 then s\<lparr>disarm_at := now + disarm_grace_s os s\<rparr>
        else if now \<ge> disarm_at s
        then let (ready, s) = relock_ready os s in
          if ready then gflaser_disarm os co s else s\<lparr>disarm_at := now + 1 / 2\<rparr>
        else s)"

definition poll_window :: "os \<Rightarrow> core \<Rightarrow> 'a ctl_scheme \<Rightarrow> 'a ctl_scheme" where
  "poll_window os co s =
     (if \<not> laser_ok s then s
      else let st = state_get co s in
        if in_state st {ALARM, ESTOP, HOMING} then gflaser_disarm os co s
        else if serial_client_generation co s \<noteq> armed_client_gen s
        then gflaser_disarm os co
               (if st = {CYCLE}
                then report_message ''sender changed - job held, laser disarmed; a resume re-arms''
                       (protocol_enqueue_realtime_command CMD_FEED_HOLD s)
                else s)
        else let (spent, s) = (if disarm_request s then relock_ready os s else (False, s)) in
          if spent then gflaser_disarm os co s else poll_grace os co st s)"

definition gflaser_poll :: "os \<Rightarrow> core \<Rightarrow> 'a rt \<Rightarrow> 'a ctl_scheme \<Rightarrow> 'a ctl_scheme option" where
  "gflaser_poll os co rt s =
     (let s = fire_gate_publish os s;
          s = poll_fail_alarm co s;
          s = poll_suppress os s;
          s = poll_emission os s
      in map_option (poll_window os co) (rearm_poll os co rt s))"

section \<open>The hooks\<close>

definition laser_onProgramCompleted :: "('a ctl_scheme \<Rightarrow> 'a ctl_scheme) \<Rightarrow> bool \<Rightarrow> 'a ctl_scheme \<Rightarrow> 'a ctl_scheme" where
  "laser_onProgramCompleted chain check_mode s =
     chain (if \<not> check_mode \<and> laser_ok s then s\<lparr>disarm_request := True\<rparr> else s)"

definition laser_onStateChange ::
    "os \<Rightarrow> (sys_state \<Rightarrow> 'a ctl_scheme \<Rightarrow> 'a ctl_scheme) \<Rightarrow> sys_state \<Rightarrow> 'a ctl_scheme \<Rightarrow> 'a ctl_scheme" where
  "laser_onStateChange os chain st s =
     (let jog = (st = {JOG});
          s = (if jog \<noteq> core_jogging s then gf_stream_jog os jog (s\<lparr>core_jogging := jog\<rparr>) else s)
      in chain st s)"

datatype user_mcode = UserMCode_Generic2 | UserMCode_Other nat

datatype mcode_type = UserMCode_Unsupported | UserMCode_Normal | UserMCode_NoValueWords

definition laser_mcodeCheck :: "(user_mcode \<Rightarrow> mcode_type) option \<Rightarrow> user_mcode \<Rightarrow> mcode_type" where
  "laser_mcodeCheck chain mcode =
     (if mcode = UserMCode_Generic2 then UserMCode_Normal
      else case chain of Some f \<Rightarrow> f mcode | None \<Rightarrow> UserMCode_Unsupported)"

text \<open>The core's status codes: the ones the driver returns, and any other.\<close>

datatype status_code =
    Status_OK
  | Status_Unhandled
  | Status_BadNumberFormat
  | Status_SettingDisabled
  | Status_IdleError
  | Status_SystemGClock
  | Status_GcodeValueWordMissing
  | Status_GcodeValueOutOfRange
  | Status_GcodeAxisWordsExist
  | Status_Other nat

text \<open>The status, and whether the block is to be executed with the planner drained.\<close>

definition laser_mcodeValidate ::
    "(user_mcode \<Rightarrow> bool \<Rightarrow> status_code \<times> bool) option \<Rightarrow> user_mcode \<Rightarrow> bool \<Rightarrow> status_code \<times> bool" where
  "laser_mcodeValidate chain mcode sync =
     (if mcode = UserMCode_Generic2 then (Status_OK, True)
      else case chain of Some f \<Rightarrow> f mcode sync | None \<Rightarrow> (Status_Unhandled, sync))"

definition laser_mcodeExecute ::
    "os \<Rightarrow> core \<Rightarrow> (user_mcode \<Rightarrow> 'a ctl_scheme \<Rightarrow> 'a ctl_scheme) \<Rightarrow> user_mcode \<Rightarrow> 'a ctl_scheme \<Rightarrow> 'a ctl_scheme" where
  "laser_mcodeExecute os co chain mcode s =
     (if mcode = UserMCode_Generic2
      then report_message ''laser keys reloaded'' (snd (spindleConfig os co (hal_spindle s) s))
      else chain mcode s)"

definition gflaser_init :: "os \<Rightarrow> 'a ctl_scheme \<Rightarrow> 'a ctl_scheme" where
  "gflaser_init os s = button_led 0 (s\<lparr>hw_active := getenv_set os ''GFSINK'' \<noteq> None\<rparr>)"

end
