(* ===== verification/Cooling_Poll.thy ===== *)
theory Cooling_Poll
  imports Laser_Poll
begin

text \<open>
  The enforcement of the cooling verdict, \<open>gfcool_poll\<close> of glowforge_cooling.c: the
  reading of the file, the fail and pause tiers, the hold and its release.
\<close>

text \<open>The tiers, inside an open window.\<close>

definition cool_tiers :: "os \<Rightarrow> core \<Rightarrow> bool \<Rightarrow> bool \<Rightarrow> bool \<Rightarrow> 'a ctl_scheme \<Rightarrow> 'a ctl_scheme" where
  "cool_tiers os co fresh blocked armed s =
     (if armed \<and> blocked
      then if fresh \<and> verdict_fail_tier (v_name s) then gflaser_verdict_fail os co (v_name s) s
           else if \<not> pause_said s
           then warn ''cooling verdict blocks fire - fire masked, job held'' (s\<lparr>pause_said := True\<rparr>)
           else s
      else s\<lparr>pause_said := False, decel_lit := False\<rparr>)"

text \<open>No verdict: the job holds, an armed window gets the fallback airflow.\<close>

definition cool_stale :: "os \<Rightarrow> sys_state \<Rightarrow> 'a ctl_scheme \<Rightarrow> 'a ctl_scheme" where
  "cool_stale os st s =
     (if laser_on_window s \<or> flood (coolant_reported s)
      then let s = (if \<not> stale_warned s
                    then wr_attr os Thermal_heater_pwm ''0''
                           (warn ''cooling service lost - fire blocked, holding'' (s\<lparr>stale_warned := True\<rparr>))
                    else s);
               s = (if st = {CYCLE} then hold_take True s
                    else if in_state st {HOLD} then s\<lparr>rehold_said := False\<rparr>
                    else s)
           in if laser_on_window s \<and> \<not> fallback_done s
              then fallback_fans os (s\<lparr>fallback_done := True\<rparr>)
              else s
      else s)"

definition cool_restored :: "'a ctl_scheme \<Rightarrow> 'a ctl_scheme" where
  "cool_restored s =
     (if stale_warned s
      then report_message ''cooling service restored'' (s\<lparr>stale_warned := False, fallback_done := False\<rparr>)
      else s)"

definition cool_reason :: "bool \<Rightarrow> 'a ctl_scheme \<Rightarrow> 'a ctl_scheme" where
  "cool_reason read_now s =
     (if read_now
      then let s = (if v_reason s \<noteq> [] \<and> v_reason s \<noteq> v_reason_shown s then warn (v_reason s) s else s)
           in s\<lparr>v_reason_shown := v_reason s\<rparr>
      else s)"

definition cool_hold :: "sys_state \<Rightarrow> 'a ctl_scheme \<Rightarrow> 'a ctl_scheme" where
  "cool_hold st s =
     (if st = {CYCLE} then hold_take False s
      else if in_state st {HOLD} then s\<lparr>rehold_said := False\<rparr>
      else if st = {JOG}
      then let s = protocol_enqueue_realtime_command CMD_JOG_CANCEL s
           in if \<not> jog_warned s then warn ''jog canceled on the cooling verdict'' (s\<lparr>jog_warned := True\<rparr>) else s
      else s)"

definition cool_release :: "os \<Rightarrow> core \<Rightarrow> 'a rt \<Rightarrow> sys_state \<Rightarrow> 'a ctl_scheme \<Rightarrow> 'a ctl_scheme option" where
  "cool_release os co rt st s =
     (let s = s\<lparr>jog_warned := False, rehold_said := False\<rparr> in
      if \<not> hold_ours s then Some s
      else if \<not> in_state st {HOLD} then Some (s\<lparr>hold_ours := False\<rparr>)
      else if v_resume_ok s
      then map_option (\<lambda>(taken, s). if taken then s else protocol_enqueue_realtime_command CMD_CYCLE_START s)
             (gflaser_resume_gate os co rt
                (report_message ''cooling verdict clean - resuming'' (s\<lparr>hold_ours := False\<rparr>)))
      else Some s)"

definition cool_fresh :: "os \<Rightarrow> core \<Rightarrow> 'a rt \<Rightarrow> bool \<Rightarrow> sys_state \<Rightarrow> bool \<Rightarrow> bool \<Rightarrow> 'a ctl_scheme
    \<Rightarrow> 'a ctl_scheme option" where
  "cool_fresh os co rt read_now st blocked armed s =
     (let s = cool_reason read_now (cool_restored s) in
      if v_hold s \<or> armed \<and> blocked then Some (cool_hold st s) else cool_release os co rt st s)"

definition cool_read :: "os \<Rightarrow> core \<Rightarrow> u32 \<Rightarrow> bool \<Rightarrow> 'a ctl_scheme \<Rightarrow> 'a ctl_scheme" where
  "cool_read os co now read_now s =
     (if read_now then verdict_read os co (s\<lparr>next_verdict_ms := now + 500\<rparr>) else s)"

definition cool_enforce :: "os \<Rightarrow> core \<Rightarrow> 'a rt \<Rightarrow> bool \<Rightarrow> 'a ctl_scheme \<Rightarrow> 'a ctl_scheme option" where
  "cool_enforce os co rt read_now s =
     (let (fresh, s) = verdict_fresh os s;
          st = state_get co s;
          (ok, s) = gfcool_verdict_fire_ok os s;
          blocked = (\<not> ok);
          armed = gflaser_armed s;
          s = decel_track co st (cool_tiers os co fresh blocked armed s)
      in if \<not> fresh then Some (cool_stale os st s)
         else cool_fresh os co rt read_now st blocked armed s)"

definition gfcool_poll :: "os \<Rightarrow> core \<Rightarrow> 'a rt \<Rightarrow> 'a ctl_scheme \<Rightarrow> 'a ctl_scheme option" where
  "gfcool_poll os co rt s =
     (let (now, s) = mono_ms os s;
          read_now = (0 \<le> sint (now - next_verdict_ms s))
      in map_option (\<lambda>s. if 0 \<le> sint (now - next_report_ms s) \<and> state_get co s \<noteq> {HOMING}
                         then report_now os co s else s)
           (cool_enforce os co rt read_now (cool_read os co now read_now s)))"

end
