(* ===== verification/Switches_Poll.thy ===== *)
theory Switches_Poll
  imports Cooling_Poll
begin

text \<open>
  The rest of glowforge_switches.c: what the core sees of the door, the button's pause
  and resume, the job start, and the lid policy that cancels a job and returns the
  head, a state machine of four states driven from the poll.
\<close>

definition PARK_ENQUEUE_RETRY_S :: rat where "PARK_ENQUEUE_RETRY_S = 2"
definition PARK_ZERO_LENGTH_S :: rat where "PARK_ZERO_LENGTH_S = 1"
definition DRAIN_WAIT_S :: rat where "DRAIN_WAIT_S = 2"
definition SWITCH_DEV :: string where "SWITCH_DEV = ''/dev/input/event0''"
definition SWITCH_DEV_NAME :: string where "SWITCH_DEV_NAME = ''switches''"

definition lid_cancels :: "os \<Rightarrow> 'a ctl_scheme \<Rightarrow> bool" where
  "lid_cancels os s = (gfio_conf_read os ''lid_policy'' 16 s \<noteq> Some ''hold'')"

definition visible_signals :: "core \<Rightarrow> signals \<Rightarrow> 'a ctl_scheme \<Rightarrow> signals" where
  "visible_signals co now s =
     (let now = gfsw_visible now (state_get co s)
      in if door_hidden s then now\<lparr>safety_door_ajar := False\<rparr> else now)"

definition gfsw_get_state :: "core \<Rightarrow> 'a ctl_scheme \<Rightarrow> signals" where
  "gfsw_get_state co s = visible_signals co (sw_state s) s"

text \<open>The job start, and whether a job is under way.\<close>

definition plan_empty :: "core \<Rightarrow> 'a ctl_scheme \<Rightarrow> bool" where
  "plan_empty co s = co_plan_empty co (core_tr s) (io_tr s)"

definition machine_position :: "core \<Rightarrow> 'a ctl_scheme \<Rightarrow> rat \<times> rat \<times> rat" where
  "machine_position co s = co_position co (core_tr s) (io_tr s)"

definition sw_onStateChange ::
    "core \<Rightarrow> (sys_state \<Rightarrow> 'a ctl_scheme \<Rightarrow> 'a ctl_scheme) \<Rightarrow> sys_state \<Rightarrow> 'a ctl_scheme \<Rightarrow> 'a ctl_scheme" where
  "sw_onStateChange co chain new_state s =
     (let s = (if new_state = STATE_IDLE
               then (if plan_empty co s then s\<lparr>job_active := False\<rparr> else s)
               else if in_state new_state {ALARM, ESTOP, SLEEP} then s\<lparr>job_active := False\<rparr>
               else if new_state = {CYCLE} \<and> prev_state s = STATE_IDLE \<and> \<not> job_active s
               then (if cancel_state s = Cancel_None
                     then s\<lparr>job_start := machine_position co s, have_job_start := True\<rparr>
                     else s)\<lparr>job_active := True\<rparr>
               else s)
      in chain new_state (s\<lparr>prev_state := new_state\<rparr>))"

definition gfsw_open :: "os \<Rightarrow> core \<Rightarrow> 'a ctl_scheme \<Rightarrow> 'a ctl_scheme" where
  "gfsw_open os co s =
     (let dev = (case gfio_test_hook os ''GF_SWITCH_DEV'' of
                   Some d \<Rightarrow> if d \<noteq> [] then d else SWITCH_DEV
                 | None \<Rightarrow> SWITCH_DEV);
          fd = co_sw_open co dev;
          s = s\<lparr>sw_fd := (if fd \<ge> 0 \<and> co_sw_name co dev \<noteq> Some SWITCH_DEV_NAME then - 1 else fd)\<rparr>
      in if sw_fd s < 0
         then case gfio_test_hook os ''GF_SWITCH_FILE'' of
                Some p \<Rightarrow> if p \<noteq> [] then s\<lparr>fake_path := Some p\<rparr> else s
              | None \<Rightarrow> s
         else s)"

definition gfsw_init :: "os \<Rightarrow> core \<Rightarrow> 'a ctl_scheme \<Rightarrow> 'a ctl_scheme" where
  "gfsw_init os co s =
     (let s = gfsw_open os co (s\<lparr>cap_e_stop := False\<rparr>) in
      if \<not> gfsw_available s then s\<lparr>cap_door := False\<rparr>
      else let (r, s) = read_signals os co (s\<lparr>cap_door := True\<rparr>);
               s = (case r of Some initial \<Rightarrow> s\<lparr>sw_state := initial\<rparr> | None \<Rightarrow> s)
           in s\<lparr>button_prev := gfsw_bit_set (sw_raw s) SW_BIT_BUTTON\<rparr>)"

section \<open>The button\<close>

definition button_edge :: "os \<Rightarrow> core \<Rightarrow> 'a rt \<Rightarrow> sys_state \<Rightarrow> 'a ctl_scheme \<Rightarrow> 'a ctl_scheme option" where
  "button_edge os co rt st s =
     (if gflaser_arming s then Some s
      else if st = {CYCLE}
      then Some (report_message ''button pressed - job paused'' (protocol_enqueue_realtime_command CMD_FEED_HOLD s))
      else if st = {HOLD}
      then map_option (\<lambda>(taken, s).
             if taken then report_message ''button pressed - the job re-arms before it resumes'' s
             else report_message ''button pressed - job resumed'' (protocol_enqueue_realtime_command CMD_CYCLE_START s))
             (gflaser_resume_gate os co rt s)
      else Some s)"

section \<open>The lid policy\<close>

definition door_parked :: "core \<Rightarrow> sys_state \<Rightarrow> 'a ctl_scheme \<Rightarrow> bool" where
  "door_parked co st s = (st = {SAFETY_DOOR} \<and> co_door_parked co (core_tr s) (io_tr s))"

definition cancel_job :: "os \<Rightarrow> core \<Rightarrow> 'a ctl_scheme \<Rightarrow> 'a ctl_scheme" where
  "cancel_job os co s =
     (let s = gflaser_disarm os co s;
          why = (if gfsw_bit_set (sw_raw s) SW_BIT_INTERLOCK \<and> gfsw_bit_set (sw_raw s) SW_BIT_DOORS
                 then ''interlock open'' else ''lid opened'');
          s = report_message (why @ '' - job canceled'' @
                (if have_job_start s then '', returning to the job start'' else [])) s;
          s = s\<lparr>door_hidden := True, cancel_state := Cancel_WaitDrain\<rparr>;
          (now, s) = wall_s os s
      in s\<lparr>park_at := now\<rparr>)"

definition send_reset :: "os \<Rightarrow> 'a ctl_scheme \<Rightarrow> 'a ctl_scheme" where
  "send_reset os s =
     (let (now, s) = wall_s os (s\<lparr>cancel_state := Cancel_ResetSent\<rparr>)
      in protocol_enqueue_realtime_command CMD_RESET (s\<lparr>park_at := now\<rparr>))"

definition cancel_end :: "'a ctl_scheme \<Rightarrow> 'a ctl_scheme" where
  "cancel_end s = s\<lparr>cancel_state := Cancel_None, door_hidden := False\<rparr>"

text \<open>\<open>printf(\"%.3f\")\<close> of a value that is exact in thousandths or not: to the nearest, ties to even.\<close>

definition round_even :: "rat \<Rightarrow> int" where
  "round_even x =
     (let f = \<lfloor>x\<rfloor>; d = x - of_int f
      in if d < 1 / 2 then f else if d > 1 / 2 then f + 1 else if even f then f else f + 1)"

definition fmt3 :: "rat \<Rightarrow> string" where
  "fmt3 x =
     (let n = nat (round_even (\<bar>x\<bar> * 1000)); frac = utoa (n mod 1000)
      in (if x < 0 then ''-'' else []) @ utoa (n div 1000) @ ''.'' @ replicate (3 - length frac) (CHR ''0'') @ frac)"

definition park_line :: "rat \<times> rat \<times> rat \<Rightarrow> string" where
  "park_line p =
     (case p of (x, y, z) \<Rightarrow> take 63 (''G53G0X'' @ fmt3 x @ ''Y'' @ fmt3 y @ ''Z'' @ fmt3 z))"

definition enqueue_gcode :: "core \<Rightarrow> string \<Rightarrow> 'a ctl_scheme \<Rightarrow> bool \<times> 'a ctl_scheme" where
  "enqueue_gcode co cmd s = (let ok = co_enqueue_ok co (core_tr s) cmd in (ok, core_emit (Gcode cmd ok) s))"

definition cancel_wait_drain :: "os \<Rightarrow> sys_state \<Rightarrow> 'a ctl_scheme \<Rightarrow> 'a ctl_scheme" where
  "cancel_wait_drain os st s =
     (let (idle, s) = gf_stream_kernel_idle os s in
      if idle \<or> st \<noteq> {SAFETY_DOOR} then send_reset os s
      else let (now, s) = wall_s os s in
        if now - park_at s > DRAIN_WAIT_S then send_reset os s else s)"

definition cancel_reset_sent :: "os \<Rightarrow> core \<Rightarrow> sys_state \<Rightarrow> 'a ctl_scheme \<Rightarrow> 'a ctl_scheme" where
  "cancel_reset_sent os co st s =
     (if reset_pending co s \<or> st \<noteq> STATE_IDLE
      then if in_state st {ALARM, ESTOP} then cancel_end s else s
      else if \<not> have_job_start s then cancel_end s
      else let (queued, s) = enqueue_gcode co (park_line (job_start s)) s;
               (now, s) = wall_s os s
           in if queued then s\<lparr>cancel_state := Cancel_ParkQueued, park_at := now, park_saw_cycle := False\<rparr>
              else if now - park_at s > PARK_ENQUEUE_RETRY_S
              then cancel_end (report_message ''return to the job start could not be queued'' s)
              else s)"

definition cancel_park_queued :: "os \<Rightarrow> sys_state \<Rightarrow> 'a ctl_scheme \<Rightarrow> 'a ctl_scheme" where
  "cancel_park_queued os st s =
     (if st = {CYCLE} then s\<lparr>park_saw_cycle := True\<rparr>
      else if in_state st {ALARM, ESTOP} then cancel_end s
      else if st = STATE_IDLE
      then if park_saw_cycle s then cancel_end (report_message ''returned to the job start'' s)
           else let (now, s) = wall_s os s in
             if now - park_at s > PARK_ZERO_LENGTH_S
             then cancel_end (report_message ''returned to the job start'' s) else s
      else s)"

definition cancel_none :: "os \<Rightarrow> core \<Rightarrow> sys_state \<Rightarrow> 'a ctl_scheme \<Rightarrow> 'a ctl_scheme" where
  "cancel_none os co st s =
     (if door_parked co st s
      then if hold_seen s then s
           else if lid_cancels os s then cancel_job os co s else s\<lparr>hold_seen := True\<rparr>
      else s\<lparr>hold_seen := False\<rparr>)"

definition cancel_poll :: "os \<Rightarrow> core \<Rightarrow> sys_state \<Rightarrow> 'a ctl_scheme \<Rightarrow> 'a ctl_scheme" where
  "cancel_poll os co st s =
     (case cancel_state s of
        Cancel_None \<Rightarrow> cancel_none os co st s
      | Cancel_WaitDrain \<Rightarrow> cancel_wait_drain os st s
      | Cancel_ResetSent \<Rightarrow> cancel_reset_sent os co st s
      | Cancel_ParkQueued \<Rightarrow> cancel_park_queued os st s)"

section \<open>The poll\<close>

definition interrupt_callback :: "signals \<Rightarrow> 'a ctl_scheme \<Rightarrow> 'a ctl_scheme" where
  "interrupt_callback sg s = core_emit (Signals sg) s"

definition deliver :: "core \<Rightarrow> signals \<Rightarrow> 'a ctl_scheme \<Rightarrow> 'a ctl_scheme" where
  "deliver co now s =
     (let (told, on, off) = gfsw_edges (visible_signals co now s) (delivered s);
          s = s\<lparr>delivered := told\<rparr>;
          s = (if any_signal on then interrupt_callback on s else s)
      in if any_signal off then interrupt_callback off s else s)"

definition gfsw_poll :: "os \<Rightarrow> core \<Rightarrow> 'a rt \<Rightarrow> 'a ctl_scheme \<Rightarrow> 'a ctl_scheme option" where
  "gfsw_poll os co rt s =
     (let st = state_get co s in
      if \<not> gfsw_available s then Some s
      else let (r, s) = read_signals os co s in
        case r of
          None \<Rightarrow> Some (cancel_poll os co st s)
        | Some now \<Rightarrow>
            (let s = s\<lparr>sw_state := now\<rparr>;
                 button = gfsw_bit_set (sw_raw s) SW_BIT_BUTTON
             in map_option (\<lambda>s. cancel_poll os co st (deliver co now (s\<lparr>button_prev := button\<rparr>)))
                  (if button \<and> \<not> button_prev s then button_edge os co rt st s else Some s)))"

end
