(* ===== verification/Ctl_Inv.thy ===== *)
theory Ctl_Inv
  imports Switches_Poll
begin

text \<open>
  The invariant of the controller modules and what every operation keeps of it. The
  fields it speaks of are collected in \<open>view\<close>, so that an operation that touches none
  of them is dealt with by one equation; the equations are the collection of simp rules
  that the later proofs run on.
\<close>

definition view :: "'a ctl_scheme \<Rightarrow> (bool \<times> bool \<times> bool) \<times> (bool \<times> bool) \<times> (bool \<times> cancel) \<times> dose_curve \<times> rat" where
  "view s = ((laser_ok s, laser_armed s, fire_gate s), (rep_armed s, laser_on_window s),
             (door_hidden s, cancel_state s), curve s, corner_gamma s)"

text \<open>
  The window is open for the stream exactly when it is open here, and the fire gate
  only then; the deposit for the reporter carries the window as it is; the door is
  hidden exactly while a cancel is under way; the dose curve is a curve, and the
  rolloff exponent is in its range.
\<close>

definition ctl_ok :: "'a ctl_scheme \<Rightarrow> bool" where
  "ctl_ok s \<longleftrightarrow> laser_armed s = laser_ok s \<and> (fire_gate s \<longrightarrow> laser_ok s) \<and>
     rep_armed s = laser_on_window s \<and> (door_hidden s \<longleftrightarrow> cancel_state s \<noteq> Cancel_None) \<and>
     curve_ok (curve s) \<and> 1 / 4 \<le> corner_gamma s \<and> corner_gamma s \<le> 4"

lemma ctl_ok_view: "view s = view s' \<Longrightarrow> ctl_ok s = ctl_ok s'"
  by (simp add: view_def ctl_ok_def)

section \<open>Operations that leave the view alone\<close>

lemma core_emit_sel [simp]:
  "view (core_emit e s) = view s" "core_tr (core_emit e s) = e # core_tr s" "laser_ok (core_emit e s) = laser_ok s"
  "io_tr (core_emit e s) = io_tr s" "latch_locked_by_us (core_emit e s) = latch_locked_by_us s"
  "latch_fail_reported (core_emit e s) = latch_fail_reported s" "cancel_state (core_emit e s) = cancel_state s"
  by (simp_all add: core_emit_def view_def)

lemma core_call_view [simp]:
  "view (report_message m s) = view s" "view (protocol_enqueue_realtime_command c s) = view s"
  "view (system_raise_alarm s) = view s" "view (button_led v s) = view s" "view (refuse m s) = view s"
  "view (warn m s) = view s" "view (report_model m s) = view s" "view (interrupt_callback sg s) = view s"
  by (simp_all add: report_message_def protocol_enqueue_realtime_command_def system_raise_alarm_def
       button_led_def refuse_def warn_def report_model_def interrupt_callback_def)

lemma io_view [simp]:
  "view (snd (wall_s os s)) = view s" "view (snd (gfio_rd_attr os a n s)) = view s" "view (wr_attr os a v s) = view s"
  "view (snd (mono_ms os s)) = view s"
  by (simp_all add: view_def frame_simps mono_ms_def Let_def)

lemma cooling_view [simp]:
  "view (snd (verdict_fresh os s)) = view s" "view (snd (gfcool_verdict_fire_ok os s)) = view s"
  "view (snd (gfcool_fire_ok os s)) = view s" "view (snd (gfcool_run_ack os s)) = view s"
  by (simp_all add: verdict_fresh_def gfcool_verdict_fire_ok_def gfcool_fire_ok_def gfcool_run_ack_def
       Let_def case_prod_beta)

lemma switch_view [simp]:
  "view (snd (gfsw_read_raw os co s)) = view s" "view (snd (arm_switches os co s)) = view s"
  "view (gfsw_button_consumed s) = view s"
  by (simp_all add: gfsw_read_raw_def arm_switches_def gfsw_button_consumed_def Let_def case_prod_beta)
     (simp add: view_def)

lemma latch_lock_ex:
  "\<exists>t e l r f g. snd (latch_lock os b s) = s\<lparr>io_tr := t, io_errno := e, latch_locked_by_us := l,
      latch_fail_reported := r, failed := f, fault_flag := g\<rparr>"
proof -
  obtain ok s' where w: "gf_stream_laser_latch os b s = (ok, s')" by fastforce
  obtain t e r f g where "s' = s\<lparr>io_tr := t, io_errno := e,
      latch_locked_by_us := (if ok then b else latch_locked_by_us s),
      latch_fail_reported := r, failed := f, fault_flag := g\<rparr>"
    by (rule gf_stream_laser_latch_frame [OF w])
  then show ?thesis unfolding latch_lock_def w snd_conv by blast
qed

lemma latch_lock_sel [simp]:
  "view (snd (latch_lock os b s)) = view s" "core_tr (snd (latch_lock os b s)) = core_tr s"
  "laser_ok (snd (latch_lock os b s)) = laser_ok s" "armed_client_gen (snd (latch_lock os b s)) = armed_client_gen s"
proof -
  obtain t e l r f g where x: "snd (latch_lock os b s) = s\<lparr>io_tr := t, io_errno := e, latch_locked_by_us := l,
      latch_fail_reported := r, failed := f, fault_flag := g\<rparr>" using latch_lock_ex by blast
  show "view (snd (latch_lock os b s)) = view s" "core_tr (snd (latch_lock os b s)) = core_tr s"
    "laser_ok (snd (latch_lock os b s)) = laser_ok s" "armed_client_gen (snd (latch_lock os b s)) = armed_client_gen s"
    unfolding x by (simp_all add: view_def)
qed

lemma stream_laser_view [simp]: "view (gf_stream_laser os p f s) = view s"
  by (simp add: view_def gf_stream_laser_def laser_event_locked_def clamp_locked_def laser_queue_def
       lev_merge_def lev_push_def frame_simps Let_def case_prod_beta)

lemma stream_jog_view [simp]: "view (gf_stream_jog os j s) = view s"
  by (simp add: view_def gf_stream_jog_def laser_event_locked_def clamp_locked_def laser_queue_def
       lev_merge_def lev_push_def frame_simps Let_def case_prod_beta)

lemma stream_model_view [simp]: "view (gf_stream_laser_model p m s) = view s"
  by (simp add: view_def gf_stream_laser_model_def dither_reset_def Let_def)

lemma kernel_idle_view [simp]: "view (snd (gf_stream_kernel_idle os s)) = view s"
  by (simp add: gf_stream_kernel_idle_def Let_def case_prod_beta)

lemma ctl_ok_simps [simp]:
  "ctl_ok (report_message m s) = ctl_ok s" "ctl_ok (protocol_enqueue_realtime_command c s) = ctl_ok s"
  "ctl_ok (system_raise_alarm s) = ctl_ok s" "ctl_ok (button_led lv s) = ctl_ok s" "ctl_ok (refuse m s) = ctl_ok s"
  "ctl_ok (warn m s) = ctl_ok s" "ctl_ok (report_model m s) = ctl_ok s" "ctl_ok (interrupt_callback sg s) = ctl_ok s"
  "ctl_ok (core_emit e s) = ctl_ok s" "ctl_ok (snd (wall_s os s)) = ctl_ok s"
  "ctl_ok (snd (gfio_rd_attr os a n s)) = ctl_ok s" "ctl_ok (wr_attr os a v s) = ctl_ok s" "ctl_ok (snd (mono_ms os s)) = ctl_ok s"
  "ctl_ok (snd (verdict_fresh os s)) = ctl_ok s" "ctl_ok (snd (gfcool_verdict_fire_ok os s)) = ctl_ok s"
  "ctl_ok (snd (gfcool_fire_ok os s)) = ctl_ok s" "ctl_ok (snd (gfcool_run_ack os s)) = ctl_ok s"
  "ctl_ok (snd (gfsw_read_raw os co s)) = ctl_ok s" "ctl_ok (snd (arm_switches os co s)) = ctl_ok s"
  "ctl_ok (gfsw_button_consumed s) = ctl_ok s" "ctl_ok (snd (latch_lock os b s)) = ctl_ok s"
  "ctl_ok (gf_stream_laser os p f s) = ctl_ok s" "ctl_ok (gf_stream_jog os j s) = ctl_ok s"
  "ctl_ok (gf_stream_laser_model pt mt s) = ctl_ok s" "ctl_ok (snd (gf_stream_kernel_idle os s)) = ctl_ok s"
  by (rule ctl_ok_view; simp)+

text \<open>The fields outside the view.\<close>

lemma ctl_ok_fields [simp]:
  "ctl_ok (s\<lparr>sw_state := x0\<rparr>) = ctl_ok s" "ctl_ok (s\<lparr>sw_raw := x1\<rparr>) = ctl_ok s" "ctl_ok (s\<lparr>delivered := x2\<rparr>) = ctl_ok s"
  "ctl_ok (s\<lparr>button_prev := x3\<rparr>) = ctl_ok s" "ctl_ok (s\<lparr>park_at := x4\<rparr>) = ctl_ok s" "ctl_ok (s\<lparr>park_saw_cycle := x5\<rparr>) = ctl_ok s"
  "ctl_ok (s\<lparr>hold_seen := x6\<rparr>) = ctl_ok s" "ctl_ok (s\<lparr>have_job_start := x7\<rparr>) = ctl_ok s" "ctl_ok (s\<lparr>job_start := x8\<rparr>) = ctl_ok s"
  "ctl_ok (s\<lparr>job_active := x9\<rparr>) = ctl_ok s" "ctl_ok (s\<lparr>prev_state := x10\<rparr>) = ctl_ok s" "ctl_ok (s\<lparr>v_hold := x11\<rparr>) = ctl_ok s"
  "ctl_ok (s\<lparr>v_resume_ok := x12\<rparr>) = ctl_ok s" "ctl_ok (s\<lparr>v_fire_ok := x13\<rparr>) = ctl_ok s" "ctl_ok (s\<lparr>v_armed := x14\<rparr>) = ctl_ok s"
  "ctl_ok (s\<lparr>v_reason := x15\<rparr>) = ctl_ok s" "ctl_ok (s\<lparr>v_name := x16\<rparr>) = ctl_ok s" "ctl_ok (s\<lparr>v_fresh_until_ms := x17\<rparr>) = ctl_ok s"
  "ctl_ok (s\<lparr>v_reason_shown := x18\<rparr>) = ctl_ok s" "ctl_ok (s\<lparr>pause_said := x19\<rparr>) = ctl_ok s" "ctl_ok (s\<lparr>decel_lit := x20\<rparr>) = ctl_ok s"
  "ctl_ok (s\<lparr>hold_ours := x21\<rparr>) = ctl_ok s" "ctl_ok (s\<lparr>rehold_said := x22\<rparr>) = ctl_ok s" "ctl_ok (s\<lparr>jog_warned := x23\<rparr>) = ctl_ok s"
  "ctl_ok (s\<lparr>fallback_done := x24\<rparr>) = ctl_ok s" "ctl_ok (s\<lparr>stale_warned := x25\<rparr>) = ctl_ok s" "ctl_ok (s\<lparr>next_verdict_ms := x26\<rparr>) = ctl_ok s"
  "ctl_ok (s\<lparr>was_run := x27\<rparr>) = ctl_ok s" "ctl_ok (s\<lparr>cur_state := x28\<rparr>) = ctl_ok s" "ctl_ok (s\<lparr>spindle_pwm := x29\<rparr>) = ctl_ok s"
  "ctl_ok (s\<lparr>hal_spindle := x30\<rparr>) = ctl_ok s" "ctl_ok (s\<lparr>compute_set := x31\<rparr>) = ctl_ok s" "ctl_ok (s\<lparr>disarm_at := x32\<rparr>) = ctl_ok s"
  "ctl_ok (s\<lparr>armed_client_gen := x33\<rparr>) = ctl_ok s" "ctl_ok (s\<lparr>disarm_request := x34\<rparr>) = ctl_ok s" "ctl_ok (s\<lparr>arming := x35\<rparr>) = ctl_ok s"
  "ctl_ok (s\<lparr>rearm_pending := x36\<rparr>) = ctl_ok s" "ctl_ok (s\<lparr>rearm_deadline := x37\<rparr>) = ctl_ok s" "ctl_ok (s\<lparr>rearm_client_gen := x38\<rparr>) = ctl_ok s"
  "ctl_ok (s\<lparr>rearm_unreadable := x39\<rparr>) = ctl_ok s" "ctl_ok (s\<lparr>rearm_released := x40\<rparr>) = ctl_ok s" "ctl_ok (s\<lparr>disarmed_at := x41\<rparr>) = ctl_ok s"
  "ctl_ok (s\<lparr>fail_alarm_pending := x42\<rparr>) = ctl_ok s" "ctl_ok (s\<lparr>next_emission_check := x43\<rparr>) = ctl_ok s" "ctl_ok (s\<lparr>cur_model := x44\<rparr>) = ctl_ok s"
  "ctl_ok (s\<lparr>core_jogging := x45\<rparr>) = ctl_ok s" "ctl_ok (s\<lparr>rate_param := x46\<rparr>) = ctl_ok s" "ctl_ok (s\<lparr>rate_ratio := x47\<rparr>) = ctl_ok s"
  "ctl_ok (s\<lparr>suppressed := x48\<rparr>) = ctl_ok s" "ctl_ok (s\<lparr>suppress_shown := x49\<rparr>) = ctl_ok s" "ctl_ok (s\<lparr>suppress_last := x50\<rparr>) = ctl_ok s"
  "ctl_ok (s\<lparr>pwm_min_value := x51\<rparr>) = ctl_ok s" "ctl_ok (s\<lparr>unreadable_since := x52\<rparr>) = ctl_ok s"
  by (simp_all add: ctl_ok_def)

section \<open>Operations that change it\<close>

lemma report_now_ok: "laser_armed s = laser_ok s \<and> (fire_gate s \<longrightarrow> laser_ok s) \<and>
     (door_hidden s \<longleftrightarrow> cancel_state s \<noteq> Cancel_None) \<and> curve_ok (curve s) \<and>
     1 / 4 \<le> corner_gamma s \<and> corner_gamma s \<le> 4 \<Longrightarrow> ctl_ok (report_now os co s)"
  by (simp add: ctl_ok_def report_now_def mono_ms_def frame_simps Let_def)

lemma gfcool_laser_armed_ok [simp]: "ctl_ok s \<Longrightarrow> ctl_ok (gfcool_laser_armed os co b s)"
  by (auto simp: gfcool_laser_armed_def Let_def intro!: report_now_ok) (auto simp: ctl_ok_def)

lemma gfcool_coolant_set_ok [simp]: "ctl_ok s \<Longrightarrow> ctl_ok (gfcool_coolant_set os co c s)"
  by (auto simp: gfcool_coolant_set_def Let_def intro!: report_now_ok) (auto simp: ctl_ok_def)

lemma arm_back_out_ok [simp]: "ctl_ok s \<Longrightarrow> ctl_ok (arm_back_out os co s)"
  by (simp add: arm_back_out_def)

lemma fire_gate_publish_ok [simp]: "ctl_ok s \<Longrightarrow> ctl_ok (fire_gate_publish os s)"
  using ctl_ok_simps(15) [of os s] cooling_view(2) [of os s]
  by (auto simp: fire_gate_publish_def gf_stream_fire_gate_def case_prod_beta Let_def ctl_ok_def view_def)

lemma gflaser_disarm_ok [simp]: "ctl_ok s \<Longrightarrow> ctl_ok (gflaser_disarm os co s)"
proof -
  assume "ctl_ok s"
  then have "ctl_ok (gf_stream_fire_gate False (gf_stream_laser_arm False (s\<lparr>laser_ok := False\<rparr>)))"
    by (simp add: ctl_ok_def gf_stream_fire_gate_def gf_stream_laser_arm_def)
  then show ?thesis by (simp add: gflaser_disarm_def Let_def case_prod_beta)
qed

lemma curve_load_ok [simp]: "ctl_ok s \<Longrightarrow> ctl_ok (curve_load os s)"
  using loaded_curve_ok by (simp add: curve_load_def ctl_ok_def)

lemma gamma_load_ok [simp]: "ctl_ok s \<Longrightarrow> ctl_ok (gamma_load os s)"
  by (cases "gfio_conf_read_float os ''laser_corner_gamma'' (Fin GAMMA_DEFAULT) s")
     (auto simp: gamma_load_def Let_def GAMMA_DEFAULT_def fl_le_def ctl_ok_def)

lemma spindleConfig_ok [simp]: "ctl_ok s \<Longrightarrow> ctl_ok (snd (spindleConfig os co sp s))"
  by (simp add: spindleConfig_def Let_def)

lemma apply_model_ok [simp]: "ctl_ok s \<Longrightarrow> ctl_ok (apply_model os co m s)"
  by (simp add: apply_model_def Let_def)

lemma window_opened_ok [simp]: "ctl_ok s \<Longrightarrow> ctl_ok (gf_stream_laser_arm True (s\<lparr>disarm_request := r, laser_ok := True, disarm_at := d, armed_client_gen := g\<rparr>))"
  by (simp add: ctl_ok_def gf_stream_laser_arm_def)

lemma window_open_ok [simp]: "ctl_ok s \<Longrightarrow> ctl_ok (window_open os co s)"
  by (simp add: window_open_def Let_def)

lemma gates_ok [simp]:
  "ctl_ok (snd (head_present os s)) = ctl_ok s" "ctl_ok (snd (arm_gates os s)) = ctl_ok s"
  by (simp_all add: head_present_def arm_gates_def Let_def case_prod_beta)

lemma arm_unlock_ok [simp]: "ctl_ok s \<Longrightarrow> ctl_ok (snd (arm_unlock os co s))"
  by (simp add: arm_unlock_def Let_def case_prod_beta)

lemma arm_final_ok [simp]: "ctl_ok s \<Longrightarrow> ctl_ok (snd (arm_final os co s))"
  by (simp add: arm_final_def Let_def case_prod_beta)

end
