(* ===== verification/Ctl_System.thy ===== *)
theory Ctl_System
  imports Ctl_Inv
begin

text \<open>
  What the operations of the controller that can wait keep of the invariant. A pump
  is any function that keeps it; a result that never comes keeps it too, so the
  statements are about every result there is.
\<close>

definition rt_keeps :: "('a ctl_scheme \<Rightarrow> bool) \<Rightarrow> 'a rt \<Rightarrow> bool" where
  "rt_keeps P rt \<longleftrightarrow> (\<forall>s. P s \<longrightarrow> P (snd (rt s)))"

abbreviation res_ok :: "('b \<times> 'a ctl_scheme) option \<Rightarrow> bool" where
  "res_ok \<equiv> pred_option (\<lambda>r. ctl_ok (snd r))"

lemma pump_ok: "rt_keeps ctl_ok rt \<Longrightarrow> ctl_ok s \<Longrightarrow> ctl_ok (snd (pump rt s))"
  by (simp add: pump_def rt_keeps_def Let_def case_prod_beta)

section \<open>The waits\<close>

lemma ack_turn_ok:
  assumes "rt_keeps ctl_ok rt" "ctl_ok s"
  shows "case_sum (\<lambda>r. ctl_ok (snd r)) ctl_ok (ack_turn os co rt d s)"
  using assms(2) pump_ok [OF assms(1)] by (simp add: ack_turn_def Let_def case_prod_beta)

lemma ack_wait_ok:
  assumes "rt_keeps ctl_ok rt" "ctl_ok s"
  shows "res_ok (ack_wait os co rt d s)"
proof (cases "ack_wait os co rt d s")
  case (Some r)
  have "ctl_ok (snd r)"
  proof (rule ack_wait_rule [OF Some, where P = ctl_ok and Q = "\<lambda>r. ctl_ok (snd r)"])
    show "ctl_ok s" by fact
    show "ctl_ok s \<Longrightarrow> ack_turn os co rt d s = Inl r \<Longrightarrow> ctl_ok (snd r)" for s r
      using ack_turn_ok [OF assms(1), of s os co d] by simp
    show "ctl_ok s \<Longrightarrow> ack_turn os co rt d s = Inr s' \<Longrightarrow> ctl_ok s'" for s s'
      using ack_turn_ok [OF assms(1), of s os co d] by simp
  qed
  then show ?thesis using Some by simp
qed simp

lemma arm_complete_ok:
  assumes "rt_keeps ctl_ok rt" "ctl_ok s"
  shows "res_ok (arm_complete os co rt s)"
  using ack_wait_ok [OF assms(1), of "snd (wall_s os s)" os co "fst (wall_s os s) + ack_budget_s os s"] assms(2)
  by (cases "ack_wait os co rt (fst (wall_s os s) + ack_budget_s os s) (snd (wall_s os s))")
     (simp_all add: arm_complete_def Let_def case_prod_beta)

lemma arm_turn_ok:
  assumes "rt_keeps ctl_ok rt" "ctl_ok s"
  shows "case_sum (\<lambda>r. ctl_ok (snd r)) (\<lambda>(a, b, s). ctl_ok s) (arm_turn os co rt d g rel un s)"
  using assms(2) pump_ok [OF assms(1)]
  by (simp add: arm_turn_def arm_cancel_def arm_idle_def Let_def case_prod_beta split: arm_sw.split)

lemma arm_wait_ok:
  assumes "rt_keeps ctl_ok rt" "ctl_ok s"
  shows "res_ok (arm_wait os co rt d g rel un s)"
proof (cases "arm_wait os co rt d g rel un s")
  case (Some r)
  have "ctl_ok (snd r)"
  proof (rule arm_wait_rule [OF Some, where P = "\<lambda>_ _. ctl_ok" and Q = "\<lambda>r. ctl_ok (snd r)"])
    show "ctl_ok s" by fact
    show "ctl_ok s \<Longrightarrow> arm_turn os co rt d g rel un s = Inl r \<Longrightarrow> ctl_ok (snd r)" for rel un s r
      using arm_turn_ok [OF assms(1), of s os co d g rel un] by simp
    show "ctl_ok s \<Longrightarrow> arm_turn os co rt d g rel un s = Inr (rel', un', s') \<Longrightarrow> ctl_ok s'" for rel un s rel' un' s'
      using arm_turn_ok [OF assms(1), of s os co d g rel un] by simp
  qed
  then show ?thesis using Some by simp
qed simp

lemma arm_button_ok:
  assumes "rt_keeps ctl_ok rt" "ctl_ok s"
  shows "res_ok (arm_button os co rt s)"
proof -
  define s1 where "s1 = report_message ''press the button to start the laser job'' (button_led 255 (snd (wall_s os s)))"
  have "ctl_ok (s1\<lparr>arming := True\<rparr>)" using assms(2) by (simp add: s1_def)
  from arm_wait_ok [OF assms(1) this, of os co "fst (wall_s os s) + button_timeout_s os s" "serial_client_generation co s1" False 0]
  show ?thesis unfolding arm_button_def Let_def case_prod_beta s1_def [symmetric]
    by (cases "arm_wait os co rt (fst (wall_s os s) + button_timeout_s os s) (serial_client_generation co s1) False 0
          (s1\<lparr>arming := True\<rparr>)") simp_all
qed

lemma gflaser_arm_ok:
  assumes "rt_keeps ctl_ok rt" "ctl_ok s"
  shows "res_ok (gflaser_arm os co rt s)"
proof -
  define s1 where "s1 = snd (arm_gates os s)"
  define s2 where "s2 = snd (arm_unlock os co (gfcool_laser_armed os co True s1))"
  have s: "ctl_ok s1" "ctl_ok s2" using assms(2) by (simp_all add: s1_def s2_def)
  have c: "res_ok (arm_complete os co rt u)" if "ctl_ok u" for u by (rule arm_complete_ok [OF assms(1) that])
  show ?thesis using arm_button_ok [OF assms(1) s(2), of os co] s c
    unfolding gflaser_arm_def Let_def case_prod_beta s1_def [symmetric] s2_def [symmetric]
    by (cases "arm_button os co rt s2") simp_all
qed

section \<open>The re-arm\<close>

lemma rearm_parts_ok [simp]:
  "ctl_ok s \<Longrightarrow> ctl_ok (rearm_end os co b s)" "ctl_ok s \<Longrightarrow> ctl_ok (rearm_begin os co s)"
  by (simp_all add: rearm_end_def rearm_begin_def Let_def case_prod_beta)

lemma rearm_waits_ok [simp]:
  "ctl_ok s \<Longrightarrow> ctl_ok (rearm_timeout os co s)" "ctl_ok s \<Longrightarrow> ctl_ok (rearm_unread os co s)"
  by (simp_all add: rearm_timeout_def rearm_unread_def Let_def case_prod_beta)

lemma gflaser_resume_gate_ok:
  assumes "rt_keeps ctl_ok rt" "ctl_ok s"
  shows "res_ok (gflaser_resume_gate os co rt s)"
proof -
  define s1 where "s1 = snd (arm_gates os s)"
  define s2 where "s2 = snd (arm_unlock os co (gfcool_laser_armed os co True s1))"
  have s: "ctl_ok s1" "ctl_ok s2" using assms(2) by (simp_all add: s1_def s2_def)
  show ?thesis using arm_complete_ok [OF assms(1) s(2), of os co] s assms(2)
    unfolding gflaser_resume_gate_def Let_def case_prod_beta s1_def [symmetric] s2_def [symmetric]
    by (simp add: option.pred_map comp_def)
qed

lemma rearm_press_ok:
  assumes "rt_keeps ctl_ok rt" "ctl_ok s"
  shows "pred_option ctl_ok (rearm_press os co rt s)"
  using arm_complete_ok [OF assms(1), of "gfsw_button_consumed s" os co] assms(2)
  by (cases "arm_complete os co rt (gfsw_button_consumed s)") (simp_all add: rearm_press_def Let_def case_prod_beta)

lemma rearm_poll_ok:
  assumes "rt_keeps ctl_ok rt" "ctl_ok s"
  shows "pred_option ctl_ok (rearm_poll os co rt s)"
  using assms(2) rearm_press_ok [OF assms(1)]
  by (simp add: rearm_poll_def Let_def case_prod_beta split: arm_sw.split)

section \<open>The poll and the spindle\<close>

lemma gflaser_verdict_fail_ok [simp]: "ctl_ok s \<Longrightarrow> ctl_ok (gflaser_verdict_fail os co n s)"
  by (simp add: gflaser_verdict_fail_def Let_def)

lemma relock_ready_ok [simp]: "ctl_ok (snd (relock_ready os s)) = ctl_ok s"
  by (simp add: relock_ready_def Let_def case_prod_beta split: option.split)

lemma poll_parts_ok [simp]:
  "ctl_ok s \<Longrightarrow> ctl_ok (poll_fail_alarm co s)" "ctl_ok s \<Longrightarrow> ctl_ok (poll_suppress os s)"
  "ctl_ok s \<Longrightarrow> ctl_ok (poll_emission os s)" "ctl_ok s \<Longrightarrow> ctl_ok (poll_grace os co st s)"
  by (simp_all add: poll_fail_alarm_def poll_suppress_def poll_emission_def poll_grace_def Let_def case_prod_beta
        split: option.split)

lemma poll_window_ok [simp]: "ctl_ok s \<Longrightarrow> ctl_ok (poll_window os co s)"
  by (simp add: poll_window_def Let_def case_prod_beta)

lemma gflaser_poll_ok:
  assumes "rt_keeps ctl_ok rt" "ctl_ok s"
  shows "pred_option ctl_ok (gflaser_poll os co rt s)"
proof -
  have "ctl_ok (poll_emission os (poll_suppress os (poll_fail_alarm co (fire_gate_publish os s))))"
    using assms(2) by simp
  from rearm_poll_ok [OF assms(1) this, of os co] show ?thesis
    unfolding gflaser_poll_def Let_def option.pred_map by (rule option.pred_mono_strong) simp
qed

lemma spindleUpdatePWM_ok [simp]: "ctl_ok (spindleUpdatePWM os p s) = ctl_ok s"
  by (simp add: spindleUpdatePWM_def Let_def case_prod_beta)

lemma set_state_push_ok [simp]: "ctl_ok (set_state_push os co hp st rpm s) = ctl_ok s"
  by (simp add: set_state_push_def Let_def)

lemma spindleSetState_ok:
  assumes "rt_keeps ctl_ok rt" "ctl_ok s"
  shows "pred_option ctl_ok (spindleSetState os co rt hp st rpm s)"
  using gflaser_arm_ok [OF assms, of os co] assms(2)
  by (simp add: spindleSetState_def set_state_arm_def option.pred_map comp_def case_prod_beta)

section \<open>The cooling poll\<close>

lemma verdict_read_ok [simp]: "ctl_ok (verdict_read os co s) = ctl_ok s"
  by (simp add: verdict_read_def Let_def case_prod_beta split: option.split)

lemma cool_parts_ok [simp]:
  "ctl_ok (hold_take b s) = ctl_ok s" "ctl_ok (decel_track co st s) = ctl_ok s" "ctl_ok (fallback_fans os s) = ctl_ok s"
  "ctl_ok (cool_restored s) = ctl_ok s" "ctl_ok (cool_reason b s) = ctl_ok s"
  by (simp_all add: hold_take_def decel_track_def fallback_fans_def cool_restored_def cool_reason_def Let_def)

lemma cool_tiers_ok [simp]:
  "ctl_ok (cool_hold st s) = ctl_ok s" "ctl_ok (cool_stale os st s) = ctl_ok s" "ctl_ok (cool_read os co now b s) = ctl_ok s"
  "ctl_ok s \<Longrightarrow> ctl_ok (cool_tiers os co f bl a s)"
  by (simp_all add: cool_hold_def cool_stale_def cool_read_def cool_tiers_def Let_def)

lemma cool_release_ok:
  assumes "rt_keeps ctl_ok rt" "ctl_ok s"
  shows "pred_option ctl_ok (cool_release os co rt st s)"
proof -
  define s1 where "s1 = report_message ''cooling verdict clean - resuming''
    (s\<lparr>jog_warned := False, rehold_said := False, hold_ours := False\<rparr>)"
  have "ctl_ok s1" using assms(2) by (simp add: s1_def)
  from gflaser_resume_gate_ok [OF assms(1) this, of os co] show ?thesis
    using assms(2) unfolding cool_release_def Let_def s1_def [symmetric]
    by (simp add: option.pred_map comp_def case_prod_beta)
qed

lemma cool_enforce_ok:
  assumes "rt_keeps ctl_ok rt" "ctl_ok s"
  shows "pred_option ctl_ok (cool_enforce os co rt b s)"
  using assms(2) cool_release_ok [OF assms(1)]
  by (simp add: cool_enforce_def cool_fresh_def Let_def case_prod_beta)

lemma report_now_keeps [simp]: "ctl_ok s \<Longrightarrow> ctl_ok (report_now os co s)"
  by (rule report_now_ok) (simp add: ctl_ok_def)

lemma gfcool_poll_ok:
  assumes "rt_keeps ctl_ok rt" "ctl_ok s"
  shows "pred_option ctl_ok (gfcool_poll os co rt s)"
proof -
  have k: "ctl_ok u \<Longrightarrow> pred_option ctl_ok (cool_enforce os co rt b u)" for b u
    by (rule cool_enforce_ok [OF assms(1)])
  show ?thesis unfolding gfcool_poll_def Let_def case_prod_beta option.pred_map
    by (rule option.pred_mono_strong [OF k]) (use assms(2) in simp_all)
qed

section \<open>The switches\<close>

lemma read_signals_ok [simp]: "ctl_ok (snd (read_signals os co s)) = ctl_ok s"
  by (simp add: read_signals_def Let_def case_prod_beta split: option.split)

lemma button_edge_ok:
  assumes "rt_keeps ctl_ok rt" "ctl_ok s"
  shows "pred_option ctl_ok (button_edge os co rt st s)"
proof -
  have "pred_option ctl_ok (map_option (\<lambda>(taken, s). if taken then report_message m s else report_message m' (protocol_enqueue_realtime_command c s))
      (gflaser_resume_gate os co rt s))" for m m' c
    unfolding option.pred_map by (rule option.pred_mono_strong [OF gflaser_resume_gate_ok [OF assms]]) auto
  then show ?thesis using assms(2) by (simp add: button_edge_def)
qed

lemma cancel_end_ok [simp]: "ctl_ok s \<Longrightarrow> ctl_ok (cancel_end s)"
  by (simp add: ctl_ok_def cancel_end_def)

lemma cancel_job_ok [simp]: "ctl_ok s \<Longrightarrow> ctl_ok (cancel_job os co s)"
proof -
  have c: "ctl_ok (u\<lparr>door_hidden := True, cancel_state := Cancel_WaitDrain\<rparr>)" if "ctl_ok u" for u
    using that by (simp add: ctl_ok_def)
  assume "ctl_ok s"
  then show ?thesis by (simp add: cancel_job_def Let_def case_prod_beta c)
qed

text \<open>From one state of a cancel to another one of it.\<close>

lemma cancel_next_ok: "ctl_ok s \<Longrightarrow> cancel_state s \<noteq> Cancel_None \<Longrightarrow> c \<noteq> Cancel_None \<Longrightarrow> ctl_ok (s\<lparr>cancel_state := c\<rparr>)"
  by (simp add: ctl_ok_def)

lemma cancel_state_io [simp]:
  "cancel_state (snd (wall_s os s)) = cancel_state s" "cancel_state (snd (gf_stream_kernel_idle os s)) = cancel_state s"
  "cancel_state (snd (enqueue_gcode co l s)) = cancel_state s" "ctl_ok (snd (enqueue_gcode co l s)) = ctl_ok s"
  by (simp_all add: frame_simps gf_stream_kernel_idle_def enqueue_gcode_def Let_def)

lemma send_reset_ok [simp]: "ctl_ok s \<Longrightarrow> cancel_state s \<noteq> Cancel_None \<Longrightarrow> ctl_ok (send_reset os s)"
  by (simp add: send_reset_def Let_def case_prod_beta cancel_next_ok)

lemma cancel_poll_ok [simp]: "ctl_ok s \<Longrightarrow> ctl_ok (cancel_poll os co st s)"
  by (cases "cancel_state s")
     (simp_all add: cancel_poll_def cancel_none_def cancel_wait_drain_def cancel_reset_sent_def cancel_park_queued_def
        Let_def case_prod_beta cancel_next_ok)

lemma deliver_ok [simp]: "ctl_ok (deliver co n s) = ctl_ok s"
  by (simp add: deliver_def Let_def case_prod_beta)

lemma gfsw_poll_ok:
  assumes "rt_keeps ctl_ok rt" "ctl_ok s"
  shows "pred_option ctl_ok (gfsw_poll os co rt s)"
proof -
  have k: "ctl_ok u \<Longrightarrow> pred_option ctl_ok (map_option (\<lambda>s. cancel_poll os co st (deliver co now (s\<lparr>button_prev := b\<rparr>)))
      (if c then button_edge os co rt st u else Some u))" for u b c now st
    unfolding option.pred_map using button_edge_ok [OF assms(1), of u os co st]
    by (auto elim!: option.pred_mono_strong)
  show ?thesis using assms(2) k unfolding gfsw_poll_def Let_def case_prod_beta by (simp split: option.split)
qed

lemma hooks_ok:
  "ctl_ok s \<Longrightarrow> ctl_ok (sw_onStateChange co (\<lambda>st s. s) st s)"
  "ctl_ok s \<Longrightarrow> (\<And>u. ctl_ok u \<Longrightarrow> ctl_ok (chain st u)) \<Longrightarrow> ctl_ok (laser_onStateChange os chain st s)"
  "ctl_ok s \<Longrightarrow> ctl_ok (laser_onProgramCompleted id b s)"
  by (simp_all add: sw_onStateChange_def laser_onStateChange_def laser_onProgramCompleted_def Let_def)

end
