(* ===== verification/Ctl_Steps.thy ===== *)
theory Ctl_Steps
  imports Ctl_System Stream_Props2
begin

text \<open>
  The controller as a system: its operations as the core and the other threads call
  them, in any order. The waits of the laser module pump the protocol, and what runs
  inside a pump are the same operations again, so the relation \<open>cstep\<close> is defined with
  itself inside: a pump is any function that takes a state to one that steps of the
  controller reach.
\<close>

text \<open>The static initial values of the three files, on a stream state.\<close>

definition ctl_of :: "gf \<Rightarrow> ctl" where
  "ctl_of g = \<lparr>io_tr = io_tr g, io_hw = io_hw g, io_errno = io_errno g, xy_released = xy_released g,
    xy_mode_cached = xy_mode_cached g, z_referenced = z_referenced g, z_env_min = z_env_min g,
    z_env_max = z_env_max g, anchor_home = anchor_home g, anchor_axes = anchor_axes g,
    anchor_source = anchor_source g, anchor_file = anchor_file g, z_spm = z_spm g,
    sys_position_z = sys_position_z g, sys_home_z = sys_home_z g, sys_env_z = sys_env_z g,
    sys_homed = sys_homed g, sys_soft_limits = sys_soft_limits g, gf_active = gf_active g,
    suspended = suspended g, gf_dev = gf_dev g, gf_fd = gf_fd g, gf_dump_fd = gf_dump_fd g,
    gf_rate = gf_rate g, gf_depth = gf_depth g, lead_s = lead_s g, min_margin = min_margin g,
    gf_ring = gf_ring g, produced = produced g, shipped = shipped g, gf_base = gf_base g,
    streaming = streaming g, kernel_running = kernel_running g, run_pending = run_pending g,
    clear_pending = clear_pending g, hold_pending = hold_pending g, hold_poll_at = hold_poll_at g,
    written = written g, run_base = run_base g, killed = killed g, kill_step = kill_step g,
    gf_steps = gf_steps g, base_steps = base_steps g, base_counts = base_counts g,
    base_valid = base_valid g, gf_zeros = gf_zeros g, gf_readback = gf_readback g,
    unplayed = unplayed g, failed = failed g, ship_t0 = ship_t0 g, clamped = clamped g,
    gf_lev = gf_lev g, lev_head = lev_head g, lev_tail = lev_tail g, cur_power = cur_power g,
    cur_fire = cur_fire g, gate_seen = gate_seen g, last_lit = last_lit g, power_sent = power_sent g,
    lev_overflow_warned = lev_overflow_warned g, dith_period = dith_period g, dith_min = dith_min g,
    dith_left = dith_left g, dith_on = dith_on g, dith_acc = dith_acc g, want_power = want_power g,
    want_fire = want_fire g, jogging = jogging g, vticks = vticks g, wall_epoch = wall_epoch g,
    period_latched = period_latched g, threads_started = threads_started g, gf_armed = gf_armed g,
    gf_quit = gf_quit g, fault_flag = fault_flag g, laser_armed = laser_armed g,
    fire_gate = fire_gate g, latch_locked_by_us = latch_locked_by_us g,
    latch_fail_reported = latch_fail_reported g, latch_log_fd = latch_log_fd g,
    stall_ms = stall_ms g, write_stall_ms = write_stall_ms g, gf_stalled = gf_stalled g,
    write_stalled = write_stalled g, shutdown_done = shutdown_done g, core_tr = [],
    cap_e_stop = False, cap_door = False, sw_fd = - 1, fake_path = None, sw_state = no_signals,
    delivered = no_signals, sw_raw = [0, 0], button_prev = False, cancel_state = Cancel_None,
    door_hidden = False, park_at = 0, park_saw_cycle = False, hold_seen = False,
    have_job_start = False, job_start = (0, 0, 0), job_active = False, prev_state = STATE_IDLE,
    verdict_file = VERDICT_FILE, coolant_reported = \<lparr>flood = False, mist = False\<rparr>,
    laser_on_window = False, was_run = False, v_fire_ok = False, v_hold = False, v_resume_ok = False,
    v_armed = False, v_fresh_until_ms = 0, v_reason = [], v_reason_shown = [], v_name = [],
    pause_said = False, decel_lit = False, hold_ours = False, rehold_said = False,
    jog_warned = False, fallback_done = False, stale_warned = False, next_report_ms = 0,
    next_verdict_ms = 0, http_port = 80, report_secret = [], rep_mode = ''idle'', rep_armed = False,
    rep_density = True, rep_seq = 0,
    cur_state = \<lparr>spindle_on = False, spindle_ccw = False\<rparr>,
    spindle_pwm = \<lparr>off_value = 0, min_value = 0, max_value = 0, pwm_rpm_min = 0\<rparr>,
    hal_spindle = False, compute_set = False, hw_active = False, laser_ok = False, disarm_at = 0,
    armed_client_gen = 0, disarm_request = False, arming = False, rearm_pending = False,
    rearm_deadline = 0, rearm_client_gen = 0, rearm_unreadable = 0, rearm_released = False,
    disarmed_at = 0, fail_alarm_pending = False, next_emission_check = 0, cur_model = Model_Density,
    core_jogging = False, rate_param = False, rate_ratio = 0, suppressed = Suppress_None,
    suppress_shown = Suppress_None, suppress_last = 0,
    curve = \<lparr>density = [], light = [], curve_name = []\<rparr>, corner_gamma = GAMMA_DEFAULT,
    pwm_min_value = Fin 0, unreadable_since = 0\<rparr>"

text \<open>The start, in the order of \<open>driver_init\<close>.\<close>

definition ctl_start :: "os \<Rightarrow> core \<Rightarrow> ctl \<Rightarrow> bool" where
  "ctl_start os co s \<longleftrightarrow>
     (\<exists>g. stream_start os g \<and> s = gfsw_init os co (gflaser_init os (gfcool_init os (ctl_of g))))"

text \<open>What the stream's own threads change: nothing of the controller, not the window and not the gate.\<close>

definition stream_only :: "ctl \<Rightarrow> ctl \<Rightarrow> bool" where
  "stream_only s s' \<longleftrightarrow> gf.more s' = gf.more s \<and> laser_armed s' = laser_armed s \<and> fire_gate s' = fire_gate s"

inductive cstep :: "os \<Rightarrow> core \<Rightarrow> ctl \<Rightarrow> ctl \<Rightarrow> bool" for os co where
  c_laser: "(\<And>u. (cstep os co)\<^sup>*\<^sup>* u (snd (rt u))) \<Longrightarrow> gflaser_poll os co rt s = Some s' \<Longrightarrow> cstep os co s s'"
| c_cool: "(\<And>u. (cstep os co)\<^sup>*\<^sup>* u (snd (rt u))) \<Longrightarrow> gfcool_poll os co rt s = Some s' \<Longrightarrow> cstep os co s s'"
| c_switch: "(\<And>u. (cstep os co)\<^sup>*\<^sup>* u (snd (rt u))) \<Longrightarrow> gfsw_poll os co rt s = Some s' \<Longrightarrow> cstep os co s s'"
| c_spindle: "(\<And>u. (cstep os co)\<^sup>*\<^sup>* u (snd (rt u))) \<Longrightarrow> spindleSetState os co rt hp st rpm s = Some s' \<Longrightarrow> cstep os co s s'"
| c_resume: "(\<And>u. (cstep os co)\<^sup>*\<^sup>* u (snd (rt u))) \<Longrightarrow> gflaser_resume_gate os co rt s = Some (b, s') \<Longrightarrow> cstep os co s s'"
| c_pwm: "cstep os co s (spindleUpdatePWM os p s)"
| c_getpwm: "cstep os co s (snd (spindleGetPWM co hp rpm s))"
| c_config: "cstep os co s (snd (spindleConfig os co sp s))"
| c_disarm: "cstep os co s (gflaser_disarm os co s)"
| c_coolant: "cstep os co s (gfcool_coolant_set os co c s)"
| c_report: "cstep os co s (snd (reporter_turn seen s))"
| c_state: "cstep os co s (laser_onStateChange os (sw_onStateChange co (\<lambda>_ s. s)) st s)"
| c_program: "cstep os co s (laser_onProgramCompleted id check s)"
| c_mcode: "cstep os co s (laser_mcodeExecute os co (\<lambda>_ s. s) m s)"
| c_core: "cstep os co s (core_emit e s)"
| c_stream: "stream_only s s' \<Longrightarrow> cstep os co s s'"

section \<open>The invariant holds in every reachable state\<close>

lemma stream_only_view: "stream_only s s' \<Longrightarrow> view s' = view s"
  by (cases s; cases s') (simp add: stream_only_def view_def)

lemma rt_steps_keep:
  assumes "\<And>u. (\<lambda>s s'. cstep os co s s' \<and> (P s \<longrightarrow> P s'))\<^sup>*\<^sup>* u (snd (rt u))"
  shows "rt_keeps P rt"
  unfolding rt_keeps_def
proof (intro allI impI)
  fix s assume "P s"
  with assms [of s] show "P (snd (rt s))" by (induction rule: rtranclp_induct) auto
qed

lemma cstep_ok: "cstep os co s s' \<Longrightarrow> ctl_ok s \<longrightarrow> ctl_ok s'"
proof (induction rule: cstep.induct)
  case (c_laser rt s s')
  have "rt_keeps ctl_ok rt" by (rule rt_steps_keep) (rule c_laser.IH)
  then show ?case using gflaser_poll_ok [of rt s os co] c_laser by simp
next
  case (c_cool rt s s')
  have "rt_keeps ctl_ok rt" by (rule rt_steps_keep) (rule c_cool.IH)
  then show ?case using gfcool_poll_ok [of rt s os co] c_cool by simp
next
  case (c_switch rt s s')
  have "rt_keeps ctl_ok rt" by (rule rt_steps_keep) (rule c_switch.IH)
  then show ?case using gfsw_poll_ok [of rt s os co] c_switch by simp
next
  case (c_spindle rt hp st rpm s s')
  have "rt_keeps ctl_ok rt" by (rule rt_steps_keep) (rule c_spindle.IH)
  then show ?case using spindleSetState_ok [of rt s os co hp st rpm] c_spindle by simp
next
  case (c_resume rt s b s')
  have "rt_keeps ctl_ok rt" by (rule rt_steps_keep) (rule c_resume.IH)
  then show ?case using gflaser_resume_gate_ok [of rt s os co] c_resume by simp
next
  case (c_state s st)
  show ?case using hooks_ok by blast
next
  case (c_stream s s')
  then show ?case using ctl_ok_view stream_only_view by blast
qed (simp_all add: hooks_ok spindleGetPWM_def reporter_turn_def laser_mcodeExecute_def Let_def)

lemma ctl_inits_ok:
  "ctl_ok s \<Longrightarrow> ctl_ok (gfcool_init os s)" "ctl_ok s \<Longrightarrow> ctl_ok (gflaser_init os s)" "ctl_ok s \<Longrightarrow> ctl_ok (gfsw_init os co s)"
proof -
  have c: "ctl_ok (u\<lparr>http_port := a\<rparr>) = ctl_ok u" "ctl_ok (u\<lparr>verdict_file := b\<rparr>) = ctl_ok u" "ctl_ok (u\<lparr>report_secret := d\<rparr>) = ctl_ok u"
    "ctl_ok (u\<lparr>next_report_ms := e\<rparr>) = ctl_ok u" "ctl_ok (u\<lparr>hw_active := f\<rparr>) = ctl_ok u" "ctl_ok (u\<lparr>sw_fd := g\<rparr>) = ctl_ok u"
    "ctl_ok (u\<lparr>fake_path := h\<rparr>) = ctl_ok u" "ctl_ok (u\<lparr>cap_e_stop := i\<rparr>) = ctl_ok u" "ctl_ok (u\<lparr>cap_door := j\<rparr>) = ctl_ok u"
    for u a b d e f g h i j by (simp_all add: ctl_ok_def)
  assume "ctl_ok s"
  then show "ctl_ok (gfcool_init os s)" "ctl_ok (gflaser_init os s)" "ctl_ok (gfsw_init os co s)"
    by (simp_all add: gfcool_init_def gflaser_init_def gfsw_init_def gfsw_open_def Let_def case_prod_beta c split: option.split)
qed

lemma ctl_start_ok: "ctl_start os co s \<Longrightarrow> ctl_ok s"
proof -
  assume "ctl_start os co s"
  then obtain g where g: "stream_start os g" and s: "s = gfsw_init os co (gflaser_init os (gfcool_init os (ctl_of g)))"
    by (auto simp: ctl_start_def)
  have "ctl_ok (ctl_of g)"
    using stream_start_facts [OF g] by (simp add: ctl_ok_def ctl_of_def start_ok_def curve_ok_def GAMMA_DEFAULT_def)
  then show ?thesis unfolding s by (intro ctl_inits_ok)
qed

interpretation ctl_sys: guarded_system "ctl_start os co" "cstep os co" ctl_ok
  by unfold_locales (auto intro: ctl_start_ok dest: cstep_ok)

end
