(* ===== verification/Laser_Props.thy ===== *)
theory Laser_Props
  imports Ctl_Steps
begin

text \<open>
  The properties of the armed window, and the bench of their witnesses: the kernel of
  the stream's bench under a core that is idle, with a lid that is closed and a
  button that goes down after the first reading.
\<close>

section \<open>The bench\<close>

definition was_read :: "core_trace \<Rightarrow> bool" where
  "was_read tr = list_ex (\<lambda>e. case e of Sw_read r \<Rightarrow> True | _ \<Rightarrow> False) tr"

text \<open>The core, for whatever sender sessions.\<close>

definition gen_co :: "(core_trace \<Rightarrow> trace \<Rightarrow> nat) \<Rightarrow> core" where
  "gen_co gen = \<lparr>co_state = (\<lambda>ct tr. STATE_IDLE), co_reset_pending = (\<lambda>ct tr. False), co_hold_complete = (\<lambda>ct tr. False),
     co_door_parked = (\<lambda>ct tr. False), co_spindle_on = (\<lambda>ct tr. False), co_plan_empty = (\<lambda>ct tr. True),
     co_position = (\<lambda>ct tr. (0, 0, 0)), co_client_gen = gen,
     co_switches = (\<lambda>ct tr. Some (if was_read ct then [12, 0] else [8, 0])), co_sw_open = (\<lambda>p. 4),
     co_sw_name = (\<lambda>p. Some ''switches''), co_enqueue_ok = (\<lambda>ct c. True),
     co_precompute = (\<lambda>f. \<lparr>off_value = 0, min_value = 13, max_value = 127, pwm_rpm_min = 0\<rparr>),
     co_has_compute = True, co_compute = (\<lambda>p r. 1), co_rpm_range = (0, 1000), co_cast_u32 = (\<lambda>f. 0)\<rparr>"

definition bench_co :: core where
  "bench_co = gen_co (\<lambda>ct tr. 1)"

text \<open>A core whose sender is displaced when the lamp has gone off, as the wait for the button ends.\<close>

definition moved_co :: core where
  "moved_co = gen_co (\<lambda>ct tr. if Led 0 \<in> set ct then 2 else 1)"

text \<open>The kernel of the stream's bench with a clock that stands still.\<close>

definition still_os :: os where
  "still_os = bench_os\<lparr>os_now := (\<lambda>tr. 0)\<rparr>"

text \<open>A pump under which nothing happens but the wait itself.\<close>

definition idle_rt :: "'a rt" where
  "idle_rt s = (True, emit (Ev_sleep 50000000) s)"

text \<open>The bench machine with an open session: the verdict of the engine is good and fresh.\<close>

definition bench_ctl :: ctl where
  "bench_ctl = (ctl_of bench_gf)\<lparr>sw_fd := 4, hw_active := True, v_fire_ok := True, v_armed := True,
     v_fresh_until_ms := 2000\<rparr>"

definition bench_ctl0 :: ctl where
  "bench_ctl0 = gfsw_init bench_os bench_co (gflaser_init bench_os (gfcool_init bench_os (ctl_of bench_gf)))"

lemma bench_ctl_start: "ctl_start bench_os bench_co bench_ctl0"
  using bench_start by (auto simp: ctl_start_def bench_ctl0_def)

lemma bench_ctl_reachable: "reachable (ctl_start bench_os bench_co) (cstep bench_os bench_co)
    (gflaser_disarm bench_os bench_co bench_ctl0)"
proof (rule reachable.intros(2))
  show "reachable (ctl_start bench_os bench_co) (cstep bench_os bench_co) bench_ctl0"
    by (rule reachable.intros(1)) (rule bench_ctl_start)
  show "cstep bench_os bench_co bench_ctl0 (gflaser_disarm bench_os bench_co bench_ctl0)" by (rule c_disarm)
qed

section \<open>The window\<close>

text \<open>
  C3. In every state that the controller reaches, whatever the core, the kernel and
  the operator do and whatever runs inside the laser module's waits, the stream is
  armed exactly while the laser module's window is open, and the fire gate of the
  stream is open only inside the window.
\<close>

theorem window_reachable:
  assumes "reachable (ctl_start os co) (cstep os co) s"
  shows "laser_armed s = laser_ok s \<and> (fire_gate s \<longrightarrow> laser_ok s)"
  using ctl_sys.inv_reachable [OF assms] by (simp add: ctl_ok_def)

section \<open>The disarm\<close>

lemma gfcool_laser_armed_sel [simp]:
  "laser_ok (gfcool_laser_armed os co b s) = laser_ok s" "laser_armed (gfcool_laser_armed os co b s) = laser_armed s"
  "fire_gate (gfcool_laser_armed os co b s) = fire_gate s" "laser_on_window (gfcool_laser_armed os co b s) = b"
  "latch_locked_by_us (gfcool_laser_armed os co b s) = latch_locked_by_us s"
  "latch_fail_reported (gfcool_laser_armed os co b s) = latch_fail_reported s"
  "core_tr (gfcool_laser_armed os co b s) = core_tr s" "sw_fd (gfcool_laser_armed os co b s) = sw_fd s"
  "fake_path (gfcool_laser_armed os co b s) = fake_path s" "hw_active (gfcool_laser_armed os co b s) = hw_active s"
  by (simp_all add: gfcool_laser_armed_def report_now_def mono_ms_def frame_simps Let_def)

lemma core_call_sel [simp]:
  "laser_ok (report_message m s) = laser_ok s" "laser_ok (button_led n s) = laser_ok s"
  "laser_armed (report_message m s) = laser_armed s" "laser_armed (button_led n s) = laser_armed s"
  "fire_gate (report_message m s) = fire_gate s" "fire_gate (button_led n s) = fire_gate s"
  "latch_locked_by_us (report_message m s) = latch_locked_by_us s" "latch_locked_by_us (button_led n s) = latch_locked_by_us s"
  "latch_fail_reported (report_message m s) = latch_fail_reported s" "latch_fail_reported (button_led n s) = latch_fail_reported s"
  "laser_on_window (report_message m s) = laser_on_window s" "laser_on_window (button_led n s) = laser_on_window s"
  by (simp_all add: core_defs)

lemma latch_lock_or_fault: "latch_locked_by_us (snd (latch_lock os True s)) \<or> latch_fail_reported (snd (latch_lock os True s))"
  unfolding latch_lock_def by (rule gf_latch.lock_or_fault)

lemma latch_lock_gate [simp]:
  "laser_armed (snd (latch_lock os b s)) = laser_armed s" "fire_gate (snd (latch_lock os b s)) = fire_gate s"
  using latch_lock_sel(1) [of os b s] by (simp_all add: view_def)

text \<open>What a disarm leaves, from every state.\<close>

lemma gflaser_disarm_sel:
  "\<not> laser_ok (gflaser_disarm os co s)" "\<not> laser_armed (gflaser_disarm os co s)" "\<not> fire_gate (gflaser_disarm os co s)"
  "latch_locked_by_us (gflaser_disarm os co s) \<or> latch_fail_reported (gflaser_disarm os co s)"
proof -
  define s1 where "s1 = gf_stream_fire_gate False (gf_stream_laser_arm False (s\<lparr>laser_ok := False\<rparr>))"
  define s2 where "s2 = (if \<not> latch_locked_by_us s then snd (latch_lock os True s1) else s1)"
  have s1: "\<not> laser_ok s1" "\<not> laser_armed s1" "\<not> fire_gate s1" "latch_locked_by_us s1 = latch_locked_by_us s"
    by (simp_all add: s1_def gf_stream_fire_gate_def gf_stream_laser_arm_def)
  have s2: "\<not> laser_ok s2" "\<not> laser_armed s2" "\<not> fire_gate s2" "latch_locked_by_us s2 \<or> latch_fail_reported s2"
    using s1 latch_lock_or_fault [of os s1] by (simp_all add: s2_def)
  have k: "\<not> laser_ok s \<and> latch_locked_by_us s \<Longrightarrow> s2 = s1" by (simp add: s2_def)
  show "\<not> laser_ok (gflaser_disarm os co s)" "\<not> laser_armed (gflaser_disarm os co s)" "\<not> fire_gate (gflaser_disarm os co s)"
    "latch_locked_by_us (gflaser_disarm os co s) \<or> latch_fail_reported (gflaser_disarm os co s)"
    using s1 s2 k by (simp_all add: gflaser_disarm_def gf_stream_latch_locked_by_us_def s1_def [symmetric] s2_def [symmetric]
        Let_def frame_simps)
qed

theorem window_reachable_witness:
  "laser_armed (gflaser_disarm bench_os bench_co bench_ctl0) = laser_ok (gflaser_disarm bench_os bench_co bench_ctl0)
   \<and> \<not> fire_gate (gflaser_disarm bench_os bench_co bench_ctl0)"
  using window_reachable [OF bench_ctl_reachable] gflaser_disarm_sel(1) [of bench_os bench_co bench_ctl0] by simp

lemma gflaser_disarm_idem:
  assumes "\<not> laser_ok s" "\<not> laser_armed s" "\<not> fire_gate s" "latch_locked_by_us s"
  shows "gflaser_disarm os co s = s"
proof -
  have "gf_stream_fire_gate False (gf_stream_laser_arm False (s\<lparr>laser_ok := False\<rparr>)) = s"
    using assms(1-3) by (cases s) (simp add: gf_stream_fire_gate_def gf_stream_laser_arm_def)
  then show ?thesis using assms by (simp add: gflaser_disarm_def gf_stream_latch_locked_by_us_def Let_def)
qed

text \<open>
  A disarm closes the window, the stream's armed flag and its fire gate from every
  state, and leaves the latch locked or the stream faulted: also from inside the two
  waits, where the window is closed but the latch is unlocked. A second disarm after
  a lock that took changes nothing.
\<close>

theorem disarm_closes:
  shows "\<not> laser_ok (gflaser_disarm os co s) \<and> \<not> laser_armed (gflaser_disarm os co s) \<and> \<not> fire_gate (gflaser_disarm os co s)
    \<and> (latch_locked_by_us (gflaser_disarm os co s) \<or> latch_fail_reported (gflaser_disarm os co s))
    \<and> (latch_locked_by_us (gflaser_disarm os co s) \<longrightarrow>
         gflaser_disarm os co (gflaser_disarm os co s) = gflaser_disarm os co s)"
  using gflaser_disarm_sel [of os co s] gflaser_disarm_idem [of "gflaser_disarm os co s" os co] by blast

theorem disarm_closes_witness:
  "\<not> laser_ok (gflaser_disarm bench_os bench_co (bench_ctl\<lparr>laser_ok := True, latch_locked_by_us := False\<rparr>))"
  using disarm_closes [of bench_os bench_co "bench_ctl\<lparr>laser_ok := True, latch_locked_by_us := False\<rparr>"] by blast

section \<open>The operator's press\<close>

text \<open>The core trace only grows: what the pump runs is done through the calls that record themselves.\<close>

definition rt_extends :: "'a rt \<Rightarrow> bool" where
  "rt_extends rt \<longleftrightarrow> (\<forall>s. \<exists>new. core_tr (snd (rt s)) = new @ core_tr s)"

definition grown :: "core_trace \<Rightarrow> core_trace \<Rightarrow> bool" where
  "grown old tr \<longleftrightarrow> (\<exists>new. tr = new @ old)"

lemma grown_refl [simp]: "grown t t" by (simp add: grown_def)

lemma grown_Cons [simp]: "grown t u \<Longrightarrow> grown t (e # u)" by (auto simp: grown_def)

lemma grown_trans: "grown a b \<Longrightarrow> grown b c \<Longrightarrow> grown a c" by (auto simp: grown_def)

lemma pump_grown: "rt_extends rt \<Longrightarrow> grown (core_tr s) (core_tr (snd (pump rt s)))"
proof -
  assume "rt_extends rt"
  then obtain new where "core_tr (snd (rt s)) = new @ core_tr s" by (auto simp: rt_extends_def)
  then show ?thesis by (simp add: grown_def pump_def Let_def case_prod_beta)
qed

text \<open>Somewhere behind the start, a reading with the lid and the loop closed and the button up.\<close>

definition seen_up :: "core_trace \<Rightarrow> core_trace \<Rightarrow> bool" where
  "seen_up old tr \<longleftrightarrow> (\<exists>w past. arm_word (Some w) = Arm_Waiting \<and> grown (Sw_read (Some w) # past) tr \<and> grown old past)"

lemma seen_up_grown: "seen_up old t \<Longrightarrow> grown t u \<Longrightarrow> seen_up old u"
  unfolding seen_up_def by (blast intro: grown_trans)

lemma arm_switches_tr:
  "core_tr (snd (arm_switches os co s)) = Sw_read (fst (gfsw_read_raw os co s)) # core_tr s"
  "fst (arm_switches os co s) = arm_word (fst (gfsw_read_raw os co s))" "io_tr (snd (arm_switches os co s)) = io_tr s"
  by (simp_all add: arm_switches_def gfsw_read_raw_def Let_def case_prod_beta)

lemma wall_s_core [simp]: "core_tr (snd (wall_s os s)) = core_tr s"
  by (simp add: frame_simps)

lemma core_call_tr [simp]:
  "core_tr (report_message m s) = Msg m # core_tr s" "core_tr (button_led n s) = Led n # core_tr s"
  "core_tr (protocol_enqueue_realtime_command c s) = Cmd c # core_tr s" "core_tr (system_raise_alarm s) = Alarm_AbortCycle # core_tr s"
  "core_tr (gfsw_button_consumed s) = core_tr s" "io_tr (gfsw_button_consumed s) = io_tr s"
  "io_tr (report_message m s) = io_tr s" "io_tr (button_led n s) = io_tr s"
  by (simp_all add: core_defs gfsw_button_consumed_def)

text \<open>The two ways a turn goes on, and that neither ends with a press.\<close>

lemma arm_pumps:
  assumes "rt_extends rt"
  shows "arm_cancel rt m rel un s = Inr (rel', un', s') \<Longrightarrow> rel' = rel \<and> grown (core_tr s) (core_tr s')"
    "arm_idle os rt d rel un s = Inr (rel', un', s') \<Longrightarrow> rel' = rel \<and> grown (core_tr s) (core_tr s')"
    "arm_cancel rt m rel un s = Inl (b, s') \<Longrightarrow> \<not> b" "arm_idle os rt d rel un s = Inl (b, s') \<Longrightarrow> \<not> b"
proof -
  have "grown (core_tr s) (core_tr (snd (pump rt (protocol_enqueue_realtime_command CMD_RESET (report_message m s)))))"
    by (rule grown_trans [OF _ pump_grown [OF assms]]) simp
  then show "arm_cancel rt m rel un s = Inr (rel', un', s') \<Longrightarrow> rel' = rel \<and> grown (core_tr s) (core_tr s')"
    by (auto simp: arm_cancel_def Let_def case_prod_beta split: if_splits)
  show "arm_idle os rt d rel un s = Inr (rel', un', s') \<Longrightarrow> rel' = rel \<and> grown (core_tr s) (core_tr s')"
    using pump_grown [OF assms, of s] by (auto simp: arm_idle_def Let_def case_prod_beta split: if_splits)
  show "arm_cancel rt m rel un s = Inl (b, s') \<Longrightarrow> \<not> b" "arm_idle os rt d rel un s = Inl (b, s') \<Longrightarrow> \<not> b"
    by (auto simp: arm_cancel_def arm_idle_def Let_def case_prod_beta split: if_splits)
qed

text \<open>A turn that goes on has extended the trace, and its mark of a released button is true to it.\<close>

lemma arm_turn_more:
  assumes "rt_extends rt" "arm_turn os co rt d g rel un s = Inr (rel', un', s')"
  shows "rel' = (rel \<or> fst (arm_switches os co s) = Arm_Waiting) \<and> grown (core_tr (snd (arm_switches os co s))) (core_tr s')"
  using assms(2)
  by (cases "fst (arm_switches os co s)")
     (auto simp: arm_turn_def Let_def case_prod_beta split: if_splits dest: arm_pumps(1,2) [OF assms(1)])

lemma arm_turn_seen:
  assumes "rt_extends rt" "arm_turn os co rt d g rel un s = Inr (rel', un', s')"
    and "grown old (core_tr s)" "rel \<longrightarrow> seen_up old (core_tr s)"
  shows "grown old (core_tr s') \<and> (rel' \<longrightarrow> seen_up old (core_tr s'))"
proof -
  define r where "r = fst (gfsw_read_raw os co s)"
  have t: "rel' = (rel \<or> arm_word r = Arm_Waiting)" "grown (Sw_read r # core_tr s) (core_tr s')"
    using arm_turn_more [OF assms(1,2)] by (simp_all add: arm_switches_tr r_def)
  have step: "grown (core_tr s) (core_tr s')" by (rule grown_trans [OF _ t(2)]) simp
  have "seen_up old (core_tr s')" if up: "arm_word r = Arm_Waiting"
  proof -
    obtain w where "r = Some w" using up by (cases r) (auto simp: arm_word_def)
    then show ?thesis using up t(2) assms(3) by (auto simp: seen_up_def)
  qed
  then show ?thesis using t(1) assms(3,4) grown_trans [OF assms(3) step] seen_up_grown [OF _ step] by blast
qed

text \<open>The turn of the press.\<close>

lemma arm_turn_press:
  assumes "rt_extends rt" "arm_turn os co rt d g rel un s = Inl (True, s')"
  shows "rel \<and> arm_word (fst (gfsw_read_raw os co s)) = Arm_Pressed \<and> serial_client_generation co s = g \<and>
    \<not> in_state (state_get co s) {ALARM, ESTOP} \<and> s' = gfsw_button_consumed (snd (arm_switches os co s))"
  using assms(2)
  by (cases "arm_word (fst (gfsw_read_raw os co s))")
     (auto simp: arm_turn_def arm_switches_tr Let_def case_prod_beta split: if_splits dest: arm_pumps(3,4) [OF assms(1)])

text \<open>
  C5. The wait for the operator ends with a press only when, since the wait began, the
  switches were read once with the lid and the interlock loop closed and the button
  up, and the last reading had the lid and the loop closed and the button down: a
  button held from before, or stuck, is no consent. At that reading the core was in no
  alarm and the sender was the one whose job the wait began with.
\<close>

theorem press_is_consent:
  fixes s :: "'a ctl_scheme"
  assumes "rt_extends rt" "arm_button os co rt s = Some (True, s')"
  shows "\<exists>w past. core_tr s' = Led 0 # Sw_read (Some w) # past \<and> arm_word (Some w) = Arm_Pressed \<and>
     seen_up (core_tr s) past \<and> \<not> in_state (co_state co past (io_tr s')) {ALARM, ESTOP} \<and>
     co_client_gen co past (io_tr s') =
       co_client_gen co (Msg ''press the button to start the laser job'' # Led 255 # core_tr s) (io_tr (snd (wall_s os s)))"
proof -
  define s1 where "s1 = report_message ''press the button to start the laser job'' (button_led 255 (snd (wall_s os s)))"
  define g where "g = serial_client_generation co s1"
  obtain r where r: "arm_wait os co rt (fst (wall_s os s) + button_timeout_s os s) g False 0 (s1\<lparr>arming := True\<rparr>) = Some (True, r)"
    and s': "s' = button_led 0 (r\<lparr>arming := False\<rparr>)"
    using assms(2) unfolding arm_button_def Let_def case_prod_beta s1_def [symmetric] g_def [symmetric]
    by (auto split: option.splits if_splits)
  define pre where "pre = (\<lambda>rel (un :: nat) (u :: 'a ctl_scheme). grown (core_tr s) (core_tr u) \<and> (rel \<longrightarrow> seen_up (core_tr s) (core_tr u)))"
  define post where "post = (\<lambda>x :: bool \<times> 'a ctl_scheme. fst x \<longrightarrow> (\<exists>u. seen_up (core_tr s) (core_tr u) \<and>
      arm_word (fst (gfsw_read_raw os co u)) = Arm_Pressed \<and> serial_client_generation co u = g \<and>
      \<not> in_state (state_get co u) {ALARM, ESTOP} \<and> snd x = gfsw_button_consumed (snd (arm_switches os co u))))"
  have "post (True, r)"
  proof (rule arm_wait_rule [OF r, where P = pre])
    show "pre False 0 (s1\<lparr>arming := True\<rparr>)" by (simp add: pre_def s1_def)
  next
    fix rel un u x
    assume t: "pre rel un u" "arm_turn os co rt (fst (wall_s os s) + button_timeout_s os s) g rel un u = Inl x"
    show "post x"
    proof (cases "fst x")
      case True
      then obtain v where x: "x = (True, v)" by (cases x) simp
      from arm_turn_press [OF assms(1) t(2) [unfolded x]] t(1) x show ?thesis by (auto simp: post_def pre_def)
    qed (simp add: post_def)
  next
    fix rel un u rel' un' u'
    assume "pre rel un u" "arm_turn os co rt (fst (wall_s os s) + button_timeout_s os s) g rel un u = Inr (rel', un', u')"
    then show "pre rel' un' u'" using arm_turn_seen [OF assms(1)] unfolding pre_def by blast
  qed
  then obtain u where u: "seen_up (core_tr s) (core_tr u)" "arm_word (fst (gfsw_read_raw os co u)) = Arm_Pressed"
    "serial_client_generation co u = g" "\<not> in_state (state_get co u) {ALARM, ESTOP}"
    "r = gfsw_button_consumed (snd (arm_switches os co u))" by (auto simp: post_def)
  obtain w where w: "fst (gfsw_read_raw os co u) = Some w"
    using u(2) by (cases "fst (gfsw_read_raw os co u)") (auto simp: arm_word_def)
  have "core_tr s' = Led 0 # Sw_read (Some w) # core_tr u" "io_tr s' = io_tr u"
    using u(5) w by (simp_all add: s' arm_switches_tr)
  then show ?thesis using u w
    by (auto simp: state_get_def serial_client_generation_def g_def s1_def)
qed

lemma bench_words: "arm_word (Some [8, 0]) = Arm_Waiting" "arm_word (Some [12, 0]) = Arm_Pressed"
  by code_simp+

lemma bench_read:
  assumes "0 \<le> sw_fd s"
  shows "gfsw_read_raw still_os (gen_co gen) s =
    (Some (if was_read (core_tr s) then [12, 0] else [8, 0]),
     core_emit (Sw_read (Some (if was_read (core_tr s) then [12, 0] else [8, 0]))) s)"
  using assms by (simp add: gfsw_read_raw_def gen_co_def SW_BYTES_def Let_def)

lemma bench_core [simp]:
  "serial_client_generation (gen_co gen) s = gen (core_tr s) (io_tr s)" "state_get (gen_co gen) s = STATE_IDLE" "\<not> in_state STATE_IDLE f"
  "reset_pending (gen_co gen) s = False" "modal_spindle_on (gen_co gen) s = False"
  by (simp_all add: serial_client_generation_def state_get_def in_state_def STATE_IDLE_def gen_co_def
       reset_pending_def modal_spindle_on_def)

lemma bench_conf [simp]: "gfio_conf_read still_os k n s = None" "gfio_conf_read_float still_os k f s = f"
  by (simp_all add: gfio_conf_read_def gfio_conf_read_float_def still_os_def bench_os_def)

lemma bench_now [simp]: "os_now still_os tr = 0"
  by (simp add: still_os_def)

lemma bench_timeout: "button_timeout_s still_os s = 300"
  by (simp add: button_timeout_s_def BUTTON_TIMEOUT_S_DEFAULT_def fl_le_def)

text \<open>The verdict of the bench and its switches, in whatever state of an arm.\<close>

definition good_verdict :: "'a ctl_scheme \<Rightarrow> bool" where
  "good_verdict s \<longleftrightarrow> v_fire_ok s \<and> v_armed s \<and> v_fresh_until_ms s = 2000 \<and> 0 \<le> sw_fd s"

text \<open>The sender is the first one until the lamp goes off.\<close>

definition first_gen :: "(core_trace \<Rightarrow> trace \<Rightarrow> nat) \<Rightarrow> bool" where
  "first_gen gen \<longleftrightarrow> (\<forall>ct tr. Led 0 \<notin> set ct \<longrightarrow> gen ct tr = 1)"

lemma bench_turn_wait:
  assumes "first_gen gen" "good_verdict s" "\<not> was_read (core_tr s)" "Led 0 \<notin> set (core_tr s)" "0 \<le> d"
  shows "\<exists>s'. arm_turn still_os (gen_co gen) idle_rt d 1 False 0 s = Inr (True, 0, s') \<and> was_read (core_tr s') \<and>
    Led 0 \<notin> set (core_tr s') \<and> good_verdict s'"
  using assms
  by (simp add: arm_turn_def arm_switches_def bench_read bench_words arm_idle_def pump_def idle_rt_def emit_def
      wall_s_upd good_verdict_def first_gen_def Let_def) (simp add: was_read_def core_emit_def)

lemma bench_turn_press:
  assumes "first_gen gen" "good_verdict s" "was_read (core_tr s)" "Led 0 \<notin> set (core_tr s)"
  shows "\<exists>s'. arm_turn still_os (gen_co gen) idle_rt d 1 True 0 s = Inl (True, s') \<and> good_verdict s'"
  using assms by (simp add: arm_turn_def arm_switches_def bench_read bench_words good_verdict_def first_gen_def Let_def
      gfsw_button_consumed_def core_emit_def)

lemma bench_press:
  assumes "first_gen gen" "good_verdict s" "\<not> was_read (core_tr s)" "Led 0 \<notin> set (core_tr s)"
  shows "\<exists>s'. arm_button still_os (gen_co gen) idle_rt s = Some (True, s') \<and> good_verdict s' \<and> Led 0 \<in> set (core_tr s')"
proof -
  define s1 where "s1 = (report_message ''press the button to start the laser job''
      (button_led 255 (snd (wall_s still_os s))))\<lparr>arming := True\<rparr>"
  define d where "d = fst (wall_s still_os s) + 300"
  have s1: "good_verdict s1" "\<not> was_read (core_tr s1)" "Led 0 \<notin> set (core_tr s1)" "0 \<le> d"
    using assms by (simp_all add: s1_def d_def core_defs wall_s_upd good_verdict_def was_read_def)
  obtain s2 where s2: "arm_turn still_os (gen_co gen) idle_rt d 1 False 0 s1 = Inr (True, 0, s2)" "was_read (core_tr s2)"
    "Led 0 \<notin> set (core_tr s2)" "good_verdict s2"
    using bench_turn_wait [OF assms(1) s1] by blast
  obtain s3 where s3: "arm_turn still_os (gen_co gen) idle_rt d 1 True 0 s2 = Inl (True, s3)" "good_verdict s3"
    using bench_turn_press [OF assms(1) s2(4,2,3)] by blast
  have "arm_wait still_os (gen_co gen) idle_rt d 1 False 0 s1 = Some (True, s3)"
    unfolding arm_wait.simps [of _ _ _ _ _ _ _ s1] s2 sum.simps case_prod_conv arm_wait.simps [of _ _ _ _ _ _ _ s2] s3 ..
  moreover have "gen (core_tr s1) (io_tr s1) = 1" using assms(1) s1(3) by (simp add: first_gen_def)
  ultimately have "arm_button still_os (gen_co gen) idle_rt s = Some (True, button_led 0 (s3\<lparr>arming := False\<rparr>))"
    unfolding arm_button_def Let_def case_prod_beta bench_timeout s1_def [symmetric] d_def [symmetric]
    by (simp add: s1_def)
  moreover have "good_verdict (button_led 0 (s3\<lparr>arming := False\<rparr>))"
    using s3 by (simp add: good_verdict_def core_defs)
  ultimately show ?thesis by auto
qed

lemma bench_ctl_good: "good_verdict bench_ctl" "\<not> was_read (core_tr bench_ctl)" "Led 0 \<notin> set (core_tr bench_ctl)"
  by (simp_all add: good_verdict_def bench_ctl_def ctl_of_def was_read_def)

lemma bench_gens: "first_gen (\<lambda>ct tr. 1)" "first_gen (\<lambda>ct tr. if Led 0 \<in> set ct then 2 else 1)"
  by (simp_all add: first_gen_def)

definition bench_pressed :: ctl where
  "bench_pressed = snd (the (arm_button still_os bench_co idle_rt bench_ctl))"

lemma bench_pressed: "arm_button still_os bench_co idle_rt bench_ctl = Some (True, bench_pressed)"
  using bench_press [OF bench_gens(1) bench_ctl_good] by (auto simp: bench_pressed_def bench_co_def)

lemma idle_rt_extends: "rt_extends idle_rt"
  by (auto simp: rt_extends_def idle_rt_def emit_def)

theorem press_is_consent_witness:
  "\<exists>w past. core_tr bench_pressed = Led 0 # Sw_read (Some w) # past \<and> arm_word (Some w) = Arm_Pressed \<and>
     seen_up (core_tr bench_ctl) past"
  using press_is_consent [OF idle_rt_extends bench_pressed] by blast

section \<open>The outcome of an arm\<close>

text \<open>The latch is recorded locked, or a lock that did not take has faulted the stream.\<close>

definition safe_latch :: "'a gf_scheme \<Rightarrow> bool" where
  "safe_latch s \<longleftrightarrow> latch_locked_by_us s \<or> latch_fail_reported s"

lemma safe_latch_back_out [simp]: "safe_latch (arm_back_out os co s)" "safe_latch (refuse m s) = safe_latch s"
  "latch_locked_by_us (refuse m s) = latch_locked_by_us s"
  using latch_lock_or_fault [of os s] by (simp_all add: arm_back_out_def safe_latch_def refuse_def core_defs)

lemma fire_gate_publish_sel [simp]:
  "laser_ok (fire_gate_publish os s) = laser_ok s" "laser_armed (fire_gate_publish os s) = laser_armed s"
  by (simp_all add: fire_gate_publish_def gf_stream_fire_gate_def gfcool_verdict_fire_ok_def verdict_fresh_def mono_ms_def
       frame_simps Let_def)

lemma window_open_sel:
  "laser_ok (window_open os co s)" "laser_armed (window_open os co s)"
  by (simp_all add: window_open_def report_model_def gf_stream_laser_arm_def Let_def)

text \<open>The acknowledgment wait ends acknowledged, or backed out.\<close>

lemma ack_wait_ends:
  fixes s :: "'a ctl_scheme"
  assumes "ack_wait os co rt d s = Some (b, v)"
  shows "if b then \<exists>u. gfcool_run_ack os u = (True, v) else safe_latch v"
proof -
  define post where "post = (\<lambda>x :: bool \<times> 'a ctl_scheme. if fst x then \<exists>u. gfcool_run_ack os u = (True, snd x)
      else safe_latch (snd x))"
  have "post (b, v)"
  proof (rule ack_wait_rule [OF assms, where P = "\<lambda>_. True"])
    fix u x
    assume t: "ack_turn os co rt d u = Inl x"
    show "post x"
    proof (cases "fst (gfcool_run_ack os u)")
      case True
      then have "x = (True, snd (gfcool_run_ack os u))" using t by (auto simp: ack_turn_def Let_def case_prod_beta)
      then show ?thesis using True by (simp add: post_def) (metis prod.collapse)
    next
      case False
      then show ?thesis using t
        by (auto simp: ack_turn_def post_def Let_def case_prod_beta split: if_splits)
    qed
  qed auto
  then show ?thesis by (cases b) (simp_all add: post_def)
qed

lemma arm_complete_ends:
  assumes "arm_complete os co rt s = Some (b, s')"
  shows "if b then \<exists>u v w x. gfcool_run_ack os u = (True, v) \<and> gfcool_fire_ok os v = (True, w) \<and>
        head_present os w = (True, x) \<and> s' = window_open os co x
    else safe_latch s'"
proof -
  obtain a v where w: "ack_wait os co rt (fst (wall_s os s) + ack_budget_s os s) (snd (wall_s os s)) = Some (a, v)"
    and r: "(b, s') = (if a then arm_final os co v else (False, v))"
    using assms by (cases "ack_wait os co rt (fst (wall_s os s) + ack_budget_s os s) (snd (wall_s os s))")
      (auto simp: arm_complete_def Let_def case_prod_beta split: if_splits)
  have e: "if a then \<exists>u. gfcool_run_ack os u = (True, v) else safe_latch v"
    using ack_wait_ends [OF w] .
  obtain ok y where ok: "gfcool_fire_ok os v = (ok, y)" by fastforce
  obtain here x where here: "head_present os y = (here, x)" by fastforce
  show ?thesis
  proof (cases "a \<and> ok \<and> here")
    case True
    then show ?thesis using r e ok here by (simp add: arm_final_def) blast
  next
    case False
    then show ?thesis using r e ok here
      by (auto simp: arm_final_def split: if_splits)
  qed
qed

lemma gates_latch [simp]: "latch_locked_by_us (snd (arm_gates os s)) = latch_locked_by_us s"
  by (simp add: arm_gates_def head_present_def gfcool_fire_ok_def gfcool_verdict_fire_ok_def verdict_fresh_def mono_ms_def
       frame_simps Let_def case_prod_beta)

lemma arm_unlock_refused:
  "\<not> fst (arm_unlock os co s) \<Longrightarrow> latch_locked_by_us (snd (arm_unlock os co s)) = latch_locked_by_us s"
proof -
  obtain ok u where w: "latch_lock os False s = (ok, u)" by fastforce
  assume "\<not> fst (arm_unlock os co s)"
  then have "\<not> ok" using w by (auto simp: arm_unlock_def)
  then show ?thesis using w gf_latch.kept [of os False s u] by (simp add: arm_unlock_def latch_lock_def refuse_def core_defs)
qed

lemma arm_button_aborts:
  "arm_button os co rt s = Some (False, s') \<Longrightarrow> safe_latch s'"
  by (auto simp: arm_button_def Let_def case_prod_beta split: option.splits)

text \<open>
  C6. An arm that succeeds has gone, in this order, through the cooling engine's
  acknowledgment of this job, a fresh verdict that permits fire, and a head that is
  present, and only then opened the window, for the stream too. An arm that does not
  succeed, by whatever way (a gate, the unlock, the press that never comes, an abort,
  the acknowledgment, the second gate), leaves the latch locked or the stream
  faulted.
\<close>

theorem arm_outcome:
  assumes "gflaser_arm os co rt s = Some (armed, s')" "latch_locked_by_us s"
  shows "if armed then laser_ok s' \<and> laser_armed s' \<and>
        (\<exists>u v w x. gfcool_run_ack os u = (True, v) \<and> gfcool_fire_ok os v = (True, w) \<and>
           head_present os w = (True, x) \<and> s' = window_open os co x)
    else safe_latch s'"
proof -
  define s1 where "s1 = snd (arm_gates os s)"
  define s2 where "s2 = snd (arm_unlock os co (gfcool_laser_armed os co True s1))"
  have s1: "latch_locked_by_us s1" using assms(2) by (simp add: s1_def)
  have done_: "?thesis" if "arm_complete os co rt u = Some (armed, s')" for u
    using arm_complete_ends [OF that] window_open_sel [of os co] by (cases armed) auto
  note def = gflaser_arm_def Let_def case_prod_beta s1_def [symmetric] s2_def [symmetric]
  show ?thesis
  proof (cases "fst (arm_gates os s) \<and> fst (arm_unlock os co (gfcool_laser_armed os co True s1))")
    case True
    show ?thesis
    proof (cases "gfsw_available s2")
      case sw: True
      then obtain p u where p: "arm_button os co rt s2 = Some (p, u)"
        using assms(1) True unfolding def by (cases "arm_button os co rt s2") auto
      show ?thesis
      proof (cases p)
        case True
        then show ?thesis using p sw assms(1) \<open>fst (arm_gates os s) \<and> _\<close> unfolding def by (intro done_ [of u]) simp
      next
        case False
        then have "armed = False" "s' = u" using p sw assms(1) \<open>fst (arm_gates os s) \<and> _\<close> unfolding def by auto
        then show ?thesis using arm_button_aborts [of os co rt s2 u] p False by simp
      qed
    next
      case False
      then show ?thesis using assms(1) True unfolding def by (intro done_ [of s2]) simp
    qed
  next
    case False
    then consider "armed = False" "s' = s1" | "armed = False" "s' = s2" "\<not> fst (arm_unlock os co (gfcool_laser_armed os co True s1))"
      using assms(1) unfolding def by (cases "fst (arm_gates os s)") auto
    then show ?thesis
      using s1 arm_unlock_refused [of os co "gfcool_laser_armed os co True s1"] by cases (simp_all add: s2_def safe_latch_def)
  qed
qed

lemma still_wr [simp]: "wr_rc still_os a v hw tr = 0"
  by (simp add: wr_rc_def still_os_def bench_os_def)

lemma still_latch: "fst (latch_lock still_os b s)"
  by (simp add: latch_lock_def gf_stream_laser_latch_def latch_write_locked_def frame_simps Let_def)

lemma still_head: "fst (head_present still_os s)"
  by (simp add: head_present_def frame_simps rd_val_def still_os_def bench_os_def)

lemma still_verdict:
  assumes "good_verdict s"
  shows "fst (gfcool_fire_ok still_os s)" "fst (gfcool_run_ack still_os s)"
proof -
  have "fresh_at 0 2000" by (simp add: fresh_at_def)
  then show "fst (gfcool_fire_ok still_os s)" "fst (gfcool_run_ack still_os s)"
    using assms by (simp_all add: good_verdict_def gfcool_fire_ok_def gfcool_verdict_fire_ok_def gfcool_run_ack_def
        verdict_fresh_def mono_ms_def frame_simps Let_def)
qed

lemma bench_arm_complete:
  "good_verdict s \<Longrightarrow> \<exists>u. arm_complete still_os co rt s = Some (True, window_open still_os co u) \<and> core_tr u = core_tr s"
proof -
  assume g: "good_verdict s"
  define s1 where "s1 = snd (wall_s still_os s)"
  define s2 where "s2 = snd (gfcool_run_ack still_os s1)"
  have s1: "good_verdict s1" using g by (simp add: s1_def good_verdict_def frame_simps)
  have s2: "good_verdict s2"
    using s1 by (simp add: s2_def good_verdict_def gfcool_run_ack_def verdict_fresh_def mono_ms_def frame_simps Let_def)
  have "ack_wait still_os co rt d s1 = Some (True, s2)" for d
    using still_verdict(2) [OF s1] by (subst ack_wait.simps) (simp add: ack_turn_def s2_def Let_def case_prod_beta)
  then have "arm_complete still_os co rt s = Some (True, window_open still_os co (snd (head_present still_os (snd (gfcool_fire_ok still_os s2)))))"
    using still_verdict(1) [OF s2]
    by (simp add: arm_complete_def arm_final_def s1_def Let_def case_prod_beta still_head)
  moreover have "core_tr (snd (head_present still_os (snd (gfcool_fire_ok still_os s2)))) = core_tr s"
    using still_head [of "snd (gfcool_fire_ok still_os s2)"]
    by (simp add: head_present_def gfcool_fire_ok_def gfcool_verdict_fire_ok_def gfcool_run_ack_def verdict_fresh_def mono_ms_def
        s2_def s1_def frame_simps Let_def split: if_splits)
  ultimately show ?thesis by blast
qed

lemma bench_arm:
  assumes "first_gen gen"
  shows "\<exists>u. gflaser_arm still_os (gen_co gen) idle_rt bench_ctl = Some (True, window_open still_os (gen_co gen) u) \<and> Led 0 \<in> set (core_tr u)"
proof -
  define s1 where "s1 = snd (arm_gates still_os bench_ctl)"
  define s2 where "s2 = snd (arm_unlock still_os (gen_co gen) (gfcool_laser_armed still_os (gen_co gen) True s1))"
  have av: "gfsw_available s" if "good_verdict s" for s using that by (simp add: gfsw_available_def good_verdict_def)
  have h: "good_verdict (snd (gfcool_fire_ok still_os s)) = good_verdict s" "good_verdict (snd (head_present still_os s)) = good_verdict s"
    "core_tr (snd (gfcool_fire_ok still_os s)) = core_tr s" "core_tr (snd (head_present still_os s)) = core_tr s" for s
    using still_head [of s]
    by (simp_all add: good_verdict_def gfcool_fire_ok_def gfcool_verdict_fire_ok_def verdict_fresh_def mono_ms_def
        head_present_def frame_simps Let_def split: if_splits)
  have g: "fst (arm_gates still_os bench_ctl)" "good_verdict s1" "core_tr s1 = core_tr bench_ctl"
    using still_verdict(1) [OF bench_ctl_good(1)] bench_ctl_good
    by (simp_all add: arm_gates_def s1_def Let_def case_prod_beta still_head av h)
  have la: "good_verdict (snd (latch_lock still_os b s)) = good_verdict s" for b s
  proof -
    obtain t e l r f g where "snd (latch_lock still_os b s) = s\<lparr>io_tr := t, io_errno := e, latch_locked_by_us := l,
      latch_fail_reported := r, failed := f, fault_flag := g\<rparr>" using latch_lock_ex by blast
    then show ?thesis by (simp add: good_verdict_def)
  qed
  have "good_verdict (gfcool_laser_armed still_os (gen_co gen) True s1)"
    using g(2) by (simp add: good_verdict_def gfcool_laser_armed_def report_now_def mono_ms_def frame_simps Let_def)
  then have u: "fst (arm_unlock still_os (gen_co gen) (gfcool_laser_armed still_os (gen_co gen) True s1))" "good_verdict s2"
      "core_tr s2 = core_tr bench_ctl"
    using g(3) by (simp_all add: arm_unlock_def s2_def Let_def case_prod_beta still_latch la)
  obtain s3 where s3: "arm_button still_os (gen_co gen) idle_rt s2 = Some (True, s3)" "good_verdict s3" "Led 0 \<in> set (core_tr s3)"
    using bench_press [OF assms, of s2] u bench_ctl_good(2,3) by auto
  obtain s4 where "arm_complete still_os (gen_co gen) idle_rt s3 = Some (True, window_open still_os (gen_co gen) s4)" "core_tr s4 = core_tr s3"
    using bench_arm_complete [OF s3(2)] by blast
  then show ?thesis using g(1) u s3
    unfolding gflaser_arm_def Let_def case_prod_beta s1_def [symmetric] s2_def [symmetric] by (intro exI [of _ s4]) (simp add: av)
qed

definition bench_armed :: ctl where
  "bench_armed = snd (the (gflaser_arm still_os bench_co idle_rt bench_ctl))"

lemma bench_armed: "gflaser_arm still_os bench_co idle_rt bench_ctl = Some (True, bench_armed)"
  using bench_arm [OF bench_gens(1)] by (auto simp: bench_armed_def bench_co_def)

lemma bench_ctl_locked: "latch_locked_by_us bench_ctl"
  using stream_start_facts [OF bench_start] by (simp add: bench_ctl_def ctl_of_def)

theorem arm_outcome_witness: "laser_ok bench_armed \<and> laser_armed bench_armed"
  using arm_outcome [OF bench_armed bench_ctl_locked] by simp

end
