(* ===== verification/Laser_Props2.thy ===== *)
theory Laser_Props2
  imports Laser_Props
begin

text \<open>
  More properties of the armed window: that its waits end, what may fire, what closes
  it, and what a sender change does to it.
\<close>

section \<open>The waits end\<close>

text \<open>
  What the waits rely on: a clock that never goes back (\<open>CLOCK_MONOTONIC\<close>), a pump
  that takes some time, and a core that aborts on the reset that was just queued.
\<close>

definition pump_contract :: "os \<Rightarrow> 'a rt \<Rightarrow> rat \<Rightarrow> bool" where
  "pump_contract os rt dt \<longleftrightarrow> 0 < dt \<and> (\<forall>e tr. os_now os tr \<le> os_now os (e # tr)) \<and>
     (\<forall>s. os_now os (io_tr s) + dt \<le> os_now os (io_tr (snd (rt s)))) \<and>
     (\<forall>s. core_tr s \<noteq> [] \<and> hd (core_tr s) = Cmd CMD_RESET \<longrightarrow> \<not> fst (rt s))"

lemma pump_contractD:
  assumes "pump_contract os rt dt"
  shows "0 < dt" "os_now os tr \<le> os_now os (e # tr)" "os_now os (io_tr s) + dt \<le> os_now os (io_tr (snd (pump rt s)))"
    "\<not> fst (pump rt (protocol_enqueue_realtime_command CMD_RESET s))"
  using assms by (auto simp: pump_contract_def pump_def Let_def case_prod_beta core_defs)

text \<open>A turn that goes on was within the deadline after a pump.\<close>

lemma arm_turn_time:
  assumes "pump_contract os rt dt" "arm_turn os co rt d g rel un s = Inr (rel', un', s')"
  shows "os_now os (io_tr s) + dt \<le> d \<and> os_now os (io_tr s) + dt \<le> os_now os (io_tr s')"
proof -
  note P = pump_contractD [OF assms(1)]
  define u where "u = snd (arm_switches os co s)"
  have u: "io_tr u = io_tr s" by (simp add: u_def arm_switches_tr)
  have idle: "os_now os (io_tr s) + dt \<le> d \<and> os_now os (io_tr s) + dt \<le> os_now os (io_tr s')"
    if "arm_idle os rt d a b u = Inr (rel', un', s')" for a b
    using that P(3) [of u] P(2) [of "io_tr (snd (pump rt u))" "Ev_now (os_now os (io_tr (snd (pump rt u))))"] u
    by (auto simp: arm_idle_def Let_def case_prod_beta wall_s_upd split: if_splits)
  have cancel: "arm_cancel rt m a b u \<noteq> Inr x" for m a b x
    using P(4) by (simp add: arm_cancel_def Let_def case_prod_beta)
  show ?thesis using assms(2) idle cancel
    by (cases "fst (arm_switches os co s)") (auto simp: arm_turn_def u_def Let_def case_prod_beta split: if_splits)
qed

lemma arm_wait_returns:
  assumes "pump_contract os rt dt" "d - os_now os (io_tr s) < of_nat n * dt"
  shows "\<exists>r. arm_wait os co rt d g rel un s = Some r"
  using assms(2)
proof (induction n arbitrary: rel un s)
  case (Suc n)
  show ?case
  proof (cases "arm_turn os co rt d g rel un s")
    case (Inl r)
    then show ?thesis by (subst arm_wait.simps) simp
  next
    case (Inr x)
    obtain rel' un' s' where x: "x = (rel', un', s')" by (cases x)
    have "d - os_now os (io_tr s') < of_nat n * dt"
      using arm_turn_time [OF assms(1) Inr [unfolded x]] Suc.prems by (simp add: algebra_simps)
    from Suc.IH [OF this, of rel' un'] show ?thesis using Inr x by (subst arm_wait.simps) simp
  qed
next
  case 0
  then have late: "d < os_now os (io_tr s)" by simp
  show ?case
  proof (cases "arm_turn os co rt d g rel un s")
    case (Inl r)
    then show ?thesis by (subst arm_wait.simps) simp
  next
    case (Inr x)
    obtain rel' un' s' where x: "x = (rel', un', s')" by (cases x)
    then show ?thesis using arm_turn_time [OF assms(1) Inr [unfolded x]] late pump_contractD(1) [OF assms(1)] by simp
  qed
qed

lemma run_ack_io: "io_tr (snd (gfcool_run_ack os s)) = Ev_now (os_now os (io_tr s)) # io_tr s"
  by (simp add: gfcool_run_ack_def verdict_fresh_def mono_ms_def frame_simps Let_def)

lemma ack_turn_time:
  assumes "pump_contract os rt dt" "ack_turn os co rt d s = Inr s'"
  shows "os_now os (io_tr s) + dt \<le> d \<and> os_now os (io_tr s) + dt \<le> os_now os (io_tr s')"
proof -
  note P = pump_contractD [OF assms(1)]
  define u where "u = snd (pump rt (snd (gfcool_run_ack os s)))"
  have "os_now os (io_tr s) + dt \<le> os_now os (io_tr u)"
    using P(3) [of "snd (gfcool_run_ack os s)"] P(2) [of "io_tr s" "Ev_now (os_now os (io_tr s))"]
    by (simp add: u_def run_ack_io)
  moreover have "os_now os (io_tr u) \<le> d" "s' = snd (wall_s os u)"
    using assms(2) by (auto simp: ack_turn_def u_def Let_def case_prod_beta wall_s_upd split: if_splits)
  ultimately show ?thesis using P(2) [of "io_tr u" "Ev_now (os_now os (io_tr u))"] by (simp add: wall_s_upd)
qed

lemma ack_wait_returns:
  assumes "pump_contract os rt dt" "d - os_now os (io_tr s) < of_nat n * dt"
  shows "\<exists>r. ack_wait os co rt d s = Some r"
  using assms(2)
proof (induction n arbitrary: s)
  case (Suc n)
  show ?case
  proof (cases "ack_turn os co rt d s")
    case (Inl r)
    then show ?thesis by (subst ack_wait.simps) simp
  next
    case (Inr s')
    have "d - os_now os (io_tr s') < of_nat n * dt"
      using ack_turn_time [OF assms(1) Inr] Suc.prems by (simp add: algebra_simps)
    from Suc.IH [OF this] show ?thesis using Inr by (subst ack_wait.simps) simp
  qed
next
  case 0
  then have late: "d < os_now os (io_tr s)" by simp
  show ?case
  proof (cases "ack_turn os co rt d s")
    case (Inl r)
    then show ?thesis by (subst ack_wait.simps) simp
  next
    case (Inr s')
    then show ?thesis using ack_turn_time [OF assms(1) Inr] late pump_contractD(1) [OF assms(1)] by simp
  qed
qed

lemma pumps_enough: "(0 :: rat) < dt \<Longrightarrow> \<exists>n. x < of_nat n * dt"
  using ex_less_of_nat_mult [of dt x] by blast

lemma arm_complete_returns:
  assumes "pump_contract os rt dt"
  shows "\<exists>r. arm_complete os co rt s = Some r"
proof -
  define d where "d = fst (wall_s os s) + ack_budget_s os s"
  obtain n where "d - os_now os (io_tr (snd (wall_s os s))) < of_nat n * dt"
    using pumps_enough [OF pump_contractD(1) [OF assms]] by blast
  from ack_wait_returns [OF assms this] obtain r where "ack_wait os co rt d (snd (wall_s os s)) = Some r" by blast
  then show ?thesis unfolding arm_complete_def Let_def case_prod_beta d_def [symmetric] by simp
qed

lemma arm_button_returns:
  assumes "pump_contract os rt dt"
  shows "\<exists>r. arm_button os co rt s = Some r"
proof -
  define s1 where "s1 = report_message ''press the button to start the laser job'' (button_led 255 (snd (wall_s os s)))"
  define d where "d = fst (wall_s os s) + button_timeout_s os s"
  obtain n where "d - os_now os (io_tr (s1\<lparr>arming := True\<rparr>)) < of_nat n * dt"
    using pumps_enough [OF pump_contractD(1) [OF assms]] by blast
  from arm_wait_returns [OF assms this, of co "serial_client_generation co s1" False 0]
  obtain r where "arm_wait os co rt d (serial_client_generation co s1) False 0 (s1\<lparr>arming := True\<rparr>) = Some r" by blast
  then show ?thesis unfolding arm_button_def Let_def case_prod_beta d_def [symmetric] s1_def [symmetric] by simp
qed

text \<open>
  C15. An arm always ends, armed or refused, under a clock that does not go back, a
  pump that takes some time and a core that honours the reset: neither the wait for
  the button nor the wait for the cooling engine can go on for ever, whatever the
  switches, the verdicts and the sender do.
\<close>

theorem arm_returns:
  assumes "pump_contract os rt dt"
  shows "\<exists>armed s'. gflaser_arm os co rt s = Some (armed, s')"
proof -
  define s1 where "s1 = snd (arm_gates os s)"
  define s2 where "s2 = snd (arm_unlock os co (gfcool_laser_armed os co True s1))"
  obtain p u where p: "arm_button os co rt s2 = Some (p, u)" using arm_button_returns [OF assms, of co s2] by auto
  have c: "\<exists>armed s'. arm_complete os co rt v = Some (armed, s')" for v using arm_complete_returns [OF assms, of co v] by auto
  show ?thesis using p c [of u] c [of s2]
    unfolding gflaser_arm_def Let_def case_prod_beta s1_def [symmetric] s2_def [symmetric] by auto
qed

text \<open>A pump that takes a hundredth of a second and ends on a reset.\<close>

definition timed_rt :: "'a rt" where
  "timed_rt s = (\<not> (core_tr s \<noteq> [] \<and> hd (core_tr s) = Cmd CMD_RESET), emit (Ev_sleep 50000000) s)"

lemma timed_contract: "pump_contract bench_os timed_rt (1 / 100)"
  by (auto simp: pump_contract_def timed_rt_def emit_def bench_os_def field_simps)

theorem arm_returns_witness: "\<exists>armed s'. gflaser_arm bench_os bench_co timed_rt bench_ctl = Some (armed, s')"
  by (rule arm_returns [OF timed_contract])

section \<open>A sender change after the press\<close>

lemma window_open_gen:
  "armed_client_gen (window_open os co s) = serial_client_generation co
     ((if fl_le (pwm_min_value (apply_model os co (selected_model os s) s)) (Fin 0)
       then report_message ''laser floor is 0: the bottom of the S range will not fire''
       else id) (apply_model os co (selected_model os s) s))"
  by (simp add: window_open_def report_model_def fire_gate_publish_def gf_stream_fire_gate_def gf_stream_laser_arm_def
       gfcool_verdict_fire_ok_def verdict_fresh_def mono_ms_def frame_simps core_defs serial_client_generation_def Let_def)

lemma apply_model_core [simp]: "core_tr (apply_model os co m s) = core_tr s"
  by (simp add: apply_model_def spindleConfig_def gamma_load_def curve_load_def gf_stream_laser_model_def dither_reset_def Let_def)


section \<open>What may fire\<close>

lemma laser_event_wants [simp]:
  "want_fire (laser_event_locked os p f s) = want_fire s" "want_power (laser_event_locked os p f s) = want_power s"
  by (simp_all add: laser_event_locked_def clamp_locked_def laser_queue_def lev_merge_def lev_push_def frame_simps Let_def
       case_prod_beta)

lemma stream_laser_wants:
  "\<not> failed s \<Longrightarrow> want_fire (gf_stream_laser os p f s) = f \<and> want_power (gf_stream_laser os p f s) = p AND 0x7f"
  by (simp add: gf_stream_laser_def Let_def)

lemma mask7_le: "unat (p AND 0x7f :: u8) \<le> 127"
  using word_and_le1 [of p "0x7f"] by (simp add: word_le_nat_alt)

text \<open>The gate that the spindle asks: fresh, permitting, and for this job inside the window.\<close>

lemma gfcool_fire_ok_iff:
  "fst (gfcool_fire_ok os s) \<longleftrightarrow> fresh_at (of_int \<lfloor>os_now os (io_tr s) * 1000\<rfloor>) (v_fresh_until_ms s) \<and> v_fire_ok s \<and>
     (laser_on_window s \<longrightarrow> v_armed s)"
  by (auto simp: gfcool_fire_ok_def gfcool_verdict_fire_ok_def verdict_fresh_def mono_ms_def frame_simps Let_def)

text \<open>
  C4. The spindle asks the stream for fire only inside the open window and under a
  fresh verdict that permits fire and, when the run was reported, acknowledges it;
  otherwise it asks for dark. The level is in the seven bits of the power byte.
\<close>

theorem fire_needs_window:
  assumes "\<not> failed s"
  shows "(want_fire (spindleUpdatePWM os pwm s) \<longleftrightarrow> pwm \<noteq> off_value (spindle_pwm s) \<and> laser_ok s \<and>
      fresh_at (of_int \<lfloor>os_now os (io_tr s) * 1000\<rfloor>) (v_fresh_until_ms s) \<and> v_fire_ok s \<and> (laser_on_window s \<longrightarrow> v_armed s))
    \<and> unat (want_power (spindleUpdatePWM os pwm s)) \<le> 127"
proof -
  define u where "u = snd (gfcool_fire_ok os s)"
  have f: "\<not> failed u" using assms
    by (simp add: u_def gfcool_fire_ok_def gfcool_verdict_fire_ok_def verdict_fresh_def mono_ms_def frame_simps Let_def)
  have w: "want_fire (spindleUpdatePWM os pwm s) = (pwm \<noteq> off_value (spindle_pwm s) \<and> laser_ok s \<and> fst (gfcool_fire_ok os s)) \<and>
     (\<exists>p. want_power (spindleUpdatePWM os pwm s) = p AND 0x7f)"
    using assms f by (auto simp: spindleUpdatePWM_def stream_laser_wants Let_def case_prod_beta u_def [symmetric])
  then show ?thesis using mask7_le by (auto simp: gfcool_fire_ok_iff)
qed

lemma bench_ctl_alive: "\<not> failed bench_ctl"
  using bench_gf_sel by (simp add: bench_ctl_def ctl_of_def)

theorem fire_needs_window_witness:
  "want_fire (spindleUpdatePWM still_os 100 (bench_ctl\<lparr>laser_ok := True\<rparr>)) \<and>
   \<not> want_fire (spindleUpdatePWM still_os 100 bench_ctl) \<and> unat (want_power (spindleUpdatePWM still_os 100 bench_ctl)) \<le> 127"
  using fire_needs_window [of "bench_ctl\<lparr>laser_ok := True\<rparr>" still_os 100] fire_needs_window [of bench_ctl still_os 100] bench_ctl_alive
  by (simp add: bench_ctl_def ctl_of_def fresh_at_def)

section \<open>The spindle follows the window\<close>

lemma stream_laser_cur [simp]: "cur_state (gf_stream_laser os p f s) = cur_state s" "laser_ok (gf_stream_laser os p f s) = laser_ok s"
  by (simp_all add: gf_stream_laser_def laser_event_locked_def clamp_locked_def laser_queue_def lev_merge_def lev_push_def
       frame_simps Let_def case_prod_beta)

lemma gfcool_fire_ok_cur [simp]:
  "cur_state (snd (gfcool_fire_ok os s)) = cur_state s" "laser_ok (snd (gfcool_fire_ok os s)) = laser_ok s"
  by (simp_all add: gfcool_fire_ok_def gfcool_verdict_fire_ok_def verdict_fresh_def mono_ms_def frame_simps Let_def)

lemma update_pwm_cur [simp]: "cur_state (spindleUpdatePWM os p s) = cur_state s" "laser_ok (spindleUpdatePWM os p s) = laser_ok s"
  by (simp_all add: spindleUpdatePWM_def Let_def case_prod_beta)

lemma set_state_push_sel [simp]:
  "laser_ok (set_state_push os co hp st rpm s) = laser_ok s" "cur_state (set_state_push os co hp st rpm s) = st"
  by (simp_all add: set_state_push_def Let_def)

lemma gflaser_arm_opens: "gflaser_arm os co rt s = Some (True, s') \<Longrightarrow> laser_ok s'"
proof -
  assume a: "gflaser_arm os co rt s = Some (True, s')"
  then obtain u where "arm_complete os co rt u = Some (True, s')"
    by (auto simp: gflaser_arm_def Let_def case_prod_beta split: if_splits option.splits)
  then show ?thesis using arm_complete_ends [of os co rt u True s'] window_open_sel(1) by auto
qed

text \<open>The three ways of a spindle command.\<close>

lemma set_state_ways:
  "\<not> (spindle_on st \<and> \<not> laser_ok s) \<Longrightarrow> set_state_arm os co rt st s = Some (st, s)"
  "spindle_on st \<Longrightarrow> \<not> laser_ok s \<Longrightarrow> state_get co s = {CHECK_MODE} \<or> in_state (state_get co s) {HOLD, SAFETY_DOOR} \<Longrightarrow>
     \<exists>m. set_state_arm os co rt st s = Some (st\<lparr>spindle_on := False\<rparr>, report_message m s)"
  "spindle_on st \<Longrightarrow> \<not> laser_ok s \<Longrightarrow> \<not> (state_get co s = {CHECK_MODE} \<or> in_state (state_get co s) {HOLD, SAFETY_DOOR}) \<Longrightarrow>
     set_state_arm os co rt st s = map_option (\<lambda>(ok, u). (if ok then st else st\<lparr>spindle_on := False\<rparr>, u)) (gflaser_arm os co rt s)"
proof -
  show "\<not> (spindle_on st \<and> \<not> laser_ok s) \<Longrightarrow> set_state_arm os co rt st s = Some (st, s)"
    unfolding set_state_arm_def by (simp only: if_False)
  assume on: "spindle_on st" "\<not> laser_ok s"
  show "\<exists>m. set_state_arm os co rt st s = Some (st\<lparr>spindle_on := False\<rparr>, report_message m s)"
    if "state_get co s = {CHECK_MODE} \<or> in_state (state_get co s) {HOLD, SAFETY_DOOR}"
    using that on
    by (intro exI [of _ "if state_get co s = {CHECK_MODE} then ''laser not armed in check mode''
          else ''laser not armed - hold and resume again to re-arm''"]) (auto simp: set_state_arm_def)
  show "set_state_arm os co rt st s = map_option (\<lambda>(ok, u). (if ok then st else st\<lparr>spindle_on := False\<rparr>, u)) (gflaser_arm os co rt s)"
    if "\<not> (state_get co s = {CHECK_MODE} \<or> in_state (state_get co s) {HOLD, SAFETY_DOOR})"
    using that on by (simp add: set_state_arm_def)
qed

text \<open>
  After a spindle command the recorded state is on only if the window is open; and
  with the window closed, in check mode and inside a hold or a door state, the state
  is off and the window stays closed: no arm is begun there.
\<close>

theorem spindle_on_needs_window:
  assumes "spindleSetState os co rt hp st rpm s = Some s'"
  shows "(spindle_on (cur_state s') \<longrightarrow> laser_ok s') \<and>
    (\<not> laser_ok s \<and> (state_get co s = {CHECK_MODE} \<or> in_state (state_get co s) {HOLD, SAFETY_DOOR}) \<longrightarrow>
       \<not> spindle_on (cur_state s') \<and> \<not> laser_ok s')"
proof -
  obtain st' u where u: "set_state_arm os co rt st s = Some (st', u)" and s': "s' = set_state_push os co hp st' rpm u"
    using assms by (auto simp: spindleSetState_def)
  define dark where "dark \<longleftrightarrow> state_get co s = {CHECK_MODE} \<or> in_state (state_get co s) {HOLD, SAFETY_DOOR}"
  have "(spindle_on st' \<longrightarrow> laser_ok u) \<and> (\<not> laser_ok s \<and> dark \<longrightarrow> \<not> spindle_on st' \<and> \<not> laser_ok u)"
  proof (cases "spindle_on st \<and> \<not> laser_ok s")
    case False
    then show ?thesis using u set_state_ways(1) [OF False, of os co rt] by auto
  next
    case asked: True
    show ?thesis
    proof (cases dark)
      case True
      then obtain m where "st' = st\<lparr>spindle_on := False\<rparr>" "u = report_message m s"
        using u set_state_ways(2) [of st s co os rt] asked by (auto simp: dark_def)
      then show ?thesis using asked by simp
    next
      case False
      then obtain ok where ok: "gflaser_arm os co rt s = Some (ok, u)" "st' = (if ok then st else st\<lparr>spindle_on := False\<rparr>)"
        using u set_state_ways(3) [of st s co os rt] asked unfolding dark_def by auto
      then show ?thesis using gflaser_arm_opens [of os co rt s u] False by (cases ok) auto
    qed
  qed
  then show ?thesis by (simp add: s' dark_def)
qed

definition bench_on :: ctl where
  "bench_on = set_state_push still_os bench_co True \<lparr>spindle_on = True, spindle_ccw = False\<rparr> 500 bench_armed"

theorem spindle_on_needs_window_witness: "spindle_on (cur_state bench_on) \<and> laser_ok bench_on"
proof -
  have "set_state_arm still_os bench_co idle_rt \<lparr>spindle_on = True, spindle_ccw = False\<rparr> bench_ctl =
      Some (\<lparr>spindle_on = True, spindle_ccw = False\<rparr>, bench_armed)"
    using bench_armed by (simp add: set_state_arm_def bench_co_def) (simp add: STATE_IDLE_def bench_ctl_def ctl_of_def)
  then have "spindleSetState still_os bench_co idle_rt True \<lparr>spindle_on = True, spindle_ccw = False\<rparr> 500 bench_ctl = Some bench_on"
    by (simp add: spindleSetState_def bench_on_def)
  from spindle_on_needs_window [OF this] show ?thesis by (simp add: bench_on_def)
qed

section \<open>The re-arm of a held job\<close>

lemma rearm_end_ok_sel [simp]: "laser_ok (rearm_end os co b s) = laser_ok s"
  by (simp add: rearm_end_def arm_back_out_def Let_def)


definition held_co :: core where
  "held_co = bench_co\<lparr>co_state := (\<lambda>ct tr. {HOLD}), co_switches := (\<lambda>ct tr. Some [12, 0])\<rparr>"

definition bench_held :: ctl where
  "bench_held = bench_ctl\<lparr>rearm_pending := True, rearm_released := True, rearm_client_gen := 1\<rparr>"

lemma held_press: "\<exists>s'. rearm_poll still_os held_co idle_rt bench_held = Some s' \<and> laser_ok s'"
proof -
  define s1 where "s1 = (snd (arm_switches still_os held_co bench_held))\<lparr>rearm_unreadable := 0\<rparr>"
  have st: "in_state (state_get held_co s) {HOLD, SAFETY_DOOR}" "serial_client_generation held_co s = 1" for s
    by (simp_all add: held_co_def bench_co_def gen_co_def state_get_def in_state_def serial_client_generation_def)
  have rd: "arm_switches still_os held_co bench_held = (Arm_Pressed, core_emit (Sw_read (Some [12, 0])) bench_held)"
    by (simp add: arm_switches_def gfsw_read_raw_def held_co_def bench_held_def bench_ctl_def SW_BYTES_def bench_words Let_def)
  have g: "good_verdict (gfsw_button_consumed s1)"
    using bench_ctl_good(1) unfolding s1_def rd by (simp add: bench_held_def good_verdict_def gfsw_button_consumed_def core_emit_def)
  obtain u where "arm_complete still_os held_co idle_rt (gfsw_button_consumed s1) = Some (True, window_open still_os held_co u)"
    using bench_arm_complete [OF g] by blast
  then have "rearm_press still_os held_co idle_rt s1 = Some (protocol_enqueue_realtime_command CMD_CYCLE_START
      (rearm_end still_os held_co True (window_open still_os held_co u)))"
    by (simp add: rearm_press_def window_open_sel Let_def)
  moreover have "rearm_poll still_os held_co idle_rt bench_held = rearm_press still_os held_co idle_rt s1"
    by (simp add: rearm_poll_def st rd s1_def Let_def) (simp add: bench_held_def core_emit_def)
  ultimately show ?thesis by (simp add: window_open_sel protocol_enqueue_realtime_command_def)
qed


section \<open>What closes the window\<close>

text \<open>
  C13. After a poll the window is open only if the core was in no alarm, no e-stop and not
  homing, and the sender was the one it was opened for, when the poll looked; a job
  that was running for a displaced sender has been sent a feed hold.
\<close>

theorem poll_closes_window:
  assumes "gflaser_poll os co rt s = Some s'"
  shows "\<exists>u. rearm_poll os co rt (poll_emission os (poll_suppress os (poll_fail_alarm co (fire_gate_publish os s)))) = Some u \<and>
    (laser_ok s' \<longrightarrow> laser_ok u \<and> \<not> in_state (state_get co u) {ALARM, ESTOP, HOMING} \<and>
       serial_client_generation co u = armed_client_gen u) \<and>
    (laser_ok u \<and> \<not> in_state (state_get co u) {ALARM, ESTOP, HOMING} \<and> serial_client_generation co u \<noteq> armed_client_gen u \<and>
       state_get co u = {CYCLE} \<longrightarrow> Cmd CMD_FEED_HOLD \<in> set (core_tr s'))"
proof -
  obtain u where u: "rearm_poll os co rt (poll_emission os (poll_suppress os (poll_fail_alarm co (fire_gate_publish os s)))) = Some u"
    "s' = poll_window os co u"
    using assms by (auto simp: gflaser_poll_def Let_def)
  have d: "set (core_tr v) \<subseteq> set (core_tr (gflaser_disarm os co v))" for v
  proof -
    have "grown (core_tr v) (core_tr (gflaser_disarm os co v))"
      by (simp add: gflaser_disarm_def gf_stream_fire_gate_def gf_stream_laser_arm_def Let_def case_prod_beta)
    then show ?thesis by (auto simp: grown_def)
  qed
  have "\<not> laser_ok (poll_window os co u)"
    if "\<not> (laser_ok u \<and> \<not> in_state (state_get co u) {ALARM, ESTOP, HOMING} \<and> serial_client_generation co u = armed_client_gen u)"
    using that gflaser_disarm_sel(1) [of os co] by (auto simp: poll_window_def Let_def)
  moreover have "Cmd CMD_FEED_HOLD \<in> set (core_tr (poll_window os co u))"
    if "laser_ok u" "\<not> in_state (state_get co u) {ALARM, ESTOP, HOMING}" "serial_client_generation co u \<noteq> armed_client_gen u"
      "state_get co u = {CYCLE}"
    using that d [of "report_message ''sender changed - job held, laser disarmed; a resume re-arms''
        (protocol_enqueue_realtime_command CMD_FEED_HOLD u)"]
    by (simp add: poll_window_def Let_def subset_eq)
  ultimately show ?thesis using u by blast
qed

text \<open>The bench armed, then the sender is displaced in a running cycle.\<close>

definition cycle_co :: core where
  "cycle_co = bench_co\<lparr>co_state := (\<lambda>ct tr. {CYCLE}), co_client_gen := (\<lambda>ct tr. 7)\<rparr>"

theorem poll_closes_window_witness:
  "\<exists>s'. gflaser_poll still_os cycle_co idle_rt (bench_ctl\<lparr>laser_ok := True, armed_client_gen := 1\<rparr>) = Some s' \<and>
     \<not> laser_ok s' \<and> Cmd CMD_FEED_HOLD \<in> set (core_tr s')"
proof -
  define s where "s = bench_ctl\<lparr>laser_ok := True, armed_client_gen := 1\<rparr>"
  define u where "u = poll_emission still_os (poll_suppress still_os (poll_fail_alarm cycle_co (fire_gate_publish still_os s)))"
  have st: "state_get cycle_co v = {CYCLE}" "serial_client_generation cycle_co v = 7" for v
    by (simp_all add: cycle_co_def state_get_def serial_client_generation_def)
  have f: "laser_ok (fire_gate_publish still_os v) = laser_ok v" "armed_client_gen (fire_gate_publish still_os v) = armed_client_gen v"
      "rearm_pending (fire_gate_publish still_os v) = rearm_pending v"
      "laser_ok (poll_fail_alarm cycle_co v) = laser_ok v" "armed_client_gen (poll_fail_alarm cycle_co v) = armed_client_gen v"
      "rearm_pending (poll_fail_alarm cycle_co v) = rearm_pending v"
      "laser_ok (poll_suppress still_os v) = laser_ok v" "armed_client_gen (poll_suppress still_os v) = armed_client_gen v"
      "rearm_pending (poll_suppress still_os v) = rearm_pending v" for v :: ctl
    by (simp_all add: fire_gate_publish_def gf_stream_fire_gate_def gfcool_verdict_fire_ok_def verdict_fresh_def mono_ms_def
        poll_fail_alarm_def poll_suppress_def core_defs frame_simps Let_def)
  have e: "laser_ok v \<Longrightarrow> laser_ok (poll_emission still_os v) \<and> armed_client_gen (poll_emission still_os v) = armed_client_gen v \<and>
      rearm_pending (poll_emission still_os v) = rearm_pending v" for v :: ctl
    by (simp add: poll_emission_def frame_simps Let_def)
  have u: "laser_ok u" "armed_client_gen u = 1" "\<not> rearm_pending u"
    using e [of "poll_suppress still_os (poll_fail_alarm cycle_co (fire_gate_publish still_os s))"]
    by (simp_all add: u_def f) (simp_all add: s_def bench_ctl_def ctl_of_def)
  have r: "rearm_poll still_os cycle_co idle_rt u = Some u" using u(3) by (simp add: rearm_poll_def)
  then have p: "gflaser_poll still_os cycle_co idle_rt s = Some (poll_window still_os cycle_co u)"
    unfolding gflaser_poll_def Let_def u_def [symmetric] by simp
  from poll_closes_window [OF p] r u have "\<not> laser_ok (poll_window still_os cycle_co u) \<and>
      Cmd CMD_FEED_HOLD \<in> set (core_tr (poll_window still_os cycle_co u))"
    unfolding u_def [symmetric] by (auto simp: in_state_def st)
  with p show ?thesis unfolding s_def by blast
qed

section \<open>The fail tier\<close>

text \<open>
  A verdict of the fail tier inside the window closes it with the latch locked or
  the stream faulted, sends the reset after the disarm, and owes the alarm: the next
  poll that finds the core idle with the reset done raises it once, and an alarm that
  the reset raised itself settles the debt.
\<close>

theorem fail_tier_aborts:
  assumes "laser_ok s"
  shows "let u = gflaser_verdict_fail os co name s; v = poll_fail_alarm co u;
       alarm = in_state (state_get co u) {ALARM, ESTOP}; landed = (state_get co u = STATE_IDLE \<and> \<not> reset_pending co u)
     in \<not> laser_ok u \<and> safe_latch u \<and> hd (core_tr u) = Cmd CMD_RESET \<and> fail_alarm_pending u \<and>
        core_tr v = (if \<not> alarm \<and> landed then Alarm_AbortCycle # core_tr u else core_tr u) \<and>
        (fail_alarm_pending v \<longleftrightarrow> \<not> alarm \<and> \<not> landed)"
proof -
  define u where "u = gflaser_verdict_fail os co name s"
  have "\<not> laser_ok u \<and> safe_latch u \<and> hd (core_tr u) = Cmd CMD_RESET \<and> fail_alarm_pending u"
    using assms gflaser_disarm_sel [of os co s]
    by (simp add: u_def gflaser_verdict_fail_def safe_latch_def protocol_enqueue_realtime_command_def Let_def)
  then show ?thesis unfolding Let_def u_def [symmetric]
    by (simp add: poll_fail_alarm_def system_raise_alarm_def core_emit_def)
qed

theorem fail_tier_aborts_witness:
  "hd (core_tr (gflaser_verdict_fail still_os bench_co ''CRITICAL'' (bench_ctl\<lparr>laser_ok := True\<rparr>))) = Cmd CMD_RESET"
proof -
  have "laser_ok (bench_ctl\<lparr>laser_ok := True\<rparr>)" by simp
  from fail_tier_aborts [OF this, of still_os bench_co "''CRITICAL''"] show ?thesis by (simp only: Let_def)
qed

end
