(* ===== verification/Cooling_Props.thy ===== *)
theory Cooling_Props
  imports Laser_Props2
begin

text \<open>
  The properties of the cooling client: the freshness window of a verdict, what a
  verdict file can set, and the hold that a verdict takes.
\<close>

section \<open>The freshness window\<close>

lemma half_div: "n < 2 * m \<Longrightarrow> n div m = (if m \<le> n then 1 else 0 :: nat)"
  by (cases "m = 0") (simp_all add: le_div_geq)

lemma top_bit_iff: "bit (uint (x :: u32)) 31 \<longleftrightarrow> 2 ^ 31 \<le> unat x"
proof -
  have lt: "unat x < 2 ^ 32" using unsigned_less [of x, where 'a = nat] by simp
  have d: "unat x div 2 ^ 31 = (if 2 ^ 31 \<le> unat x then 1 else 0)"
    by (rule half_div) (use lt in simp)
  have "bit (uint x) 31 = bit (unat x) 31" by (simp add: bit_unsigned_iff)
  also have "\<dots> = odd (unat x div 2 ^ 31)" by (rule bit_iff_odd)
  finally show ?thesis unfolding d by simp
qed

lemma sint_neg_iff: "sint (x :: u32) < 0 \<longleftrightarrow> 2 ^ 31 \<le> unat x"
proof -
  have b: "0 \<le> uint x" "uint x < 2 ^ 32" using uint_lt2p [of x] by simp_all
  have "sint x = uint x - 2 ^ 32 * of_bool (bit (uint x) 31)"
    using b by (simp add: sint_uint signed_take_bit_eq_take_bit_minus take_bit_int_eq_self)
  then show ?thesis using b top_bit_iff [of x] by (cases "bit (uint x) 31") auto
qed

lemma fresh_after: "fresh_at (until + of_nat k) until \<longleftrightarrow> 2 ^ 31 \<le> k mod 2 ^ 32"
  by (simp add: fresh_at_def sint_neg_iff unat_of_nat)

lemma fresh_before: "fresh_at (until - of_nat k) until \<longleftrightarrow> 0 < k mod 2 ^ 32 \<and> k mod 2 ^ 32 \<le> 2 ^ 31"
proof -
  have "unat (- (of_nat k :: u32)) = (if k mod 2 ^ 32 = 0 then 0 else 2 ^ 32 - k mod 2 ^ 32)"
    using unat_sub_if' [of 0 "of_nat k :: u32"] by (simp add: unat_of_nat)
  then show ?thesis by (auto simp: fresh_at_def sint_neg_iff)
qed

text \<open>
  C22. The signed comparison of the 32-bit clocks, over the whole clock and across its
  wrap: a verdict is fresh in each of the 2000 milliseconds before its deadline and stale
  from the deadline on for 2 to the 31 milliseconds, but an expired deadline that no
  later verdict replaces reads as fresh again for the next 2 to the 31 milliseconds,
  from about 24.8 days after it.
\<close>

theorem fresh_span:
  "(0 < k \<and> k \<le> 2000 \<longrightarrow> fresh_at (until - of_nat k) until) \<and>
   (k < 2 ^ 31 \<longrightarrow> \<not> fresh_at (until + of_nat k) until) \<and>
   (2 ^ 31 \<le> k \<and> k < 2 ^ 32 \<longrightarrow> fresh_at (until + of_nat k) until)"
proof -
  have "k mod 2 ^ 32 = k" if "k < 2 ^ 32" by (rule mod_less) (rule that)
  then show ?thesis unfolding fresh_after fresh_before by force
qed

theorem fresh_span_witness:
  "fresh_at (- 1) 1000 \<and> \<not> fresh_at (4294967295 + 501) 4294967295 \<and> fresh_at 2147484648 1000"
proof -
  have a: "fresh_at (1000 - of_nat 1001) 1000" using fresh_span [of 1001 1000] by simp
  have b: "\<not> fresh_at (4294967295 + of_nat 501) 4294967295" using fresh_span [of 501 4294967295] by simp
  have c: "fresh_at (1000 + of_nat 2147483648) 1000" using fresh_span [of 2147483648 1000] by simp
  show ?thesis using a b c by simp
qed

section \<open>What a verdict file can set\<close>

lemma strstr_some: "strstr t pat = Some q \<Longrightarrow> \<exists>pre post. t = pre @ q \<and> q = pat @ post"
proof (induction t)
  case Nil then show ?case by (simp split: if_splits)
next
  case (Cons c t)
  show ?case
  proof (cases "take (length pat) (c # t) = pat")
    case True
    then have "c # t = pat @ drop (length pat) (c # t)" using append_take_drop_id [of "length pat" "c # t"] by simp
    then show ?thesis using True Cons.prems by fastforce
  next
    case False
    then obtain pre post where "t = pre @ q" "q = pat @ post" using Cons by auto
    then show ?thesis by (auto intro: exI [of _ "c # pre"])
  qed
qed

text \<open>The text somewhere in the file.\<close>

definition occurs :: "string \<Rightarrow> string \<Rightarrow> bool" where
  "occurs pat t \<longleftrightarrow> (\<exists>pre post. t = pre @ pat @ post)"

lemma occurs_after: "json_after body pat = Some p \<Longrightarrow> take n p = v \<Longrightarrow> occurs (pat @ v) body"
proof -
  assume "json_after body pat = Some p" and v: "take n p = v"
  then obtain pre where "body = pre @ pat @ p" unfolding json_after_def by (auto dest!: strstr_some)
  then have "body = pre @ (pat @ v) @ drop n p" using v append_take_drop_id [of n p] by simp
  then show ?thesis unfolding occurs_def by blast
qed

lemma json_bool_true: "json_bool body key False \<Longrightarrow> occurs (json_pat key @ ''true'') body"
  by (auto simp: json_bool_def split: option.splits if_splits intro: occurs_after)

lemma json_bool_false: "\<not> json_bool body key True \<Longrightarrow> occurs (json_pat key @ ''false'') body"
  by (auto simp: json_bool_def split: option.splits if_splits intro: occurs_after)

definition verdict_of :: "'a ctl_scheme \<Rightarrow> (bool \<times> bool \<times> bool \<times> bool) \<times> string \<times> string \<times> u32" where
  "verdict_of s = ((v_hold s, v_resume_ok s, v_fire_ok s, v_armed s), v_reason s, v_name s, v_fresh_until_ms s)"

lemma verdict_age_cases:
  assumes "verdict_age_ms co now ts = Some a"
  shows "ts = NaN \<or> (\<exists>t k. ts = Fin t \<and> now - 2 \<le> t \<and> t \<le> now \<and> int k = 2000 - \<lfloor>(now - t) * 1000\<rfloor> \<and>
    VERDICT_MAX_AGE_MS - a = of_nat k)"
proof (cases ts)
  case (Fin t)
  with assms have b: "0 \<le> now - t" "now - t \<le> 2" and a: "a = of_int \<lfloor>(now - t) * 1000\<rfloor>"
    by (simp_all add: verdict_age_ms_def Let_def split: if_splits)
  define k where "k = nat (2000 - \<lfloor>(now - t) * 1000\<rfloor>)"
  have "\<lfloor>(now - t) * 1000\<rfloor> \<le> 2000" using b(2) by (simp add: floor_le_iff)
  then have k: "int k = 2000 - \<lfloor>(now - t) * 1000\<rfloor>" by (simp add: k_def)
  have "VERDICT_MAX_AGE_MS - a = of_int (2000 - \<lfloor>(now - t) * 1000\<rfloor>)" by (simp add: a VERDICT_MAX_AGE_MS_def)
  also have "\<dots> = of_nat k" unfolding k [symmetric] by simp
  finally show ?thesis using Fin b k by auto
qed (use assms in \<open>simp_all add: verdict_age_ms_def\<close>)


text \<open>A verdict of the engine that is published as the file is read.\<close>

definition verdict_text :: string where
  "verdict_text = ''{'' @ json_pat ''fire_ok'' @ ''true,'' @ json_pat ''hold'' @ ''false,'' @ json_pat ''ts_mono'' @ ''0}''"

definition verdict_os :: os where
  "verdict_os = still_os\<lparr>os_file := (\<lambda>tr f. Some verdict_text)\<rparr>"


section \<open>The hold of a verdict\<close>

lemma hold_take_sel [simp]: "hold_ours (hold_take b s)" "hd (core_tr (hold_take b s)) = Cmd CMD_FEED_HOLD"
  by (simp_all add: hold_take_def core_defs Let_def)

lemma fallback_fans_sel [simp]: "hold_ours (fallback_fans os s) = hold_ours s" "core_tr (fallback_fans os s) = core_tr s"
  by (simp_all add: fallback_fans_def frame_simps Let_def)

lemma report_now_sel [simp]: "hold_ours (report_now os co s) = hold_ours s" "core_tr (report_now os co s) = core_tr s"
  by (simp_all add: report_now_def mono_ms_def frame_simps Let_def)

lemma latch_lock_hold [simp]: "v_hold (snd (latch_lock os b s)) = v_hold s"
proof -
  obtain t e l r f g where "snd (latch_lock os b s) = s\<lparr>io_tr := t, io_errno := e, latch_locked_by_us := l,
      latch_fail_reported := r, failed := f, fault_flag := g\<rparr>" using latch_lock_ex by blast
  then show ?thesis by simp
qed

lemma gflaser_verdict_fail_hold [simp]: "v_hold (gflaser_verdict_fail os co n s) = v_hold s"
  by (simp add: gflaser_verdict_fail_def gflaser_disarm_def gf_stream_fire_gate_def gf_stream_laser_arm_def
      gfcool_laser_armed_def report_now_def mono_ms_def frame_simps core_defs Let_def)

lemma cool_stale_cycle:
  assumes "laser_on_window s \<or> flood (coolant_reported s)"
  shows "hold_ours (cool_stale os {CYCLE} s) \<and> hd (core_tr (cool_stale os {CYCLE} s)) = Cmd CMD_FEED_HOLD"
  using assms by (simp add: cool_stale_def Let_def)

text \<open>The step state that the enforcement starts from, and its three readings.\<close>

definition poll_read :: "os \<Rightarrow> core \<Rightarrow> 'a ctl_scheme \<Rightarrow> 'a ctl_scheme" where
  "poll_read os co s =
     (let (now, s) = mono_ms os s in cool_read os co now (0 \<le> sint (now - next_verdict_ms s)) s)"

definition hold_due :: "os \<Rightarrow> 'a ctl_scheme \<Rightarrow> bool" where
  "hold_due os s =
     (let (fresh, s1) = verdict_fresh os s; (ok, s2) = gfcool_verdict_fire_ok os s1 in
      if fresh then v_hold s \<or> laser_ok s \<and> \<not> ok else laser_on_window s \<or> flood (coolant_reported s))"

lemma tier_sel [simp]:
  "v_hold (decel_track co st (cool_tiers os co fr bl ar s)) = v_hold s"
  "\<not> fr \<Longrightarrow> laser_on_window (decel_track co st (cool_tiers os co fr bl ar s)) = laser_on_window s"
  "\<not> fr \<Longrightarrow> coolant_reported (decel_track co st (cool_tiers os co fr bl ar s)) = coolant_reported s"
  by (simp_all add: decel_track_def cool_tiers_def warn_def core_defs)

lemma tiers_open_tr: "\<not> (ar \<and> bl) \<Longrightarrow> core_tr (decel_track co st (cool_tiers os co fr bl ar s)) = core_tr s"
  unfolding cool_tiers_def by (simp only: if_False) (simp add: decel_track_def)

lemma reason_hold [simp]: "v_hold (cool_reason r (cool_restored s)) = v_hold s"
  by (simp add: cool_reason_def cool_restored_def warn_def core_defs Let_def)

definition quiet :: "core_trace \<Rightarrow> core_trace \<Rightarrow> bool" where
  "quiet old tr \<longleftrightarrow> (\<exists>new. tr = new @ old \<and> (\<forall>c. Cmd c \<notin> set new))"

lemma quiet_refl [simp]: "quiet t t" by (simp add: quiet_def)

lemma quiet_Msg [simp]: "quiet t u \<Longrightarrow> quiet t (Msg m # u)" 
  unfolding quiet_def by (elim exE, rule_tac x = "Msg m # new" in exI) simp

lemma reason_quiet: "quiet t (core_tr s) \<Longrightarrow> quiet t (core_tr (cool_reason r (cool_restored s)))"
  by (simp add: cool_reason_def cool_restored_def warn_def core_defs Let_def)

lemma release_cycle: "cool_release os co rt {CYCLE} s = Some (s\<lparr>jog_warned := False, rehold_said := False, hold_ours := False\<rparr>)"
  by (cases s) (simp add: cool_release_def in_state_def Let_def)

lemma cooling_tr [simp]:
  "core_tr (snd (verdict_fresh os s)) = core_tr s" "core_tr (snd (gfcool_verdict_fire_ok os s)) = core_tr s"
  "v_hold (snd (verdict_fresh os s)) = v_hold s" "v_hold (snd (gfcool_verdict_fire_ok os s)) = v_hold s"
  "laser_ok (snd (verdict_fresh os s)) = laser_ok s" "laser_ok (snd (gfcool_verdict_fire_ok os s)) = laser_ok s"
  "laser_on_window (snd (verdict_fresh os s)) = laser_on_window s"
  "laser_on_window (snd (gfcool_verdict_fire_ok os s)) = laser_on_window s"
  "coolant_reported (snd (verdict_fresh os s)) = coolant_reported s"
  "coolant_reported (snd (gfcool_verdict_fire_ok os s)) = coolant_reported s"
  by (simp_all add: verdict_fresh_def gfcool_verdict_fire_ok_def mono_ms_def frame_simps Let_def)

lemma enforce_cycle:
  assumes "state_get co (snd (verdict_fresh os s)) = {CYCLE}"
  shows "\<exists>s'. cool_enforce os co rt r s = Some s' \<and>
    (hold_due os s \<longrightarrow> hold_ours s' \<and> hd (core_tr s') = Cmd CMD_FEED_HOLD) \<and>
    (fst (verdict_fresh os s) \<and> \<not> hold_due os s \<longrightarrow> \<not> hold_ours s' \<and> quiet (core_tr s) (core_tr s'))"
proof (cases "fst (verdict_fresh os s)")
  case False
  then show ?thesis using assms
    by (simp add: cool_enforce_def hold_due_def cool_stale_cycle case_prod_beta Let_def)
next
  case True
  then show ?thesis using assms
    by (auto simp: cool_enforce_def hold_due_def cool_fresh_def cool_hold_def release_cycle gflaser_armed_def
        reason_quiet tiers_open_tr case_prod_beta Let_def)
qed


text \<open>A job that runs under an open window while the engine has published nothing.\<close>

definition job_co :: core where
  "job_co = bench_co\<lparr>co_state := (\<lambda>ct tr. {CYCLE})\<rparr>"


end
