(* ===== verification/Switch_Props.thy ===== *)
theory Switch_Props
  imports Laser_Props2
begin

text \<open>
  The properties of the switch module: what the core is told of the door, the agreement
  of its decode with the laser module's, and the lid policy as a state machine.
\<close>

section \<open>What the core is told of the door\<close>

text \<open>
  The door as the core has it from the reports: an assertion sets it, a report with
  the mark of a deassertion clears it.
\<close>

fun told_door :: "core_trace \<Rightarrow> bool" where
  "told_door [] = False"
| "told_door (Signals sg # tr) = (if safety_door_ajar sg then \<not> deasserted sg else told_door tr)"
| "told_door (e # tr) = told_door tr"

definition told_ok :: "'a ctl_scheme \<Rightarrow> bool" where
  "told_ok s \<longleftrightarrow> delivered s = \<lparr>safety_door_ajar = told_door (core_tr s), deasserted = False\<rparr>"

text \<open>The door as the switches and the state of the core have it.\<close>

definition door_shown :: "core \<Rightarrow> u8 list \<Rightarrow> 'a ctl_scheme \<Rightarrow> bool" where
  "door_shown co sw s \<longleftrightarrow> (\<not> bit (sw ! 0) 3 \<or> bit (sw ! 0) 5) \<and>
     state_get co s \<notin> {STATE_IDLE, {JOG}, {HOMING}} \<and> \<not> door_hidden s"

lemma visible_shown:
  "visible_signals co (gfsw_map_bits sw) s = \<lparr>safety_door_ajar = door_shown co sw s, deasserted = False\<rparr>"
  by (auto simp: visible_signals_def gfsw_visible_def gfsw_map_bits_def no_signals_def gfsw_bit_set_bit
      SW_BIT_DOORS_def SW_BIT_INTERLOCK_def door_shown_def Let_def)

lemma deliver_upd:
  assumes "told_ok s"
  shows "deliver co (gfsw_map_bits sw) s =
    (let old = told_door (core_tr s); new = door_shown co sw s;
         s1 = s\<lparr>delivered := \<lparr>safety_door_ajar = new, deasserted = False\<rparr>\<rparr>
     in if new = old then s1
        else core_emit (Signals \<lparr>safety_door_ajar = True, deasserted = old\<rparr>) s1)"
  using assms by (cases "told_door (core_tr s)"; cases "door_shown co sw s")
    (simp_all add: deliver_def told_ok_def gfsw_edges_def any_signal_def visible_shown interrupt_callback_def Let_def)

lemma delivered_same: "delivered s = d \<Longrightarrow> s\<lparr>delivered := d\<rparr> = s"
  by (cases s) simp

text \<open>
  C20. A delivery tells the core of the door exactly what the switch word and the state
  of the core make visible: the lid or the loop open, the core not idle, jogging or
  homing, and no cancel in flight. The reports that the core has seen add up to that,
  each report is one edge, and a second delivery with nothing changed reports nothing.
\<close>

theorem deliver_tells:
  assumes "told_ok s"
  shows "let s' = deliver co (gfsw_map_bits sw) s in
    told_ok s' \<and> told_door (core_tr s') = door_shown co sw s \<and>
    core_tr s' = (if door_shown co sw s = told_door (core_tr s) then []
      else [Signals \<lparr>safety_door_ajar = True, deasserted = told_door (core_tr s)\<rparr>]) @ core_tr s \<and>
    (state_get co s' = state_get co s \<longrightarrow> deliver co (gfsw_map_bits sw) s' = s')"
proof -
  define s' where "s' = deliver co (gfsw_map_bits sw) s"
  have u: "s' = (let old = told_door (core_tr s); new = door_shown co sw s;
         s1 = s\<lparr>delivered := \<lparr>safety_door_ajar = new, deasserted = False\<rparr>\<rparr>
     in if new = old then s1
        else core_emit (Signals \<lparr>safety_door_ajar = True, deasserted = old\<rparr>) s1)"
    unfolding s'_def by (rule deliver_upd [OF assms])
  have t: "told_ok s'" "told_door (core_tr s') = door_shown co sw s" "door_hidden s' = door_hidden s"
    "delivered s' = \<lparr>safety_door_ajar = door_shown co sw s, deasserted = False\<rparr>"
    by (simp_all add: u told_ok_def core_emit_def Let_def)
  have "deliver co (gfsw_map_bits sw) s' = s'" if "state_get co s' = state_get co s"
  proof -
    have "door_shown co sw s' = door_shown co sw s" using that t by (simp add: door_shown_def)
    then have "deliver co (gfsw_map_bits sw) s' = s'\<lparr>delivered := \<lparr>safety_door_ajar = door_shown co sw s, deasserted = False\<rparr>\<rparr>"
      using deliver_upd [OF t(1), of co sw] t(2) by (simp add: Let_def)
    also have "\<dots> = s'" by (rule delivered_same [OF t(4)])
    finally show ?thesis .
  qed
  moreover have "core_tr s' = (if door_shown co sw s = told_door (core_tr s) then []
      else [Signals \<lparr>safety_door_ajar = True, deasserted = told_door (core_tr s)\<rparr>]) @ core_tr s"
    by (simp add: u core_emit_def Let_def)
  ultimately show ?thesis using t by (simp add: s'_def [symmetric] Let_def)
qed

theorem deliver_tells_witness:
  "let s' = deliver (bench_co\<lparr>co_state := (\<lambda>ct tr. {CYCLE})\<rparr>) (gfsw_map_bits [0, 0]) (ctl_of bench_gf) in
   told_door (core_tr s')"
proof -
  let ?co = "bench_co\<lparr>co_state := (\<lambda>ct tr. {CYCLE})\<rparr>"
  have t: "told_ok (ctl_of bench_gf)" by (simp add: told_ok_def ctl_of_def no_signals_def)
  have "door_shown ?co [0, 0] (ctl_of bench_gf)"
    by (simp add: door_shown_def state_get_def STATE_IDLE_def ctl_of_def)
  then show ?thesis using deliver_tells [OF t, of ?co "[0, 0]"] by (simp add: Let_def)
qed

section \<open>The two decodes of the switch word\<close>

text \<open>
  The laser module's reading of a switch word and the switch module's door signal
  agree on every word: an arm sees a press exactly when the door signal is clear and
  the button bit is set, waits exactly when it is clear and the button is up, and
  refuses for the lid or the loop exactly when the core is shown an open door.
\<close>

lemma arm_door_agree:
  "(arm_word (Some sw) = Arm_Pressed \<longleftrightarrow> \<not> safety_door_ajar (gfsw_map_bits sw) \<and> bit (sw ! 0) 2) \<and>
   (arm_word (Some sw) = Arm_Waiting \<longleftrightarrow> \<not> safety_door_ajar (gfsw_map_bits sw) \<and> \<not> bit (sw ! 0) 2) \<and>
   (arm_word (Some sw) \<in> {Arm_LidOpen, Arm_InterlockOpen} \<longleftrightarrow> safety_door_ajar (gfsw_map_bits sw))"
  by (simp add: arm_word_def gfsw_map_bits_def no_signals_def gfsw_bit_set_bit
      SW_BIT_DOORS_def SW_BIT_INTERLOCK_def SW_BIT_BUTTON_def)

section \<open>The lid policy\<close>

text \<open>The commands of a stretch of the trace, newest first.\<close>

definition acts :: "core_trace \<Rightarrow> core_trace" where
  "acts tr = filter (\<lambda>e. case e of Cmd c \<Rightarrow> True | Gcode l q \<Rightarrow> True | Alarm_AbortCycle \<Rightarrow> True | Signals sg \<Rightarrow> True | _ \<Rightarrow> False) tr"

text \<open>
  The policy as it is meant: a job that the lid ends is canceled, then the core is reset
  once, then the return is queued, at most once with success, then it is over.
\<close>

inductive cancel_spec :: "cancel \<Rightarrow> core_trace \<Rightarrow> cancel \<Rightarrow> bool" where
  stay: "cancel_spec c [] c"
| lid: "cancel_spec Cancel_None [] Cancel_WaitDrain"
| reset: "cancel_spec Cancel_WaitDrain [Cmd CMD_RESET] Cancel_ResetSent"
| park: "cancel_spec Cancel_ResetSent [Gcode l True] Cancel_ParkQueued"
| retry: "cancel_spec Cancel_ResetSent [Gcode l False] Cancel_ResetSent"
| give_up: "cancel_spec Cancel_ResetSent [Gcode l False] Cancel_None"
| over: "cancel_spec Cancel_ResetSent [] Cancel_None"
| home: "cancel_spec Cancel_ParkQueued [] Cancel_None"

lemma send_reset_sel: "cancel_state (send_reset os s) = Cancel_ResetSent" "core_tr (send_reset os s) = Cmd CMD_RESET # core_tr s"
  by (simp_all add: send_reset_def frame_simps core_defs Let_def)

lemma wait_drain_sel:
  "(cancel_state (cancel_wait_drain os st s), core_tr (cancel_wait_drain os st s)) =
     (if fst (gf_stream_kernel_idle os s) \<or> st \<noteq> {SAFETY_DOOR} \<or>
         fst (wall_s os (snd (gf_stream_kernel_idle os s))) - park_at s > DRAIN_WAIT_S
      then (Cancel_ResetSent, Cmd CMD_RESET # core_tr s) else (cancel_state s, core_tr s))"
proof -
  have k: "cancel_state (snd (gf_stream_kernel_idle os s)) = cancel_state s" "core_tr (snd (gf_stream_kernel_idle os s)) = core_tr s"
    "park_at (snd (gf_stream_kernel_idle os s)) = park_at s"
    by (simp_all add: gf_stream_kernel_idle_def frame_simps Let_def)
  show ?thesis by (simp add: cancel_wait_drain_def send_reset_sel k frame_simps case_prod_beta Let_def)
qed

lemma cancel_job_sel: "cancel_state (cancel_job os co s) = Cancel_WaitDrain" "door_hidden (cancel_job os co s)"
  "laser_ok (cancel_job os co s) = laser_ok (gflaser_disarm os co s)"
  "laser_armed (cancel_job os co s) = laser_armed (gflaser_disarm os co s)"
  "fire_gate (cancel_job os co s) = fire_gate (gflaser_disarm os co s)"
  "latch_locked_by_us (cancel_job os co s) = latch_locked_by_us (gflaser_disarm os co s)"
  "latch_fail_reported (cancel_job os co s) = latch_fail_reported (gflaser_disarm os co s)"
  by (simp_all add: cancel_job_def frame_simps core_defs Let_def)

lemma acts_simps [simp]: "acts [] = []" "acts (Msg m # tr) = acts tr" "acts (Led n # tr) = acts tr"
  "acts (Cmd c # tr) = Cmd c # acts tr" "acts (Gcode l q # tr) = Gcode l q # acts tr" "acts (a @ b) = acts a @ acts b"
  by (simp_all add: acts_def)

text \<open>The stretch of the trace that an operation adds does only these actions.\<close>

definition does :: "core_trace \<Rightarrow> core_trace \<Rightarrow> core_trace \<Rightarrow> bool" where
  "does old tr as \<longleftrightarrow> (\<exists>new. tr = new @ old \<and> acts new = as)"

lemma does_simps [simp]: "does t t []" "does t u as \<Longrightarrow> does t (Msg m # u) as" "does t u as \<Longrightarrow> does t (Led n # u) as"
  "does t (Cmd c # t) [Cmd c]" "does t (Gcode l q # t) [Gcode l q]"
  unfolding does_def by (force intro: exI [of _ "_ # _"])+

lemma disarm_does [simp]: "does t (core_tr s) as \<Longrightarrow> does t (core_tr (gflaser_disarm os co s)) as"
  by (simp add: gflaser_disarm_def gf_stream_fire_gate_def gf_stream_laser_arm_def gf_stream_latch_locked_by_us_def
      gfcool_laser_armed_def report_now_def mono_ms_def frame_simps core_defs Let_def)

lemma cancel_job_does: "does (core_tr s) (core_tr (cancel_job os co s)) []"
  by (simp add: cancel_job_def frame_simps core_defs Let_def)

text \<open>The two later states, by what the poll does in them.\<close>

lemma reset_sent_cases:
  fixes os co st and s :: "'a ctl_scheme"
  assumes "cancel_state s = Cancel_ResetSent"
  defines "s' \<equiv> cancel_reset_sent os co st s"
  shows "does (core_tr s) (core_tr s') [] \<and> cancel_state s' = Cancel_ResetSent \<and> (reset_pending co s \<or> st \<noteq> STATE_IDLE) \<or>
    does (core_tr s) (core_tr s') [] \<and> cancel_state s' = Cancel_None \<or>
    (let q = co_enqueue_ok co (core_tr s) (park_line (job_start s)) in
       does (core_tr s) (core_tr s') [Gcode (park_line (job_start s)) q] \<and>
       (if q then cancel_state s' = Cancel_ParkQueued else cancel_state s' \<in> {Cancel_ResetSent, Cancel_None}) \<and>
       st = STATE_IDLE \<and> \<not> reset_pending co s \<and> have_job_start s)"
  using assms(1) unfolding s'_def
  by (cases "co_enqueue_ok co (core_tr s) (park_line (job_start s))")
     (simp_all add: cancel_reset_sent_def cancel_end_def enqueue_gcode_def frame_simps core_defs Let_def)

lemma park_queued_cases:
  fixes os co st and s :: "'a ctl_scheme"
  assumes "cancel_state s = Cancel_ParkQueued"
  defines "s' \<equiv> cancel_park_queued os st s"
  shows "does (core_tr s) (core_tr s') [] \<and> (cancel_state s' = Cancel_ParkQueued \<and> \<not> in_state st {ALARM, ESTOP} \<or>
    cancel_state s' = Cancel_None \<and> (in_state st {ALARM, ESTOP} \<or> st = STATE_IDLE \<and>
      (park_saw_cycle s \<or> fst (wall_s os s) - park_at s > PARK_ZERO_LENGTH_S)))"
  using assms(1) unfolding s'_def
  by (simp add: cancel_park_queued_def cancel_end_def frame_simps core_defs in_state_def STATE_IDLE_def Let_def)

lemma cancel_none_cases:
  fixes os co st and s :: "'a ctl_scheme"
  assumes "cancel_state s = Cancel_None"
  defines "s' \<equiv> cancel_none os co st s"
  shows "does (core_tr s) (core_tr s') [] \<and>
    (cancel_state s' = Cancel_None \<and> \<not> (door_parked co st s \<and> \<not> hold_seen s \<and> lid_cancels os s) \<or>
     s' = cancel_job os co s \<and> door_parked co st s \<and> \<not> hold_seen s \<and> lid_cancels os s)"
  using assms(1) cancel_job_does [of s os co] unfolding s'_def by (simp add: cancel_none_def)

text \<open>
  C11. Every poll of the lid policy is a step of the policy as it is meant, with exactly
  the commands that the step has: a canceled job gives the core one reset, the return
  to the job start is queued only after it, no step commands anything else, and the
  machine never returns to an earlier state but the resting one.
\<close>

theorem cancel_refines:
  "\<exists>new. core_tr (cancel_poll os co st s) = new @ core_tr s \<and>
     cancel_spec (cancel_state s) (acts new) (cancel_state (cancel_poll os co st s))"
proof -
  have d: "\<exists>new. tr = new @ core_tr s \<and> cancel_spec c (acts new) c'"
    if "does (core_tr s) tr as" "cancel_spec c as c'" for tr as c c'
    using that unfolding does_def by blast
  show ?thesis
  proof (cases "cancel_state s")
    case Cancel_None
    then show ?thesis using cancel_none_cases [OF Cancel_None, of os co st]
      by (auto simp: cancel_poll_def cancel_job_sel intro!: d intro: cancel_spec.intros)
  next
    case Cancel_WaitDrain
    then show ?thesis using wait_drain_sel [of os st s]
      by (auto simp: cancel_poll_def intro!: d intro: cancel_spec.intros split: if_splits)
  next
    case Cancel_ResetSent
    then have p: "cancel_poll os co st s = cancel_reset_sent os co st s" by (simp add: cancel_poll_def)
    from reset_sent_cases [OF Cancel_ResetSent, of os co st] show ?thesis unfolding p Cancel_ResetSent Let_def
      by (elim disjE conjE) (auto intro: d [OF _ stay] d [OF _ over] d [OF _ park] d [OF _ retry] d [OF _ give_up] split: if_splits)
  next
    case Cancel_ParkQueued
    then show ?thesis using park_queued_cases [OF Cancel_ParkQueued, of os st]
      by (auto simp: cancel_poll_def intro!: d intro: cancel_spec.intros)
  qed
qed

text \<open>
  When the steps of the lid policy are taken: a job is canceled exactly when it has
  parked for the door under a policy other than hold, and then the window is closed,
  the fire gate is shut, the latch is locked or the stream faulted and the door is
  hidden; the reset is held back only in the door state with a kernel that has not
  drained, for at most 2 seconds by the clock; the return is queued to the recorded job
  start, only by an idle core with no reset pending; and an alarm or emergency stop ends the cancel.
\<close>

theorem cancel_conditions:
  "let s' = cancel_poll os co st s in
   (cancel_state s = Cancel_None \<longrightarrow>
      (cancel_state s' = Cancel_WaitDrain \<longleftrightarrow> door_parked co st s \<and> \<not> hold_seen s \<and> lid_cancels os s) \<and>
      (cancel_state s' = Cancel_WaitDrain \<longrightarrow> \<not> laser_ok s' \<and> \<not> laser_armed s' \<and> \<not> fire_gate s' \<and> door_hidden s' \<and>
         (latch_locked_by_us s' \<or> latch_fail_reported s'))) \<and>
   (cancel_state s = Cancel_WaitDrain \<and> cancel_state s' = Cancel_WaitDrain \<longrightarrow>
      st = {SAFETY_DOOR} \<and> \<not> fst (gf_stream_kernel_idle os s) \<and>
      fst (wall_s os (snd (gf_stream_kernel_idle os s))) \<le> park_at s + 2) \<and>
   (cancel_state s = Cancel_ResetSent \<and> cancel_state s' = Cancel_ParkQueued \<longrightarrow>
      st = STATE_IDLE \<and> \<not> reset_pending co s \<and> have_job_start s \<and>
      does (core_tr s) (core_tr s') [Gcode (park_line (job_start s)) True]) \<and>
   (cancel_state s \<in> {Cancel_ResetSent, Cancel_ParkQueued} \<and> in_state st {ALARM, ESTOP} \<longrightarrow>
      cancel_state s' = Cancel_None \<and> \<not> door_hidden s')"
proof -
  have 1: "cancel_state s = Cancel_None \<Longrightarrow> (cancel_state (cancel_poll os co st s) = Cancel_WaitDrain \<longleftrightarrow>
      door_parked co st s \<and> \<not> hold_seen s \<and> lid_cancels os s)"
    using cancel_none_cases [of s os co st] by (auto simp: cancel_poll_def cancel_job_sel)
  have 2: "cancel_poll os co st s = cancel_job os co s"
    if "cancel_state s = Cancel_None" "cancel_state (cancel_poll os co st s) = Cancel_WaitDrain"
    using cancel_none_cases [of s os co st] that by (auto simp: cancel_poll_def)
  have 3: "cancel_state s = Cancel_WaitDrain \<Longrightarrow> cancel_state (cancel_poll os co st s) = Cancel_WaitDrain \<Longrightarrow>
      st = {SAFETY_DOOR} \<and> \<not> fst (gf_stream_kernel_idle os s) \<and>
      fst (wall_s os (snd (gf_stream_kernel_idle os s))) \<le> park_at s + 2"
    using wait_drain_sel [of os st s] by (auto simp: cancel_poll_def DRAIN_WAIT_S_def split: if_splits)
  have 4: "cancel_state s = Cancel_ResetSent \<Longrightarrow> cancel_state (cancel_poll os co st s) = Cancel_ParkQueued \<Longrightarrow>
      st = STATE_IDLE \<and> \<not> reset_pending co s \<and> have_job_start s \<and>
      does (core_tr s) (core_tr (cancel_poll os co st s)) [Gcode (park_line (job_start s)) True]"
    using reset_sent_cases [of s os co st] by (auto simp: cancel_poll_def Let_def split: if_splits)
  have 5: "cancel_state s \<in> {Cancel_ResetSent, Cancel_ParkQueued} \<Longrightarrow> in_state st {ALARM, ESTOP} \<Longrightarrow>
      cancel_state (cancel_poll os co st s) = Cancel_None \<and> \<not> door_hidden (cancel_poll os co st s)"
  proof -
    assume c: "cancel_state s \<in> {Cancel_ResetSent, Cancel_ParkQueued}" and i: "in_state st {ALARM, ESTOP}"
    then have "st \<noteq> {CYCLE}" "st \<noteq> STATE_IDLE" by (auto simp: in_state_def STATE_IDLE_def)
    then show ?thesis using c i
      by (cases "cancel_state s") (simp_all add: cancel_poll_def cancel_reset_sent_def cancel_park_queued_def cancel_end_def)
  qed
  show ?thesis using 1 2 3 4 5 gflaser_disarm_sel [of os co s] by (simp add: cancel_job_sel Let_def)
qed

theorem cancel_conditions_witness:
  "let s' = cancel_poll bench_os (bench_co\<lparr>co_door_parked := (\<lambda>ct tr. True)\<rparr>) {SAFETY_DOOR} (ctl_of bench_gf)
   in cancel_state s' = Cancel_WaitDrain \<and> \<not> fire_gate s'"
proof -
  let ?co = "bench_co\<lparr>co_door_parked := (\<lambda>ct tr. True)\<rparr>"
  have l: "lid_cancels bench_os (ctl_of bench_gf)"
    by (simp add: lid_cancels_def gfio_conf_read_def bench_os_def Let_def)
  have "cancel_state (ctl_of bench_gf) = Cancel_None" "\<not> hold_seen (ctl_of bench_gf)"
    "door_parked ?co {SAFETY_DOOR} (ctl_of bench_gf)"
    by (simp_all add: ctl_of_def door_parked_def)
  then show ?thesis using l cancel_conditions [of bench_os ?co "{SAFETY_DOOR}" "ctl_of bench_gf"] by (simp add: Let_def)
qed

end
