(* ===== verification/Dose_Props.thy ===== *)
theory Dose_Props
  imports Laser_Props2
begin

text \<open>
  The properties of the dose: the curve that any configuration text puts in force, and
  the power level that a commanded speed becomes.
\<close>



section \<open>The power level\<close>

lemma roll_off:
  fixes lt r g :: real
  assumes "0 \<le> lt" "0 < r" "r < 1" "1 \<le> g"
  shows "lt * r powr (g - 1) \<le> lt" "0 \<le> lt * r powr (g - 1)"
proof -
  have "r powr (g - 1) \<le> 1" using assms by (intro powr_le1) auto
  then show "lt * r powr (g - 1) \<le> lt" using assms(1) mult_left_mono [of "r powr (g - 1)" 1 lt] by simp
qed (use assms in simp)

lemma commanded_light_mono:
  assumes "co_rpm_range co = (lo, hi)" "lo < hi" "lo \<le> r" "r \<le> r'"
  shows "0 \<le> commanded_light co r s" "commanded_light co r s \<le> commanded_light co r' s"
proof -
  define f where "f x = (if (x - lo) / (hi - lo) > 1 then 1 else (x - lo) / (hi - lo))" for x
  have f: "0 \<le> f r" "f r \<le> f r'" using assms by (auto simp: f_def divide_simps)
  then show "0 \<le> commanded_light co r s" "commanded_light co r s \<le> commanded_light co r' s"
    using mult_right_mono [OF f(2)] by (simp_all add: commanded_light_def assms(1) f_def [symmetric] Let_def)
qed

text \<open>
  In every state that the controller reaches, with a curve in force and a spindle
  configured, the level of a speed above the minimum lies between the least and the
  greatest level of the spindle and never falls as the speed rises; and with a corner
  rolloff of at least 1, a segment slower than programmed never gets more than the
  same speed without the rolloff.
\<close>

theorem dose_level:
  assumes "reachable (ctl_start os co) (cstep os co) s" "density (curve s) \<noteq> []" "hal_spindle s"
    and "co_rpm_range co = (lo, hi)" "lo < hi" "min_value (spindle_pwm s) \<le> max_value (spindle_pwm s)"
    and "lo \<le> rpm" "pwm_rpm_min (spindle_pwm s) < rpm" "rpm \<le> rpm'"
  shows "min_value (spindle_pwm s) \<le> curveComputeValue co rpm s \<and>
    curveComputeValue co rpm s \<le> curveComputeValue co rpm' s \<and>
    curveComputeValue co rpm' s \<le> max_value (spindle_pwm s) \<and>
    (1 \<le> corner_gamma s \<longrightarrow> curveComputeValue co rpm s \<le> curveComputeValue co rpm (s\<lparr>rate_ratio := 1\<rparr>))"
proof -
  have c: "curve_ok (curve s)" using ctl_sys.inv_reachable [OF assms(1)] by (simp add: ctl_ok_def)
  have v: "curveComputeValue co r u = level_of (spindle_pwm s) (curve_apply (curve s) (commanded_light co r u))"
    if "rpm \<le> r" "u = s \<or> u = s\<lparr>rate_ratio := 1\<rparr>" for r u
    using assms that by (auto simp: curveComputeValue_def)
  note m = commanded_light_mono [OF assms(4,5,7,9), of s]
  have roll: "commanded_light co rpm s \<le> commanded_light co rpm (s\<lparr>rate_ratio := 1\<rparr>)" if "1 \<le> corner_gamma s"
  proof -
    have g: "(1 :: real) \<le> of_rat (corner_gamma s)" using that by (metis of_rat_1 of_rat_less_eq)
    define lt where "lt = (if (rpm - lo) / (hi - lo) > 1 then 1 else (rpm - lo) / (hi - lo))"
    have "0 \<le> lt" using assms by (simp add: lt_def)
    then show ?thesis using roll_off(1) [of lt "rate_ratio s", OF _ _ _ g]
      by (simp add: commanded_light_def assms(4) lt_def [symmetric] Let_def)
  qed
  have "curveComputeValue co rpm s \<le> curveComputeValue co rpm' s"
    unfolding v [OF order_refl disjI1 [OF refl]] v [OF assms(9) disjI1 [OF refl]]
    by (intro level_of_mono curve_apply_mono [OF c] m)
  moreover have "curveComputeValue co rpm s \<le> curveComputeValue co rpm (s\<lparr>rate_ratio := 1\<rparr>)" if "1 \<le> corner_gamma s"
    unfolding v [OF order_refl disjI1 [OF refl]] v [OF order_refl disjI2 [OF refl]]
    by (intro level_of_mono curve_apply_mono [OF c] m(1) roll [OF that])
  moreover have "min_value (spindle_pwm s) \<le> curveComputeValue co rpm s" "curveComputeValue co rpm' s \<le> max_value (spindle_pwm s)"
    unfolding v [OF order_refl disjI1 [OF refl]] v [OF assms(9) disjI1 [OF refl]]
    by (rule level_of_bounds [OF assms(6)])+
  ultimately show ?thesis by blast
qed

theorem dose_level_witness:
  "13 \<le> curveComputeValue bench_co 100 (snd (spindleConfig bench_os bench_co True bench_ctl0)) \<and>
   curveComputeValue bench_co 100 (snd (spindleConfig bench_os bench_co True bench_ctl0))
     \<le> curveComputeValue bench_co 400 (snd (spindleConfig bench_os bench_co True bench_ctl0))"
proof -
  define s where "s = snd (spindleConfig bench_os bench_co True bench_ctl0)"
  have "reachable (ctl_start bench_os bench_co) (cstep bench_os bench_co) bench_ctl0"
    by (rule reachable.intros(1)) (rule bench_ctl_start)
  then have r: "reachable (ctl_start bench_os bench_co) (cstep bench_os bench_co) s"
    unfolding s_def by (rule reachable.intros(2)) (rule c_config)
  have p: "spindle_pwm s = \<lparr>off_value = 0, min_value = 13, max_value = 127, pwm_rpm_min = 0\<rparr>" "hal_spindle s"
    by (simp_all add: s_def spindleConfig_def bench_co_def gen_co_def Let_def gamma_load_def curve_load_def)
  have "loaded_curve (gfio_conf_read bench_os ''laser_dose_curve'' 192 u) = curve_default" for u :: ctl
    by (simp add: gfio_conf_read_def bench_os_def loaded_curve_def Let_def)
  then have d: "density (curve s) \<noteq> []"
    by (simp add: s_def spindleConfig_def curve_load_def gamma_load_def curve_default_def Let_def)
  have rng: "co_rpm_range bench_co = (0, 1000)" by (simp add: bench_co_def gen_co_def)
  show ?thesis unfolding s_def [symmetric] using dose_level [OF r d p(2) rng, of 100 400] by (simp add: p)
qed

end
