(* ===== verification/Mach_State.thy ===== *)
theory Mach_State
  imports Laser_Poll
begin

text \<open>
  The machine above the laser module: the statics of glowforge_homing.c (the far edges
  and the origin jog), glowforge_tray.c, glowforge_release.c and glowforge_mcode.c and
  the fields of the core's \<open>sys\<close> and \<open>settings\<close> that they read and write, as one record
  on top of the controller's; what they ask of the core and of the file system beyond
  that; and the loop that their waits share.
\<close>

section \<open>State\<close>

text \<open>The M-code a job waits at: \<open>wait\<close> of glowforge_mcode.c. A word that was not given is none.\<close>

record mwait =
  w_active :: bool
  w_answered :: bool
  w_ok :: bool
  w_seq :: u32
  w_code :: int
  w_p :: "cfloat option"
  w_q :: "cfloat option"
  w_r :: "cfloat option"
  w_text :: string

text \<open>
  Pairs are X and Y. \<open>travel_xy\<close> and \<open>travel_z\<close> are the travels as the code uses them,
  the stored \<open>max_travel\<close> negated. The two markers say whether the file is there.
\<close>

record mach = ctl +
  spm_xy :: "rat \<times> rat"
  max_rate_xy :: "rat \<times> rat"
  travel_xy :: "rat \<times> rat"
  travel_z :: rat
  sys_position_xy :: "int \<times> int"
  sys_home_xy :: "rat \<times> rat"
  sys_env_min_xy :: "rat \<times> rat"
  sys_env_max_xy :: "rat \<times> rat"
  sys_position_lost :: bool
  envelope_is_open :: bool
  envelope_closed :: "rat \<times> rat"
  origin_jog :: bool
  tray_out :: bool
  shift_known :: bool
  tray_shift :: int
  tray_marker :: bool
  released :: bool
  alarm_before :: bool
  last_report :: u32
  reported :: bool
  release_marker :: bool
  mc_table :: "int list"
  mc_wait :: mwait
  seq_next :: u32

text \<open>The statics at the start of the process, over the controller's; the settings and \<open>sys\<close> are the core's.\<close>

definition mach0 :: "rat \<times> rat \<Rightarrow> rat \<times> rat \<Rightarrow> rat \<times> rat \<Rightarrow> rat \<Rightarrow> ctl \<Rightarrow> mach" where
  "mach0 spm rate travel tz m = ctl.extend m
     (mach.fields spm rate travel tz (0, 0) (0, 0) (0, 0) (0, 0) False False (0, 0) False
        False False 0 False False False 0 False False []
        \<lparr>w_active = False, w_answered = False, w_ok = False, w_seq = 0, w_code = 0, w_p = None, w_q = None, w_r = None,
         w_text = []\<rparr> 1)"

text \<open>A marker file is created and written, or not; the removal of a half-written one works, or not.\<close>

datatype mark_ans = Mark_no_open | Mark_no_write bool | Mark_written

text \<open>\<open>waitpid\<close> with \<open>WNOHANG\<close>: nothing yet, the exit status (none for a death by signal), an error.\<close>

datatype child_ans = Child_running | Child_reaped "int option" | Child_lost

record mio =
  mi_abort :: "core_trace \<Rightarrow> trace \<Rightarrow> bool"
  mi_gc_position :: "core_trace \<Rightarrow> trace \<Rightarrow> rat \<times> rat \<times> rat"
  mi_jog :: "core_trace \<Rightarrow> trace \<Rightarrow> rat \<times> rat \<times> rat \<Rightarrow> rat \<Rightarrow> nat"
  mi_mark :: "core_trace \<Rightarrow> string \<Rightarrow> mark_ans"
  mi_unlink :: "core_trace \<Rightarrow> string \<Rightarrow> bool"
  mi_fork :: "core_trace \<Rightarrow> trace \<Rightarrow> bool"
  mi_waitpid :: "core_trace \<Rightarrow> trace \<Rightarrow> child_ans"
  mi_nonfinite :: "cfloat \<Rightarrow> rat"

definition ask :: "corereq \<Rightarrow> 'a ctl_scheme \<Rightarrow> 'a ctl_scheme" where
  "ask r s = core_emit (Ask r) s"

definition state_set :: "sys_state \<Rightarrow> 'a ctl_scheme \<Rightarrow> 'a ctl_scheme" where
  "state_set st s = ask (State_set st) s"

definition sys_abort :: "mio \<Rightarrow> 'a ctl_scheme \<Rightarrow> bool" where
  "sys_abort mi s = mi_abort mi (core_tr s) (io_tr s)"

text \<open>
  A configured height that is used as it is: the platform's reading of one that is not
  a finite number.
\<close>

definition key_rat :: "mio \<Rightarrow> cfloat \<Rightarrow> rat" where
  "key_rat mi f = (case f of Fin x \<Rightarrow> x | _ \<Rightarrow> mi_nonfinite mi f)"

text \<open>The report of a held job: the message, then the feed hold.\<close>

definition hold_job :: "string \<Rightarrow> 'a ctl_scheme \<Rightarrow> 'a ctl_scheme" where
  "hold_job msg s = ask Exec_feed_hold (report_message msg s)"

text \<open>\<open>hal.get_elapsed_ticks\<close>: the driver's milliseconds.\<close>

definition millis :: "os \<Rightarrow> 'a ctl_scheme \<Rightarrow> u32 \<times> 'a ctl_scheme" where
  "millis os s = mono_ms os s"

lemmas ask_defs = ask_def state_set_def hold_job_def core_defs

text \<open>
  What a parsed block carries of an M-code: its number, its words with their values, and
  whether the planner is drained before it runs. M103 is the core's \<open>UserMCode_Generic3\<close>.
\<close>

record parser_block =
  pb_mcode :: user_mcode
  pb_p :: bool
  pb_q :: bool
  pb_r :: bool
  pb_axes :: bool
  pb_val_p :: cfloat
  pb_val_q :: cfloat
  pb_val_r :: cfloat
  pb_sync :: bool

definition UserMCode_Generic3 :: user_mcode where "UserMCode_Generic3 = UserMCode_Other 103"

type_synonym mc_check = "user_mcode \<Rightarrow> mcode_type"
type_synonym mc_validate = "parser_block \<Rightarrow> status_code \<times> parser_block"
type_synonym 'a mc_execute = "parser_block \<Rightarrow> 'a ctl_scheme \<Rightarrow> 'a ctl_scheme option"

section \<open>Loops that wait\<close>

text \<open>A loop by its turn: an end with a result, or another turn from a new state.\<close>

partial_function (option) wait_loop :: "('s \<Rightarrow> 'r + 's) \<Rightarrow> 's \<Rightarrow> 'r option" where
  "wait_loop turn s = (case turn s of Inl r \<Rightarrow> Some r | Inr s' \<Rightarrow> wait_loop turn s')"

lemma wait_loop_rule:
  assumes "wait_loop turn s = Some r" "P s"
    and "\<And>s r. P s \<Longrightarrow> turn s = Inl r \<Longrightarrow> Q r"
    and "\<And>s s'. P s \<Longrightarrow> turn s = Inr s' \<Longrightarrow> P s'"
  shows "Q r"
proof -
  have "P s \<longrightarrow> Q r"
  proof (rule wait_loop.raw_induct [where P = "\<lambda>t s r. t = turn \<longrightarrow> P s \<longrightarrow> Q r", OF _ assms(1), THEN mp, OF _ refl],
      intro impI)
    fix w t s r
    assume IH: "\<And>t s r. w t s = Some r \<Longrightarrow> t = turn \<longrightarrow> P s \<longrightarrow> Q r"
      and body: "(case t s of Inl r \<Rightarrow> Some r | Inr s' \<Rightarrow> w t s') = Some r" and t: "t = turn" and P: "P s"
    show "Q r"
    proof (cases "turn s")
      case (Inl x)
      then show ?thesis using body t assms(3) [OF P Inl] by simp
    next
      case (Inr s')
      then show ?thesis using body t IH [of turn s' r] assms(4) [OF P Inr] by simp
    qed
  qed
  then show ?thesis using assms(2) by simp
qed

text \<open>A loop whose every turn takes some time of a budget comes to its end.\<close>

lemma wait_loop_returns:
  fixes dt :: rat
  assumes "0 < dt" "P s"
    and turn: "\<And>s s'. P s \<Longrightarrow> turn s = Inr s' \<Longrightarrow> P s' \<and> t s + dt \<le> t s' \<and> t s \<le> d"
  shows "\<exists>r. wait_loop turn s = Some r"
proof -
  obtain n where "d - t s < of_nat n * dt" using ex_less_of_nat_mult [of dt "d - t s"] assms(1) by blast
  then show ?thesis using assms(2)
  proof (induction n arbitrary: s)
    case 0
    then have "\<not> t s \<le> d" by simp
    then obtain r where "turn s = Inl r" using turn [OF 0(2)] by (cases "turn s") auto
    then show ?case by (subst wait_loop.simps) simp
  next
    case (Suc n)
    show ?case
    proof (cases "turn s")
      case (Inl r)
      then show ?thesis by (subst wait_loop.simps) simp
    next
      case (Inr s')
      from turn [OF Suc.prems(2) Inr] have *: "P s'" "t s + dt \<le> t s'" by simp_all
      then have "d - t s' < of_nat n * dt" using Suc.prems(1) by (simp add: algebra_simps)
      from Suc.IH [OF this *(1)] show ?thesis using Inr by (subst wait_loop.simps) simp
    qed
  qed
qed

section \<open>The wait for the kernel to play the last move\<close>

text \<open>
  The wait of an M-code: until the kernel is idle or the time is over (true), or until a
  reset or an alarm ends it (false).
\<close>

definition drain_turn_mc :: "os \<Rightarrow> core \<Rightarrow> 'a rt \<Rightarrow> rat \<Rightarrow> 'a ctl_scheme \<Rightarrow> bool \<times> 'a ctl_scheme + 'a ctl_scheme" where
  "drain_turn_mc os co rt drained s =
     (let (idle, s) = gf_stream_kernel_idle os s in
      if idle then Inl (True, s)
      else let (now, s) = wall_s os s in
        if \<not> now < drained then Inl (True, s)
        else let (ok, s) = pump rt s in
          if \<not> ok \<or> in_state (state_get co s) {ALARM, ESTOP} then Inl (False, s)
          else Inr (sleep_ns 5000000 s))"

definition drain_wait :: "os \<Rightarrow> core \<Rightarrow> 'a rt \<Rightarrow> rat \<Rightarrow> 'a ctl_scheme \<Rightarrow> (bool \<times> 'a ctl_scheme) option" where
  "drain_wait os co rt drained s = wait_loop (drain_turn_mc os co rt drained) s"

text \<open>
  The wait of a home and of a release, on the millisecond clock: true when the kernel is
  idle, false when the time ran out or the system aborts.
\<close>

definition idle_turn :: "os \<Rightarrow> 'a rt \<Rightarrow> u32 \<Rightarrow> 'a ctl_scheme \<Rightarrow> bool \<times> 'a ctl_scheme + 'a ctl_scheme" where
  "idle_turn os rt give_up s =
     (let (idle, s) = gf_stream_kernel_idle os s in
      if idle then Inl (True, s)
      else let (now, s) = millis os s in
        if sint (give_up - now) \<le> 0 then Inl (False, s)
        else let (ok, s) = pump rt s in if ok then Inr s else Inl (False, s))"

definition gfhome_wait_kernel_idle :: "os \<Rightarrow> 'a rt \<Rightarrow> u32 \<Rightarrow> 'a ctl_scheme \<Rightarrow> (bool \<times> 'a ctl_scheme) option" where
  "gfhome_wait_kernel_idle os rt timeout_ms s =
     (let (now, s) = millis os s in wait_loop (idle_turn os rt (now + timeout_ms)) s)"

end
