(* ===== verification/Byte_Ring.thy ===== *)
theory Byte_Ring
  imports Gf_Prelude
begin

text \<open>
  The byte rings of serial.c, \<open>stream_rx_buffer_t\<close> and \<open>stream_tx_buffer_t\<close>: an array
  whose size is a power of two, a head where the next byte goes and a tail where the
  oldest one is, one slot always free. The interface \<open>byte_queue\<close> says what a bounded
  queue of bytes promises; the ring is an instance of it at both of its sizes.
\<close>

section \<open>The interface\<close>

locale byte_queue =
  fixes content :: "'q \<Rightarrow> u8 list" and valid :: "'q \<Rightarrow> bool" and room :: nat
    and put :: "u8 \<Rightarrow> 'q \<Rightarrow> 'q" and get :: "'q \<Rightarrow> u8 \<times> 'q" and is_full :: "'q \<Rightarrow> bool" and is_empty :: "'q \<Rightarrow> bool"
  assumes full_iff: "valid q \<Longrightarrow> is_full q \<longleftrightarrow> length (content q) = room"
    and empty_iff: "valid q \<Longrightarrow> is_empty q \<longleftrightarrow> content q = []"
    and bound: "valid q \<Longrightarrow> length (content q) \<le> room"
    and put_content: "valid q \<Longrightarrow> \<not> is_full q \<Longrightarrow> content (put c q) = content q @ [c]"
    and put_valid: "valid q \<Longrightarrow> valid (put c q)"
    and get_content: "valid q \<Longrightarrow> content q \<noteq> [] \<Longrightarrow> fst (get q) = hd (content q) \<and> content (snd (get q)) = tl (content q)"
    and get_valid: "valid q \<Longrightarrow> valid (snd (get q))"
begin

text \<open>Bytes put one after another are all there, in order, while they fit.\<close>

lemma put_all:
  assumes "valid q" "length (content q) + length cs \<le> room"
  shows "valid (fold put cs q) \<and> content (fold put cs q) = content q @ cs"
  using assms
proof (induction cs arbitrary: q)
  case (Cons c cs)
  then have "\<not> is_full q" using full_iff by auto
  with Cons.prems have "valid (put c q)" "content (put c q) = content q @ [c]"
    using put_valid put_content by auto
  then show ?case using Cons.IH [of "put c q"] Cons.prems by simp
qed simp

text \<open>What was put into an empty queue comes out again.\<close>

lemma put_get: "valid q \<Longrightarrow> is_empty q \<Longrightarrow> 0 < room \<Longrightarrow> fst (get (put c q)) = c \<and> is_empty (snd (get (put c q)))"
  using put_all [of q "[c]"] get_content [of "put c q"] get_valid [of "put c q"] by (simp add: empty_iff)

end

section \<open>The ring\<close>

record ring =
  r_data :: "u8 list"
  r_head :: nat
  r_tail :: nat

definition ring_next :: "nat \<Rightarrow> nat \<Rightarrow> nat" where
  "ring_next rsz i = (i + 1) AND (rsz - 1)"

text \<open>\<open>(i - 1) & (rsz - 1)\<close> in unsigned arithmetic.\<close>

definition ring_prev :: "nat \<Rightarrow> nat \<Rightarrow> nat" where
  "ring_prev rsz i = (i + (rsz - 1)) AND (rsz - 1)"

definition ring_count :: "nat \<Rightarrow> ring \<Rightarrow> nat" where
  "ring_count rsz r =
     (if r_head r \<ge> r_tail r then r_head r - r_tail r else rsz - r_tail r + r_head r)"

definition ring_put :: "nat \<Rightarrow> u8 \<Rightarrow> ring \<Rightarrow> ring" where
  "ring_put rsz c r = r\<lparr>r_data := (r_data r)[r_head r := c], r_head := ring_next rsz (r_head r)\<rparr>"

definition ring_get :: "nat \<Rightarrow> ring \<Rightarrow> u8 \<times> ring" where
  "ring_get rsz r = (r_data r ! r_tail r, r\<lparr>r_tail := ring_next rsz (r_tail r)\<rparr>)"

definition ring_full :: "nat \<Rightarrow> ring \<Rightarrow> bool" where
  "ring_full rsz r = (ring_next rsz (r_head r) = r_tail r)"

definition ring_empty :: "ring \<Rightarrow> bool" where
  "ring_empty r = (r_head r = r_tail r)"

definition ring_new :: "nat \<Rightarrow> ring" where
  "ring_new rsz = \<lparr>r_data = replicate rsz 0, r_head = 0, r_tail = 0\<rparr>"

definition ring_ok :: "nat \<Rightarrow> ring \<Rightarrow> bool" where
  "ring_ok rsz r \<longleftrightarrow> length (r_data r) = rsz \<and> r_head r < rsz \<and> r_tail r < rsz"

definition ring_list :: "nat \<Rightarrow> ring \<Rightarrow> u8 list" where
  "ring_list rsz r = map (\<lambda>i. r_data r ! ((r_tail r + i) mod rsz)) [0..<ring_count rsz r]"

section \<open>The ring is a bounded queue\<close>

lemma and_size: "rsz = 2 ^ k \<Longrightarrow> i AND (rsz - 1) = i mod rsz" for i :: nat
  by (metis mask_eq_exp_minus_1 take_bit_eq_mask take_bit_eq_mod)

lemma ring_next_mod: "rsz = 2 ^ k \<Longrightarrow> ring_next rsz i = (i + 1) mod rsz"
  unfolding ring_next_def by (rule and_size)

lemma ring_prev_mod: "rsz = 2 ^ k \<Longrightarrow> ring_prev rsz i = (i + (rsz - 1)) mod rsz"
  unfolding ring_prev_def by (rule and_size)

lemma length_ring_list [simp]: "length (ring_list rsz r) = ring_count rsz r"
  by (simp add: ring_list_def)

lemma ring_head_count: "ring_ok rsz r \<Longrightarrow> r_head r = (r_tail r + ring_count rsz r) mod rsz \<and> ring_count rsz r < rsz"
  by (auto simp: ring_ok_def ring_count_def)

text \<open>A ring is determined by its tail and its count.\<close>

lemma ring_count_eq:
  assumes "t < rsz" "n < rsz" "r_tail r = t" "r_head r = (t + n) mod rsz"
  shows "ring_count rsz r = n"
proof (cases "t + n < rsz")
  case True
  then show ?thesis using assms by (simp add: ring_count_def)
next
  case False
  then have "(t + n) mod rsz = t + n - rsz" using assms by (simp add: mod_if)
  then show ?thesis using assms False by (auto simp: ring_count_def)
qed

lemma ring_full_iff:
  assumes "rsz = 2 ^ k" "1 < rsz" "ring_ok rsz r"
  shows "ring_full rsz r \<longleftrightarrow> ring_count rsz r = rsz - 1"
proof -
  define n where "n = ring_count rsz r"
  note h = ring_head_count [OF assms(3), folded n_def]
  have t: "r_tail r < rsz" using assms(3) by (simp add: ring_ok_def)
  have "ring_full rsz r \<longleftrightarrow> (r_tail r + (n + 1)) mod rsz = r_tail r mod rsz"
    using h t by (simp add: ring_full_def ring_next_mod [OF assms(1)] mod_Suc_eq)
  also have "\<dots> \<longleftrightarrow> n + 1 = rsz"
  proof
    assume e: "(r_tail r + (n + 1)) mod rsz = r_tail r mod rsz"
    show "n + 1 = rsz"
    proof (rule ccontr)
      assume "n + 1 \<noteq> rsz"
      then have "n + 1 < rsz" using h by simp
      then show False using mod_window_inj [of "n + 1" rsz 0 "r_tail r"] e assms(2) by simp
    qed
  qed simp
  finally show ?thesis using assms(2) by (simp add: n_def) linarith
qed

lemma ring_put_list:
  assumes "rsz = 2 ^ k" "1 < rsz" "ring_ok rsz r" "\<not> ring_full rsz r"
  shows "ring_ok rsz (ring_put rsz c r) \<and> ring_list rsz (ring_put rsz c r) = ring_list rsz r @ [c]"
proof -
  define n where "n = ring_count rsz r"
  note h = ring_head_count [OF assms(3), folded n_def]
  have t: "r_tail r < rsz" "length (r_data r) = rsz" using assms(3) by (simp_all add: ring_ok_def)
  have n: "n + 1 < rsz" using assms(4) ring_full_iff [OF assms(1-3)] h unfolding n_def by linarith
  have hd': "r_head (ring_put rsz c r) = (r_tail r + (n + 1)) mod rsz"
    using h by (simp add: ring_put_def ring_next_mod [OF assms(1)] mod_Suc_eq)
  have c: "ring_count rsz (ring_put rsz c r) = n + 1"
    using ring_count_eq [OF t(1) n, of "ring_put rsz c r"] hd' by (simp add: ring_put_def)
  have old: "r_data (ring_put rsz c r) ! ((r_tail r + i) mod rsz) = r_data r ! ((r_tail r + i) mod rsz)" if "i < n" for i
  proof -
    have "(r_tail r + i) mod rsz \<noteq> r_head r"
      using mod_window_inj [of i rsz n "r_tail r"] that h by auto
    then show ?thesis by (simp add: ring_put_def)
  qed
  have new: "r_data (ring_put rsz c r) ! ((r_tail r + n) mod rsz) = c"
    using h t by (simp add: ring_put_def)
  have "ring_list rsz (ring_put rsz c r) = map (\<lambda>i. r_data (ring_put rsz c r) ! ((r_tail r + i) mod rsz)) [0..<n] @ [c]"
    using c new by (simp add: ring_list_def) (simp add: ring_put_def)
  also have "\<dots> = ring_list rsz r @ [c]" using old by (simp add: ring_list_def n_def [symmetric])
  finally show ?thesis using t hd' assms(2) by (simp add: ring_ok_def) (simp add: ring_put_def)
qed

lemma ring_put_ok: "rsz = 2 ^ k \<Longrightarrow> ring_ok rsz r \<Longrightarrow> ring_ok rsz (ring_put rsz c r)"
  by (auto simp: ring_ok_def ring_put_def ring_next_mod)

lemma ring_get_list:
  assumes "rsz = 2 ^ k" "ring_ok rsz r" "ring_list rsz r \<noteq> []"
  shows "fst (ring_get rsz r) = hd (ring_list rsz r) \<and> ring_list rsz (snd (ring_get rsz r)) = tl (ring_list rsz r)"
proof -
  define n where "n = ring_count rsz r"
  note h = ring_head_count [OF assms(2), folded n_def]
  have t: "r_tail r < rsz" using assms(2) by (simp add: ring_ok_def)
  have n: "0 < n" using assms(3) by (simp add: n_def ring_list_def)
  have tl: "r_tail (snd (ring_get rsz r)) = (r_tail r + 1) mod rsz" by (simp add: ring_get_def ring_next_mod [OF assms(1)])
  have "r_head r = ((r_tail r + 1) mod rsz + (n - 1)) mod rsz"
  proof -
    obtain m where "n = Suc m" using n by (cases n) simp_all
    then show ?thesis using h by (simp add: mod_simps)
  qed
  moreover have "n - 1 < rsz" using h by linarith
  ultimately have c: "ring_count rsz (snd (ring_get rsz r)) = n - 1"
    using t h tl by (intro ring_count_eq [of "(r_tail r + 1) mod rsz"]) (simp_all add: ring_get_def)
  have "ring_list rsz r = r_data r ! r_tail r # map (\<lambda>i. r_data r ! ((r_tail r + Suc i) mod rsz)) [0..<n - 1]"
    unfolding ring_list_def n_def [symmetric] using n t by (subst map_upt_shift_tl) simp_all
  moreover have "ring_list rsz (snd (ring_get rsz r)) = map (\<lambda>i. r_data r ! ((r_tail r + Suc i) mod rsz)) [0..<n - 1]"
    unfolding ring_list_def c tl by (simp add: ring_get_def mod_simps)
  ultimately show ?thesis by (simp add: ring_get_def)
qed

lemma ring_get_ok: "rsz = 2 ^ k \<Longrightarrow> ring_ok rsz r \<Longrightarrow> ring_ok rsz (snd (ring_get rsz r))"
  by (auto simp: ring_ok_def ring_get_def ring_next_mod)

lemma ring_empty_iff: "ring_ok rsz r \<Longrightarrow> ring_empty r \<longleftrightarrow> ring_list rsz r = []"
  by (auto simp: ring_empty_def ring_list_def ring_count_def ring_ok_def)

text \<open>Taking the newest byte back.\<close>

lemma ring_unput_list:
  assumes "rsz = 2 ^ k" "ring_ok rsz r" "ring_list rsz r \<noteq> []"
  shows "r_data r ! ring_prev rsz (r_head r) = last (ring_list rsz r) \<and>
    ring_ok rsz (r\<lparr>r_head := ring_prev rsz (r_head r)\<rparr>) \<and>
    ring_list rsz (r\<lparr>r_head := ring_prev rsz (r_head r)\<rparr>) = butlast (ring_list rsz r)"
proof -
  define n where "n = ring_count rsz r"
  note h = ring_head_count [OF assms(2), folded n_def]
  have t: "r_tail r < rsz" "length (r_data r) = rsz" using assms(2) by (simp_all add: ring_ok_def)
  obtain m where m: "n = Suc m" using assms(3) by (cases n) (simp_all add: n_def ring_list_def)
  have "ring_prev rsz (r_head r) = (r_tail r + n + (rsz - 1)) mod rsz"
    using h unfolding ring_prev_mod [OF assms(1)] by (simp only: mod_add_left_eq)
  also have "\<dots> = (r_tail r + m) mod rsz" using m t by (simp add: mod_simps)
  finally have p: "ring_prev rsz (r_head r) = (r_tail r + m) mod rsz" .
  have c: "ring_count rsz (r\<lparr>r_head := ring_prev rsz (r_head r)\<rparr>) = m"
    using ring_count_eq [of "r_tail r" rsz m "r\<lparr>r_head := ring_prev rsz (r_head r)\<rparr>"] p t h m by simp
  have "ring_list rsz r = map (\<lambda>i. r_data r ! ((r_tail r + i) mod rsz)) [0..<m] @ [r_data r ! ((r_tail r + m) mod rsz)]"
    unfolding ring_list_def n_def [symmetric] m by simp
  moreover have "ring_list rsz (r\<lparr>r_head := ring_prev rsz (r_head r)\<rparr>) = map (\<lambda>i. r_data r ! ((r_tail r + i) mod rsz)) [0..<m]"
    unfolding ring_list_def c by simp
  ultimately show ?thesis using p t by (simp add: ring_ok_def)
qed

lemma ring_new_ok: "0 < rsz \<Longrightarrow> ring_ok rsz (ring_new rsz) \<and> ring_list rsz (ring_new rsz) = []"
  by (simp add: ring_ok_def ring_new_def ring_list_def ring_count_def)

text \<open>The law of the interface, at every size.\<close>

lemma ring_byte_queue:
  assumes "rsz = 2 ^ k" "1 < rsz"
  shows "byte_queue (ring_list rsz) (ring_ok rsz) (rsz - 1) (ring_put rsz) (ring_get rsz) (ring_full rsz) ring_empty"
proof
  fix q c assume v: "ring_ok rsz q"
  show "ring_full rsz q \<longleftrightarrow> length (ring_list rsz q) = rsz - 1" using ring_full_iff [OF assms v] by simp
  show "ring_empty q \<longleftrightarrow> ring_list rsz q = []" by (rule ring_empty_iff [OF v])
  show "length (ring_list rsz q) \<le> rsz - 1" using ring_head_count [OF v] by (simp, linarith)
  show "\<not> ring_full rsz q \<Longrightarrow> ring_list rsz (ring_put rsz c q) = ring_list rsz q @ [c]" using ring_put_list [OF assms v] by simp
  show "ring_ok rsz (ring_put rsz c q)" by (rule ring_put_ok [OF assms(1) v])
  show "ring_list rsz q \<noteq> [] \<Longrightarrow> fst (ring_get rsz q) = hd (ring_list rsz q) \<and> ring_list rsz (snd (ring_get rsz q)) = tl (ring_list rsz q)"
    by (rule ring_get_list [OF assms(1) v])
  show "ring_ok rsz (snd (ring_get rsz q))" by (rule ring_get_ok [OF assms(1) v])
qed

end
