(* ===== verification/Serial.thy ===== *)
theory Serial
  imports Mach_State Byte_Ring "HOL-Library.Signed_Division"
begin

text \<open>
  serial.c: the sender's stream over a socket or stdio, its two rings, the sender
  sessions, and the multiplexing of the controller port's lines into the receive ring.
  Sockets, the clock and the core's real-time handler are functions of the history,
  which the field \<open>ser_tr\<close> keeps; the rest of the machine, whose laser module a cycle
  start goes through first, is the field \<open>machine\<close>.
\<close>

section \<open>State\<close>

text \<open>The size that the core gives the receive ring, and the build the transmit ring.\<close>

definition RX_BUFFER_SIZE :: nat where "RX_BUFFER_SIZE = 1024"
definition TX_BUFFER_SIZE :: nat where "TX_BUFFER_SIZE = 2048"
definition RX_CHUNK :: nat where "RX_CHUNK = 64"
definition TX_STALL_MS :: int where "TX_STALL_MS = 1000"
definition ASCII_CAN :: u8 where "ASCII_CAN = 0x18"

datatype addr = Inet u32 | Inet6 "u8 list" | Other_family

datatype sev =
    S_now "int \<times> int"
  | S_accept addr
  | S_refused addr
  | S_closed
  | S_read "u8 list"
  | S_no_data
  | S_wrote "u8 list" nat
  | S_write_failed
  | S_stdin u8
  | S_rt u8 bool
  | S_exit
  | S_status int
  | S_poll "(int \<times> bool \<times> bool) list"
  | S_text "u8 list"

datatype sread = Got "u8 list" | Hung_up | Try_again | Read_error

datatype swrite = Wrote nat | Would_block | Write_error

record sio =
  sio_accept :: "sev list \<Rightarrow> addr option"
  sio_read :: "sev list \<Rightarrow> sread"
  sio_write :: "sev list \<Rightarrow> u8 list \<Rightarrow> swrite"
  sio_stdin :: "sev list \<Rightarrow> u8"
  sio_now :: "sev list \<Rightarrow> int \<times> int"
  sio_rt :: "sev list \<Rightarrow> u8 \<Rightarrow> bool"
  sio_ntop :: "addr \<Rightarrow> string"
  sio_banner :: "u8 list"

record ser =
  ser_tr :: "sev list"
  machine :: mach
  rx :: ring
  rx_overflow :: bool
  tx :: ring
  listen_fd :: int
  client_fd :: int
  client_generation :: u32
  client_peer :: string
  client_since :: rat
  stdin_eof :: bool
  banner_pending :: bool
  tx_blocked :: bool
  rx_discarding :: bool
  rx_overrun :: bool
  client_loopback :: bool
  keep_out :: bool
  sender_midline :: bool
  read_midline :: bool
  sender_eol :: u8
  sender_last_line :: rat
  inj_active :: bool
  inj_left :: nat
  inj_first :: bool
  inj_status_due :: bool
  inj_saved_error :: int
  hold_sender :: bool
  sender_line_open :: bool
  inj_hooked :: bool
  last_error :: int

text \<open>What the stream calls back: the port's \<open>inj_done\<close>, the port's poll, the core's blocking callback.\<close>

type_synonym 'a injd = "int \<Rightarrow> 'a ser_scheme \<Rightarrow> 'a ser_scheme"
type_synonym 'a blk = "'a ser_scheme \<Rightarrow> bool \<times> 'a ser_scheme"

definition ser_emit :: "sev \<Rightarrow> 'a ser_scheme \<Rightarrow> 'a ser_scheme" where
  "ser_emit e s = s\<lparr>ser_tr := e # ser_tr s\<rparr>"

definition ser_now :: "sio \<Rightarrow> 'a ser_scheme \<Rightarrow> (int \<times> int) \<times> 'a ser_scheme" where
  "ser_now io s = (let t = sio_now io (ser_tr s) in (t, ser_emit (S_now t) s))"

definition ts_s :: "int \<times> int \<Rightarrow> rat" where
  "ts_s t = of_int (fst t) + of_int (snd t) / 1000000000"

definition is_eol :: "u8 \<Rightarrow> bool" where
  "is_eol c = (c = 0x0A \<or> c = 0x0D)"

definition serial_set_listen_fd :: "int \<Rightarrow> 'a ser_scheme \<Rightarrow> 'a ser_scheme" where
  "serial_set_listen_fd fd s = s\<lparr>listen_fd := fd\<rparr>"

section \<open>The receive side, as the core reads it\<close>

definition serialRxFlush :: "'a injd \<Rightarrow> 'a ser_scheme \<Rightarrow> 'a ser_scheme" where
  "serialRxFlush inj_done s =
     (let s = s\<lparr>rx := (rx s)\<lparr>r_tail := r_head (rx s)\<rparr>, rx_overflow := False, rx_discarding := False,
                sender_midline := False, read_midline := False, sender_line_open := False\<rparr>
      in if inj_active s
         then let s = s\<lparr>inj_active := False, inj_status_due := False, inj_left := 0\<rparr>
              in if inj_hooked s then inj_done (- 1) s else s
         else s)"

definition drop_client :: "'a injd \<Rightarrow> 'a ser_scheme \<Rightarrow> 'a ser_scheme" where
  "drop_client inj_done s =
     (if client_fd s \<ge> 0
      then serialRxFlush inj_done
             ((ser_emit S_closed s)\<lparr>client_fd := - 1, client_loopback := False, client_peer := [],
                client_generation := client_generation s + 1\<rparr>)
      else s)"

definition serial_client_connected :: "'a ser_scheme \<Rightarrow> bool" where
  "serial_client_connected s = (client_fd s \<ge> 0)"

definition read_gate :: "'a ser_scheme \<Rightarrow> u8 \<Rightarrow> bool" where
  "read_gate s c = (hold_sender s \<and> inj_left s = 0 \<and> c \<noteq> ASCII_CAN \<and> \<not> (is_eol c \<and> \<not> read_midline s))"

definition serialGetC :: "'a ser_scheme \<Rightarrow> u8 option \<times> 'a ser_scheme" where
  "serialGetC s =
     (if ring_empty (rx s) then (None, s)
      else if read_gate s (r_data (rx s) ! r_tail (rx s)) then (None, s)
      else let injected = (inj_left s > 0);
               (data, r) = ring_get RX_BUFFER_SIZE (rx s);
               s = s\<lparr>rx := r, read_midline := \<not> is_eol data\<rparr>;
               s = (if \<not> injected \<and> read_midline s then s\<lparr>sender_line_open := True\<rparr> else s);
               s = (if injected
                    then let s = (if inj_first s then s\<lparr>inj_first := False, inj_saved_error := last_error s\<rparr> else s);
                             s = s\<lparr>inj_left := inj_left s - 1\<rparr>
                         in if inj_left s = 0 then s\<lparr>inj_status_due := True\<rparr> else s
                    else s)
           in (Some data, s))"

definition serialRxCount :: "'a ser_scheme \<Rightarrow> nat" where
  "serialRxCount s = ring_count RX_BUFFER_SIZE (rx s)"

definition serialRxFree :: "'a ser_scheme \<Rightarrow> nat" where
  "serialRxFree s = (RX_BUFFER_SIZE - 1) - serialRxCount s"

definition serialRxCancel :: "'a injd \<Rightarrow> 'a ser_scheme \<Rightarrow> 'a ser_scheme" where
  "serialRxCancel inj_done s =
     (let s = serialRxFlush inj_done s; r = rx s
      in s\<lparr>rx := r\<lparr>r_data := (r_data r)[r_head r := ASCII_CAN], r_head := ring_next RX_BUFFER_SIZE (r_tail r)\<rparr>\<rparr>)"

section \<open>The transmit side, as the core writes it\<close>

text \<open>
  The wait for room. It ends when the ring has drained, when the blocking callback asks
  to abort, or when a second has passed without progress: then the peer is dropped.
\<close>

definition put_stalled :: "int \<times> int \<Rightarrow> int \<times> int \<Rightarrow> bool" where
  "put_stalled t0 t = ((fst t - fst t0) * 1000 + (snd t - snd t0) sdiv 1000000 > TX_STALL_MS)"

definition put_turn :: "sio \<Rightarrow> 'a injd \<Rightarrow> 'a blk \<Rightarrow> (int \<times> int) \<times> nat \<Rightarrow> 'a ser_scheme
    \<Rightarrow> bool \<times> 'a ser_scheme + ((int \<times> int) \<times> nat) \<times> 'a ser_scheme" where
  "put_turn io inj_done blk w s =
     (let (ok, s) = blk s in
      if \<not> ok then Inl (False, s)
      else if r_tail (tx s) \<noteq> snd w
      then let (t, s') = ser_now io s in Inr ((t, r_tail (tx s)), s')
      else let (t, s) = ser_now io s in
        if put_stalled (fst w) t
        then let s = drop_client inj_done s in Inl (True, s\<lparr>tx := (tx s)\<lparr>r_tail := r_head (tx s)\<rparr>\<rparr>)
        else Inr (w, s))"

partial_function (option) put_wait :: "sio \<Rightarrow> 'a injd \<Rightarrow> 'a blk \<Rightarrow> nat \<Rightarrow> (int \<times> int) \<times> nat \<Rightarrow> 'a ser_scheme
    \<Rightarrow> (bool \<times> 'a ser_scheme) option" where
  "put_wait io inj_done blk next_head w s =
     (if r_tail (tx s) \<noteq> next_head then Some (True, s)
      else case put_turn io inj_done blk w s of
        Inl r \<Rightarrow> Some r
      | Inr (w', s') \<Rightarrow> put_wait io inj_done blk next_head w' s')"

definition put_store :: "nat \<Rightarrow> u8 \<Rightarrow> 'a ser_scheme \<Rightarrow> 'a ser_scheme" where
  "put_store next_head c s =
     s\<lparr>tx := (tx s)\<lparr>r_data := (r_data (tx s))[r_head (tx s) := c], r_head := next_head\<rparr>\<rparr>"

definition serialPutC :: "sio \<Rightarrow> 'a injd \<Rightarrow> 'a blk \<Rightarrow> u8 \<Rightarrow> 'a ser_scheme \<Rightarrow> (bool \<times> 'a ser_scheme) option" where
  "serialPutC io inj_done blk c s =
     (let next_head = ring_next TX_BUFFER_SIZE (r_head (tx s)) in
      if r_tail (tx s) = next_head
      then let seen_tail = r_tail (tx s);
               (t0, s) = ser_now io s
           in map_option (\<lambda>(ok, s). if ok then (True, put_store next_head c (s\<lparr>tx_blocked := False\<rparr>)) else (False, s))
                (put_wait io inj_done blk next_head (t0, seen_tail) (s\<lparr>tx_blocked := True\<rparr>))
      else Some (True, put_store next_head c s))"

fun serialWriteS :: "sio \<Rightarrow> 'a injd \<Rightarrow> 'a blk \<Rightarrow> u8 list \<Rightarrow> 'a ser_scheme \<Rightarrow> 'a ser_scheme option" where
  "serialWriteS io inj_done blk [] s = Some s"
| "serialWriteS io inj_done blk (c # cs) s =
     (case serialPutC io inj_done blk c s of None \<Rightarrow> None
      | Some (ok, s) \<Rightarrow> serialWriteS io inj_done blk cs s)"

definition serialTxCount :: "'a ser_scheme \<Rightarrow> nat" where
  "serialTxCount s = ring_count TX_BUFFER_SIZE (tx s)"

section \<open>The transport\<close>

definition unwrite_stop :: "ring \<Rightarrow> bool" where
  "unwrite_stop r = (ring_empty r \<or> is_eol (r_data r ! ring_prev RX_BUFFER_SIZE (r_head r)))"

text \<open>The loop that takes a partial line back: one turn per byte of the ring at the most.\<close>

fun unwrite :: "nat \<Rightarrow> ring \<Rightarrow> ring" where
  "unwrite 0 r = r"
| "unwrite (Suc n) r =
     (if unwrite_stop r then r else unwrite n (r\<lparr>r_head := ring_prev RX_BUFFER_SIZE (r_head r)\<rparr>))"

definition store_byte :: "sio \<Rightarrow> u8 \<Rightarrow> 'a ser_scheme \<Rightarrow> 'a ser_scheme" where
  "store_byte io data s =
     (if rx_discarding s then (if is_eol data then s\<lparr>rx_discarding := False\<rparr> else s)
      else if ring_full RX_BUFFER_SIZE (rx s)
      then s\<lparr>rx_overflow := True, rx_overrun := True, rx_discarding := \<not> is_eol data,
             rx := unwrite RX_BUFFER_SIZE (rx s), sender_midline := False\<rparr>
      else let s = s\<lparr>rx := ring_put RX_BUFFER_SIZE data (rx s)\<rparr> in
        if is_eol data
        then let s = (if sender_midline s
                      then let (t, s) = ser_now io s in s\<lparr>sender_last_line := ts_s t\<rparr> else s)
             in s\<lparr>sender_eol := data, sender_midline := False\<rparr>
        else s\<lparr>sender_midline := True\<rparr>)"

definition resume_gate :: "os \<Rightarrow> core \<Rightarrow> unit mach_ext rt \<Rightarrow> 'a ser_scheme \<Rightarrow> (bool \<times> 'a ser_scheme) option" where
  "resume_gate os co rt s =
     map_option (\<lambda>(taken, m). (taken, s\<lparr>machine := m\<rparr>)) (gflaser_resume_gate os co rt (machine s))"

definition rt_byte :: "sio \<Rightarrow> u8 \<Rightarrow> 'a ser_scheme \<Rightarrow> bool \<times> 'a ser_scheme" where
  "rt_byte io data s = (let ok = sio_rt io (ser_tr s) data in (ok, ser_emit (S_rt data ok) s))"

definition rx_byte :: "os \<Rightarrow> core \<Rightarrow> unit mach_ext rt \<Rightarrow> sio \<Rightarrow> u8 \<Rightarrow> 'a ser_scheme \<Rightarrow> 'a ser_scheme option" where
  "rx_byte os co rt io data s =
     (if data = 0x06 then Some (ser_emit S_exit s)
      else case (if data = 0x7E \<or> data = 0x81 then resume_gate os co rt s else Some (False, s)) of
        None \<Rightarrow> None
      | Some (taken, s) \<Rightarrow>
          if taken then Some s
          else let (was_rt, s) = rt_byte io data s in
            if was_rt then Some s else Some (store_byte io data s))"

fun rx_bytes :: "os \<Rightarrow> core \<Rightarrow> unit mach_ext rt \<Rightarrow> sio \<Rightarrow> u8 list \<Rightarrow> 'a ser_scheme \<Rightarrow> 'a ser_scheme option" where
  "rx_bytes os co rt io [] s = Some s"
| "rx_bytes os co rt io (c # cs) s =
     (case rx_byte os co rt io c s of None \<Rightarrow> None | Some s \<Rightarrow> rx_bytes os co rt io cs s)"

text \<open>
  The loopback net, ::1, or the loopback net mapped into IPv6; the address of an IPv4
  peer in host order, of an IPv6 peer as its sixteen bytes.
\<close>

definition peer_loopback :: "addr \<Rightarrow> bool" where
  "peer_loopback a =
     (case a of
        Inet ip \<Rightarrow> drop_bit 24 ip = 127
      | Inet6 b \<Rightarrow> b = replicate 15 0 @ [1] \<or> (take 12 b = replicate 10 0 @ [0xFF, 0xFF] \<and> b ! 12 = 127)
      | Other_family \<Rightarrow> False)"

definition KEEP_OUT_MSG :: string where
  "KEEP_OUT_MSG = ''[MSG:The machine is in use: senders are kept out for now]'' @ [CHR 0x0D, CHR 0x0A]"

definition char_bytes :: "string \<Rightarrow> u8 list" where
  "char_bytes t = map (\<lambda>c. of_nat (of_char c)) t"

definition serial_keep_out :: "bool \<Rightarrow> 'a ser_scheme \<Rightarrow> 'a ser_scheme" where
  "serial_keep_out on s = s\<lparr>keep_out := on\<rparr>"

definition serial_keeping_out :: "'a ser_scheme \<Rightarrow> bool" where
  "serial_keeping_out s = keep_out s"

definition serial_drop_sender :: "'a injd \<Rightarrow> 'a ser_scheme \<Rightarrow> bool \<times> 'a ser_scheme" where
  "serial_drop_sender inj_done s =
     (if client_fd s < 0 \<or> client_loopback s then (False, s)
      else (True, drop_client inj_done (ser_emit (S_text (char_bytes KEEP_OUT_MSG)) s)))"

text \<open>A connection that is let in: it displaces the session before it. The descriptor is any nonnegative one.\<close>

definition accept_client :: "sio \<Rightarrow> 'a injd \<Rightarrow> addr \<Rightarrow> 'a ser_scheme \<Rightarrow> 'a ser_scheme" where
  "accept_client io inj_done a s =
     (let s = drop_client inj_done (ser_emit (S_accept a) s);
          s = s\<lparr>client_loopback := peer_loopback a,
                client_peer := (if a = Other_family then [] else sio_ntop io a)\<rparr>;
          (t, s) = ser_now io s
      in s\<lparr>client_since := ts_s t, client_fd := 0, client_generation := client_generation s + 1, banner_pending := True\<rparr>)"

definition rx_accept :: "sio \<Rightarrow> 'a injd \<Rightarrow> 'a ser_scheme \<Rightarrow> 'a ser_scheme" where
  "rx_accept io inj_done s =
     (case sio_accept io (ser_tr s) of None \<Rightarrow> s
      | Some a \<Rightarrow> if keep_out s \<and> \<not> peer_loopback a
                  then ser_emit (S_refused a) s
                  else accept_client io inj_done a s)"

definition rx_read :: "os \<Rightarrow> core \<Rightarrow> unit mach_ext rt \<Rightarrow> sio \<Rightarrow> 'a injd \<Rightarrow> 'a ser_scheme \<Rightarrow> 'a ser_scheme option" where
  "rx_read os co rt io inj_done s =
     (if client_fd s < 0 then Some s
      else case sio_read io (ser_tr s) of
        Got bs \<Rightarrow>
          if bs = [] then Some (drop_client inj_done (ser_emit S_no_data s))
          else rx_bytes os co rt io (take RX_CHUNK bs) (ser_emit (S_read (take RX_CHUNK bs)) s)
      | Try_again \<Rightarrow> Some (ser_emit S_no_data s)
      | _ \<Rightarrow> Some (drop_client inj_done (ser_emit S_no_data s)))"

definition rx_stdin :: "os \<Rightarrow> core \<Rightarrow> unit mach_ext rt \<Rightarrow> sio \<Rightarrow> 'a ser_scheme \<Rightarrow> 'a ser_scheme option" where
  "rx_stdin os co rt io s =
     (let c = sio_stdin io (ser_tr s); s = ser_emit (S_stdin c) s in
      if c \<noteq> 0 \<and> c \<noteq> 0xFF then rx_byte os co rt io c s
      else if c = 0xFF then Some (s\<lparr>stdin_eof := True\<rparr>) else Some s)"

definition rx_poll :: "os \<Rightarrow> core \<Rightarrow> unit mach_ext rt \<Rightarrow> sio \<Rightarrow> 'a injd \<Rightarrow> 'a ser_scheme \<Rightarrow> 'a ser_scheme option" where
  "rx_poll os co rt io inj_done s =
     (if listen_fd s \<ge> 0 then rx_read os co rt io inj_done (rx_accept io inj_done s)
      else rx_stdin os co rt io s)"

text \<open>The contiguous part of the transmit ring that one write takes.\<close>

definition tx_span :: "ring \<Rightarrow> u8 list" where
  "tx_span r = take (if r_head r \<ge> r_tail r then r_head r - r_tail r else TX_BUFFER_SIZE - r_tail r)
                 (drop (r_tail r) (r_data r))"

text \<open>One turn of the drain: to go on, or not.\<close>

definition drain_turn :: "sio \<Rightarrow> 'a injd \<Rightarrow> 'a ser_scheme \<Rightarrow> bool \<times> 'a ser_scheme" where
  "drain_turn io inj_done s =
     (if client_fd s < 0 \<and> listen_fd s \<ge> 0 then (False, s\<lparr>tx := (tx s)\<lparr>r_tail := r_head (tx s)\<rparr>\<rparr>)
      else let out = tx_span (tx s) in
        case sio_write io (ser_tr s) out of
          Wrote w \<Rightarrow>
            if w > 0
            then (True, (ser_emit (S_wrote out w) s)\<lparr>tx := (tx s)\<lparr>r_tail := (r_tail (tx s) + min w (length out)) AND (TX_BUFFER_SIZE - 1)\<rparr>\<rparr>)
            else (listen_fd s \<ge> 0, drop_client inj_done (ser_emit S_write_failed s))
        | Would_block \<Rightarrow> (False, s)
        | Write_error \<Rightarrow> (listen_fd s \<ge> 0, drop_client inj_done (ser_emit S_write_failed s)))"

text \<open>The drain, with a bound on its turns; the flag says that the bound was not reached.\<close>

fun drain :: "sio \<Rightarrow> 'a injd \<Rightarrow> nat \<Rightarrow> 'a ser_scheme \<Rightarrow> bool \<times> 'a ser_scheme" where
  "drain io inj_done 0 s = (ring_empty (tx s), s)"
| "drain io inj_done (Suc n) s =
     (if ring_empty (tx s) then (True, s)
      else case drain_turn io inj_done s of (go, s) \<Rightarrow> if go then drain io inj_done n s else (True, s))"

definition tx_drain :: "sio \<Rightarrow> 'a injd \<Rightarrow> 'a ser_scheme \<Rightarrow> 'a ser_scheme" where
  "tx_drain io inj_done s = snd (drain io inj_done (TX_BUFFER_SIZE + 1) s)"

text \<open>The welcome of a new sender, and the error state that it does not inherit.\<close>

definition serial_welcome :: "sio \<Rightarrow> 'a injd \<Rightarrow> 'a blk \<Rightarrow> 'a ser_scheme \<Rightarrow> 'a ser_scheme option" where
  "serial_welcome io inj_done blk s =
     (if banner_pending s \<and> \<not> tx_blocked s \<and> client_fd s \<ge> 0
      then map_option (\<lambda>s. s\<lparr>last_error := 0\<rparr>) (serialWriteS io inj_done blk (sio_banner io) (s\<lparr>banner_pending := False\<rparr>))
      else Some s)"

definition serial_poll :: "os \<Rightarrow> core \<Rightarrow> unit mach_ext rt \<Rightarrow> sio \<Rightarrow> 'a injd \<Rightarrow> 'a blk \<Rightarrow> ('a ser_scheme \<Rightarrow> 'a ser_scheme option)
    \<Rightarrow> 'a ser_scheme \<Rightarrow> 'a ser_scheme option" where
  "serial_poll os co rt io inj_done blk ctlport_poll s =
     (case rx_poll os co rt io inj_done s of None \<Rightarrow> None
      | Some s \<Rightarrow>
          (case ctlport_poll s of None \<Rightarrow> None
           | Some s \<Rightarrow> map_option (tx_drain io inj_done) (serial_welcome io inj_done blk s)))"

text \<open>
  The descriptors that the wait arms, each with its two events: the listener, the
  client while the ring has room for a full read and output is pending, or stdin.
\<close>

definition wait_fds :: "'a ser_scheme \<Rightarrow> (int \<times> bool \<times> bool) list" where
  "wait_fds s =
     (if listen_fd s \<ge> 0
      then (listen_fd s, True, False) #
           (if client_fd s \<ge> 0
            then [(client_fd s, serialRxFree s > RX_CHUNK, \<not> ring_empty (tx s))] else [])
      else if \<not> stdin_eof s then [(0, True, False)] else [])"

definition serial_wait :: "sio \<Rightarrow> 'a injd \<Rightarrow> ('a ser_scheme \<Rightarrow> (int \<times> bool \<times> bool) list) \<Rightarrow> 'a ser_scheme \<Rightarrow> 'a ser_scheme" where
  "serial_wait io inj_done pollfds s =
     (let s = tx_drain io inj_done s in ser_emit (S_poll (wait_fds s @ pollfds s)) s)"

section \<open>Line multiplexing\<close>

text \<open>The status of a line: to the port when it is the injected line's, to the sender otherwise.\<close>

definition inject_status_message :: "'a injd \<Rightarrow> int \<Rightarrow> 'a ser_scheme \<Rightarrow> 'a ser_scheme" where
  "inject_status_message inj_done status s =
     (if inj_status_due s
      then let s = s\<lparr>inj_active := False, inj_status_due := False, last_error := inj_saved_error s\<rparr>
           in if inj_hooked s then inj_done status s else s
      else ser_emit (S_status status) (s\<lparr>sender_line_open := False\<rparr>))"

definition serial_inject_init :: "'a ser_scheme \<Rightarrow> 'a ser_scheme" where
  "serial_inject_init s = s\<lparr>inj_hooked := True\<rparr>"

definition serial_inject_busy :: "'a ser_scheme \<Rightarrow> bool" where
  "serial_inject_busy s = inj_active s"

definition serial_inject_line :: "u8 list \<Rightarrow> 'a ser_scheme \<Rightarrow> bool \<times> 'a ser_scheme" where
  "serial_inject_line line s =
     (if inj_active s \<or> sender_midline s \<or> rx_discarding s \<or> line = [] \<or>
         \<not> ring_empty (rx s) \<or> length line + 1 > serialRxFree s
      then (False, s)
      else (True, s\<lparr>rx := fold (ring_put RX_BUFFER_SIZE) (line @ [sender_eol s]) (rx s),
                    inj_left := length line + 1, inj_active := True, inj_first := True, inj_status_due := False\<rparr>))"

definition serial_hold_sender :: "bool \<Rightarrow> 'a ser_scheme \<Rightarrow> 'a ser_scheme" where
  "serial_hold_sender hold s = s\<lparr>hold_sender := hold\<rparr>"

text \<open>The loop over the sender's bytes behind an injected line, one turn per slot at the most.\<close>

fun pending_scan :: "nat \<Rightarrow> nat \<Rightarrow> ring \<Rightarrow> bool" where
  "pending_scan 0 p r = False"
| "pending_scan (Suc n) p r =
     (if p = r_head r then False
      else \<not> is_eol (r_data r ! p) \<or> pending_scan n (ring_next RX_BUFFER_SIZE p) r)"

definition serial_sender_pending :: "'a ser_scheme \<Rightarrow> bool" where
  "serial_sender_pending s =
     pending_scan RX_BUFFER_SIZE ((r_tail (rx s) + inj_left s) AND (RX_BUFFER_SIZE - 1)) (rx s)"

definition serial_sender_empty_lines_only :: "'a ser_scheme \<Rightarrow> bool" where
  "serial_sender_empty_lines_only s =
     (\<not> ring_empty (rx s) \<and> inj_left s = 0 \<and> \<not> serial_sender_pending s)"

definition serial_rx_overflow_take :: "'a ser_scheme \<Rightarrow> bool \<times> 'a ser_scheme" where
  "serial_rx_overflow_take s = (rx_overrun s, s\<lparr>rx_overrun := False\<rparr>)"

text \<open>The statics at the start of the process.\<close>

definition ser0 :: "mach \<Rightarrow> ser" where
  "ser0 m = \<lparr>ser_tr = [], machine = m, rx = ring_new RX_BUFFER_SIZE, rx_overflow = False, tx = ring_new TX_BUFFER_SIZE,
     listen_fd = - 1, client_fd = - 1, client_generation = 0, client_peer = [], client_since = 0, stdin_eof = False,
     banner_pending = False, tx_blocked = False, rx_discarding = False, rx_overrun = False, client_loopback = False,
     keep_out = False, sender_midline = False, read_midline = False, sender_eol = 0x0A, sender_last_line = 0,
     inj_active = False, inj_left = 0, inj_first = False, inj_status_due = False, inj_saved_error = 0,
     hold_sender = False, sender_line_open = False, inj_hooked = False, last_error = 0\<rparr>"

end
