(* ===== verification/Mcode.thy ===== *)
theory Mcode
  imports Mach_State
begin

text \<open>
  glowforge_mcode.c: the M-codes an extension package answers. The table of the numbers
  answered now, the barrier a job waits at, and the answer that lets it go on. The JSON
  of the waiting M-code is the value it prints.
\<close>

definition GFMCODE_MIN :: int where "GFMCODE_MIN = 160"
definition GFMCODE_MAX :: int where "GFMCODE_MAX = 179"
definition GFMCODE_TABLE_MAX :: nat where "GFMCODE_TABLE_MAX = 20"
definition GFMCODE_WAIT_S :: rat where "GFMCODE_WAIT_S = 30"
definition GFMCODE_DRAIN_S :: rat where "GFMCODE_DRAIN_S = 5"
definition GFMCODE_TEXT_MAX :: nat where "GFMCODE_TEXT_MAX = 96"

definition ours :: "int \<Rightarrow> bool" where
  "ours code \<longleftrightarrow> GFMCODE_MIN \<le> code \<and> code \<le> GFMCODE_MAX"

definition answered_now :: "int \<Rightarrow> 'a mach_scheme \<Rightarrow> bool" where
  "answered_now code s \<longleftrightarrow> code \<in> set (mc_table s)"

section \<open>The table\<close>

lemma scan_digits_shorter: "length (snd (snd (scan_digits dv b a n s))) \<le> length s"
  by (induction dv b a n s rule: scan_digits.induct) (auto split: option.split intro: le_SucI)

text \<open>The scan of the list: each number at a digit, of at most three digits, in range and new; a comma between two.\<close>

function parse_codes :: "int list \<Rightarrow> string \<Rightarrow> int list option" where
  "parse_codes codes p =
     (if p = [] then Some codes
      else if length codes = GFMCODE_TABLE_MAX \<or> digit_val (hd p) = None then None
      else let (v, n, rest) = scan_digits digit_val 10 0 0 p in
        if n > 3 \<or> \<not> ours (int v) then None
        else if int v \<in> set codes then None
        else if rest = [] then Some (codes @ [int v])
        else if hd rest = CHR '','' \<and> tl rest \<noteq> [] then parse_codes (codes @ [int v]) (tl rest)
        else None)"
  by pat_completeness auto
termination
proof (relation "measure (\<lambda>(c, p). length p)", goal_cases)
  case (2 codes p x v y n rest)
  then have "snd (snd (scan_digits digit_val 10 0 0 p)) = rest" "rest \<noteq> []" by (metis snd_conv, auto)
  then have "length rest \<le> length p" "rest \<noteq> []" using scan_digits_shorter [of digit_val 10 0 0 p] by auto
  then show ?case by (cases rest) simp_all
qed simp

declare parse_codes.simps [simp del]

definition gfmcode_set_table :: "string \<Rightarrow> 'a mach_scheme \<Rightarrow> int \<times> 'a mach_scheme" where
  "gfmcode_set_table list s =
     (if list = ''-'' then (0, s\<lparr>mc_table := []\<rparr>)
      else case parse_codes [] list of None \<Rightarrow> (- 1, s)
        | Some codes \<Rightarrow> if codes = [] then (- 1, s) else (0, s\<lparr>mc_table := codes\<rparr>))"

section \<open>The answer\<close>

definition answer_char :: "char \<Rightarrow> bool" where
  "answer_char c = (let n = of_char c :: nat in 0x20 \<le> n \<and> n \<le> 0x7e \<and> c \<noteq> CHR ''['' \<and> c \<noteq> CHR '']'')"

definition gfmcode_answer :: "u32 \<Rightarrow> bool \<Rightarrow> string \<Rightarrow> 'a mach_scheme \<Rightarrow> int \<times> 'a mach_scheme" where
  "gfmcode_answer seq ok txt s =
     (let w = mc_wait s in
      if \<not> w_active w \<or> w_answered w \<or> seq \<noteq> w_seq w then (- 1, s)
      else if length txt > GFMCODE_TEXT_MAX then (- 1, s)
      else if \<not> list_all answer_char txt then (- 1, s)
      else (0, s\<lparr>mc_wait := w\<lparr>w_text := txt, w_ok := ok, w_answered := True\<rparr>\<rparr>))"

definition gfmcode_waiting :: "'a mach_scheme \<Rightarrow> bool" where
  "gfmcode_waiting s = w_active (mc_wait s)"

text \<open>The M-code a job waits at, with the words it was given: what the port's state shows.\<close>

definition gfmcode_state_json :: "'a mach_scheme \<Rightarrow> (u32 \<times> int \<times> (char \<times> cfloat) list) option" where
  "gfmcode_state_json s =
     (let w = mc_wait s in
      if \<not> w_active w \<or> w_answered w then None
      else Some (w_seq w, w_code w,
        (case w_p w of Some v \<Rightarrow> [(CHR ''P'', v)] | None \<Rightarrow> []) @
        (case w_q w of Some v \<Rightarrow> [(CHR ''Q'', v)] | None \<Rightarrow> []) @
        (case w_r w of Some v \<Rightarrow> [(CHR ''R'', v)] | None \<Rightarrow> [])))"

section \<open>The hooks\<close>

definition mcode_num :: "user_mcode \<Rightarrow> int" where
  "mcode_num m = (case m of UserMCode_Generic2 \<Rightarrow> 102 | UserMCode_Other n \<Rightarrow> int n)"

definition mcode_mcodeCheck :: "mc_check option \<Rightarrow> 'a mach_scheme \<Rightarrow> mc_check" where
  "mcode_mcodeCheck chain s mcode =
     (if ours (mcode_num mcode)
      then if answered_now (mcode_num mcode) s then UserMCode_Normal else UserMCode_Unsupported
      else case chain of Some f \<Rightarrow> f mcode | None \<Rightarrow> UserMCode_Unsupported)"

definition mcode_mcodeValidate :: "mc_validate option \<Rightarrow> mc_validate" where
  "mcode_mcodeValidate chain b =
     (if \<not> ours (mcode_num (pb_mcode b))
      then (case chain of Some f \<Rightarrow> f b | None \<Rightarrow> (Status_Unhandled, b))
      else if pb_p b \<and> \<not> isfinite (pb_val_p b) \<or> pb_q b \<and> \<not> isfinite (pb_val_q b) \<or> pb_r b \<and> \<not> isfinite (pb_val_r b)
      then (Status_BadNumberFormat, b)
      else (Status_OK, b\<lparr>pb_p := False, pb_q := False, pb_r := False, pb_sync := True\<rparr>))"

section \<open>The barrier\<close>

text \<open>The announcement. The sequence number never is 0.\<close>

definition mcode_announce :: "int \<Rightarrow> parser_block \<Rightarrow> 'a mach_scheme \<Rightarrow> 'a mach_scheme" where
  "mcode_announce code b s =
     (let seq = seq_next s;
          s = s\<lparr>seq_next := (if seq + 1 = 0 then 1 else seq + 1),
                mc_wait := (mc_wait s)\<lparr>w_seq := seq, w_code := code,
                  w_p := (if pb_p b then Some (pb_val_p b) else None),
                  w_q := (if pb_q b then Some (pb_val_q b) else None),
                  w_r := (if pb_r b then Some (pb_val_r b) else None),
                  w_answered := False, w_text := [], w_active := True\<rparr>\<rparr>
      in report_message ''waits for its extension'' s)"

definition answer_turn :: "os \<Rightarrow> core \<Rightarrow> 'a mach_ext rt \<Rightarrow> rat \<Rightarrow> 'a mach_scheme \<Rightarrow> 'a mach_scheme + 'a mach_scheme" where
  "answer_turn os co rt end_s s =
     (if w_answered (mc_wait s) then Inl s
      else let (now, s) = wall_s os s in
        if \<not> now < end_s then Inl s
        else let (ok, s) = pump rt s in
          if \<not> ok \<or> in_state (state_get co s) {ALARM, ESTOP} then Inl s else Inr (sleep_ns 5000000 s))"

definition mcode_finish :: "core \<Rightarrow> mio \<Rightarrow> 'a mach_scheme \<Rightarrow> 'a mach_scheme" where
  "mcode_finish co mi s =
     (let w = mc_wait s; s = s\<lparr>mc_wait := w\<lparr>w_active := False\<rparr>\<rparr> in
      if sys_abort mi s \<or> in_state (state_get co s) {ALARM, ESTOP} then s
      else if w_answered w \<and> w_ok w then report_message ''done'' s
      else if w_answered w then hold_job (if w_text w \<noteq> [] then w_text w else ''its extension did not do it'') s
      else hold_job ''had no answer from its extension: the job is held'' s)"

definition mcode_execute :: "os \<Rightarrow> core \<Rightarrow> mio \<Rightarrow> 'a mach_ext rt \<Rightarrow> int \<Rightarrow> parser_block \<Rightarrow> 'a mach_scheme
    \<Rightarrow> 'a mach_scheme option" where
  "mcode_execute os co mi rt code b s =
     (if \<not> answered_now code s then Some (hold_job ''has no extension to answer it now: the job is held'' s)
      else let (now, s) = wall_s os s in
        case drain_wait os co rt (now + GFMCODE_DRAIN_S) s of None \<Rightarrow> None
        | Some (go, s) \<Rightarrow>
            if \<not> go then Some s
            else let (idle, s) = gf_stream_kernel_idle os s in
              if \<not> idle then Some (hold_job ''the move before it did not finish: the job is held'' s)
              else let (now, s) = wall_s os (mcode_announce code b s)
                   in map_option (mcode_finish co mi) (wait_loop (answer_turn os co rt (now + GFMCODE_WAIT_S)) s))"

definition mcode_mcodeExecute :: "os \<Rightarrow> core \<Rightarrow> mio \<Rightarrow> 'a mach_ext rt \<Rightarrow> 'a mach_ext mc_execute option \<Rightarrow> 'a mach_ext mc_execute" where
  "mcode_mcodeExecute os co mi rt chain b s =
     (if \<not> ours (mcode_num (pb_mcode b)) then (case chain of Some f \<Rightarrow> f b s | None \<Rightarrow> Some s)
      else mcode_execute os co mi rt (mcode_num (pb_mcode b)) b s)"

end
