(* ===== verification/Tray.thy ===== *)
theory Tray
  imports Mach_State
begin

text \<open>
  glowforge_tray.c: the crumb tray, in or out. The mode is saved in a marker file beside
  the configuration before the Z frame moves; the frame moves by whole half-steps. The
  flush of the directory entry is not modelled.
\<close>

definition TRAY_MARKER :: string where "TRAY_MARKER = ''tray.out''"
definition DRAIN_S :: rat where "DRAIN_S = 5"
definition GFTRAY_OFFSET_DEFAULT_MM :: rat where "GFTRAY_OFFSET_DEFAULT_MM = 3429 / 100"
definition GFTRAY_OFFSET_MIN_MM :: rat where "GFTRAY_OFFSET_MIN_MM = 13"
definition GFTRAY_OFFSET_MAX_MM :: rat where "GFTRAY_OFFSET_MAX_MM = 60"

definition gftray_clamp_offset_mm :: "cfloat \<Rightarrow> rat" where
  "gftray_clamp_offset_mm mm =
     (case mm of NaN \<Rightarrow> GFTRAY_OFFSET_DEFAULT_MM | NInf \<Rightarrow> GFTRAY_OFFSET_MIN_MM | PInf \<Rightarrow> GFTRAY_OFFSET_MAX_MM
      | Fin x \<Rightarrow> if x < GFTRAY_OFFSET_MIN_MM then GFTRAY_OFFSET_MIN_MM
                 else if x > GFTRAY_OFFSET_MAX_MM then GFTRAY_OFFSET_MAX_MM else x)"

definition gftray_offset_steps :: "cfloat \<Rightarrow> rat \<Rightarrow> int" where
  "gftray_offset_steps mm spm = lround (gftray_clamp_offset_mm mm * spm)"

definition tray_marker_path :: "os \<Rightarrow> string option" where
  "tray_marker_path os = gfio_conf_sibling os TRAY_MARKER 256"

definition tray_marker_set :: "os \<Rightarrow> mio \<Rightarrow> bool \<Rightarrow> 'a mach_scheme \<Rightarrow> bool \<times> 'a mach_scheme" where
  "tray_marker_set os mi on s =
     (case tray_marker_path os of None \<Rightarrow> (False, s)
      | Some path \<Rightarrow>
          if on
          then (case mi_mark mi (core_tr s) path of
                  Mark_no_open \<Rightarrow> (False, ask (Marker_file path on False) s)
                | Mark_no_write gone \<Rightarrow> (False, ask (Marker_file path on False) (s\<lparr>tray_marker := \<not> gone\<rparr>))
                | Mark_written \<Rightarrow> (True, ask (Marker_file path on True) (s\<lparr>tray_marker := True\<rparr>)))
          else if mi_unlink mi (core_tr s) path
          then (True, ask (Marker_file path on True) (s\<lparr>tray_marker := False\<rparr>))
          else (False, ask (Marker_file path on False) s))"

definition offset_steps :: "os \<Rightarrow> 'a mach_scheme \<Rightarrow> int" where
  "offset_steps os s =
     (let key = gfio_conf_read_float os ''tray_offset_mm'' (Fin GFTRAY_OFFSET_DEFAULT_MM) s;
          mm = gftray_clamp_offset_mm key
      in gftray_offset_steps (Fin mm) (z_spm s))"

definition gftray_out :: "'a mach_scheme \<Rightarrow> bool" where
  "gftray_out s = tray_out s"

definition gftray_shift_steps :: "os \<Rightarrow> 'a mach_scheme \<Rightarrow> int \<times> 'a mach_scheme" where
  "gftray_shift_steps os s =
     (if \<not> tray_out s then (0, s)
      else if \<not> shift_known s
      then let d = offset_steps os s in (d, s\<lparr>tray_shift := d, shift_known := True\<rparr>)
      else (tray_shift s, s))"

definition tray_set :: "os \<Rightarrow> mio \<Rightarrow> bool \<Rightarrow> 'a mach_scheme \<Rightarrow> 'a mach_scheme" where
  "tray_set os mi want s =
     (let switch = (want \<noteq> tray_out s);
          (delta, s) = (if \<not> switch then (0, s)
                        else if want then (offset_steps os s, s)
                        else let (d, s) = gftray_shift_steps os s in (- d, s));
          (saved, s) = (if switch then tray_marker_set os mi want s else (True, s))
      in if \<not> saved
         then hold_job (if want then ''Tray mode not changed: the tray out could not be saved''
                        else ''Tray mode not changed: the tray in could not be saved'') s
         else let s = (if switch
                       then ask Sync_position
                              (gfhome_tray_shift os delta
                                (s\<lparr>tray_out := want, tray_shift := (if want then delta else 0), shift_known := want\<rparr>))
                       else s)
              in report_message (if tray_out s then ''Tray out'' else ''Tray in'') s)"

definition tray_mcodeCheck :: "mc_check option \<Rightarrow> mc_check" where
  "tray_mcodeCheck chain mcode =
     (if mcode = UserMCode_Generic3 then UserMCode_Normal
      else case chain of Some f \<Rightarrow> f mcode | None \<Rightarrow> UserMCode_Unsupported)"

definition tray_mcodeValidate :: "mc_validate option \<Rightarrow> mc_validate" where
  "tray_mcodeValidate chain b =
     (if pb_mcode b \<noteq> UserMCode_Generic3
      then (case chain of Some f \<Rightarrow> f b | None \<Rightarrow> (Status_Unhandled, b))
      else if \<not> pb_p b then (Status_GcodeValueWordMissing, b)
      else if pb_val_p b \<noteq> Fin 0 \<and> pb_val_p b \<noteq> Fin 1 then (Status_GcodeValueOutOfRange, b)
      else if pb_axes b then (Status_GcodeAxisWordsExist, b)
      else (Status_OK, b\<lparr>pb_p := False, pb_sync := True\<rparr>))"

definition tray_execute :: "os \<Rightarrow> core \<Rightarrow> mio \<Rightarrow> 'a mach_ext rt \<Rightarrow> parser_block \<Rightarrow> 'a mach_scheme \<Rightarrow> 'a mach_scheme option" where
  "tray_execute os co mi rt b s =
     (let (now, s) = wall_s os s in
      case drain_wait os co rt (now + DRAIN_S) s of None \<Rightarrow> None
      | Some (go, s) \<Rightarrow>
          if \<not> go then Some s
          else let (idle, s) = gf_stream_kernel_idle os s in
            if \<not> idle then Some (hold_job ''Tray mode not changed: the move before M103 did not finish'' s)
            else Some (tray_set os mi (pb_val_p b \<noteq> Fin 0) s))"

definition tray_mcodeExecute :: "os \<Rightarrow> core \<Rightarrow> mio \<Rightarrow> 'a mach_ext rt \<Rightarrow> 'a mach_ext mc_execute option \<Rightarrow> 'a mach_ext mc_execute" where
  "tray_mcodeExecute os co mi rt chain b s =
     (if pb_mcode b \<noteq> UserMCode_Generic3 then (case chain of Some f \<Rightarrow> f b s | None \<Rightarrow> Some s)
      else tray_execute os co mi rt b s)"

text \<open>The start: the mode that the marker kept.\<close>

definition gftray_init :: "os \<Rightarrow> 'a mach_scheme \<Rightarrow> 'a mach_scheme" where
  "gftray_init os s = s\<lparr>tray_out := (tray_marker_path os \<noteq> None \<and> tray_marker s)\<rparr>"

end
