(* ===== verification/Release.thy ===== *)
theory Release
  imports Mach_State
begin

text \<open>
  glowforge_release.c: the release of the X and Y motors and its lock. The core's alarm
  is what refuses motion; what this module adds is that the alarm stands while the
  motors are released. The guard of $X and the hook of the status reports are the
  functions that the core calls; their registration is not modelled.
\<close>

definition RELEASE_STATE_DIR :: string where "RELEASE_STATE_DIR = ''/run/forgefirm''"
definition RELEASE_MARKER :: string where "RELEASE_MARKER = ''motors.released''"
definition REPORT_EVERY_MS :: u32 where "REPORT_EVERY_MS = 2000"
definition KERNEL_IDLE_WAIT_MS :: u32 where "KERNEL_IDLE_WAIT_MS = 3000"

definition state_dir :: "os \<Rightarrow> string" where
  "state_dir os = (case gfio_test_hook os ''GF_STATE_DIR'' of
      Some d \<Rightarrow> if d = [] then RELEASE_STATE_DIR else d | None \<Rightarrow> RELEASE_STATE_DIR)"

definition release_marker_path :: "os \<Rightarrow> string" where
  "release_marker_path os = take 159 (state_dir os @ ''/'' @ RELEASE_MARKER)"

text \<open>A file that opens is there, whatever becomes of its text; the results are not looked at.\<close>

definition release_marker_set :: "os \<Rightarrow> mio \<Rightarrow> bool \<Rightarrow> 'a mach_scheme \<Rightarrow> 'a mach_scheme" where
  "release_marker_set os mi on s =
     (let path = release_marker_path os;
          there = (if on then mi_mark mi (core_tr s) path \<noteq> Mark_no_open \<or> release_marker s
                   else release_marker s \<and> \<not> mi_unlink mi (core_tr s) path)
      in ask (Marker_file path on there) (s\<lparr>release_marker := there\<rparr>))"

definition gfrelease_active :: "'a mach_scheme \<Rightarrow> bool" where
  "gfrelease_active s = released s"

definition gfrelease_report :: "os \<Rightarrow> 'a mach_scheme \<Rightarrow> 'a mach_scheme" where
  "gfrelease_report os s =
     (let (now, s) = millis os s in
      if \<not> reported s \<or> now - last_report s \<ge> REPORT_EVERY_MS
      then report_message ''Motors released: nothing moves until $ME, or $H with homing_mode = manual''
             (s\<lparr>reported := True, last_report := now\<rparr>)
      else s)"

text \<open>The currents to 0, with the flag first; the hold currents again when a write fails.\<close>

definition release_currents :: "os \<Rightarrow> 'a mach_scheme \<Rightarrow> bool \<times> 'a mach_scheme" where
  "release_currents os s =
     (let s = gfio_xy_released_set True s;
          (rx, s) = gfio_wr_attr os Pic_x_step_current ''0'' s;
          (ry, s) = (if rx \<noteq> 0 then (rx, s) else gfio_wr_attr os Pic_y_step_current ''0'' s)
      in if rx \<noteq> 0 \<or> ry \<noteq> 0
         then (False, gfio_currents_hold os (gfio_xy_released_set False s))
         else (True, s))"

definition release_done :: "os \<Rightarrow> mio \<Rightarrow> sys_state \<Rightarrow> 'a mach_scheme \<Rightarrow> 'a mach_scheme" where
  "release_done os mi st s =
     (let s = release_marker_set os mi True (s\<lparr>released := True\<rparr>);
          s = s\<lparr>reported := False, alarm_before := (st = {ALARM})\<rparr>;
          s = ask Report_homed (gfhome_invalidate_xy os s);
          s = (if alarm_before s then s else ask Alarm_HomingRequired s)
      in report_message ''Motors released: X and Y are free and their position is no longer known'' s)"

definition release_cmd :: "os \<Rightarrow> mio \<Rightarrow> 'a mach_ext rt \<Rightarrow> sys_state \<Rightarrow> 'a mach_scheme
    \<Rightarrow> (status_code \<times> 'a mach_scheme) option" where
  "release_cmd os mi rt st s =
     (if released s then Some (Status_OK, s)
      else if \<not> (st = STATE_IDLE \<or> st = {ALARM}) then Some (Status_IdleError, s)
      else if gflaser_armed s \<or> gflaser_arming s
      then Some (Status_IdleError, report_message ''Motors not released: a laser job is armed'' s)
      else case gfhome_wait_kernel_idle os rt KERNEL_IDLE_WAIT_MS s of None \<Rightarrow> None
        | Some (idle, s) \<Rightarrow>
            if \<not> idle then Some (Status_IdleError, s)
            else let (ok, s) = release_currents os s in
              if \<not> ok
              then Some (Status_IdleError, report_message ''Motors not released: the step currents could not be written'' s)
              else Some (Status_OK, release_done os mi st s))"

definition gfrelease_energize :: "os \<Rightarrow> mio \<Rightarrow> 'a mach_scheme \<Rightarrow> status_code \<times> 'a mach_scheme" where
  "gfrelease_energize os mi s =
     (if \<not> released s then (Status_OK, s)
      else let s = gfio_currents_hold os (gfio_xy_released_set False s)
           in (Status_OK, release_marker_set os mi False (s\<lparr>released := False\<rparr>)))"

definition energize_cmd :: "os \<Rightarrow> mio \<Rightarrow> 'a mach_scheme \<Rightarrow> status_code \<times> 'a mach_scheme" where
  "energize_cmd os mi s =
     (if \<not> released s then (Status_OK, s)
      else let (status, s) = gfrelease_energize os mi s in
        if status \<noteq> Status_OK then (status, s)
        else let s = (if alarm_before s then s else state_set STATE_IDLE (ask Alarm_clear s))
             in (Status_OK, report_message ''Motors energized: the position is unknown until a home'' s))"

definition unlock_guard :: "os \<Rightarrow> 'a mach_scheme \<Rightarrow> status_code \<times> 'a mach_scheme" where
  "unlock_guard os s = (if \<not> released s then (Status_Unhandled, s) else (Status_SystemGClock, gfrelease_report os s))"

definition gfrelease_poll :: "core \<Rightarrow> 'a mach_scheme \<Rightarrow> 'a mach_scheme" where
  "gfrelease_poll co s = (if released s \<and> state_get co s = STATE_IDLE then ask Alarm_HomingRequired s else s)"

definition release_status_message :: "os \<Rightarrow> (status_code \<Rightarrow> 'a mach_scheme \<Rightarrow> 'a mach_scheme) \<Rightarrow> status_code
    \<Rightarrow> 'a mach_scheme \<Rightarrow> 'a mach_scheme" where
  "release_status_message os chain status s =
     chain status (if released s \<and> (status = Status_SystemGClock \<or> status = Status_IdleError)
                   then gfrelease_report os s else s)"

text \<open>A controller that starts over a released gantry takes the release over.\<close>

definition gfrelease_adopt :: "'a mach_scheme \<Rightarrow> 'a mach_scheme" where
  "gfrelease_adopt s = (if release_marker s then gfio_xy_released_set True (s\<lparr>released := True\<rparr>) else s)"

end
