(* ===== verification/Homing_Session.thy ===== *)
theory Homing_Session
  imports Tray Release
begin

text \<open>
  The rest of glowforge_homing.c: the lens reference, the far edges of the envelope, the
  homing providers and $H. The homing runner is a process that this program only starts,
  signals and waits for: its answers are the function \<open>mi_waitpid\<close>. What the core does
  with a completed home, a jog or an alarm is asked of it by events.
\<close>

definition CMD_DEFAULT :: string where "CMD_DEFAULT = ''/usr/sbin/gfhome.py''"
definition TIMEOUT_S_DEFAULT :: rat where "TIMEOUT_S_DEFAULT = 300"
definition SUSPEND_WAIT_MS :: u32 where "SUSPEND_WAIT_MS = 3000"
definition KILL_GRACE_MS :: u32 where "KILL_GRACE_MS = 5000"
definition DEFAULT_LENS_HALL_EDGE_Z_MM :: rat where "DEFAULT_LENS_HALL_EDGE_Z_MM = 335 / 100"
definition DEFAULT_LENS_PARK_Z_MM :: rat where "DEFAULT_LENS_PARK_Z_MM = 3"
definition LENS_WINDOW_DOWN :: int where "LENS_WINDOW_DOWN = 10"
definition LENS_WINDOW_UP :: int where "LENS_WINDOW_UP = 12"
definition GFHOME_ENVELOPE_EXTRA_MM :: rat where "GFHOME_ENVELOPE_EXTRA_MM = 30"

section \<open>The lens reference\<close>

text \<open>A free travel of the settings: 1 to 40 half-steps, or the fallback window.\<close>

definition lens_stop :: "os \<Rightarrow> string \<Rightarrow> int \<Rightarrow> 'a mach_scheme \<Rightarrow> int" where
  "lens_stop os key fallback s =
     (let f = gfio_conf_read_float os key (Fin 0) s
      in if fl_le (Fin 1) f \<and> fl_le f (Fin 40) then \<lfloor>fl_rat f\<rfloor> else fallback)"

definition lens_window :: "os \<Rightarrow> int \<Rightarrow> int \<Rightarrow> 'a mach_scheme \<Rightarrow> int \<times> int" where
  "lens_window os down up s =
     (if down < 1 \<or> down > 40 then lens_stop os ''lens_stop_below_steps'' LENS_WINDOW_DOWN s else down,
      if up < 1 \<or> up > 40 then lens_stop os ''lens_stop_above_steps'' LENS_WINDOW_UP s else up)"

definition gfhome_reference_z :: "os \<Rightarrow> rat \<Rightarrow> int \<Rightarrow> int \<Rightarrow> 'a mach_scheme \<Rightarrow> 'a mach_scheme" where
  "gfhome_reference_z os z_mm down up s =
     (let spm = z_spm s;
          (shift, s) = gftray_shift_steps os s;
          steps = gfhome_z_steps z_mm spm + shift;
          (down, up) = lens_window os down up s;
          s = s\<lparr>sys_position_z := steps, sys_home_z := of_int steps / spm,
                z_env_min := of_int (steps - down - 1) / spm, z_env_max := of_int (steps + up + 1) / spm,
                z_referenced := True, sys_homed := sys_homed s OR Z_AXIS_BIT\<rparr>
      in ask Sync_position (gfhome_apply_z_limit s))"

definition gfhome_startup_reference :: "os \<Rightarrow> mio \<Rightarrow> 'a mach_scheme \<Rightarrow> 'a mach_scheme" where
  "gfhome_startup_reference os mi s =
     (case os_file os (io_tr s) (take 159 (state_dir os @ ''/lens.home'')) of None \<Rightarrow> s
      | Some txt \<Rightarrow>
          if txt = [] \<or> take 4 (cstr (fst (fgets1 63 txt))) \<noteq> ''edge'' then s
          else let z = key_rat mi (gfio_conf_read_float os ''lens_hall_edge_z_mm'' (Fin DEFAULT_LENS_HALL_EDGE_Z_MM) s);
                   s = gfhome_reference_z os z 0 0 s;
                   home = (0, 0, sys_home_z s)
               in anchor_write os home Z_AXIS_BIT ''startup'' (gf_stream_clear_position os s))"

section \<open>The envelope's far edges\<close>

text \<open>The far edge of X or Y: the measured one, within its limits, or the travel.\<close>

definition far_edge :: "os \<Rightarrow> string \<Rightarrow> rat \<Rightarrow> 'a mach_scheme \<Rightarrow> rat" where
  "far_edge os key travel s = fl_rat (gfhome_clamp_envelope_mm (gfio_conf_read_float os key (Fin (- 1)) s) travel)"

definition far_edges :: "os \<Rightarrow> 'a mach_scheme \<Rightarrow> rat \<times> rat" where
  "far_edges os s = (far_edge os ''envelope_x_mm'' (fst (travel_xy s)) s, far_edge os ''envelope_y_mm'' (snd (travel_xy s)) s)"

definition gfhome_envelope :: "os \<Rightarrow> core \<Rightarrow> bool \<Rightarrow> 'a mach_scheme \<Rightarrow> int \<times> 'a mach_scheme" where
  "gfhome_envelope os co open_it s =
     (if sys_homed s AND (X_AXIS_BIT OR Y_AXIS_BIT) \<noteq> X_AXIS_BIT OR Y_AXIS_BIT then (- 1, s)
      else if state_get co s \<noteq> STATE_IDLE \<or> gflaser_armed s then (- 2, s)
      else let s = (if open_it \<and> \<not> envelope_is_open s then s\<lparr>envelope_closed := sys_env_max_xy s\<rparr> else s);
               s = s\<lparr>sys_env_max_xy := (if open_it then (fst (travel_xy s) + GFHOME_ENVELOPE_EXTRA_MM, snd (travel_xy s) + GFHOME_ENVELOPE_EXTRA_MM)
                                         else far_edges os s),
                     envelope_is_open := open_it\<rparr>
           in (0, report_message (if open_it then ''Envelope open for the bed check'' else ''Envelope'') s))"

definition gfhome_envelope_is_open :: "'a mach_scheme \<Rightarrow> bool" where
  "gfhome_envelope_is_open s = envelope_is_open s"

definition gfhome_envelope_close :: "'a mach_scheme \<Rightarrow> 'a mach_scheme" where
  "gfhome_envelope_close s =
     (if envelope_is_open s then s\<lparr>sys_env_max_xy := envelope_closed s, envelope_is_open := False\<rparr> else s)"

section \<open>What every provider does at its home\<close>

definition home_completed :: "os \<Rightarrow> rat \<times> rat \<times> rat \<Rightarrow> u8 \<Rightarrow> u8 \<Rightarrow> string \<Rightarrow> 'a mach_scheme \<Rightarrow> 'a mach_scheme" where
  "home_completed os home homed anchored source s =
     (let s = ask Sync_position (gfhome_apply_z_limit s);
          s = anchor_write os home anchored source (gf_stream_clear_position os s);
          s = ask Report_homed (ask (Homing_completed homed) s)
      in ask Go_idle (state_set STATE_IDLE s))"

section \<open>The web-service home\<close>

definition cloud_cmd :: "os \<Rightarrow> 'a mach_scheme \<Rightarrow> string" where
  "cloud_cmd os s =
     (if getenv_set os ''GFSINK'' \<noteq> None then CMD_DEFAULT
      else case gfio_conf_read os ''gfcloud_home_cmd'' 256 s of
        Some c \<Rightarrow> if c = [] then CMD_DEFAULT else c | None \<Rightarrow> CMD_DEFAULT)"

definition cloud_timeout_ms :: "os \<Rightarrow> 'a mach_scheme \<Rightarrow> nat" where
  "cloud_timeout_ms os s =
     nat \<lfloor>fl_rat (gfhome_clamp_timeout_s (gfio_conf_read_float os ''gfcloud_home_timeout_s'' (Fin TIMEOUT_S_DEFAULT) s)
                  (Fin TIMEOUT_S_DEFAULT)) * 1000\<rfloor>"

definition suspend_turn :: "os \<Rightarrow> 'a mach_ext rt \<Rightarrow> u32 \<Rightarrow> 'a mach_scheme \<Rightarrow> bool \<times> 'a mach_scheme + 'a mach_scheme" where
  "suspend_turn os rt give_up s =
     (let (taken, s) = gf_stream_suspend os s in
      if taken then Inl (True, s)
      else let (now, s) = millis os s in
        if \<not> 0 < sint (give_up - now) then Inl (False, s)
        else let (ok, s) = pump rt s in if ok then Inr s else Inl (False, s))"

text \<open>What the session keeps while the runner runs: whether it aborts, and which signals went out.\<close>

record home_session =
  ss_aborted :: bool
  ss_term :: bool
  ss_kill :: bool
  ss_kill_at :: u32

definition session_signal :: "os \<Rightarrow> u32 \<Rightarrow> home_session \<Rightarrow> 'a mach_scheme \<Rightarrow> home_session \<times> 'a mach_scheme" where
  "session_signal os deadline w s =
     (let (now, s) = millis os s;
          overdue = (0 < sint (now - deadline))
      in if (ss_aborted w \<or> overdue) \<and> \<not> ss_term w
         then let (now, s) = millis os (ask Runner_term s)
              in (w\<lparr>ss_term := True, ss_kill_at := now + KILL_GRACE_MS\<rparr>, s)
         else if ss_term w \<and> \<not> ss_kill w
         then let (now, s) = millis os s
              in if 0 < sint (now - ss_kill_at w) then (w\<lparr>ss_kill := True\<rparr>, ask Runner_kill s) else (w, s)
         else (w, s))"

text \<open>The end of the session: the exit status when the runner was reaped, none when it was lost.\<close>

definition session_turn :: "os \<Rightarrow> mio \<Rightarrow> 'a mach_ext rt \<Rightarrow> u32 \<Rightarrow> home_session \<times> 'a mach_scheme
    \<Rightarrow> (int option option \<times> home_session \<times> 'a mach_scheme) + (home_session \<times> 'a mach_scheme)" where
  "session_turn os mi rt deadline ws =
     (let (w, s) = ws in
      case mi_waitpid mi (core_tr s) (io_tr s) of
        Child_reaped st \<Rightarrow> Inl (Some st, w, ask (Runner_wait st) s)
      | Child_lost \<Rightarrow> Inl (None, w, s)
      | Child_running \<Rightarrow>
          (let (ok, s) = pump rt s
           in Inr (session_signal os deadline (if ok then w else w\<lparr>ss_aborted := True\<rparr>) s)))"

text \<open>The park of the lens, and the free travel that bounds it.\<close>

definition cloud_lens :: "os \<Rightarrow> mio \<Rightarrow> 'a mach_scheme \<Rightarrow> rat \<times> int \<times> int \<times> int" where
  "cloud_lens os mi s =
     (let edge_z = key_rat mi (gfio_conf_read_float os ''lens_hall_edge_z_mm'' (Fin DEFAULT_LENS_HALL_EDGE_Z_MM) s);
          park_z = key_rat mi (gfio_conf_read_float os ''lens_park_z_mm'' (Fin DEFAULT_LENS_PARK_Z_MM) s);
          down = lens_stop os ''lens_stop_below_steps'' LENS_WINDOW_DOWN s;
          up = lens_stop os ''lens_stop_above_steps'' LENS_WINDOW_UP s
      in (edge_z, down, up, gfhome_park_steps edge_z park_z (z_spm s) down up))"

text \<open>One axis of X and Y at a home: on the step grid, with the envelope reaching back to it.\<close>

definition grid_home :: "rat \<Rightarrow> rat \<Rightarrow> int \<times> rat" where
  "grid_home home spm = (let p = lround (home * spm) in (p, of_int p / spm))"

definition cloud_homed :: "os \<Rightarrow> rat \<Rightarrow> int \<Rightarrow> int \<Rightarrow> int \<Rightarrow> 'a mach_scheme \<Rightarrow> 'a mach_scheme" where
  "cloud_homed os edge_z down up park s =
     (let (shift, s) = gftray_shift_steps os s;
          edge_steps = gfhome_z_steps edge_z (z_spm s) + shift;
          hx = fl_rat (gfhome_clamp_cloud_home_mm (gfio_conf_read_float os ''gfcloud_home_x'' (Fin 0) s) (fst (travel_xy s)));
          hy = fl_rat (gfhome_clamp_cloud_home_mm (gfio_conf_read_float os ''gfcloud_home_y'' (Fin 0) s) (snd (travel_xy s)));
          hz = of_int (edge_steps + park) / z_spm s;
          (px, hx) = grid_home hx (fst (spm_xy s));
          (py, hy) = grid_home hy (snd (spm_xy s));
          (pz, hz) = grid_home hz (z_spm s);
          s = s\<lparr>sys_position_xy := (px, py), sys_position_z := pz, sys_home_xy := (hx, hy), sys_home_z := hz,
                sys_env_min_xy := (min hx 0, min hy 0), sys_env_max_xy := far_edges os s, sys_env_z := (0, travel_z s),
                envelope_is_open := False,
                z_env_min := of_int (edge_steps - down - 1) / z_spm s, z_env_max := of_int (edge_steps + up + 1) / z_spm s,
                z_referenced := True, sys_homed := X_AXIS_BIT OR Y_AXIS_BIT OR Z_AXIS_BIT\<rparr>
      in home_completed os (hx, hy, hz) (X_AXIS_BIT OR Y_AXIS_BIT OR Z_AXIS_BIT) (X_AXIS_BIT OR Y_AXIS_BIT OR Z_AXIS_BIT)
           ''gfcloud'' s)"

definition cloud_end :: "os \<Rightarrow> core \<Rightarrow> rat \<times> int \<times> int \<times> int \<Rightarrow> int option option \<Rightarrow> home_session \<Rightarrow> bool
    \<Rightarrow> 'a mach_scheme \<Rightarrow> status_code \<times> 'a mach_scheme" where
  "cloud_end os co lens exited w resumed s =
     (let homed = (exited = Some (Some 0) \<and> \<not> ss_aborted w \<and> \<not> ss_term w) in
      if \<not> resumed \<or> \<not> homed
      then (Status_OK,
            if \<not> resumed \<or> \<not> ss_aborted w
            then let s = ask Alarm_HomingFail s in if state_get co s = {HOMING} then state_set STATE_IDLE s else s
            else s)
      else let (edge_z, down, up, park) = lens in (Status_OK, cloud_homed os edge_z down up park s))"

definition cloud_session :: "os \<Rightarrow> core \<Rightarrow> mio \<Rightarrow> 'a mach_ext rt \<Rightarrow> nat \<Rightarrow> sys_state \<Rightarrow> 'a mach_scheme
    \<Rightarrow> (status_code \<times> 'a mach_scheme) option" where
  "cloud_session os co mi rt timeout_ms entry s =
     (let lens = cloud_lens os mi s; (edge_z, down, up, park) = lens;
          s = ask (Runner_spawn (cloud_cmd os s) (if timeout_ms > 60000 then timeout_ms div 1000 - 30 else 30) park
                     (report_secret s \<noteq> [])) s
      in if \<not> mi_fork mi (core_tr s) (io_tr s)
         then map_option (\<lambda>(resumed, s). (Status_IdleError,
                state_set entry (if resumed then s else ask Alarm_HomingFail s))) (gf_stream_resume os s)
         else let (now, s) = millis os s in
           (case wait_loop (session_turn os mi rt (now + of_nat timeout_ms))
                   (\<lparr>ss_aborted = False, ss_term = False, ss_kill = False, ss_kill_at = 0\<rparr>, s) of
              None \<Rightarrow> None
            | Some (exited, w, s) \<Rightarrow>
                map_option (\<lambda>(resumed, s). cloud_end os co lens exited w resumed s) (gf_stream_resume os s)))"

definition gfcloud_home :: "os \<Rightarrow> core \<Rightarrow> mio \<Rightarrow> 'a mach_ext rt \<Rightarrow> sys_state \<Rightarrow> 'a mach_scheme
    \<Rightarrow> (status_code \<times> 'a mach_scheme) option" where
  "gfcloud_home os co mi rt entry s =
     (let timeout_ms = cloud_timeout_ms os s;
          s = gfhome_invalidate (state_set {HOMING} s);
          (now, s) = millis os s
      in case wait_loop (suspend_turn os rt (now + SUSPEND_WAIT_MS)) s of None \<Rightarrow> None
         | Some (taken, s) \<Rightarrow>
             if \<not> taken
             then let s = state_set entry s in Some (if sys_abort mi s then Status_OK else Status_IdleError, s)
             else cloud_session os co mi rt timeout_ms entry s)"

section \<open>The manual home\<close>

definition origin_jog_cancel :: "(sys_state \<Rightarrow> 'a mach_scheme \<Rightarrow> 'a mach_scheme) \<Rightarrow> sys_state \<Rightarrow> 'a mach_scheme \<Rightarrow> 'a mach_scheme" where
  "origin_jog_cancel chain st s =
     chain st (if origin_jog s \<and> st = {JOG} then ask Exec_motion_cancel s else s)"

definition origin_turn :: "core \<Rightarrow> 'a mach_ext rt \<Rightarrow> 'a mach_scheme \<Rightarrow> 'a mach_scheme + 'a mach_scheme" where
  "origin_turn co rt s =
     (let (ok, s) = pump rt s
      in if ok \<and> (\<not> co_plan_empty co (core_tr s) (io_tr s) \<or> state_get co s = {JOG}) then Inr s else Inl s)"

definition manual_home_to_origin :: "os \<Rightarrow> core \<Rightarrow> mio \<Rightarrow> 'a mach_ext rt \<Rightarrow> 'a mach_scheme \<Rightarrow> 'a mach_scheme option" where
  "manual_home_to_origin os co mi rt s =
     (let (x, y, z) = mi_gc_position mi (core_tr s) (io_tr s);
          target = (0, 0, z); f = min (fst (max_rate_xy s)) (snd (max_rate_xy s));
          status = mi_jog mi (core_tr s) (io_tr s) target f;
          s = ask (Jog_execute target f status) s
      in if status \<noteq> 0 then Some (report_message ''Manual home: the move to the origin was refused'' s)
         else case wait_loop (origin_turn co rt) (s\<lparr>origin_jog := True\<rparr>) of None \<Rightarrow> None
           | Some s \<Rightarrow>
               (let s = s\<lparr>origin_jog := False\<rparr> in
                if sys_abort mi s then Some s
                else map_option (\<lambda>(idle, s).
                       if idle \<and> sys_position_xy s \<noteq> (0, 0)
                       then report_message ''Manual home: the move to the origin stopped'' s else s)
                     (gfhome_wait_kernel_idle os rt SUSPEND_WAIT_MS s)))"

text \<open>What the operator's hand declares: X and Y at minus the offsets, on the step grid.\<close>

definition manual_declare :: "os \<Rightarrow> 'a mach_scheme \<Rightarrow> 'a mach_scheme" where
  "manual_declare os s =
     (let mx = fl_rat (gfhome_clamp_home_mm (gfio_conf_read_float os ''manual_home_x'' (Fin 0) s) (fst (travel_xy s)));
          my = fl_rat (gfhome_clamp_home_mm (gfio_conf_read_float os ''manual_home_y'' (Fin 0) s) (snd (travel_xy s)));
          px = - lround (mx * fst (spm_xy s)); py = - lround (my * snd (spm_xy s));
          hx = of_int px / fst (spm_xy s); hy = of_int py / snd (spm_xy s);
          s = s\<lparr>sys_position_xy := (px, py), sys_home_xy := (hx, hy), sys_env_min_xy := (0, 0),
                sys_env_max_xy := far_edges os s, envelope_is_open := False,
                sys_homed := sys_homed s OR (X_AXIS_BIT OR Y_AXIS_BIT)\<rparr>;
          hz = of_int (sys_position_z s) / z_spm s
      in home_completed os (hx, hy, hz) (X_AXIS_BIT OR Y_AXIS_BIT)
           (X_AXIS_BIT OR Y_AXIS_BIT OR (if z_referenced s then Z_AXIS_BIT else 0)) ''manual'' s)"

definition manual_home :: "os \<Rightarrow> core \<Rightarrow> mio \<Rightarrow> 'a mach_ext rt \<Rightarrow> 'a mach_scheme \<Rightarrow> (status_code \<times> 'a mach_scheme) option" where
  "manual_home os co mi rt s =
     (case gfhome_wait_kernel_idle os rt SUSPEND_WAIT_MS s of None \<Rightarrow> None
      | Some (idle, s) \<Rightarrow>
          if \<not> idle then Some (if sys_abort mi s then Status_OK else Status_IdleError, s)
          else let (status, s) = gfrelease_energize os mi s in
            if status \<noteq> Status_OK then Some (status, s)
            else let s = report_message ''Manual home: position set where the head was placed'' (manual_declare os s)
                 in if sys_position_xy s \<noteq> (0, 0)
                    then map_option (Pair Status_OK) (manual_home_to_origin os co mi rt (report_message ''Manual home: moving to the origin'' s))
                    else Some (Status_OK, s))"

definition switches_home :: "'a mach_scheme \<Rightarrow> status_code \<times> 'a mach_scheme" where
  "switches_home s = (Status_SettingDisabled, report_message ''homing_mode = switches: no limit switches on this machine yet'' s)"

section \<open>$H\<close>

datatype provider = Gfcloud | Manual | Switches

text \<open>The provider table: the id of a row, and whether it hands the pulse device to a runner.\<close>

definition homing_providers :: "(string \<times> bool \<times> provider) list" where
  "homing_providers = [(''gfcloud'', True, Gfcloud), (''manual'', False, Manual), (''switches'', False, Switches)]"

definition provider_run :: "os \<Rightarrow> core \<Rightarrow> mio \<Rightarrow> 'a mach_ext rt \<Rightarrow> provider \<Rightarrow> sys_state \<Rightarrow> 'a mach_scheme
    \<Rightarrow> (status_code \<times> 'a mach_scheme) option" where
  "provider_run os co mi rt p st s =
     (case p of Gfcloud \<Rightarrow> gfcloud_home os co mi rt st s | Manual \<Rightarrow> manual_home os co mi rt s
      | Switches \<Rightarrow> Some (switches_home s))"

definition home_cmd :: "os \<Rightarrow> core \<Rightarrow> mio \<Rightarrow> 'a mach_ext rt \<Rightarrow> sys_state \<Rightarrow> 'a mach_scheme
    \<Rightarrow> (status_code \<times> 'a mach_scheme) option" where
  "home_cmd os co mi rt st s =
     (let mode = (case gfio_conf_read os ''homing_mode'' 24 s of Some m \<Rightarrow> m | None \<Rightarrow> []) in
      case map_of homing_providers mode of
        None \<Rightarrow> if \<not> gfrelease_active s then Some (Status_Unhandled, s)
                else Some (Status_SystemGClock, gfrelease_report os s)
      | Some (runner_fd, p) \<Rightarrow>
          if \<not> (st = STATE_IDLE \<or> st = {ALARM}) then Some (Status_IdleError, s)
          else if runner_fd \<and> gfrelease_active s then Some (Status_SystemGClock, gfrelease_report os s)
          else provider_run os co mi rt p st s)"

definition gfhome_init :: "'a mach_scheme \<Rightarrow> 'a mach_scheme" where
  "gfhome_init s = gfhome_invalidate s"

end
