(* ===== verification/Ctlport.thy ===== *)
theory Ctlport
  imports Serial Mcode Homing_Session
begin

text \<open>
  ctlport.c: the controller port, a local second channel beside the sender's. One client,
  one request at a time, each with one reply; its lines go to the core through the
  multiplexer of serial.c. The port's socket is the argument \<open>po\<close>, functions of the
  history \<open>port_tr\<close>; \<open>wr\<close> is the core's \<open>hal.stream.write\<close>. The JSON of the state is the
  value it prints.
\<close>

section \<open>State\<close>

definition SOCK_NAME :: string where "SOCK_NAME = ''grbl.ctl''"
definition SENDER_QUIET_S :: rat where "SENDER_QUIET_S = 3 / 10"
definition SENDER_OUT_QUIET_S :: rat where "SENDER_OUT_QUIET_S = 2"
definition DEFER_S :: rat where "DEFER_S = 1 / 10"
definition REQ_SIZE :: nat where "REQ_SIZE = 160"

record state_rep =
  st_state :: string
  st_sender :: bool
  st_port_jog :: bool
  st_released :: bool
  st_mpos :: "rat \<times> rat \<times> rat"
  st_homed :: u8
  st_envelope_open :: bool
  st_mcode :: "(u32 \<times> int \<times> (char \<times> cfloat) list) option"
  st_sender_out :: bool
  st_tray :: string

datatype pmsg = Line string | Report state_rep

datatype pread = P_char char | P_eof | P_again | P_error

datatype pev =
    P_reply pmsg
  | P_closed
  | P_accepted int
  | P_refused int
  | P_peeked bool
  | P_read pread
  | P_bound string

record pio =
  pio_sock :: "string \<Rightarrow> int option"
  pio_accept :: "pev list \<Rightarrow> int option"
  pio_hung_up :: "pev list \<Rightarrow> bool"
  pio_read :: "pev list \<Rightarrow> pread"
  pio_write :: "pev list \<Rightarrow> pmsg \<Rightarrow> bool"

record port = ser +
  port_tr :: "pev list"
  port_listen_fd :: int
  port_fd :: int
  req :: string
  awaiting :: bool
  awaiting_jog :: bool
  port_jog :: bool
  cancel_sent :: bool
  envelope_hold :: bool
  deferred :: string
  deferred_jog :: bool
  deferred_until :: rat
  tray_want :: int

definition port0 :: "ser \<Rightarrow> port" where
  "port0 s = ser.extend s (port.fields [] (- 1) (- 1) [] False False False False False [] False 0 (- 1))"

type_synonym 'a hal_write = "u8 list \<Rightarrow> 'a port_scheme \<Rightarrow> 'a port_scheme"

definition port_emit :: "pev \<Rightarrow> 'a port_scheme \<Rightarrow> 'a port_scheme" where
  "port_emit e s = s\<lparr>port_tr := e # port_tr s\<rparr>"

definition port_now :: "sio \<Rightarrow> 'a port_scheme \<Rightarrow> rat \<times> 'a port_scheme" where
  "port_now io s = (let (t, s) = ser_now io s in (ts_s t, s))"

abbreviation LF :: string where "LF \<equiv> [CHR 0x0A]"
abbreviation EOL :: string where "EOL \<equiv> [CHR 0x0D, CHR 0x0A]"

section \<open>The client\<close>

definition cancel_port_jog :: "core \<Rightarrow> 'a port_scheme \<Rightarrow> 'a port_scheme" where
  "cancel_port_jog co s =
     (if port_jog s \<and> \<not> cancel_sent s \<and> state_get co (machine s) = {JOG}
      then s\<lparr>machine := ask Exec_motion_cancel (machine s), cancel_sent := True\<rparr>
      else s)"

definition drop_port_client :: "core \<Rightarrow> 'a port_scheme \<Rightarrow> 'a port_scheme" where
  "drop_port_client co s =
     (if port_fd s \<ge> 0
      then let s = cancel_port_jog co ((port_emit P_closed s)\<lparr>port_fd := - 1, req := [], deferred := []\<rparr>)
           in s\<lparr>machine := gfhome_envelope_close (machine s)\<rparr>
      else s)"

definition reply :: "core \<Rightarrow> pio \<Rightarrow> pmsg \<Rightarrow> 'a port_scheme \<Rightarrow> 'a port_scheme" where
  "reply co po m s =
     (if port_fd s \<ge> 0
      then let ok = pio_write po (port_tr s) m; s = port_emit (P_reply m) s
           in if ok then s else drop_port_client co s
      else s)"

abbreviation say :: "core \<Rightarrow> pio \<Rightarrow> string \<Rightarrow> 'a port_scheme \<Rightarrow> 'a port_scheme" where
  "say co po t s \<equiv> reply co po (Line (t @ LF)) s"

section \<open>The injected line\<close>

text \<open>Its status, from the stream's status hook; a negative one is a line that was flushed.\<close>

definition line_done :: "core \<Rightarrow> pio \<Rightarrow> 'a hal_write \<Rightarrow> int \<Rightarrow> 'a port_scheme \<Rightarrow> 'a port_scheme" where
  "line_done co po wr status s =
     (let tray = tray_want s;
          s = s\<lparr>awaiting := False, tray_want := - 1\<rparr>
      in if status = 0 \<and> tray \<ge> 0
         then say co po (if gftray_out (machine s) = (tray = 1) then ''ok'' else ''error:saved'') s
         else if status = 0 \<and> \<not> awaiting_jog s then say co po ''ok'' s
         else if status = 0
         then let s = (if \<not> port_jog s then wr (char_bytes (''[MSG:Panel jog]'' @ EOL)) s else s)
              in say co po ''ok'' (serial_hold_sender True (s\<lparr>port_jog := True, cancel_sent := False\<rparr>))
         else if status < 0 then say co po ''error:aborted'' s
         else say co po (''error:'' @ utoa (nat status)) s)"

definition inject :: "core \<Rightarrow> sio \<Rightarrow> pio \<Rightarrow> string \<Rightarrow> bool \<Rightarrow> 'a port_scheme \<Rightarrow> 'a port_scheme" where
  "inject co io po line jog s =
     (let (taken, s) = serial_inject_line (char_bytes line) s in
      if taken then s\<lparr>awaiting := True, awaiting_jog := jog\<rparr>
      else if serial_sender_empty_lines_only s
      then let (now, s) = port_now io (s\<lparr>deferred := take (REQ_SIZE + 3) line, deferred_jog := jog\<rparr>)
           in s\<lparr>deferred_until := now + DEFER_S\<rparr>
      else say co po ''busy:sender'' (s\<lparr>tray_want := - 1\<rparr>))"

section \<open>The requests\<close>

definition state_name :: "core \<Rightarrow> 'a ctl_scheme \<Rightarrow> string" where
  "state_name co m =
     (let st = state_get co m in
      if st = STATE_IDLE then ''Idle'' else if st = {CYCLE} then ''Run'' else if st = {HOLD} then ''Hold''
      else if st = {JOG} then ''Jog'' else if st = {HOMING} then ''Home'' else if st = {ALARM} then ''Alarm''
      else if st = {ESTOP} then ''Alarm'' else if st = {CHECK_MODE} then ''Check'' else if st = {SAFETY_DOOR} then ''Door''
      else if st = {SLEEP} then ''Sleep'' else if st = {TOOL_CHANGE} then ''Tool'' else ''Unknown'')"

definition op_state :: "core \<Rightarrow> pio \<Rightarrow> 'a port_scheme \<Rightarrow> 'a port_scheme" where
  "op_state co po s =
     (let m = machine s in
      reply co po (Report \<lparr>st_state = state_name co m, st_sender = serial_client_connected s, st_port_jog = port_jog s,
        st_released = gfrelease_active m,
        st_mpos = (of_int (fst (sys_position_xy m)) / fst (spm_xy m), of_int (snd (sys_position_xy m)) / snd (spm_xy m),
                   of_int (sys_position_z m) / z_spm m),
        st_homed = sys_homed m, st_envelope_open = gfhome_envelope_is_open m, st_mcode = gfmcode_state_json m,
        st_sender_out = serial_keeping_out s, st_tray = (if gftray_out m then ''out'' else ''in'')\<rparr>) s)"

text \<open>The verdict word of an answer and the words behind it.\<close>

definition answer_words :: "string \<Rightarrow> (bool \<times> string) option" where
  "answer_words p =
     (let word = (\<lambda>w. take (length w) p = w \<and> (length p = length w \<or> p ! length w = CHR '' ''));
          rest = (\<lambda>w. let t = drop (length w) p in if t \<noteq> [] \<and> hd t = CHR '' '' then tl t else t)
      in if word ''ok'' then Some (True, rest ''ok'')
         else if word ''fail'' then Some (False, rest ''fail'')
         else None)"

definition op_mcode_result :: "core \<Rightarrow> pio \<Rightarrow> string \<Rightarrow> 'a port_scheme \<Rightarrow> 'a port_scheme" where
  "op_mcode_result co po args s =
     (case strtoul args of None \<Rightarrow> say co po ''error:invalid'' s
      | Some (seq, p) \<Rightarrow>
          if p = [] \<or> hd p \<noteq> CHR '' '' \<or> seq = 0 then say co po ''error:invalid'' s
          else case answer_words (tl p) of None \<Rightarrow> say co po ''error:invalid'' s
            | Some (ok, words) \<Rightarrow>
                let (rc, m) = gfmcode_answer seq ok words (machine s)
                in say co po (if rc = 0 then ''ok'' else ''error:stale'') (s\<lparr>machine := m\<rparr>))"

definition jog_char :: "char \<Rightarrow> bool" where
  "jog_char c = (let n = of_char c :: nat in
     (0x41 \<le> n \<and> n \<le> 0x5A) \<or> (0x30 \<le> n \<and> n \<le> 0x39) \<or> c = CHR ''.'' \<or> c = CHR ''-'' \<or> c = CHR ''+'' \<or> c = CHR '' '')"

text \<open>A sender line within the last seconds; the clock is read only after a first line.\<close>

definition sender_recent :: "sio \<Rightarrow> rat \<Rightarrow> 'a port_scheme \<Rightarrow> bool \<times> 'a port_scheme" where
  "sender_recent io quiet s =
     (if sender_last_line s > 0
      then let (now, s) = port_now io s in (now - sender_last_line s < quiet, s)
      else (False, s))"

definition op_jog :: "core \<Rightarrow> sio \<Rightarrow> pio \<Rightarrow> string \<Rightarrow> 'a port_scheme \<Rightarrow> 'a port_scheme" where
  "op_jog co io po words s =
     (if words = [] \<or> \<not> list_all jog_char words then say co po ''error:invalid'' s
      else if gfrelease_active (machine s) then say co po ''busy:released'' s
      else if gfmcode_waiting (machine s) then say co po ''busy:mcode'' s
      else let st = state_get co (machine s) in
        if \<not> (st = STATE_IDLE \<or> (st = {JOG} \<and> port_jog s)) then say co po ''busy:state'' s
        else let (busy, s) = (if serial_sender_pending s then (True, s) else sender_recent io SENDER_QUIET_S s)
             in if busy then say co po ''busy:sender'' s
                else inject co io po (take (REQ_SIZE + 3) (''$J='' @ words)) True s)"

definition op_command :: "core \<Rightarrow> sio \<Rightarrow> pio \<Rightarrow> string \<Rightarrow> 'a port_scheme \<Rightarrow> 'a port_scheme" where
  "op_command co io po line s =
     (let st = state_get co (machine s) in
      if \<not> (st = STATE_IDLE \<or> st = {ALARM}) then say co po ''busy:state'' s
      else if serial_sender_pending s then say co po ''busy:sender'' s
      else inject co io po line False s)"

definition machine_busy :: "os \<Rightarrow> core \<Rightarrow> 'a port_scheme \<Rightarrow> bool \<times> 'a port_scheme" where
  "machine_busy os co s =
     (let m = machine s in
      if state_get co m \<noteq> STATE_IDLE \<or> \<not> co_plan_empty co (core_tr m) (io_tr m) \<or> port_jog s \<or>
         gfmcode_waiting m \<or> gflaser_armed m \<or> gflaser_arming m \<or> gfhome_envelope_is_open m
      then (True, s)
      else let (idle, m) = gf_stream_kernel_idle os m in (\<not> idle, s\<lparr>machine := m\<rparr>))"

definition op_sender_out :: "os \<Rightarrow> core \<Rightarrow> sio \<Rightarrow> pio \<Rightarrow> 'a hal_write \<Rightarrow> 'a port_scheme \<Rightarrow> 'a port_scheme" where
  "op_sender_out os co io po wr s =
     (if serial_keeping_out s then say co po ''ok'' s
      else let (busy, s) = machine_busy os co s in
        if busy then say co po ''busy:state'' s
        else let (recent, s) = (if sender_midline s \<or> sender_line_open s \<or> serial_sender_pending s then (True, s)
                                else sender_recent io SENDER_OUT_QUIET_S s)
             in if recent then say co po ''busy:sender'' s
                else say co po ''ok'' (snd (serial_drop_sender (line_done co po wr) (serial_keep_out True s))))"

definition op_tray :: "core \<Rightarrow> sio \<Rightarrow> pio \<Rightarrow> string \<Rightarrow> 'a port_scheme \<Rightarrow> 'a port_scheme" where
  "op_tray co io po mode s =
     (let want = (if mode = ''out'' then 1 else if mode = ''in'' then 0 else - 1 :: int) in
      if want < 0 then say co po ''error:invalid'' s
      else if gfmcode_waiting (machine s) then say co po ''busy:mcode'' s
      else if state_get co (machine s) \<noteq> STATE_IDLE \<or> port_jog s then say co po ''busy:state'' s
      else if serial_sender_pending s then say co po ''busy:sender'' s
      else inject co io po (if want = 1 then ''M103 P1'' else ''M103 P0'') False (s\<lparr>tray_want := want\<rparr>))"

definition op_home :: "os \<Rightarrow> core \<Rightarrow> sio \<Rightarrow> pio \<Rightarrow> 'a port_scheme \<Rightarrow> 'a port_scheme" where
  "op_home os co io po s =
     (if gfio_conf_read os ''homing_mode'' 24 (machine s) \<noteq> Some ''manual'' then say co po ''error:mode'' s
      else op_command co io po ''$H'' s)"

definition op_envelope :: "os \<Rightarrow> core \<Rightarrow> pio \<Rightarrow> bool \<Rightarrow> 'a port_scheme \<Rightarrow> 'a port_scheme" where
  "op_envelope os co po wide s =
     (let (rc, m) = gfhome_envelope os co wide (machine s)
      in say co po (if rc = 0 then ''ok'' else if rc = - 1 then ''error:homed'' else ''busy:state'') (s\<lparr>machine := m\<rparr>))"

definition op_mcodes :: "core \<Rightarrow> pio \<Rightarrow> string \<Rightarrow> 'a port_scheme \<Rightarrow> 'a port_scheme" where
  "op_mcodes co po codes s =
     (let (rc, m) = gfmcode_set_table codes (machine s)
      in say co po (if rc = 0 then ''ok'' else ''error:invalid'') (s\<lparr>machine := m\<rparr>))"

definition handle_request :: "os \<Rightarrow> core \<Rightarrow> sio \<Rightarrow> pio \<Rightarrow> 'a hal_write \<Rightarrow> string \<Rightarrow> 'a port_scheme \<Rightarrow> 'a port_scheme" where
  "handle_request os co io po wr line s =
     (if line = ''state'' then op_state co po s
      else if take 4 line = ''jog '' then op_jog co io po (drop 4 line) s
      else if line = ''cancel'' then say co po ''ok'' (cancel_port_jog co s)
      else if line = ''release'' then op_command co io po ''$MD'' s
      else if line = ''energize'' then op_command co io po ''$ME'' s
      else if line = ''home'' then op_home os co io po s
      else if line = ''envelope open'' then op_envelope os co po True s
      else if line = ''envelope apply'' then op_envelope os co po False s
      else if take 5 line = ''tray '' then op_tray co io po (drop 5 line) s
      else if take 7 line = ''mcodes '' then op_mcodes co po (drop 7 line) s
      else if take 13 line = ''mcode_result '' then op_mcode_result co po (drop 13 line) s
      else if line = ''sender out'' then op_sender_out os co io po wr s
      else if line = ''sender in'' then say co po ''ok'' (serial_keep_out False s)
      else say co po ''error:unknown'' s)"

section \<open>The poll\<close>

text \<open>The end of the port's jog, or its cancel by a sender's line.\<close>

definition poll_jog :: "core \<Rightarrow> 'a port_scheme \<Rightarrow> 'a port_scheme" where
  "poll_jog co s =
     (if port_jog s \<and> \<not> awaiting s
      then if state_get co (machine s) \<noteq> {JOG} then serial_hold_sender False (s\<lparr>port_jog := False\<rparr>)
           else if serial_sender_pending s then cancel_port_jog co s else s
      else s)"

definition poll_envelope :: "core \<Rightarrow> 'a hal_write \<Rightarrow> 'a port_scheme \<Rightarrow> 'a port_scheme" where
  "poll_envelope co wr s =
     (if gfhome_envelope_is_open (machine s) \<and> \<not> awaiting s
      then if \<not> serial_sender_pending s then (serial_hold_sender True s)\<lparr>envelope_hold := True\<rparr>
           else if port_jog s then cancel_port_jog co s
           else let s = wr (char_bytes (''[MSG:Bed check envelope closed: a sender line]'' @ EOL))
                          (s\<lparr>machine := gfhome_envelope_close (machine s)\<rparr>)
                in (serial_hold_sender False s)\<lparr>envelope_hold := False\<rparr>
      else if envelope_hold s \<and> \<not> gfhome_envelope_is_open (machine s)
      then let s = s\<lparr>envelope_hold := False\<rparr> in if \<not> port_jog s then serial_hold_sender False s else s
      else s)"

text \<open>One client: a second is refused, unless the first has hung up.\<close>

definition poll_accept :: "core \<Rightarrow> pio \<Rightarrow> 'a port_scheme \<Rightarrow> 'a port_scheme" where
  "poll_accept co po s =
     (case pio_accept po (port_tr s) of None \<Rightarrow> s
      | Some fd \<Rightarrow>
          let s = (if port_fd s \<ge> 0
                   then let gone = pio_hung_up po (port_tr s); s = port_emit (P_peeked gone) s
                        in if gone then drop_port_client co s else s
                   else s)
          in if port_fd s \<ge> 0 then port_emit (P_refused fd) s
             else (port_emit (P_accepted fd) s)\<lparr>port_fd := fd\<rparr>)"

definition poll_deferred :: "core \<Rightarrow> sio \<Rightarrow> pio \<Rightarrow> 'a port_scheme \<Rightarrow> 'a port_scheme" where
  "poll_deferred co io po s =
     (if deferred s = [] then s
      else let (taken, s) = serial_inject_line (char_bytes (deferred s)) s in
        if taken then s\<lparr>awaiting := True, awaiting_jog := deferred_jog s, deferred := []\<rparr>
        else let (late, s) = (if serial_sender_pending s then (True, s)
                              else let (now, s) = port_now io s in (now > deferred_until s, s))
             in if late then say co po ''busy:sender'' (s\<lparr>deferred := [], tray_want := - 1\<rparr>) else s)"

text \<open>One byte of the client, as the read loop takes it: \<open>Inl\<close> ends the loop.\<close>

definition read_turn :: "os \<Rightarrow> core \<Rightarrow> sio \<Rightarrow> pio \<Rightarrow> 'a hal_write \<Rightarrow> 'a port_scheme \<Rightarrow> 'a port_scheme + 'a port_scheme" where
  "read_turn os co io po wr s =
     (if \<not> (port_fd s \<ge> 0 \<and> \<not> awaiting s \<and> deferred s = []) then Inl s
      else let r = pio_read po (port_tr s); s = port_emit (P_read r) s in
        case r of
          P_char c \<Rightarrow>
            Inr (if c = CHR 0x0A
                 then handle_request os co io po wr (takeWhile (\<lambda>x. x \<noteq> CHR 0x00) (req s)) (s\<lparr>req := []\<rparr>)
                 else if c \<noteq> CHR 0x0D
                 then if length (req s) < REQ_SIZE - 1 then s\<lparr>req := req s @ [c]\<rparr> else drop_port_client co s
                 else s)
        | P_again \<Rightarrow> Inl s
        | _ \<Rightarrow> Inr (drop_port_client co s))"

definition poll_events :: "core \<Rightarrow> sio \<Rightarrow> pio \<Rightarrow> 'a hal_write \<Rightarrow> 'a port_scheme \<Rightarrow> 'a port_scheme" where
  "poll_events co io po wr s =
     poll_deferred co io po (poll_accept co po (poll_envelope co wr (poll_jog co s)))"

definition ctlport_poll :: "os \<Rightarrow> core \<Rightarrow> sio \<Rightarrow> pio \<Rightarrow> 'a hal_write \<Rightarrow> 'a port_scheme \<Rightarrow> 'a port_scheme option" where
  "ctlport_poll os co io po wr s =
     (if port_listen_fd s < 0 then Some s
      else wait_loop (read_turn os co io po wr) (poll_events co io po wr s))"

definition ctlport_pollfds :: "'a port_scheme \<Rightarrow> (int \<times> bool \<times> bool) list" where
  "ctlport_pollfds s =
     (if port_listen_fd s \<ge> 0
      then (port_listen_fd s, True, False) #
           (if port_fd s \<ge> 0 \<and> \<not> awaiting s \<and> deferred s = [] then [(port_fd s, True, False)] else [])
      else [])"

text \<open>The start: the socket is created with mode 0600, bound and listening, or there is no port.\<close>

definition SUN_PATH_SIZE :: nat where "SUN_PATH_SIZE = 108"

definition ctlport_init :: "os \<Rightarrow> pio \<Rightarrow> 'a port_scheme \<Rightarrow> 'a port_scheme" where
  "ctlport_init os po s =
     (let path = state_dir os @ ''/'' @ SOCK_NAME in
      if length path \<ge> SUN_PATH_SIZE then s
      else case pio_sock po path of None \<Rightarrow> s
        | Some fd \<Rightarrow> serial_inject_init ((port_emit (P_bound path) s)\<lparr>port_listen_fd := fd\<rparr>))"

end
