(* ===== verification/Mach_Waits.thy ===== *)
theory Mach_Waits
  imports Mach_State Laser_Props2
begin

text \<open>
  That the waits of the M-codes, the homes and the release end: on the clock in seconds,
  and on the driver's millisecond counter, which wraps around.
\<close>

text \<open>
  No call and no pump takes longer than a quarter of an hour: the wrapped difference of
  two millisecond times then means what it says.
\<close>

definition pump_paced :: "os \<Rightarrow> 'a rt \<Rightarrow> rat \<Rightarrow> bool" where
  "pump_paced os rt dt \<longleftrightarrow> pump_contract os rt dt \<and> (\<forall>e tr. os_now os (e # tr) \<le> os_now os tr + 1000) \<and>
     (\<forall>s. os_now os (io_tr (snd (rt s))) \<le> os_now os (io_tr s) + 1000)"

lemma pump_pacedD:
  assumes "pump_paced os rt dt"
  shows "pump_contract os rt dt" "os_now os (e # tr) \<le> os_now os tr + 1000"
    "os_now os (io_tr (snd (pump rt s))) \<le> os_now os (io_tr s) + 1000"
  using assms by (auto simp: pump_paced_def pump_def Let_def case_prod_beta core_defs)

lemma kernel_idle_tr:
  "io_tr (snd (gf_stream_kernel_idle os s)) = io_tr s \<or>
   (\<exists>v. io_tr (snd (gf_stream_kernel_idle os s)) = Ev_rd Cnc_state v # io_tr s)"
  by (simp add: gf_stream_kernel_idle_def gfio_rd_attr_upd Let_def)

lemma kernel_idle_time:
  assumes "pump_contract os rt dt"
  shows "os_now os (io_tr s) \<le> os_now os (io_tr (snd (gf_stream_kernel_idle os s)))"
  using kernel_idle_tr [of os s] pump_contractD(2) [OF assms] by auto

section \<open>The wait of an M-code\<close>

lemma drain_turn_time:
  assumes "pump_contract os rt dt" "drain_turn_mc os co rt d s = Inr s'"
  shows "os_now os (io_tr s) + dt \<le> os_now os (io_tr s') \<and> os_now os (io_tr s) \<le> d"
proof -
  note P = pump_contractD [OF assms(1)]
  define u where "u = snd (gf_stream_kernel_idle os s)"
  define v where "v = snd (wall_s os u)"
  have s': "os_now os (io_tr u) < d" "s' = sleep_ns 5000000 (snd (pump rt v))"
    using assms(2) by (auto simp: drain_turn_mc_def u_def v_def Let_def case_prod_beta wall_s_upd split: if_splits)
  have "os_now os (io_tr s) \<le> os_now os (io_tr u)" unfolding u_def by (rule kernel_idle_time [OF assms(1)])
  moreover have "os_now os (io_tr u) \<le> os_now os (io_tr v)" using P(2) by (simp add: v_def wall_s_upd)
  moreover have "os_now os (io_tr (snd (pump rt v))) \<le> os_now os (io_tr s')"
    using P(2) by (simp add: s'(2) sleep_ns_upd)
  ultimately show ?thesis using P(3) [of v] s'(1) by linarith
qed

lemma drain_wait_returns:
  assumes "pump_contract os rt dt"
  shows "\<exists>go s'. drain_wait os co rt d s = Some (go, s')"
proof -
  have "\<exists>r. wait_loop (drain_turn_mc os co rt d) s = Some r"
    by (rule wait_loop_returns [where P = "\<lambda>_. True" and t = "\<lambda>s. os_now os (io_tr s)" and d = d,
          OF pump_contractD(1) [OF assms]]) (use drain_turn_time [OF assms] in auto)
  then show ?thesis by (auto simp: drain_wait_def)
qed

section \<open>The wait on the millisecond clock\<close>

definition ms_of :: "rat \<Rightarrow> int" where
  "ms_of t = \<lfloor>t * 1000\<rfloor>"

lemma millis_upd: "millis os s = (of_int (ms_of (os_now os (io_tr s))), snd (wall_s os s))"
  by (simp add: millis_def mono_ms_def ms_of_def wall_s_upd Let_def)

lemma sint_small: "- (2 ^ 31) \<le> i \<Longrightarrow> i < 2 ^ 31 \<Longrightarrow> sint (of_int i :: u32) = i"
  by (simp add: signed_of_int signed_take_bit_int_eq_self)

lemma ms_left:
  assumes "t0 \<le> t" "t \<le> t0 + 1000000" "n \<le> 4000000"
  shows "sint (of_int (ms_of t0) + of_nat n - of_int (ms_of t) :: u32) = int n - (ms_of t - ms_of t0)"
proof -
  have "ms_of t0 \<le> ms_of t" unfolding ms_of_def by (rule floor_mono) (use assms in simp)
  moreover have "ms_of t \<le> ms_of t0 + 1000000000"
  proof -
    have "ms_of t \<le> \<lfloor>t0 * 1000 + of_int 1000000000\<rfloor>" unfolding ms_of_def by (rule floor_mono) (use assms in simp)
    then show ?thesis by (simp add: ms_of_def)
  qed
  ultimately have "sint (of_int (int n - (ms_of t - ms_of t0)) :: u32) = int n - (ms_of t - ms_of t0)"
    by (intro sint_small) (use assms(3) in auto)
  moreover have "(of_int (int n - (ms_of t - ms_of t0)) :: u32) = of_int (ms_of t0) + of_nat n - of_int (ms_of t)"
    by simp
  ultimately show ?thesis by metis
qed

lemma ms_late: "t0 + of_nat n / 1000 + 1 / 1000 \<le> t \<Longrightarrow> int n \<le> ms_of t - ms_of t0"
proof -
  assume "t0 + of_nat n / 1000 + 1 / 1000 \<le> t"
  then have "t0 * 1000 + of_int (int n) + 1 \<le> t * 1000" by (simp add: field_simps)
  then show ?thesis unfolding ms_of_def by linarith
qed

text \<open>Within the budget, as long as the loop goes on; the budget is what the counter counts.\<close>

lemma idle_turn_time:
  assumes "pump_paced os rt dt" "n \<le> 4000000" "t0 \<le> os_now os (io_tr s)" "os_now os (io_tr s) \<le> t0 + 10000"
    and "idle_turn os rt (of_int (ms_of t0) + of_nat n) s = Inr s'"
  shows "t0 \<le> os_now os (io_tr s') \<and> os_now os (io_tr s) + dt \<le> os_now os (io_tr s') \<and>
    os_now os (io_tr s') \<le> t0 + of_nat n / 1000 + 1 + 3000"
proof -
  note P = pump_contractD [OF pump_pacedD(1) [OF assms(1)]] and Q = pump_pacedD [OF assms(1)]
  define u where "u = snd (gf_stream_kernel_idle os s)"
  define v where "v = snd (wall_s os u)"
  have s': "\<not> sint (of_int (ms_of t0) + of_nat n - of_int (ms_of (os_now os (io_tr u))) :: u32) \<le> 0" "s' = snd (pump rt v)"
    using assms(5) by (auto simp: idle_turn_def u_def v_def Let_def case_prod_beta millis_upd split: if_splits)
  have u: "os_now os (io_tr s) \<le> os_now os (io_tr u)" "os_now os (io_tr u) \<le> os_now os (io_tr s) + 1000"
    using kernel_idle_time [OF Q(1), of s] kernel_idle_tr [of os s] Q(2) by (auto simp: u_def)
  have v: "os_now os (io_tr u) \<le> os_now os (io_tr v)" "os_now os (io_tr v) \<le> os_now os (io_tr u) + 1000"
    using P(2) Q(2) by (simp_all add: v_def wall_s_upd)
  have "\<not> t0 + of_nat n / 1000 + 1 / 1000 \<le> os_now os (io_tr u)"
    using s'(1) ms_left [of t0 "os_now os (io_tr u)" n] ms_late [of t0 n "os_now os (io_tr u)"] assms(2-4) u by auto
  then show ?thesis using P(1) P(3) [of v] Q(3) [of v] u v assms(3) s'(2) by auto
qed

lemma wait_kernel_idle_returns:
  assumes "pump_paced os rt dt" "unat ms \<le> 4000000"
  shows "\<exists>ok s'. gfhome_wait_kernel_idle os rt ms s = Some (ok, s')"
proof -
  define t0 where "t0 = os_now os (io_tr s)"
  define s1 where "s1 = snd (wall_s os s)"
  obtain n where n: "ms = of_nat n" "n \<le> 4000000" using assms(2) by (intro that [of "unat ms"]) simp_all
  have s1: "t0 \<le> os_now os (io_tr s1)" "os_now os (io_tr s1) \<le> t0 + 1000"
    using pump_contractD(2) [OF pump_pacedD(1) [OF assms(1)]] pump_pacedD(2) [OF assms(1)] by (simp_all add: s1_def t0_def wall_s_upd)
  have "\<exists>r. wait_loop (idle_turn os rt (of_int (ms_of t0) + ms)) s1 = Some r"
  proof (rule wait_loop_returns [where t = "\<lambda>s. os_now os (io_tr s)" and d = "t0 + 10000"
        and P = "\<lambda>s. t0 \<le> os_now os (io_tr s) \<and> os_now os (io_tr s) \<le> t0 + 10000"])
    show "0 < dt" by (rule pump_contractD(1) [OF pump_pacedD(1) [OF assms(1)]])
    show "t0 \<le> os_now os (io_tr s1) \<and> os_now os (io_tr s1) \<le> t0 + 10000" using s1 by simp
    fix u u'
    assume u: "t0 \<le> os_now os (io_tr u) \<and> os_now os (io_tr u) \<le> t0 + 10000"
      and t: "idle_turn os rt (of_int (ms_of t0) + ms) u = Inr u'"
    have "of_nat n / 1000 \<le> (4000 :: rat)" using n(2) by (simp add: field_simps)
    then show "(t0 \<le> os_now os (io_tr u') \<and> os_now os (io_tr u') \<le> t0 + 10000) \<and>
        os_now os (io_tr u) + dt \<le> os_now os (io_tr u') \<and> os_now os (io_tr u) \<le> t0 + 10000"
      using idle_turn_time [OF assms(1) n(2), of t0 u u'] u t n(1) by auto
  qed
  then show ?thesis by (auto simp: gfhome_wait_kernel_idle_def millis_upd t0_def s1_def)
qed

section \<open>What the waits keep\<close>

lemma wait_kernel_idle_inv:
  assumes "gfhome_wait_kernel_idle os rt n s = Some (idle, u)" "I s"
    and k: "\<And>v. I v \<Longrightarrow> I (snd (gf_stream_kernel_idle os v))" and m: "\<And>v. I v \<Longrightarrow> I (snd (millis os v))"
    and p: "\<And>v. I v \<Longrightarrow> I (snd (pump rt v))"
  shows "I u"
proof -
  define g where "g = fst (millis os s) + n"
  have w: "wait_loop (idle_turn os rt g) (snd (millis os s)) = Some (idle, u)"
    using assms(1) by (simp add: gfhome_wait_kernel_idle_def g_def Let_def case_prod_beta)
  have i: "I (snd r)" if "I v" "idle_turn os rt g v = Inl r" for v r
    using that k m p by (auto simp: idle_turn_def Let_def case_prod_beta split: if_splits)
  have s: "I v'" if "I v" "idle_turn os rt g v = Inr v'" for v v'
    using that k m p by (auto simp: idle_turn_def Let_def case_prod_beta split: if_splits)
  from wait_loop_rule [where P = I and Q = "\<lambda>r. I (snd r)", OF w m [OF assms(2)] i s] show ?thesis by simp
qed

lemma drain_wait_inv:
  assumes "drain_wait os co rt d s = Some (go, u)" "I s"
    and k: "\<And>v. I v \<Longrightarrow> I (snd (gf_stream_kernel_idle os v))" and m: "\<And>v. I v \<Longrightarrow> I (snd (wall_s os v))"
    and p: "\<And>v. I v \<Longrightarrow> I (snd (pump rt v))" and z: "\<And>v. I v \<Longrightarrow> I (sleep_ns 5000000 v)"
  shows "I u"
proof -
  have w: "wait_loop (drain_turn_mc os co rt d) s = Some (go, u)" using assms(1) by (simp add: drain_wait_def)
  have i: "I (snd r)" if "I v" "drain_turn_mc os co rt d v = Inl r" for v r
    using that k m p by (auto simp: drain_turn_mc_def Let_def case_prod_beta split: if_splits)
  have s: "I v'" if "I v" "drain_turn_mc os co rt d v = Inr v'" for v v'
    using that k m p z by (auto simp: drain_turn_mc_def Let_def case_prod_beta split: if_splits)
  from wait_loop_rule [where P = I and Q = "\<lambda>r. I (snd r)", OF w assms(2) i s] show ?thesis by simp
qed

end
