(* ===== verification/Tray_Props.thy ===== *)
theory Tray_Props
  imports Tray Mach_Waits
begin

text \<open>
  What the tray switch promises: the mode is saved before the frame moves, a mode that
  could not be saved did not change, out and in again is where the frame was, and the
  M-code always answers.
\<close>

section \<open>The Z frame as a value\<close>

text \<open>Everything that says where Z is: the position, the home, the envelope, the limit, the anchor.\<close>

record zframe =
  zf_spm :: rat
  zf_ref :: bool
  zf_pos :: int
  zf_home :: rat
  zf_env :: "rat \<times> rat"
  zf_limit :: "rat \<times> rat"
  zf_anchor :: "rat \<times> rat \<times> rat"
  zf_axes :: u8

definition z_frame :: "'a homing_scheme \<Rightarrow> zframe" where
  "z_frame s = \<lparr>zf_spm = z_spm s, zf_ref = z_referenced s, zf_pos = sys_position_z s, zf_home = sys_home_z s,
     zf_env = (z_env_min s, z_env_max s), zf_limit = sys_env_z s, zf_anchor = anchor_home s, zf_axes = anchor_axes s\<rparr>"

definition zf_limited :: "zframe \<Rightarrow> rat \<times> rat" where
  "zf_limited z = (if zf_ref z then zf_env z else (of_int (zf_pos z) / zf_spm z, of_int (zf_pos z) / zf_spm z))"

definition zf_shift :: "int \<Rightarrow> zframe \<Rightarrow> zframe" where
  "zf_shift d z =
     (let g = (\<lambda>x. z_grid_shift x d (zf_spm z));
          z1 = z\<lparr>zf_pos := zf_pos z + d, zf_home := g (zf_home z),
                 zf_env := (if zf_ref z then map_prod g g (zf_env z) else zf_env z)\<rparr>
      in z1\<lparr>zf_limit := zf_limited z1,
            zf_anchor := (if zf_axes z \<noteq> 0 then apsnd (apsnd g) (zf_anchor z) else zf_anchor z)\<rparr>)"

lemma tray_shift_frame: "z_frame (gfhome_tray_shift os d s) = zf_shift d (z_frame s)"
  by (cases "anchor_home s")
     (auto simp: gfhome_tray_shift_def gfhome_apply_z_limit_def anchor_write_def z_frame_def zf_shift_def zf_limited_def
        Let_def)

text \<open>A frame on the step grid, whose limit is the one the code last applied.\<close>

definition on_grid :: "rat \<Rightarrow> rat \<Rightarrow> bool" where
  "on_grid spm z \<longleftrightarrow> (\<exists>n :: int. z = of_int n / spm)"

definition zf_grid :: "zframe \<Rightarrow> bool" where
  "zf_grid z \<longleftrightarrow> zf_spm z \<noteq> 0 \<and> on_grid (zf_spm z) (zf_home z) \<and> zf_limit z = zf_limited z \<and>
     (zf_ref z \<longrightarrow> on_grid (zf_spm z) (fst (zf_env z)) \<and> on_grid (zf_spm z) (snd (zf_env z))) \<and>
     (zf_axes z \<noteq> 0 \<longrightarrow> on_grid (zf_spm z) (snd (snd (zf_anchor z))))"

lemma grid_shift_back: "spm \<noteq> 0 \<Longrightarrow> on_grid spm z \<Longrightarrow> z_grid_shift (z_grid_shift z d spm) (- d) spm = z"
  unfolding on_grid_def by (auto intro: z_grid_shift_inverse)

lemma zf_shift_back:
  assumes "zf_grid z"
  shows "zf_shift (- d) (zf_shift d z) = z"
proof -
  have g: "zf_spm z \<noteq> 0" "on_grid (zf_spm z) (zf_home z)" "zf_limit z = zf_limited z"
    "zf_ref z \<Longrightarrow> on_grid (zf_spm z) (fst (zf_env z))" "zf_ref z \<Longrightarrow> on_grid (zf_spm z) (snd (zf_env z))"
    "zf_axes z \<noteq> 0 \<Longrightarrow> on_grid (zf_spm z) (snd (snd (zf_anchor z)))"
    using assms unfolding zf_grid_def by auto
  note b = grid_shift_back [OF g(1)]
  obtain x y a where a: "zf_anchor z = (x, y, a)" by (cases "zf_anchor z") auto
  obtain l h where e: "zf_env z = (l, h)" by (cases "zf_env z") auto
  show ?thesis using g a e b by (cases z) (auto simp: zf_shift_def zf_limited_def Let_def)
qed

section \<open>The switch\<close>

lemma tray_marker_set_frame [simp]:
  "z_frame (snd (tray_marker_set os mi on s)) = z_frame s"
  "tray_out (snd (tray_marker_set os mi on s)) = tray_out s"
  "z_spm (snd (tray_marker_set os mi on s)) = z_spm s"
  "io_tr (snd (tray_marker_set os mi on s)) = io_tr s"
  by (simp_all add: tray_marker_set_def ask_defs z_frame_def split: option.split mark_ans.split)

lemma z_frame_ask [simp]: "z_frame (ask r s) = z_frame s" "z_frame (report_message m s) = z_frame s"
  by (simp_all add: ask_defs z_frame_def)

lemma tray_ask [simp]:
  "tray_out (ask r s) = tray_out s" "tray_out (report_message m s) = tray_out s"
  "tray_shift (ask r s) = tray_shift s" "tray_shift (report_message m s) = tray_shift s"
  "shift_known (ask r s) = shift_known s" "shift_known (report_message m s) = shift_known s"
  "tray_marker (ask r s) = tray_marker s" "tray_marker (report_message m s) = tray_marker s"
  by (simp_all add: ask_defs)

lemma gfhome_tray_shift_fields [simp]:
  "tray_out (gfhome_tray_shift os d s) = tray_out s" "tray_shift (gfhome_tray_shift os d s) = tray_shift s"
  "shift_known (gfhome_tray_shift os d s) = shift_known s" "tray_marker (gfhome_tray_shift os d s) = tray_marker s"
  by (simp_all add: gfhome_tray_shift_def gfhome_apply_z_limit_def anchor_write_def Let_def case_prod_beta)

definition tray_saves :: "os \<Rightarrow> mio \<Rightarrow> bool \<Rightarrow> 'a mach_scheme \<Rightarrow> bool" where
  "tray_saves os mi want s = fst (tray_marker_set os mi want s)"

text \<open>The shift that a switch makes, and the state it saves in.\<close>

definition tray_delta :: "os \<Rightarrow> bool \<Rightarrow> 'a mach_scheme \<Rightarrow> int" where
  "tray_delta os want s = (if want then offset_steps os s else - fst (gftray_shift_steps os s))"

lemma shift_steps_frame [simp]:
  "z_frame (snd (gftray_shift_steps os s)) = z_frame s" "tray_out (snd (gftray_shift_steps os s)) = tray_out s"
  "core_tr (snd (gftray_shift_steps os s)) = core_tr s" "tray_marker (snd (gftray_shift_steps os s)) = tray_marker s"
  by (simp_all add: gftray_shift_steps_def z_frame_def Let_def)

lemma z_frame_upd [simp]:
  "z_frame (s\<lparr>tray_out := a\<rparr>) = z_frame s" "z_frame (s\<lparr>tray_shift := b\<rparr>) = z_frame s" "z_frame (s\<lparr>shift_known := c\<rparr>) = z_frame s"
  by (simp_all add: z_frame_def)

lemma tray_saves_shift [simp]: "tray_saves os mi want (snd (gftray_shift_steps os s)) = tray_saves os mi want s"
  by (simp add: tray_saves_def tray_marker_set_def split: option.split mark_ans.split)

lemma tray_set_switch:
  assumes "want \<noteq> tray_out s" "tray_saves os mi want s"
  shows "z_frame (tray_set os mi want s) = zf_shift (tray_delta os want s) (z_frame s)"
    "tray_out (tray_set os mi want s) = want" "shift_known (tray_set os mi want s) = want"
    "want \<Longrightarrow> tray_shift (tray_set os mi want s) = tray_delta os want s"
  using assms tray_saves_shift [of os mi want s]
  by (cases want; simp add: tray_set_def tray_delta_def tray_saves_def Let_def case_prod_beta tray_shift_frame)+

lemma hold_job_frame [simp]:
  "z_frame (hold_job m s) = z_frame s" "tray_out (hold_job m s) = tray_out s" "tray_marker (hold_job m s) = tray_marker s"
  "core_tr (hold_job m s) = Ask Exec_feed_hold # Msg m # core_tr s"
  by (simp_all add: ask_defs z_frame_def)

lemma tray_set_refused:
  assumes "want \<noteq> tray_out s" "\<not> tray_saves os mi want s"
  shows "z_frame (tray_set os mi want s) = z_frame s" "tray_out (tray_set os mi want s) = tray_out s"
    "hd (core_tr (tray_set os mi want s)) = Ask Exec_feed_hold"
    "tray_marker (tray_set os mi want s) = tray_marker (snd (tray_marker_set os mi want (snd (gftray_shift_steps os s))))"
  using assms tray_saves_shift [of os mi want s]
  by (cases want; simp add: tray_set_def tray_saves_def Let_def case_prod_beta gftray_shift_steps_def)+

lemma tray_set_same:
  assumes "want = tray_out s"
  shows "tray_set os mi want s = report_message (if want then ''Tray out'' else ''Tray in'') s"
  using assms by (simp add: tray_set_def)

lemma zf_shift_back_moved:
  assumes "zf_grid z" "zf_ref z \<or> p = zf_pos z + d"
  shows "zf_shift (- d) ((zf_shift d z)\<lparr>zf_pos := p\<rparr>) = z\<lparr>zf_pos := p - d\<rparr>"
proof -
  have 1: "zf_shift (- d) (w\<lparr>zf_pos := q\<rparr>) = (zf_shift (- d) w)\<lparr>zf_pos := q - d\<rparr>" if "zf_ref w" for w q
    using that by (simp add: zf_shift_def zf_limited_def Let_def)
  have 2: "zf_ref (zf_shift d z) = zf_ref z" "zf_pos (zf_shift d z) = zf_pos z + d"
    by (simp_all add: zf_shift_def Let_def)
  have 3: "w\<lparr>zf_pos := zf_pos w\<rparr> = w" for w by (cases w) simp
  show ?thesis
  proof (cases "zf_ref z")
    case True
    then show ?thesis using 1 2 zf_shift_back [OF assms(1), of d] by simp
  next
    case False
    then have "(zf_shift d z)\<lparr>zf_pos := p\<rparr> = zf_shift d z" "z\<lparr>zf_pos := p - d\<rparr> = z" using assms(2) 2 3 by auto
    then show ?thesis using zf_shift_back [OF assms(1), of d] by simp
  qed
qed

lemma z_frame_pos: "z_frame (s\<lparr>sys_position_z := p\<rparr>) = (z_frame s)\<lparr>zf_pos := p\<rparr>"
  by (simp add: z_frame_def)

text \<open>
  C29. The tray out and in again: the whole Z frame, with the home, the envelope, the soft
  limit and the anchor, is where it was, to the half-step, and the position has moved by
  exactly the steps the lens was moved in between. The tray-out shift is remembered, so
  this holds for any configured offset, also one that was edited in between.
\<close>

theorem tray_round_trip:
  fixes s :: "'a mach_scheme"
  assumes "\<not> tray_out s" "zf_grid (z_frame s)" "tray_saves os mi True s"
    and t: "t = (tray_set os mi True s)\<lparr>sys_position_z := p\<rparr>" "tray_saves os' mi' False t"
    and moved: "z_referenced s \<or> p = sys_position_z (tray_set os mi True s)"
  shows "z_frame (tray_set os' mi' False t) =
      (z_frame s)\<lparr>zf_pos := sys_position_z s + (p - sys_position_z (tray_set os mi True s))\<rparr> \<and>
    \<not> tray_out (tray_set os' mi' False t)"
proof -
  have a: "True \<noteq> tray_out s" using assms(1) by simp
  note sw = tray_set_switch [OF a assms(3)]
  define d where "d = tray_delta os True s"
  have zt: "z_frame t = (zf_shift d (z_frame s))\<lparr>zf_pos := p\<rparr>" using sw(1) by (simp add: t(1) d_def z_frame_pos)
  have tt: "tray_out t" "shift_known t" "tray_shift t = d" using sw by (simp_all add: t(1) d_def)
  have pos: "sys_position_z (tray_set os mi True s) = sys_position_z s + d"
    using arg_cong [OF sw(1), of zf_pos] by (simp add: z_frame_def zf_shift_def Let_def d_def)
  have "False \<noteq> tray_out t" using tt by simp
  note undo = tray_set_switch [OF this t(2)]
  have "tray_delta os' False t = - d" using tt by (simp add: tray_delta_def gftray_shift_steps_def)
  moreover have "zf_shift (- d) ((zf_shift d (z_frame s))\<lparr>zf_pos := p\<rparr>) = (z_frame s)\<lparr>zf_pos := p - d\<rparr>"
    by (rule zf_shift_back_moved [OF assms(2)]) (use moved pos in \<open>simp add: z_frame_def\<close>)
  ultimately show ?thesis using undo(1,2) by (simp add: zt pos)
qed


text \<open>A bench whose files can be written and whose tray is in.\<close>

definition bench_mi :: mio where
  "bench_mi = \<lparr>mi_abort = (\<lambda>c t. False), mi_gc_position = (\<lambda>c t. (0, 0, 0)), mi_jog = (\<lambda>c t p f. 0),
     mi_mark = (\<lambda>c p. Mark_written), mi_unlink = (\<lambda>c p. True), mi_fork = (\<lambda>c t. True),
     mi_waitpid = (\<lambda>c t. Child_reaped (Some 0)), mi_nonfinite = (\<lambda>f. 0)\<rparr>"

definition bench_mach :: mach where
  "bench_mach = (mach0 (100, 100) (6000, 6000) (500, 280) 12 bench_ctl)\<lparr>z_spm := 2, z_referenced := True, z_env_min := - 1,
     z_env_max := 4, sys_env_z := (- 1, 4), sys_home_z := 3, sys_position_z := 6, anchor_axes := 0\<rparr>"

lemma bench_mach_sel:
  "z_spm bench_mach = 2" "z_referenced bench_mach" "z_env_min bench_mach = - 1" "z_env_max bench_mach = 4"
  "sys_env_z bench_mach = (- 1, 4)" "sys_home_z bench_mach = 3" "sys_position_z bench_mach = 6" "anchor_axes bench_mach = 0"
  "\<not> tray_out bench_mach" "\<not> tray_marker bench_mach" "\<not> released bench_mach" "\<not> envelope_is_open bench_mach"
  "mc_table bench_mach = []" "\<not> w_active (mc_wait bench_mach)" "seq_next bench_mach = 1"
  by (simp_all add: bench_mach_def mach0_def ctl.defs mach.defs)

lemma bench_marks: "tray_saves bench_os bench_mi b s"
  by (simp add: tray_saves_def tray_marker_set_def bench_mi_def tray_marker_path_def gfio_conf_sibling_def
        conf_path_def CONF_DEFAULT_def TRAY_MARKER_def)

theorem tray_round_trip_witness:
  "z_frame (tray_set bench_os bench_mi False (tray_set bench_os bench_mi True bench_mach)) = z_frame bench_mach"
proof -
  define s1 where "s1 = tray_set bench_os bench_mi True bench_mach"
  have e: "s1\<lparr>sys_position_z := sys_position_z s1\<rparr> = s1" by (cases s1) simp
  have "zf_grid (z_frame bench_mach)"
    unfolding zf_grid_def on_grid_def
    by (auto simp: z_frame_def bench_mach_sel zf_limited_def intro: exI [of _ "- 2"] exI [of _ 8] exI [of _ 6])
  from tray_round_trip [OF bench_mach_sel(9) this bench_marks refl bench_marks, of "sys_position_z s1", folded s1_def]
  show ?thesis unfolding s1_def [symmetric] e by (simp add: z_frame_def)
qed

section \<open>Saved first\<close>

lemma tray_marker_set_marker:
  assumes "\<forall>c p. mi_mark mi c p \<noteq> Mark_no_write False" "tray_marker_path os \<noteq> None"
  shows "tray_marker (snd (tray_marker_set os mi on s)) =
    (if fst (tray_marker_set os mi on s) then on else tray_marker s \<and> \<not> (on \<and> (\<exists>p. mi_mark mi (core_tr s) p = Mark_no_write True \<and> tray_marker_path os = Some p)))"
proof -
  obtain p where p: "tray_marker_path os = Some p" using assms(2) by auto
  show ?thesis
  proof (cases "mi_mark mi (core_tr s) p")
    case (Mark_no_write g)
    then have "g" using assms(1) by (cases g) auto
    then show ?thesis using p Mark_no_write by (simp add: tray_marker_set_def ask_defs)
  qed (use p in \<open>simp_all add: tray_marker_set_def ask_defs\<close>)
qed

lemma tray_set_marker:
  assumes "want \<noteq> tray_out s" "tray_saves os mi want s"
  shows "tray_marker (tray_set os mi want s) = tray_marker (snd (tray_marker_set os mi want (snd (gftray_shift_steps os s))))"
  using assms tray_saves_shift [of os mi want s]
  by (cases want; simp add: tray_set_def tray_saves_def Let_def case_prod_beta gftray_shift_steps_def)

text \<open>
  The mode is saved before the frame moves. With a half-written marker removed again,
  the marker on the flash says the mode that stands after every switch, so a restart
  comes up in it; a mode that could not be saved did not change, nothing of the Z frame
  moved, and the job is held.
\<close>

theorem tray_mode_saved:
  assumes "tray_marker s = tray_out s" "tray_marker_path os \<noteq> None" "\<forall>c p. mi_mark mi c p \<noteq> Mark_no_write False"
  shows "tray_marker (tray_set os mi want s) = tray_out (tray_set os mi want s) \<and>
    tray_out (gftray_init os (tray_set os mi want s)) = tray_out (tray_set os mi want s) \<and>
    (if want = tray_out s \<or> tray_saves os mi want s then tray_out (tray_set os mi want s) = want
     else z_frame (tray_set os mi want s) = z_frame s \<and> tray_out (tray_set os mi want s) = tray_out s \<and>
       hd (core_tr (tray_set os mi want s)) = Ask Exec_feed_hold)"
proof -
  define s' where "s' = tray_set os mi want s"
  define u where "u = snd (gftray_shift_steps os s)"
  have u: "tray_marker u = tray_out s" "core_tr u = core_tr s" "tray_saves os mi want u = tray_saves os mi want s"
    using assms(1) by (simp_all add: u_def)
  have "tray_marker s' = tray_out s' \<and> (if want = tray_out s \<or> tray_saves os mi want s then tray_out s' = want
     else z_frame s' = z_frame s \<and> tray_out s' = tray_out s \<and> hd (core_tr s') = Ask Exec_feed_hold)"
  proof (cases "want = tray_out s")
    case True
    then show ?thesis using assms(1) by (simp add: s'_def tray_set_same)
  next
    case False
    note m = tray_marker_set_marker [OF assms(3,2), of want u]
    show ?thesis
    proof (cases "tray_saves os mi want s")
      case True
      then show ?thesis using False m u tray_set_switch [OF False True] tray_set_marker [OF False True]
        by (simp add: s'_def u_def [symmetric] tray_saves_def)
    next
      case no: False
      then show ?thesis using False m u tray_set_refused [OF False no]
        by (cases want) (auto simp: s'_def u_def [symmetric] tray_saves_def)
    qed
  qed
  moreover have "tray_out (gftray_init os s') = tray_marker s'" using assms(2) by (simp add: gftray_init_def)
  ultimately show ?thesis unfolding s'_def [symmetric] by auto
qed

theorem tray_mode_saved_witness:
  "tray_marker (tray_set bench_os bench_mi True bench_mach) \<and> tray_out (tray_set bench_os bench_mi True bench_mach)"
proof -
  have "tray_marker_path bench_os \<noteq> None"
    by (simp add: tray_marker_path_def gfio_conf_sibling_def conf_path_def CONF_DEFAULT_def TRAY_MARKER_def)
  moreover have "\<forall>c p. mi_mark bench_mi c p \<noteq> Mark_no_write False" by (simp add: bench_mi_def)
  ultimately show ?thesis
    using tray_mode_saved [of bench_mach bench_os bench_mi True] bench_mach_sel by (simp add: bench_marks)
qed

section \<open>The M-code\<close>

text \<open>
  M103 always answers, under a clock that does not go back and a pump that takes some
  time: its wait for the last move is bounded. And it switches only over a kernel that
  has played every step: the state it leaves is the one of a wait that a reset or an
  alarm ended, of a job that is held because the move did not finish, or of the switch
  made right after the kernel said idle.
\<close>

lemma tray_execute_idle:
  assumes "pump_contract os rt dt"
  shows "\<exists>go u. drain_wait os co rt (os_now os (io_tr s) + DRAIN_S) (snd (wall_s os s)) = Some (go, u) \<and>
    tray_execute os co mi rt b s = Some
      (if \<not> go then u
       else if fst (gf_stream_kernel_idle os u) then tray_set os mi (pb_val_p b \<noteq> Fin 0) (snd (gf_stream_kernel_idle os u))
       else hold_job ''Tray mode not changed: the move before M103 did not finish'' (snd (gf_stream_kernel_idle os u)))"
proof -
  obtain go u where "drain_wait os co rt (os_now os (io_tr s) + DRAIN_S) (snd (wall_s os s)) = Some (go, u)"
    using drain_wait_returns [OF assms] by blast
  then show ?thesis by (auto simp: tray_execute_def wall_s_upd Let_def case_prod_beta)
qed

end
