(* ===== verification/Serial_Props.thy ===== *)
theory Serial_Props
  imports Serial Tray_Props "HOL-Library.Sublist"
begin

text \<open>
  The properties of the sender's stream: both rings as bounded queues, whole lines
  through an overrun, the injected line, the drain of the output, and the sessions.
\<close>

section \<open>The two rings\<close>

lemma rx_size: "RX_BUFFER_SIZE = 2 ^ 10" "1 < RX_BUFFER_SIZE" "0 < RX_BUFFER_SIZE" by (simp_all add: RX_BUFFER_SIZE_def)
lemma tx_size: "TX_BUFFER_SIZE = 2 ^ 11" "1 < TX_BUFFER_SIZE" "0 < TX_BUFFER_SIZE" by (simp_all add: TX_BUFFER_SIZE_def)

interpretation rxq: byte_queue "ring_list RX_BUFFER_SIZE" "ring_ok RX_BUFFER_SIZE" "RX_BUFFER_SIZE - 1"
  "ring_put RX_BUFFER_SIZE" "ring_get RX_BUFFER_SIZE" "ring_full RX_BUFFER_SIZE" ring_empty
  by (rule ring_byte_queue [OF rx_size(1,2)])

interpretation txq: byte_queue "ring_list TX_BUFFER_SIZE" "ring_ok TX_BUFFER_SIZE" "TX_BUFFER_SIZE - 1"
  "ring_put TX_BUFFER_SIZE" "ring_get TX_BUFFER_SIZE" "ring_full TX_BUFFER_SIZE" ring_empty
  by (rule ring_byte_queue [OF tx_size(1,2)])

abbreviation rx_list :: "'a ser_scheme \<Rightarrow> u8 list" where
  "rx_list s \<equiv> ring_list RX_BUFFER_SIZE (rx s)"

abbreviation rx_valid :: "'a ser_scheme \<Rightarrow> bool" where
  "rx_valid s \<equiv> ring_ok RX_BUFFER_SIZE (rx s)"

section \<open>Lines\<close>

text \<open>The complete lines of a text, each with its end-of-line byte, and the rest.\<close>

definition segs :: "u8 list \<Rightarrow> u8 list list \<times> u8 list" where
  "segs t = foldl (\<lambda>(ls, r) c. if is_eol c then (ls @ [r @ [c]], []) else (ls, r @ [c])) ([], []) t"

lemma segs_simps [simp]:
  "segs [] = ([], [])"
  "segs (t @ [c]) = (if is_eol c then (fst (segs t) @ [snd (segs t) @ [c]], []) else (fst (segs t), snd (segs t) @ [c]))"
  by (simp_all add: segs_def case_prod_beta)

lemma segs_concat: "concat (fst (segs t)) @ snd (segs t) = t"
  by (induction t rule: rev_induct) (auto split: if_splits)

text \<open>The text through its last end of line.\<close>

definition whole :: "u8 list \<Rightarrow> u8 list" where
  "whole t = concat (fst (segs t))"

lemma whole_snoc: "whole (t @ [c]) = (if is_eol c then t @ [c] else whole t)"
  using segs_concat [of t] by (simp add: whole_def)

lemma whole_nil [simp]: "whole [] = []" by (simp add: whole_def)

text \<open>Cutting the partial line at the end of what follows a text.\<close>

lemma segs_append_whole:
  "whole q \<noteq> [] \<or> snd (segs t) = [] \<Longrightarrow> segs (t @ whole q) = (fst (segs (t @ q)), [])"
proof (induction q rule: rev_induct)
  case Nil
  then show ?case by (cases "segs t") simp
next
  case (snoc c q)
  then show ?case by (auto simp: whole_snoc simp flip: append_assoc)
qed

lemma whole_empty_rest: "whole q = [] \<Longrightarrow> snd (segs (t @ q)) = snd (segs t) @ q"
proof (induction q rule: rev_induct)
  case (snoc c q)
  then show ?case by (auto simp: whole_snoc simp flip: append_assoc split: if_splits)
qed simp

lemma unwrite_whole:
  assumes "ring_ok RX_BUFFER_SIZE r" "ring_count RX_BUFFER_SIZE r \<le> n"
  shows "ring_ok RX_BUFFER_SIZE (unwrite n r) \<and> ring_list RX_BUFFER_SIZE (unwrite n r) = whole (ring_list RX_BUFFER_SIZE r)"
  using assms
proof (induction n arbitrary: r)
  case 0
  then have "ring_list RX_BUFFER_SIZE r = []" by (metis le_zero_eq length_0_conv length_ring_list)
  then show ?case using 0 by simp
next
  case (Suc n)
  let ?l = "ring_list RX_BUFFER_SIZE"
  show ?case
  proof (cases "?l r = []")
    case True
    then show ?thesis using Suc.prems rxq.empty_iff by (simp add: unwrite_stop_def)
  next
    case False
    note u = ring_unput_list [OF rx_size(1) Suc.prems(1) False]
    have l: "butlast (?l r) @ [last (?l r)] = ?l r" using False by simp
    have ne: "\<not> ring_empty r" using rxq.empty_iff [OF Suc.prems(1)] False by simp
    show ?thesis
    proof (cases "is_eol (last (?l r))")
      case True
      then have "whole (?l r) = ?l r" using whole_snoc [of "butlast (?l r)" "last (?l r)"] l by simp
      then show ?thesis using Suc.prems True u by (simp add: unwrite_stop_def)
    next
      case no: False
      define r' where "r' = r\<lparr>r_head := ring_prev RX_BUFFER_SIZE (r_head r)\<rparr>"
      have "length (?l r') = length (?l r) - 1" using u by (simp add: r'_def)
      then have "ring_count RX_BUFFER_SIZE r' \<le> n" using Suc.prems(2) by simp
      then have "ring_ok RX_BUFFER_SIZE (unwrite n r') \<and> ?l (unwrite n r') = whole (?l r')" using Suc.IH u by (simp add: r'_def)
      moreover have "whole (?l r) = whole (?l r')"
        using whole_snoc [of "butlast (?l r)" "last (?l r)"] l no u by (simp add: r'_def)
      ultimately show ?thesis using no u ne by (simp add: unwrite_stop_def r'_def)
    qed
  qed
qed

declare length_ring_list [simp del]

section \<open>Whole lines\<close>

lemma ser_now_sel [simp]:
  "rx (snd (ser_now io s)) = rx s" "tx (snd (ser_now io s)) = tx s" "rx_overrun (snd (ser_now io s)) = rx_overrun s"
  "rx_discarding (snd (ser_now io s)) = rx_discarding s" "inj_left (snd (ser_now io s)) = inj_left s"
  "inj_status_due (snd (ser_now io s)) = inj_status_due s" "sender_eol (snd (ser_now io s)) = sender_eol s"
  "hold_sender (snd (ser_now io s)) = hold_sender s"
  by (simp_all add: ser_now_def ser_emit_def Let_def)

text \<open>What a stored byte does to the ring and the two flags.\<close>

lemma store_byte_discard:
  "rx_discarding s \<Longrightarrow> rx (store_byte io c s) = rx s \<and> rx_discarding (store_byte io c s) = (\<not> is_eol c) \<and>
     rx_overrun (store_byte io c s) = rx_overrun s"
  by (simp add: store_byte_def)

lemma store_byte_full:
  assumes "rx_valid s" "\<not> rx_discarding s" "ring_full RX_BUFFER_SIZE (rx s)"
  shows "rx_valid (store_byte io c s) \<and> rx_list (store_byte io c s) = whole (rx_list s) \<and>
    rx_discarding (store_byte io c s) = (\<not> is_eol c) \<and> rx_overrun (store_byte io c s)"
  using unwrite_whole [OF assms(1), of RX_BUFFER_SIZE] ring_head_count [OF assms(1)] assms(2,3)
  by (simp add: store_byte_def)

lemma store_byte_room:
  assumes "rx_valid s" "\<not> rx_discarding s" "\<not> ring_full RX_BUFFER_SIZE (rx s)"
  shows "rx_valid (store_byte io c s) \<and> rx_list (store_byte io c s) = rx_list s @ [c] \<and>
    \<not> rx_discarding (store_byte io c s) \<and> rx_overrun (store_byte io c s) = rx_overrun s"
  using ring_put_list [OF rx_size(1,2) assms(1,3), of c] assms(2,3)
  by (simp add: store_byte_def Let_def case_prod_beta)

lemma store_byte_inj [simp]: "inj_left (store_byte io c s) = inj_left s" "inj_status_due (store_byte io c s) = inj_status_due s"
  "hold_sender (store_byte io c s) = hold_sender s"
  by (simp_all add: store_byte_def Let_def case_prod_beta)

lemma serialGetC_rx:
  assumes "rx_valid s"
  shows "rx_valid (snd (serialGetC s)) \<and> rx_discarding (snd (serialGetC s)) = rx_discarding s \<and>
    rx_overrun (snd (serialGetC s)) = rx_overrun s \<and>
    (case fst (serialGetC s) of None \<Rightarrow> snd (serialGetC s) = s | Some c \<Rightarrow> rx_list s = c # rx_list (snd (serialGetC s)))"
proof (cases "rx_list s = []")
  case True
  then show ?thesis using assms rxq.empty_iff by (simp add: serialGetC_def)
next
  case False
  then have ne: "\<not> ring_empty (rx s)" using assms rxq.empty_iff by simp
  show ?thesis using assms ne rxq.get_content [OF assms False] rxq.get_valid [OF assms] False
    by (simp add: serialGetC_def Let_def case_prod_beta)
qed

text \<open>
  A session as the ring sees it: bytes that the sender wrote and the real-time handler
  did not take, and reads of the core, in any order. Beside the state, all that was
  sent and all that was read. No line is longer than the ring holds.
\<close>

inductive session :: "sio \<Rightarrow> u8 list \<Rightarrow> u8 list \<Rightarrow> 'a ser_scheme \<Rightarrow> bool" for io where
  session_start: "rx_valid s \<Longrightarrow> rx_list s = [] \<Longrightarrow> \<not> rx_discarding s \<Longrightarrow> \<not> rx_overrun s \<Longrightarrow> session io [] [] s"
| session_sent: "session io sent got s \<Longrightarrow> length (snd (segs (sent @ [c]))) < RX_BUFFER_SIZE \<Longrightarrow>
    session io (sent @ [c]) got (store_byte io c s)"
| session_read: "session io sent got s \<Longrightarrow> serialGetC s = (Some c, s') \<Longrightarrow> session io sent (got @ [c]) s'"
| session_none: "session io sent got s \<Longrightarrow> serialGetC s = (None, s') \<Longrightarrow> session io sent got s'"

definition lines_inv :: "u8 list \<Rightarrow> u8 list \<Rightarrow> 'a ser_scheme \<Rightarrow> bool" where
  "lines_inv sent got s \<longleftrightarrow> rx_valid s \<and> length (snd (segs sent)) < RX_BUFFER_SIZE \<and>
     subseq (fst (segs (got @ rx_list s))) (fst (segs sent)) \<and>
     snd (segs (got @ rx_list s)) = (if rx_discarding s then [] else snd (segs sent)) \<and>
     (\<not> rx_overrun s \<longrightarrow> got @ rx_list s = sent \<and> \<not> rx_discarding s)"

lemma lines_inv_sent:
  assumes "lines_inv sent got s" "length (snd (segs (sent @ [c]))) < RX_BUFFER_SIZE"
  shows "lines_inv (sent @ [c]) got (store_byte io c s)"
proof -
  have v: "rx_valid s" using assms(1) by (simp add: lines_inv_def)
  consider (disc) "rx_discarding s" | (full) "\<not> rx_discarding s" "ring_full RX_BUFFER_SIZE (rx s)"
    | (room) "\<not> rx_discarding s" "\<not> ring_full RX_BUFFER_SIZE (rx s)" by blast
  then show ?thesis
  proof cases
    case disc
    then show ?thesis using assms store_byte_discard [OF disc, of io c]
      by (auto simp: lines_inv_def intro: list_emb_append2)
  next
    case full
    note f = store_byte_full [OF v full, of io c]
    have len: "length (rx_list s) = RX_BUFFER_SIZE - 1" using full(2) rxq.full_iff [OF v] by simp
    have "whole (rx_list s) \<noteq> [] \<or> snd (segs got) = []"
    proof (rule ccontr)
      assume a: "\<not> ?thesis"
      then have "snd (segs sent) = snd (segs got) @ rx_list s"
        using whole_empty_rest [of "rx_list s" got] assms(1) full by (simp add: lines_inv_def)
      then have "length (snd (segs sent)) = length (snd (segs got)) + (RX_BUFFER_SIZE - 1)" using len by simp
      moreover have "0 < length (snd (segs got))" using a by simp
      moreover have "length (snd (segs sent)) < RX_BUFFER_SIZE" using assms(1) by (simp add: lines_inv_def)
      ultimately show False by linarith
    qed
    then have "segs (got @ whole (rx_list s)) = (fst (segs (got @ rx_list s)), [])" by (rule segs_append_whole)
    then show ?thesis using assms f by (auto simp: lines_inv_def intro: list_emb_append2)
  next
    case room
    note f = store_byte_room [OF v room, of io c]
    have "segs (got @ rx_list s @ [c]) = (if is_eol c
        then (fst (segs (got @ rx_list s)) @ [snd (segs (got @ rx_list s)) @ [c]], [])
        else (fst (segs (got @ rx_list s)), snd (segs (got @ rx_list s)) @ [c]))"
      using segs_simps(2) [of "got @ rx_list s" c] by simp
    then show ?thesis using assms f room by (auto simp: lines_inv_def intro: list_emb_append_mono)
  qed
qed

lemma session_inv: "session io sent got s \<Longrightarrow> lines_inv sent got s"
proof (induction rule: session.induct)
  case (session_start s)
  then show ?case by (simp add: lines_inv_def rx_size)
next
  case (session_sent sent got s c)
  then show ?case by (simp add: lines_inv_sent)
next
  case (session_read sent got s c s')
  then show ?case using serialGetC_rx [of s] by (simp add: lines_inv_def)
next
  case (session_none sent got s s')
  then show ?case using serialGetC_rx [of s] by (simp add: lines_inv_def)
qed

lemma segs_prefix: "prefix (fst (segs t)) (fst (segs (t @ u)))"
  by (induction u rule: rev_induct) (auto simp flip: append_assoc)


text \<open>A sender that writes one short line, on a stream that takes no byte for a real-time command.\<close>

definition bench_sio :: sio where
  "bench_sio = \<lparr>sio_accept = (\<lambda>tr. None), sio_read = (\<lambda>tr. Try_again), sio_write = (\<lambda>tr b. Wrote (length b)),
     sio_stdin = (\<lambda>tr. 0), sio_now = (\<lambda>tr. (0, 0)), sio_rt = (\<lambda>tr c. False), sio_ntop = (\<lambda>a. []), sio_banner = [71]\<rparr>"

lemma ser0_rx [simp]: "rx_valid (ser0 m)" "rx_list (ser0 m) = []" "\<not> rx_discarding (ser0 m)" "\<not> rx_overrun (ser0 m)"
  "inj_left (ser0 m) = 0" "\<not> inj_active (ser0 m)" "\<not> sender_midline (ser0 m)" "ring_empty (rx (ser0 m))"
  using ring_new_ok [OF rx_size(3)] by (simp_all add: ser0_def ring_empty_def ring_new_def)

lemma short_room: "rx_valid s \<Longrightarrow> length (rx_list s) < RX_BUFFER_SIZE - 1 \<Longrightarrow> \<not> ring_full RX_BUFFER_SIZE (rx s)"
  using rxq.full_iff [of "rx s"] by simp


section \<open>The injected line\<close>

text \<open>The bytes of the injected line that the core has yet to read.\<close>

definition inj_rest :: "'a ser_scheme \<Rightarrow> u8 list" where
  "inj_rest s = take (inj_left s) (rx_list s)"

definition inj_inv :: "'a ser_scheme \<Rightarrow> bool" where
  "inj_inv s \<longleftrightarrow> rx_valid s \<and> inj_left s \<le> length (rx_list s) \<and> (inj_left s > 0 \<longrightarrow> is_eol (last (inj_rest s)))"

lemma whole_prefix: "pre \<noteq> [] \<Longrightarrow> is_eol (last pre) \<Longrightarrow> \<exists>q. whole (pre @ t) = pre @ q"
proof (induction t rule: rev_induct)
  case Nil
  then show ?case using whole_snoc [of "butlast pre" "last pre"] by simp
next
  case (snoc c t)
  then show ?case using whole_snoc [of "pre @ t" c] by auto
qed

lemma rest_append: "n \<le> length q \<Longrightarrow> \<exists>r. l = take n q @ r \<Longrightarrow> take n l = take n q \<and> n \<le> length l"
  by auto

text \<open>Whatever the sender writes behind it, an overrun included, the injected line stands.\<close>

lemma store_byte_rest:
  assumes "inj_inv s"
  shows "inj_inv (store_byte io c s) \<and> inj_rest (store_byte io c s) = inj_rest s"
proof -
  have v: "rx_valid s" and le: "inj_left s \<le> length (rx_list s)"
    and e: "inj_left s > 0 \<Longrightarrow> is_eol (last (inj_rest s))" using assms by (simp_all add: inj_inv_def)
  consider (disc) "rx_discarding s" | (full) "\<not> rx_discarding s" "ring_full RX_BUFFER_SIZE (rx s)"
    | (room) "\<not> rx_discarding s" "\<not> ring_full RX_BUFFER_SIZE (rx s)" by blast
  then have "rx_valid (store_byte io c s) \<and> (\<exists>r. rx_list (store_byte io c s) = inj_rest s @ r)"
  proof cases
    case disc
    then show ?thesis using v store_byte_discard [OF disc, of io c] append_take_drop_id [of "inj_left s" "rx_list s"]
      by (metis inj_rest_def)
  next
    case full
    have "\<exists>r. whole (rx_list s) = inj_rest s @ r"
    proof (cases "inj_left s = 0")
      case False
      then have "inj_rest s \<noteq> []" using le by (auto simp: inj_rest_def)
      then show ?thesis using whole_prefix [of "inj_rest s" "drop (inj_left s) (rx_list s)"] e False by (simp add: inj_rest_def)
    qed (simp add: inj_rest_def)
    then show ?thesis using store_byte_full [OF v full, of io c] by simp
  next
    case room
    have "rx_list s @ [c] = inj_rest s @ (drop (inj_left s) (rx_list s) @ [c])"
      by (simp add: inj_rest_def flip: append_assoc)
    then show ?thesis using store_byte_room [OF v room, of io c] by metis
  qed
  then show ?thesis using rest_append [OF le, of "rx_list (store_byte io c s)"] e by (auto simp: inj_inv_def inj_rest_def)
qed

lemma serialGetC_inject:
  assumes "inj_inv s" "inj_rest s = b # bs"
  shows "\<exists>s'. serialGetC s = (Some b, s') \<and> inj_inv s' \<and> inj_rest s' = bs \<and> inj_left s' = length bs \<and>
    inj_status_due s' = (inj_status_due s \<or> bs = [])"
proof -
  have v: "rx_valid s" and le: "inj_left s \<le> length (rx_list s)" using assms(1) by (simp_all add: inj_inv_def)
  have pos: "inj_left s > 0" using assms(2) by (auto simp: inj_rest_def intro: ccontr)
  then have ne: "rx_list s \<noteq> []" using le by auto
  have l: "inj_left s = Suc (length bs)" using assms(2) le by (metis inj_rest_def length_take length_Cons min_absorb2)
  have hd: "hd (rx_list s) = b" "take (length bs) (tl (rx_list s)) = bs"
    using assms(2) ne l by (cases "rx_list s"; simp add: inj_rest_def)+
  note g = rxq.get_content [OF v ne] rxq.get_valid [OF v]
  define s' where "s' = snd (serialGetC s)"
  have "serialGetC s = (Some b, s') \<and> rx s' = snd (ring_get RX_BUFFER_SIZE (rx s)) \<and> inj_left s' = length bs \<and>
      inj_status_due s' = (inj_status_due s \<or> bs = [])"
    using ne rxq.empty_iff [OF v] g hd l
    by (simp add: s'_def serialGetC_def read_gate_def Let_def case_prod_beta)
  moreover have "is_eol (last bs)" if "bs \<noteq> []" using assms pos that by (simp add: inj_inv_def)
  ultimately show ?thesis using g hd le l
    by (intro exI [of _ s']) (auto simp: inj_inv_def inj_rest_def)
qed

text \<open>Sender bytes and reads of the core, as they come; what the reads gave.\<close>

datatype act = Sent u8 | Read

fun play :: "sio \<Rightarrow> act list \<Rightarrow> 'a ser_scheme \<Rightarrow> u8 option list \<times> 'a ser_scheme" where
  "play io [] s = ([], s)"
| "play io (Sent c # as) s = play io as (store_byte io c s)"
| "play io (Read # as) s =
     (case serialGetC s of (r, s') \<Rightarrow> case play io as s' of (rs, s'') \<Rightarrow> (r # rs, s''))"

lemma play_rest:
  assumes "inj_inv s" "inj_rest s = bs" "inj_left s = length bs" "count_list as Read \<le> length bs"
  shows "\<exists>s'. play io as s = (map Some (take (count_list as Read) bs), s') \<and> inj_inv s' \<and>
    inj_rest s' = drop (count_list as Read) bs \<and>
    inj_status_due s' = (inj_status_due s \<or> 0 < count_list as Read \<and> count_list as Read = length bs)"
  using assms
proof (induction io as s arbitrary: bs rule: play.induct)
  case (2 io c as s)
  then show ?case using store_byte_rest [of s io c] by simp
next
  case (3 io as s)
  then obtain b cs where bs: "bs = b # cs" by (cases bs) auto
  obtain s1 where s1: "serialGetC s = (Some b, s1)" "inj_inv s1" "inj_rest s1 = cs" "inj_left s1 = length cs"
    "inj_status_due s1 = (inj_status_due s \<or> cs = [])"
    using serialGetC_inject [of s b cs] 3 bs by auto
  then obtain s2 where "play io as s1 = (map Some (take (count_list as Read) cs), s2) \<and> inj_inv s2 \<and>
    inj_rest s2 = drop (count_list as Read) cs \<and>
    inj_status_due s2 = (inj_status_due s1 \<or> 0 < count_list as Read \<and> count_list as Read = length cs)"
    using 3(1) [of "Some b" s1 cs] 3 bs by auto
  then show ?case using s1 bs 3 by auto
qed simp

lemma inject_line_inv:
  assumes "rx_valid s" "is_eol (sender_eol s)" "serial_inject_line line s = (True, s')"
  shows "inj_inv s' \<and> inj_rest s' = line @ [sender_eol s] \<and> inj_left s' = length line + 1 \<and> \<not> inj_status_due s'"
proof -
  have c: "\<not> inj_active s" "line \<noteq> []" "ring_empty (rx s)" "length line + 1 \<le> serialRxFree s"
    and s': "s' = s\<lparr>rx := fold (ring_put RX_BUFFER_SIZE) (line @ [sender_eol s]) (rx s),
                    inj_left := length line + 1, inj_active := True, inj_first := True, inj_status_due := False\<rparr>"
    using assms(3) by (auto simp: serial_inject_line_def split: if_splits)
  have e: "rx_list s = []" using c(3) rxq.empty_iff [OF assms(1)] by simp
  have "length (line @ [sender_eol s]) \<le> RX_BUFFER_SIZE - 1"
    using c(4) by (simp add: serialRxFree_def)
  then have "rx_valid s' \<and> rx_list s' = line @ [sender_eol s]"
    using rxq.put_all [OF assms(1), of "line @ [sender_eol s]"] e by (simp add: s')
  then show ?thesis using assms(2) by (simp add: inj_inv_def inj_rest_def s')
qed



section \<open>The output\<close>

abbreviation tx_list :: "'a ser_scheme \<Rightarrow> u8 list" where
  "tx_list s \<equiv> ring_list TX_BUFFER_SIZE (tx s)"

abbreviation tx_valid :: "'a ser_scheme \<Rightarrow> bool" where
  "tx_valid s \<equiv> ring_ok TX_BUFFER_SIZE (tx s)"

text \<open>What the peer has taken, oldest byte first.\<close>

fun sent_out :: "sev list \<Rightarrow> u8 list" where
  "sent_out [] = []"
| "sent_out (S_wrote b w # tr) = sent_out tr @ take w b"
| "sent_out (e # tr) = sent_out tr"

text \<open>What the stream relies on of the port's callback: it leaves the output alone.\<close>

definition done_keeps :: "'a injd \<Rightarrow> bool" where
  "done_keeps d \<longleftrightarrow> (\<forall>st s. tx (d st s) = tx s \<and> client_fd (d st s) = client_fd s \<and> listen_fd (d st s) = listen_fd s \<and>
     sent_out (ser_tr (d st s)) = sent_out (ser_tr s))"

lemma ring_drop:
  assumes "ring_ok rsz r" "m \<le> ring_count rsz r"
  shows "ring_ok rsz (r\<lparr>r_tail := (r_tail r + m) mod rsz\<rparr>) \<and>
    ring_list rsz (r\<lparr>r_tail := (r_tail r + m) mod rsz\<rparr>) = drop m (ring_list rsz r)"
proof -
  define n where "n = ring_count rsz r"
  note h = ring_head_count [OF assms(1), folded n_def]
  have t: "r_tail r < rsz" "0 < rsz" using assms(1) by (auto simp: ring_ok_def)
  have "r_head r = ((r_tail r + m) mod rsz + (n - m)) mod rsz" 
  proof -
    obtain k where "n = m + k" using assms(2) le_Suc_ex unfolding n_def by blast
    then show ?thesis using h by (simp add: mod_simps add.assoc)
  qed
  then have c: "ring_count rsz (r\<lparr>r_tail := (r_tail r + m) mod rsz\<rparr>) = n - m"
    using t h by (intro ring_count_eq [of "(r_tail r + m) mod rsz"]) auto
  have "drop m (ring_list rsz r) = map (\<lambda>i. r_data r ! ((r_tail r + m + i) mod rsz)) [0..<n - m]"
    unfolding ring_list_def n_def [symmetric] drop_map drop_upt
    by (rule nth_equalityI) (simp_all add: add.assoc)
  then show ?thesis using assms(1) t unfolding ring_list_def c by (simp add: ring_ok_def mod_simps)
qed

lemma tx_span_take:
  assumes "ring_ok TX_BUFFER_SIZE r"
  shows "tx_span r = take (length (tx_span r)) (ring_list TX_BUFFER_SIZE r)"
    "length (tx_span r) \<le> ring_count TX_BUFFER_SIZE r" "\<not> ring_empty r \<Longrightarrow> 0 < length (tx_span r)"
proof -
  have k: "length (tx_span r) = (if r_head r \<ge> r_tail r then r_head r - r_tail r else TX_BUFFER_SIZE - r_tail r)"
    using assms by (auto simp: tx_span_def ring_ok_def min_def)
  show le: "length (tx_span r) \<le> ring_count TX_BUFFER_SIZE r" using k by (simp add: ring_count_def)
  show "\<not> ring_empty r \<Longrightarrow> 0 < length (tx_span r)" using k assms by (auto simp: ring_empty_def ring_ok_def)
  show "tx_span r = take (length (tx_span r)) (ring_list TX_BUFFER_SIZE r)"
  proof (rule nth_equalityI)
    show "length (tx_span r) = length (take (length (tx_span r)) (ring_list TX_BUFFER_SIZE r))"
      using le by (simp add: length_ring_list)
    fix i assume i: "i < length (tx_span r)"
    then have "r_tail r + i < TX_BUFFER_SIZE" using k assms by (auto simp: ring_ok_def split: if_splits)
    then show "tx_span r ! i = take (length (tx_span r)) (ring_list TX_BUFFER_SIZE r) ! i"
      using i le k assms by (simp add: tx_span_def ring_list_def ring_ok_def)
  qed
qed

lemma drop_client_tx:
  assumes "done_keeps d"
  shows "tx (drop_client d s) = tx s" "client_fd (drop_client d s) < 0" "listen_fd (drop_client d s) = listen_fd s"
    "sent_out (ser_tr (drop_client d s)) = sent_out (ser_tr s)"
  using assms by (simp_all add: drop_client_def serialRxFlush_def ser_emit_def done_keeps_def Let_def)

text \<open>One turn: what went out, what is left, and the measure that it lowers.\<close>

lemma drain_turn_step:
  assumes "done_keeps d" "tx_valid s" "\<not> ring_empty (tx s)" "drain_turn io d s = (go, s')"
  shows "tx_valid s' \<and> (\<exists>out. sent_out (ser_tr s') = sent_out (ser_tr s) @ out \<and> prefix out (tx_list s) \<and>
      (client_fd s' = client_fd s \<and> (client_fd s \<ge> 0 \<or> listen_fd s < 0) \<longrightarrow> tx_list s = out @ tx_list s') \<and>
      (go \<longrightarrow> tx_list s = out @ tx_list s')) \<and>
    listen_fd s' = listen_fd s \<and> (client_fd s' = client_fd s \<or> client_fd s \<ge> 0 \<and> client_fd s' < 0) \<and>
    (go \<longrightarrow> length (tx_list s') + (if client_fd s' \<ge> 0 then 1 else 0) < length (tx_list s) + (if client_fd s \<ge> 0 then 1 else 0))"
proof -
  note D = drop_client_tx [OF assms(1)]
  have v: "length (r_data (tx s)) = TX_BUFFER_SIZE" "r_head (tx s) < TX_BUFFER_SIZE" using assms(2) by (simp_all add: ring_ok_def)
  have f: "drain_turn io d s = (listen_fd s \<ge> 0, drop_client d (ser_emit S_write_failed s))"
    if "\<not> (client_fd s < 0 \<and> listen_fd s \<ge> 0)" "sio_write io (ser_tr s) (tx_span (tx s)) \<in> {Wrote 0, Write_error}"
    using that unfolding drain_turn_def Let_def if_not_P [OF that(1)] by auto
  consider (none) "client_fd s < 0 \<and> listen_fd s \<ge> 0"
    | (out) w where "\<not> (client_fd s < 0 \<and> listen_fd s \<ge> 0)" "sio_write io (ser_tr s) (tx_span (tx s)) = Wrote w" "w > 0"
    | (block) "\<not> (client_fd s < 0 \<and> listen_fd s \<ge> 0)" "sio_write io (ser_tr s) (tx_span (tx s)) = Would_block"
    | (fail) "\<not> (client_fd s < 0 \<and> listen_fd s \<ge> 0)"
        "drain_turn io d s = (listen_fd s \<ge> 0, drop_client d (ser_emit S_write_failed s))"
    using f by (cases "sio_write io (ser_tr s) (tx_span (tx s))") force+
  then show ?thesis
  proof cases
    case none
    then show ?thesis using assms(2,4) v by (auto simp: drain_turn_def ring_ok_def)
  next
    case block
    then show ?thesis using assms(2,4) by (auto simp: drain_turn_def Let_def)
  next
    case fail
    have none: "drop_client d u = u" if "client_fd u < 0" for u using that by (simp add: drop_client_def)
    have g: "go \<longleftrightarrow> listen_fd s \<ge> 0" "s' = drop_client d (ser_emit S_write_failed s)" using fail(2) assms(4) by auto
    have e: "tx s' = tx s" "listen_fd s' = listen_fd s" "sent_out (ser_tr s') = sent_out (ser_tr s)" "client_fd s' < 0"
      using D by (simp_all add: g ser_emit_def)
    have c: "client_fd s' = client_fd s \<or> client_fd s \<ge> 0 \<and> client_fd s' < 0"
      using none [of "ser_emit S_write_failed s"] e(4) g(2) by (cases "client_fd s < 0") (auto simp: ser_emit_def)
    have "go \<longrightarrow> client_fd s \<ge> 0" using fail(1) g(1) by auto
    then show ?thesis using e c assms(2) by (intro conjI exI [of _ "[]"]) auto
  next
    case out
    define m where "m = min w (length (tx_span (tx s)))"
    define r where "r = (tx s)\<lparr>r_tail := (r_tail (tx s) + m) mod TX_BUFFER_SIZE\<rparr>"
    note sp = tx_span_take [OF assms(2)]
    have m: "0 < m" "m \<le> ring_count TX_BUFFER_SIZE (tx s)" "take w (tx_span (tx s)) = take m (tx_list s)"
      using out(3) sp(2,3) assms(3) sp(1) by (auto simp: m_def min_def intro: order_trans) (metis take_take min_def min.commute)+
    have s': "s' = (ser_emit (S_wrote (tx_span (tx s)) w) s)\<lparr>tx := r\<rparr>" "go"
      using assms(4) out(2,3) out(1) unfolding drain_turn_def Let_def and_size [OF tx_size(1)] by (simp_all add: r_def m_def)
    have r: "ring_ok TX_BUFFER_SIZE r" "ring_list TX_BUFFER_SIZE r = drop m (tx_list s)"
      using ring_drop [OF assms(2) m(2)] by (simp_all add: r_def)
    have l: "tx_list s = take m (tx_list s) @ drop m (tx_list s)" by simp
    have "length (drop m (tx_list s)) < length (tx_list s)" using m by (simp add: length_ring_list)
    then show ?thesis using s' r m(3) l take_is_prefix by (auto simp: ser_emit_def)
  qed
qed

lemma drain_fifo:
  assumes "done_keeps d" "tx_valid s" "length (tx_list s) + (if client_fd s \<ge> 0 then 1 else 0) \<le> n"
  shows "fst (drain io d n s) \<and> tx_valid (snd (drain io d n s)) \<and>
    (\<exists>out. sent_out (ser_tr (snd (drain io d n s))) = sent_out (ser_tr s) @ out \<and> prefix out (tx_list s) \<and>
      (client_fd (snd (drain io d n s)) = client_fd s \<and> (client_fd s \<ge> 0 \<or> listen_fd s < 0) \<longrightarrow>
         tx_list s = out @ tx_list (snd (drain io d n s)))) \<and>
    listen_fd (snd (drain io d n s)) = listen_fd s \<and>
    (client_fd (snd (drain io d n s)) = client_fd s \<or> client_fd s \<ge> 0 \<and> client_fd (snd (drain io d n s)) < 0)"
  using assms(2,3)
proof (induction n arbitrary: s)
  case 0
  then show ?case using txq.empty_iff by simp
next
  case (Suc n)
  show ?case
  proof (cases "ring_empty (tx s)")
    case True
    then show ?thesis using Suc.prems by simp
  next
    case False
    obtain go s1 where t: "drain_turn io d s = (go, s1)" by fastforce
    obtain out where st: "tx_valid s1" "sent_out (ser_tr s1) = sent_out (ser_tr s) @ out" "prefix out (tx_list s)"
      "client_fd s1 = client_fd s \<and> (client_fd s \<ge> 0 \<or> listen_fd s < 0) \<longrightarrow> tx_list s = out @ tx_list s1"
      "go \<longrightarrow> tx_list s = out @ tx_list s1" "listen_fd s1 = listen_fd s" "client_fd s1 = client_fd s \<or> client_fd s \<ge> 0 \<and> client_fd s1 < 0"
      "go \<longrightarrow> length (tx_list s1) + (if client_fd s1 \<ge> 0 then 1 else 0) < length (tx_list s) + (if client_fd s \<ge> 0 then 1 else 0)"
      using drain_turn_step [OF assms(1) Suc.prems(1) False t] by blast
    show ?thesis
    proof (cases go)
      case no: False
      then show ?thesis using st t False by auto
    next
      case go: True
      then have "length (tx_list s1) + (if client_fd s1 \<ge> 0 then 1 else 0) \<le> n" using st(8) Suc.prems(2) by simp
      from Suc.IH [OF st(1) this] obtain out2 where ih: "fst (drain io d n s1)" "tx_valid (snd (drain io d n s1))"
        "sent_out (ser_tr (snd (drain io d n s1))) = sent_out (ser_tr s1) @ out2" "prefix out2 (tx_list s1)"
        "client_fd (snd (drain io d n s1)) = client_fd s1 \<and> (client_fd s1 \<ge> 0 \<or> listen_fd s1 < 0) \<longrightarrow>
           tx_list s1 = out2 @ tx_list (snd (drain io d n s1))"
        "listen_fd (snd (drain io d n s1)) = listen_fd s1"
        "client_fd (snd (drain io d n s1)) = client_fd s1 \<or> client_fd s1 \<ge> 0 \<and> client_fd (snd (drain io d n s1)) < 0" by blast
      have p: "prefix (out @ out2) (tx_list s)" using st(5) go ih(4) by simp
      have "drain io d (Suc n) s = drain io d n s1" using False t go by simp
      then show ?thesis using ih st go p by (intro conjI exI [of _ "out @ out2"]) auto
    qed
  qed
qed

text \<open>
  The drain of the output always ends within its bound, and what the peer takes is
  the front of the ring, byte for byte and in order: while the peer stays, the bytes
  that went out followed by those still in the ring are the bytes that were there; a
  peer that fails is dropped, and the process goes on.
\<close>

theorem tx_drain_fifo:
  assumes "done_keeps d" "tx_valid s"
  shows "fst (drain io d (TX_BUFFER_SIZE + 1) s) \<and> tx_valid (tx_drain io d s) \<and>
    (\<exists>out. sent_out (ser_tr (tx_drain io d s)) = sent_out (ser_tr s) @ out \<and> prefix out (tx_list s) \<and>
      (client_fd (tx_drain io d s) = client_fd s \<and> (client_fd s \<ge> 0 \<or> listen_fd s < 0) \<longrightarrow>
         tx_list s = out @ tx_list (tx_drain io d s)))"
proof -
  have "length (tx_list s) \<le> TX_BUFFER_SIZE" using txq.bound [OF assms(2)] by simp
  then show ?thesis using drain_fifo [OF assms, of "TX_BUFFER_SIZE + 1" io] unfolding tx_drain_def by auto
qed

theorem tx_drain_fifo_witness:
  "fst (drain bench_sio (\<lambda>st s. s) (TX_BUFFER_SIZE + 1) (put_store 1 71 (ser0 bench_mach))) \<and>
   (\<exists>out. prefix out [71] \<and> sent_out (ser_tr (tx_drain bench_sio (\<lambda>st s. s) (put_store 1 71 (ser0 bench_mach)))) = out)"
proof -
  define s where "s = put_store 1 71 (ser0 bench_mach)"
  have one: "ring_next TX_BUFFER_SIZE 0 = 1" using ring_next_mod [OF tx_size(1), of 0] by (simp add: TX_BUFFER_SIZE_def)
  have t: "tx s = ring_put TX_BUFFER_SIZE 71 (ring_new TX_BUFFER_SIZE)" "ser_tr s = []"
    using one by (simp_all add: s_def put_store_def ser0_def ring_put_def ring_new_def)
  have n: "\<not> ring_full TX_BUFFER_SIZE (ring_new TX_BUFFER_SIZE)"
    using one by (simp add: ring_full_def ring_new_def)
  have v: "tx_valid s" "tx_list s = [71]"
    using ring_put_list [OF tx_size(1,2) _ n, of 71] ring_new_ok [OF tx_size(3)] by (simp_all add: t)
  have k: "done_keeps (\<lambda>st s. s)" by (simp add: done_keeps_def)
  from tx_drain_fifo [OF k v(1), of bench_sio] obtain out where
    "fst (drain bench_sio (\<lambda>st s. s) (TX_BUFFER_SIZE + 1) s)"
    "sent_out (ser_tr (tx_drain bench_sio (\<lambda>st s. s) s)) = sent_out (ser_tr s) @ out" "prefix out (tx_list s)" by blast
  moreover have "sent_out (ser_tr s) = []" using t(2) by simp
  ultimately show ?thesis unfolding s_def [symmetric] v(2) by auto
qed

end
