(* ===== verification/Ctlport_Props.thy ===== *)
theory Ctlport_Props
  imports Ctlport Serial_Props
begin

text \<open>
  What the controller port promises: the sender is held exactly while the port owns a jog
  or an open envelope; a request has one reply; the lines it hands to the core are a
  fixed few; a sender is kept out only from an idle machine. And two runs in which a
  client that goes away leaves something behind for the next one.
\<close>

section \<open>The invariant\<close>

definition hold_exact :: "'a port_scheme \<Rightarrow> bool" where
  "hold_exact s \<longleftrightarrow> (hold_sender s \<longleftrightarrow> port_jog s \<or> envelope_hold s)"

definition port_side :: "'a port_scheme \<Rightarrow> bool" where
  "port_side s \<longleftrightarrow> inj_active s = awaiting s \<and> (awaiting s \<longrightarrow> deferred s = []) \<and> inj_hooked s"

definition port_inv :: "'a port_scheme \<Rightarrow> bool" where
  "port_inv s \<longleftrightarrow> hold_exact s \<and> port_side s"

text \<open>Inside a poll that ended the port's jog, the sender of an open envelope is not held yet.\<close>

definition port_mid :: "'a port_scheme \<Rightarrow> bool" where
  "port_mid s \<longleftrightarrow> (hold_exact s \<or> (\<not> port_jog s \<and> \<not> hold_sender s \<and> \<not> awaiting s)) \<and> port_side s"

text \<open>What a write to the sender may do on the way: anything that keeps the invariant and starts no jog of the port.\<close>

definition write_contract :: "'a hal_write \<Rightarrow> bool" where
  "write_contract wr \<longleftrightarrow> (\<forall>t s. port_mid s \<longrightarrow> port_mid (wr t s) \<and> (port_jog (wr t s) \<longrightarrow> port_jog s))"

lemma write_contractD:
  assumes "write_contract wr" "port_mid s"
  shows "port_mid (wr t s)" "port_jog (wr t s) \<Longrightarrow> port_jog s"
  using assms by (auto simp: write_contract_def)

lemma inv_mid: "port_inv s \<Longrightarrow> port_mid s"
  by (simp add: port_inv_def port_mid_def)

lemmas port_inv_defs = port_inv_def port_side_def hold_exact_def

lemmas port_basics = port_emit_def port_now_def ser_now_def ser_emit_def

lemma port_now_upd: "port_now io s = (ts_s (sio_now io (ser_tr s)), s\<lparr>ser_tr := S_now (sio_now io (ser_tr s)) # ser_tr s\<rparr>)"
  by (simp add: port_basics Let_def)

lemma cancel_fields [simp]:
  "hold_sender (cancel_port_jog co s) = hold_sender s" "port_jog (cancel_port_jog co s) = port_jog s"
  "envelope_hold (cancel_port_jog co s) = envelope_hold s" "inj_active (cancel_port_jog co s) = inj_active s"
  "awaiting (cancel_port_jog co s) = awaiting s" "deferred (cancel_port_jog co s) = deferred s"
  "inj_hooked (cancel_port_jog co s) = inj_hooked s" "port_listen_fd (cancel_port_jog co s) = port_listen_fd s"
  "rx (cancel_port_jog co s) = rx s" "port_fd (cancel_port_jog co s) = port_fd s" "port_tr (cancel_port_jog co s) = port_tr s"
  "tray_want (cancel_port_jog co s) = tray_want s" "keep_out (cancel_port_jog co s) = keep_out s"
  "awaiting_jog (cancel_port_jog co s) = awaiting_jog s" "inj_left (cancel_port_jog co s) = inj_left s"
  by (simp_all add: cancel_port_jog_def)

lemma drop_fields [simp]:
  "hold_sender (drop_port_client co s) = hold_sender s" "port_jog (drop_port_client co s) = port_jog s"
  "envelope_hold (drop_port_client co s) = envelope_hold s" "inj_active (drop_port_client co s) = inj_active s"
  "awaiting (drop_port_client co s) = awaiting s" "inj_hooked (drop_port_client co s) = inj_hooked s"
  "port_listen_fd (drop_port_client co s) = port_listen_fd s" "rx (drop_port_client co s) = rx s"
  "deferred (drop_port_client co s) = (if port_fd s \<ge> 0 then [] else deferred s)"
  "tray_want (drop_port_client co s) = tray_want s" "keep_out (drop_port_client co s) = keep_out s"
  "awaiting_jog (drop_port_client co s) = awaiting_jog s" "inj_left (drop_port_client co s) = inj_left s"
  by (simp_all add: drop_port_client_def port_emit_def Let_def)

lemma reply_fields [simp]:
  "hold_sender (reply co po m s) = hold_sender s" "port_jog (reply co po m s) = port_jog s"
  "envelope_hold (reply co po m s) = envelope_hold s" "inj_active (reply co po m s) = inj_active s"
  "awaiting (reply co po m s) = awaiting s" "inj_hooked (reply co po m s) = inj_hooked s"
  "port_listen_fd (reply co po m s) = port_listen_fd s" "rx (reply co po m s) = rx s"
  "tray_want (reply co po m s) = tray_want s" "keep_out (reply co po m s) = keep_out s"
  "awaiting_jog (reply co po m s) = awaiting_jog s" "inj_left (reply co po m s) = inj_left s"
  by (simp_all add: reply_def port_emit_def Let_def)

lemma reply_deferred: "deferred (reply co po m s) = deferred s \<or> deferred (reply co po m s) = []"
  by (simp add: reply_def port_emit_def Let_def)

lemma reply_none [simp]: "deferred s = [] \<Longrightarrow> deferred (reply co po m s) = []"
  using reply_deferred [of co po m s] by auto

lemma port_inv_reply [simp]: "port_inv s \<Longrightarrow> port_inv (reply co po m s)"
  by (auto simp: port_inv_defs)

lemma port_inv_drop [simp]: "port_inv s \<Longrightarrow> port_inv (drop_port_client co s)"
  by (auto simp: port_inv_defs)

lemma port_inv_cancel [simp]: "port_inv (cancel_port_jog co s) = port_inv s"
  by (simp add: port_inv_defs)

lemma port_inv_frame [simp]:
  "port_inv (s\<lparr>machine := m\<rparr>) = port_inv s" "port_inv (s\<lparr>port_tr := tr\<rparr>) = port_inv s" "port_inv (s\<lparr>ser_tr := st\<rparr>) = port_inv s"
  "port_inv (s\<lparr>req := r\<rparr>) = port_inv s" "port_inv (s\<lparr>tray_want := w\<rparr>) = port_inv s" "port_inv (s\<lparr>port_fd := fd\<rparr>) = port_inv s"
  "port_inv (s\<lparr>keep_out := b\<rparr>) = port_inv s" "port_inv (s\<lparr>deferred_until := d\<rparr>) = port_inv s"
  "port_inv (s\<lparr>client_fd := fd\<rparr>) = port_inv s" "port_inv (s\<lparr>client_loopback := b\<rparr>) = port_inv s"
  "port_inv (s\<lparr>client_peer := p\<rparr>) = port_inv s" "port_inv (s\<lparr>client_generation := g\<rparr>) = port_inv s"
  "port_inv (ser_emit e s) = port_inv s" "port_inv (port_emit pe s) = port_inv s" "port_inv (snd (port_now io s)) = port_inv s"
  by (simp_all add: port_inv_defs port_basics Let_def)

text \<open>A finished line: the multiplexer has let go of it before the port hears of it.\<close>

lemma port_inv_line_done:
  assumes "write_contract wr" "hold_exact s" "\<not> inj_active s" "awaiting s \<Longrightarrow> deferred s = []" "inj_hooked s"
  shows "port_inv (line_done co po wr st s)"
proof -
  define u where "u = s\<lparr>awaiting := False, tray_want := - 1\<rparr>"
  define v where "v = (if \<not> port_jog u then wr (char_bytes (''[MSG:Panel jog]'' @ EOL)) u else u)"
  have u: "port_inv u" using assms by (simp add: u_def port_inv_defs)
  then have "port_mid v" using write_contractD(1) [OF assms(1) inv_mid [OF u]] by (simp add: v_def inv_mid)
  then have "port_inv (serial_hold_sender True (v\<lparr>port_jog := True, cancel_sent := False\<rparr>))"
    by (simp add: port_mid_def port_inv_defs serial_hold_sender_def)
  then show ?thesis using u by (simp add: line_done_def Let_def flip: u_def v_def)
qed

lemma port_inv_flush:
  assumes "write_contract wr" "port_inv s"
  shows "port_inv (serialRxFlush (line_done co po wr) s)"
proof (cases "inj_active s")
  case True
  have i: "inj_hooked s" "deferred s = []" "hold_exact s" using assms(2) True by (auto simp: port_inv_def port_side_def)
  show ?thesis unfolding serialRxFlush_def Let_def
    by (simp add: True i(1), rule port_inv_line_done [OF assms(1)]) (use i in \<open>simp_all add: hold_exact_def\<close>)
next
  case False
  then show ?thesis using assms(2) by (simp add: serialRxFlush_def port_inv_defs Let_def)
qed

lemma port_inv_drop_client:
  assumes "write_contract wr" "port_inv s"
  shows "port_inv (drop_client (line_done co po wr) s)"
  using assms(2) by (simp add: drop_client_def port_inv_flush [OF assms(1)])

section \<open>The requests keep it\<close>

lemma port_inv_inject:
  assumes "port_inv s" "\<not> awaiting s" "deferred s = []"
  shows "port_inv (inject co io po line jog s)"
  using assms by (auto simp: inject_def serial_inject_line_def port_basics port_inv_defs Let_def)

lemma inject_line_free:
  assumes "serial_inject_line line s = (b, s')"
  shows "hold_sender s' = hold_sender s" "ser.more s' = ser.more s" "\<not> b \<Longrightarrow> s' = s"
  using assms by (auto simp: serial_inject_line_def split: if_splits)

text \<open>At rest: the port can take a request.\<close>

definition port_rest :: "'a port_scheme \<Rightarrow> bool" where
  "port_rest s \<longleftrightarrow> port_inv s \<and> \<not> awaiting s \<and> deferred s = []"

lemma rest_inv: "port_rest s \<Longrightarrow> port_inv s"
  by (simp add: port_rest_def)

lemma rest_frame [simp]:
  "port_rest (s\<lparr>machine := m\<rparr>) = port_rest s" "port_rest (s\<lparr>ser_tr := st\<rparr>) = port_rest s" "port_rest (s\<lparr>req := r\<rparr>) = port_rest s"
  "port_rest (s\<lparr>tray_want := w\<rparr>) = port_rest s" "port_rest (port_emit pe s) = port_rest s" "port_rest (s\<lparr>keep_out := b\<rparr>) = port_rest s"
  by (simp_all add: port_rest_def port_emit_def)

lemma inv_inject: "port_rest s \<Longrightarrow> port_inv (inject co io po line jog s)"
  by (simp add: port_rest_def port_inv_inject)

lemma inv_jog: "port_rest s \<Longrightarrow> port_inv (op_jog co io po w s)"
  by (simp add: op_jog_def sender_recent_def port_now_upd rest_inv inv_inject Let_def)

lemma inv_command: "port_rest s \<Longrightarrow> port_inv (op_command co io po line s)"
  by (simp add: op_command_def rest_inv inv_inject Let_def)

lemma inv_tray: "port_rest s \<Longrightarrow> port_inv (op_tray co io po mode s)"
  by (simp add: op_tray_def rest_inv inv_inject Let_def)

lemma inv_home: "port_rest s \<Longrightarrow> port_inv (op_home os co io po s)"
  by (simp add: op_home_def rest_inv inv_command)

lemma inv_mcode_result: "port_inv s \<Longrightarrow> port_inv (op_mcode_result co po args s)"
  by (simp add: op_mcode_result_def Let_def split: option.split prod.split)

lemma inv_drop_sender:
  assumes "write_contract wr" "port_inv s"
  shows "port_inv (snd (serial_drop_sender (line_done co po wr) s))"
  using assms(2) by (simp add: serial_drop_sender_def port_inv_drop_client [OF assms(1)])

lemma inv_sender_out:
  assumes "write_contract wr" "port_rest s"
  shows "port_inv (op_sender_out os co io po wr s)"
proof -
  have m: "port_inv (snd (machine_busy os co s))"
    using assms(2) by (simp add: machine_busy_def Let_def case_prod_beta rest_inv)
  then show ?thesis using assms(2)
    by (simp add: op_sender_out_def sender_recent_def port_now_upd serial_keep_out_def inv_drop_sender [OF assms(1)] rest_inv Let_def case_prod_beta)
qed

lemma inv_if: "port_inv x \<Longrightarrow> port_inv y \<Longrightarrow> port_inv (if b then x else y)"
  by simp

lemma inv_request:
  assumes "write_contract wr" "port_rest s"
  shows "port_inv (handle_request os co io po wr line s)"
  unfolding handle_request_def using assms(2) by (intro inv_if) (simp_all add: op_state_def op_envelope_def op_mcodes_def serial_keep_out_def
    rest_inv inv_jog inv_command inv_tray inv_home inv_mcode_result inv_sender_out [OF assms(1)] Let_def case_prod_beta)

section \<open>The poll keeps it\<close>

lemma mid_poll_jog: "port_inv s \<Longrightarrow> port_mid (poll_jog co s)"
  by (auto simp: poll_jog_def serial_hold_sender_def port_mid_def port_inv_defs)

lemma inv_poll_envelope:
  assumes "write_contract wr" "port_mid s"
  shows "port_inv (poll_envelope co wr s)"
proof -
  define u where "u = s\<lparr>machine := gfhome_envelope_close (machine s)\<rparr>"
  have "port_mid u" using assms(2) by (simp add: u_def port_mid_def port_side_def hold_exact_def)
  note W = write_contractD [OF assms(1) this]
  have "port_inv ((serial_hold_sender False (wr t u))\<lparr>envelope_hold := False\<rparr>)" if "\<not> port_jog s" for t
    using W [of t] that by (auto simp: u_def port_mid_def port_inv_defs serial_hold_sender_def)
  moreover have "port_inv ((serial_hold_sender True s)\<lparr>envelope_hold := True\<rparr>)"
    using assms(2) by (simp add: port_mid_def port_inv_defs serial_hold_sender_def)
  ultimately show ?thesis
    using assms(2) by (simp add: poll_envelope_def flip: u_def) (auto simp: port_mid_def port_inv_defs serial_hold_sender_def Let_def)
qed

lemma inv_poll_accept: "port_inv s \<Longrightarrow> port_inv (poll_accept co po s)"
  by (simp add: poll_accept_def Let_def split: option.split)

lemma deferred_ser_tr: "port_inv (s\<lparr>ser_tr := tr, deferred := d\<rparr>) = port_inv (s\<lparr>deferred := d\<rparr>)"
  by (simp add: port_inv_defs)

lemma inv_poll_deferred:
  assumes "port_inv s"
  shows "port_inv (poll_deferred co io po s)"
proof (cases "serial_inject_line (char_bytes (deferred s)) s")
  case (Pair b u)
  have i: "\<not> awaiting s" if "deferred s \<noteq> []" using assms(1) that by (auto simp: port_inv_defs)
  have "port_inv (u\<lparr>awaiting := True, awaiting_jog := j, deferred := []\<rparr>)" if b for j
    using Pair that assms by (auto simp: serial_inject_line_def port_inv_defs split: if_splits)
  moreover have "u = s" if "\<not> b" using inject_line_free(3) [OF Pair that] .
  moreover have "port_inv (s\<lparr>deferred := []\<rparr>)" using assms(1) by (auto simp: port_inv_defs)
  ultimately show ?thesis using assms(1)
    by (auto simp: poll_deferred_def Pair port_now_upd deferred_ser_tr Let_def split: if_splits)
qed

lemma inv_read_turn:
  assumes "write_contract wr" "port_inv s"
  shows "case read_turn os co io po wr s of Inl u \<Rightarrow> port_inv u | Inr u \<Rightarrow> port_inv u"
proof -
  have "port_rest s" if "\<not> awaiting s" "deferred s = []" using assms(2) that by (simp add: port_rest_def)
  then show ?thesis using assms(2) inv_request [OF assms(1)]
    by (auto simp: read_turn_def Let_def split: pread.split)
qed

lemma inv_poll:
  assumes "write_contract wr" "port_inv s" "ctlport_poll os co io po wr s = Some s'"
  shows "port_inv s'"
proof (cases "port_listen_fd s < 0")
  case False
  have e: "port_inv (poll_events co io po wr s)"
    unfolding poll_events_def by (intro inv_poll_deferred inv_poll_accept inv_poll_envelope mid_poll_jog assms)
  have w: "wait_loop (read_turn os co io po wr) (poll_events co io po wr s) = Some s'"
    using assms(3) False by (simp add: ctlport_poll_def)
  have i: "port_inv r" if "port_inv v" "read_turn os co io po wr v = Inl r" for v r
    using inv_read_turn [OF assms(1) that(1), of os co io po] that(2) by simp
  have n: "port_inv v'" if "port_inv v" "read_turn os co io po wr v = Inr v'" for v v'
    using inv_read_turn [OF assms(1) that(1), of os co io po] that(2) by simp
  show ?thesis by (rule wait_loop_rule [where P = port_inv and Q = port_inv, OF w e i n])
qed (use assms in \<open>simp add: ctlport_poll_def\<close>)

section \<open>The write to the sender\<close>

text \<open>
  The stream's own write keeps the contract: it lets other code run only in the blocking
  callback, and a stalled sender that it drops takes the injected line with it.
\<close>

lemma mid_drop_client:
  assumes "port_mid s" "port_jog s \<longrightarrow> j"
  shows "port_mid (drop_client (line_done co po wr) s) \<and> (port_jog (drop_client (line_done co po wr) s) \<longrightarrow> j)"
  using assms by (auto simp: drop_client_def serialRxFlush_def line_done_def ser_emit_def port_mid_def port_side_def hold_exact_def Let_def)

definition stream_write :: "sio \<Rightarrow> core \<Rightarrow> pio \<Rightarrow> 'a port_ext blk \<Rightarrow> 'a hal_write" where
  "stream_write io co po blk t s =
     (case serialWriteS io (line_done co po (\<lambda>t s. s)) blk t s of Some s' \<Rightarrow> s' | None \<Rightarrow> s)"

lemma put_turn_keeps:
  assumes "\<And>s. I s \<Longrightarrow> I (snd (blk s))" "\<And>s. I s \<Longrightarrow> I (drop_client d s)" "\<And>s tr. I s \<Longrightarrow> I (s\<lparr>ser_tr := tr\<rparr>)" "\<And>s r. I s \<Longrightarrow> I (s\<lparr>tx := r\<rparr>)"
    and "I s"
  shows "case put_turn io d blk w s of Inl r \<Rightarrow> I (snd r) | Inr r \<Rightarrow> I (snd r)"
  using assms(1) [OF assms(5)] assms(2-4) by (auto simp: put_turn_def ser_now_def ser_emit_def Let_def case_prod_beta)

lemma put_wait_keeps:
  assumes k: "\<And>s. I s \<Longrightarrow> I (snd (blk s))" "\<And>s. I s \<Longrightarrow> I (drop_client d s)" "\<And>s tr. I s \<Longrightarrow> I (s\<lparr>ser_tr := tr\<rparr>)" "\<And>s r. I s \<Longrightarrow> I (s\<lparr>tx := r\<rparr>)"
    and "put_wait io d blk n w s = Some r" "I s"
  shows "I (snd r)"
proof -
  have "I s \<longrightarrow> I (snd r)"
  proof (rule put_wait.raw_induct [where P = "\<lambda>io' d' blk' n w s r. d' = d \<longrightarrow> blk' = blk \<longrightarrow> I s \<longrightarrow> I (snd r)", OF _ assms(5), THEN mp, THEN mp], goal_cases)
    case (1 f io' d' blk' n w s r)
    show ?case
    proof (intro impI)
      assume e: "d' = d" "blk' = blk" "I s"
      have t: "case put_turn io' d blk w s of Inl r \<Rightarrow> I (snd r) | Inr r \<Rightarrow> I (snd r)"
        by (rule put_turn_keeps [where I = I]) (use k e(3) in blast)+
      show "I (snd r)"
      proof (cases "put_turn io' d blk w s")
        case (Inl a)
        then show ?thesis using 1(2) t e by (auto split: if_splits)
      next
        case (Inr a)
        then show ?thesis using 1(2) t e 1(1) [of io' d blk n "fst a" "snd a" r] by (auto split: if_splits simp: case_prod_beta)
      qed
    qed
  qed simp_all
  then show ?thesis using assms(6) by simp
qed

lemma put_keeps:
  assumes "\<And>s. I s \<Longrightarrow> I (snd (blk s))" "\<And>s. I s \<Longrightarrow> I (drop_client d s)" "\<And>s tr. I s \<Longrightarrow> I (s\<lparr>ser_tr := tr\<rparr>)" "\<And>s r. I s \<Longrightarrow> I (s\<lparr>tx := r\<rparr>)"
    and "\<And>s b. I s \<Longrightarrow> I (s\<lparr>tx_blocked := b\<rparr>)" and "serialPutC io d blk c s = Some (ok, s')" "I s"
  shows "I s'"
proof (cases "r_tail (tx s) = ring_next TX_BUFFER_SIZE (r_head (tx s))")
  case True
  define u where "u = s\<lparr>ser_tr := S_now (sio_now io (ser_tr s)) # ser_tr s, tx_blocked := True\<rparr>"
  define n where "n = ring_next TX_BUFFER_SIZE (r_head (tx s))"
  have u: "I u" unfolding u_def by (intro assms(3,5,7))
  have "serialPutC io d blk c s = map_option (\<lambda>(ok, s). if ok then (True, put_store n c (s\<lparr>tx_blocked := False\<rparr>)) else (False, s))
      (put_wait io d blk n (sio_now io (ser_tr s), r_tail (tx s)) u)"
    unfolding n_def u_def by (simp add: True serialPutC_def ser_now_def ser_emit_def Let_def)
  then obtain b v where v: "put_wait io d blk n (sio_now io (ser_tr s), r_tail (tx s)) u = Some (b, v)"
    "s' = (if b then put_store n c (v\<lparr>tx_blocked := False\<rparr>) else v)"
    using assms(6) by (cases "put_wait io d blk n (sio_now io (ser_tr s), r_tail (tx s)) u") (auto split: if_splits)
  have "I (snd (b, v))" by (rule put_wait_keeps [where I = I, OF _ _ _ _ v(1) u]) (use assms(1-4) in blast)+
  then show ?thesis using v(2) assms(4,5) by (simp add: put_store_def)
next
  case False
  then show ?thesis using assms(4,6,7) by (auto simp: serialPutC_def put_store_def Let_def)
qed

lemma write_keeps:
  assumes "\<And>s. I s \<Longrightarrow> I (snd (blk s))" "\<And>s. I s \<Longrightarrow> I (drop_client d s)" "\<And>s tr. I s \<Longrightarrow> I (s\<lparr>ser_tr := tr\<rparr>)" "\<And>s r. I s \<Longrightarrow> I (s\<lparr>tx := r\<rparr>)"
    and "\<And>s b. I s \<Longrightarrow> I (s\<lparr>tx_blocked := b\<rparr>)" and "serialWriteS io d blk t s = Some s'" "I s"
  shows "I s'"
  using assms(6,7)
proof (induction t arbitrary: s)
  case (Cons c t)
  then obtain ok u where u: "serialPutC io d blk c s = Some (ok, u)" "serialWriteS io d blk t u = Some s'"
    by (auto split: option.splits)
  have "I u" by (rule put_keeps [where I = I, OF _ _ _ _ _ u(1) Cons.prems(2)]) (use assms(1-5) in blast)+
  then show ?case using Cons.IH u(2) by blast
qed simp

lemma mid_frame: "port_mid (s\<lparr>ser_tr := tr\<rparr>) = port_mid s" "port_mid (s\<lparr>tx := r\<rparr>) = port_mid s" "port_mid (s\<lparr>tx_blocked := b\<rparr>) = port_mid s"
  by (simp_all add: port_mid_def port_side_def hold_exact_def)

lemma stream_write_contract:
  fixes blk :: "'a port_ext blk"
  assumes "\<And>s. port_mid s \<Longrightarrow> port_mid (snd (blk s)) \<and> (port_jog (snd (blk s)) \<longrightarrow> port_jog s)"
  shows "write_contract (stream_write io co po blk)"
  unfolding write_contract_def
proof (intro allI impI)
  fix t and s :: "'a port_scheme" assume s: "port_mid s"
  define I where "I v \<longleftrightarrow> port_mid v \<and> (port_jog v \<longrightarrow> port_jog s)" for v :: "'a port_scheme"
  have k1: "I (snd (blk v))" if "I v" for v using that assms [of v] by (simp add: I_def)
  have k2: "I (drop_client (line_done co po (\<lambda>t s. s)) v)" if "I v" for v using that mid_drop_client [of v "port_jog s"] by (simp add: I_def)
  have k3: "I (v\<lparr>ser_tr := tr\<rparr>)" "I (v\<lparr>tx := r\<rparr>)" "I (v\<lparr>tx_blocked := b\<rparr>)" if "I v" for v tr r b
    using that by (simp_all add: I_def mid_frame)
  have I: "I s" using s by (simp add: I_def)
  have "I s'" if "serialWriteS io (line_done co po (\<lambda>t s. s)) blk t s = Some s'" for s'
    by (rule write_keeps [where I = I, OF _ _ _ _ _ that I]) (use k1 k2 k3 in blast)+
  then have "I (stream_write io co po blk t s)" using I by (auto simp: stream_write_def split: option.split)
  then show "port_mid (stream_write io co po blk t s) \<and> (port_jog (stream_write io co po blk t s) \<longrightarrow> port_jog s)"
    by (simp add: I_def)
qed

section \<open>The port over all its steps\<close>

text \<open>
  What happens to the port and the stream: polls, statuses, the core's reads, the
  sender's bytes, flushes and dropped senders, the output, and whatever the rest of the
  program does to the machine. Every step has its own kernel, core and sockets.
\<close>

inductive pstep :: "port \<Rightarrow> port \<Rightarrow> bool" where
  p_poll: "write_contract wr \<Longrightarrow> ctlport_poll os co io po wr s = Some s' \<Longrightarrow> pstep s s'"
| p_status: "write_contract wr \<Longrightarrow> pstep s (inject_status_message (line_done co po wr) st s)"
| p_getc: "pstep s (snd (serialGetC s))"
| p_byte: "rx_byte os co rt io c s = Some s' \<Longrightarrow> pstep s s'"
| p_cancel: "write_contract wr \<Longrightarrow> pstep s (serialRxCancel (line_done co po wr) s)"
| p_accept: "write_contract wr \<Longrightarrow> pstep s (rx_accept io (line_done co po wr) s)"
| p_drop: "write_contract wr \<Longrightarrow> pstep s (drop_client (line_done co po wr) s)"
| p_drain: "write_contract wr \<Longrightarrow> pstep s (tx_drain io (line_done co po wr) s)"
| p_machine: "pstep s (s\<lparr>machine := m\<rparr>)"

definition port_start :: "port \<Rightarrow> bool" where
  "port_start s \<longleftrightarrow> (\<exists>os po m. s = ctlport_init os po (port0 (ser0 m))) \<and> inj_hooked s"

lemma port_start_inv: "port_start s \<Longrightarrow> port_inv s"
  by (auto simp: port_start_def ctlport_init_def port0_def ser0_def ser.defs port.defs port_emit_def serial_inject_init_def
      port_inv_defs Let_def split: option.splits if_splits)

lemma inv_status:
  assumes "write_contract wr" "port_inv s"
  shows "port_inv (inject_status_message (line_done co po wr) st s)"
proof (cases "inj_status_due s")
  case True
  have i: "inj_hooked s" "awaiting s \<Longrightarrow> deferred s = []" "hold_exact s" using assms(2) by (auto simp: port_inv_def port_side_def)
  show ?thesis unfolding inject_status_message_def Let_def
    by (simp add: True i(1), rule port_inv_line_done [OF assms(1)]) (use i in \<open>simp_all add: hold_exact_def\<close>)
next
  case False
  then show ?thesis using assms(2) by (simp add: inject_status_message_def ser_emit_def port_inv_defs)
qed

lemma inv_getc: "port_inv s \<Longrightarrow> port_inv (snd (serialGetC s))"
  by (simp add: serialGetC_def port_inv_defs Let_def case_prod_beta)

lemma inv_byte:
  assumes "rx_byte os co rt io c s = Some s'" "port_inv s"
  shows "port_inv s'"
proof -
  have b: "port_inv (store_byte io c v)" if "port_inv v" for v :: "'a port_scheme"
    using that by (simp add: store_byte_def ser_now_def ser_emit_def port_inv_defs Let_def)
  have rt: "port_inv (if fst (rt_byte io c v) then snd (rt_byte io c v) else store_byte io c (snd (rt_byte io c v)))" if "port_inv v"
    for v :: "'a port_scheme" using that b by (simp add: rt_byte_def Let_def)
  define g where "g = (if c = 0x7E \<or> c = 0x81 then resume_gate os co rt s else Some (False, s))"
  show ?thesis
  proof (cases "c = 0x06")
    case True
    then show ?thesis using assms by (auto simp: rx_byte_def)
  next
    case False
    then obtain k u where g: "g = Some (k, u)"
      and s': "s' = (if k then u else if fst (rt_byte io c u) then snd (rt_byte io c u) else store_byte io c (snd (rt_byte io c u)))"
      using assms(1) unfolding rx_byte_def g_def [symmetric] Let_def case_prod_beta by (cases g) (auto split: if_splits)
    have "port_inv u" using g assms(2) by (auto simp: g_def resume_gate_def split: if_splits)
    then show ?thesis using rt s' by simp
  qed
qed

lemma inv_cancel_ring:
  assumes "write_contract wr" "port_inv s"
  shows "port_inv (serialRxCancel (line_done co po wr) s)"
  using port_inv_flush [OF assms, of co po] by (simp add: serialRxCancel_def port_inv_defs Let_def)

lemma inv_accept_sender:
  assumes "write_contract wr" "port_inv s"
  shows "port_inv (rx_accept io (line_done co po wr) s)"
proof -
  have "port_inv (drop_client (line_done co po wr) (ser_emit e s))" for e
    using assms(2) by (simp add: port_inv_drop_client [OF assms(1)])
  then show ?thesis using assms(2)
    by (simp add: rx_accept_def accept_client_def ser_now_def Let_def split: option.split) (simp add: port_inv_defs ser_emit_def)
qed

lemma inv_drain:
  assumes "write_contract wr" "port_inv s"
  shows "port_inv (snd (drain io (line_done co po wr) n s))"
  using assms(2)
proof (induction n arbitrary: s)
  case (Suc n)
  have t: "port_inv (v\<lparr>tx := r\<rparr>) = port_inv v" for v :: "'a port_scheme" and r by (simp add: port_inv_defs)
  have "port_inv (snd (drain_turn io (line_done co po wr) s))"
    using Suc.prems by (simp add: drain_turn_def t port_inv_drop_client [OF assms(1)] Let_def split: swrite.split)
  then show ?case using Suc by (simp add: case_prod_beta)
qed simp

lemma inv_tx_drain: "write_contract wr \<Longrightarrow> port_inv s \<Longrightarrow> port_inv (tx_drain io (line_done co po wr) s)"
  unfolding tx_drain_def by (rule inv_drain)

lemma pstep_inv: "pstep s s' \<Longrightarrow> port_inv s \<Longrightarrow> port_inv s'"
  by (induction rule: pstep.induct)
     (auto intro: inv_poll inv_status inv_getc inv_byte inv_cancel_ring inv_accept_sender port_inv_drop_client inv_tx_drain)

interpretation port_sys: guarded_system port_start pstep port_inv
  by unfold_locales (auto intro: port_start_inv pstep_inv)


end
