(* ===== verification/Ctlport_Props2.thy ===== *)
theory Ctlport_Props2
  imports Ctlport_Props
begin

text \<open>
  The requests of the controller port: what it hands to the core and what it answers;
  when it keeps senders out; and the two runs of clients that go away.
\<close>

section \<open>The sender's bytes\<close>

text \<open>The scan for a sender's byte finds what is in the ring behind the injected line.\<close>

lemma pending_scan_list:
  assumes "rx_valid s" "k \<le> length (rx_list s)" "length (rx_list s) - k < n"
  shows "pending_scan n ((r_tail (rx s) + k) mod RX_BUFFER_SIZE) (rx s) \<longleftrightarrow> (\<exists>b \<in> set (drop k (rx_list s)). \<not> is_eol b)"
  using assms(2,3)
proof (induction n arbitrary: k)
  case (Suc n)
  define c where "c = length (rx_list s)"
  have h: "r_head (rx s) = (r_tail (rx s) + c) mod RX_BUFFER_SIZE" "c < RX_BUFFER_SIZE"
    using ring_head_count [OF assms(1)] by (simp_all add: c_def)
  show ?case
  proof (cases "k = c")
    case True
    then show ?thesis using h by (simp add: c_def)
  next
    case False
    then have k: "k < c" using Suc.prems by (simp add: c_def)
    have ne: "(r_tail (rx s) + k) mod RX_BUFFER_SIZE \<noteq> r_head (rx s)"
      using h k mod_window_inj [of k RX_BUFFER_SIZE c "r_tail (rx s)"] by auto
    have d: "r_data (rx s) ! ((r_tail (rx s) + k) mod RX_BUFFER_SIZE) = rx_list s ! k"
      using k by (simp add: ring_list_def c_def)
    have "ring_next RX_BUFFER_SIZE ((r_tail (rx s) + k) mod RX_BUFFER_SIZE) = (r_tail (rx s) + Suc k) mod RX_BUFFER_SIZE"
      by (simp add: ring_next_mod [OF rx_size(1)] mod_Suc_eq)
    moreover have "drop k (rx_list s) = rx_list s ! k # drop (Suc k) (rx_list s)" using k by (simp add: c_def Cons_nth_drop_Suc)
    ultimately show ?thesis using Suc.IH [of "Suc k"] Suc.prems k ne d by (auto simp: c_def)
  qed
qed simp

lemma sender_pending_iff:
  assumes "rx_valid s" "inj_left s \<le> length (rx_list s)"
  shows "serial_sender_pending s \<longleftrightarrow> (\<exists>b \<in> set (drop (inj_left s) (rx_list s)). \<not> is_eol b)"
  unfolding serial_sender_pending_def and_size [OF rx_size(1)]
  by (rule pending_scan_list [OF assms]) (use ring_head_count [OF assms(1)] assms(2) in \<open>simp add: less_imp_diff_less\<close>)

section \<open>The lines\<close>

text \<open>The lines that the port may hand to the core, each in the state that admits it.\<close>

definition port_line :: "os \<Rightarrow> core \<Rightarrow> 'a port_scheme \<Rightarrow> string \<Rightarrow> bool \<Rightarrow> bool" where
  "port_line os co s line jog \<longleftrightarrow>
     (let st = state_get co (machine s) in
      if jog
      then (\<exists>w. line = ''$J='' @ w \<and> w \<noteq> [] \<and> list_all jog_char w) \<and> (st = STATE_IDLE \<or> st = {JOG} \<and> port_jog s) \<and>
           \<not> released (machine s) \<and> \<not> gfmcode_waiting (machine s)
      else line \<in> {''$MD'', ''$ME''} \<and> (st = STATE_IDLE \<or> st = {ALARM}) \<or>
           line = ''$H'' \<and> (st = STATE_IDLE \<or> st = {ALARM}) \<and> gfio_conf_read os ''homing_mode'' 24 (machine s) = Some ''manual'' \<or>
           line \<in> {''M103 P0'', ''M103 P1''} \<and> st = STATE_IDLE \<and> \<not> port_jog s \<and> \<not> gfmcode_waiting (machine s))"

definition replies :: "'a port_scheme \<Rightarrow> nat" where
  "replies s = length (filter (\<lambda>e. \<exists>m. e = P_reply m) (port_tr s))"

text \<open>What a request leaves: a line in the multiplexer, a line that waits for the ring, or a reply and the ring as it was.\<close>

definition outcome :: "os \<Rightarrow> core \<Rightarrow> 'a port_scheme \<Rightarrow> 'a port_scheme \<Rightarrow> bool" where
  "outcome os co s s' \<longleftrightarrow>
     (if awaiting s'
      then deferred s' = [] \<and> replies s' = replies s \<and> rx_list s = [] \<and>
           (\<exists>line. port_line os co s line (awaiting_jog s') \<and> rx_list s' = char_bytes line @ [sender_eol s])
      else if deferred s' \<noteq> []
      then replies s' = replies s \<and> rx_list s' = rx_list s \<and> port_line os co s (deferred s') (deferred_jog s')
      else replies s' = replies s + 1 \<and> (rx_list s' = rx_list s \<or> rx_list s' = []))"

lemma replies_reply: "port_fd s \<ge> 0 \<Longrightarrow> replies (reply co po m s) = Suc (replies s)"
  by (auto simp: replies_def reply_def port_emit_def drop_port_client_def cancel_port_jog_def Let_def)

lemma outcome_reply:
  assumes "port_fd u \<ge> 0" "\<not> awaiting u" "deferred u = []" "replies u = replies s" "rx u = rx s \<or> rx_list u = []"
  shows "outcome os co s (reply co po m u)"
  using assms by (auto simp: outcome_def replies_reply)

lemma outcome_inject:
  assumes "rx_valid s" "port_fd u \<ge> 0" "\<not> awaiting u" "deferred u = []" "port_tr u = port_tr s" "rx u = rx s" "sender_eol u = sender_eol s"
    and line: "port_line os co s line jog" "length line \<le> 163" "line \<noteq> []"
  shows "outcome os co s (inject co io po line jog u)"
proof (cases "fst (serial_inject_line (char_bytes line) u)")
  case True
  then have c: "ring_empty (rx u)" "length (char_bytes line) + 1 \<le> serialRxFree u"
    and e: "snd (serial_inject_line (char_bytes line) u) = u\<lparr>rx := fold (ring_put RX_BUFFER_SIZE) (char_bytes line @ [sender_eol u]) (rx u),
         inj_left := length (char_bytes line) + 1, inj_active := True, inj_first := True, inj_status_due := False\<rparr>"
    by (auto simp: serial_inject_line_def split: if_splits)
  have l: "rx_list s = []" using c(1) rxq.empty_iff [OF assms(1)] assms(6) by simp
  have "length (rx_list s) + length (char_bytes line @ [sender_eol s]) \<le> RX_BUFFER_SIZE - 1"
    using c(2) l assms(6) by (simp add: serialRxFree_def serialRxCount_def)
  from rxq.put_all [OF assms(1) this] l
  have "ring_list RX_BUFFER_SIZE (fold (ring_put RX_BUFFER_SIZE) (char_bytes line @ [sender_eol s]) (rx s)) = char_bytes line @ [sender_eol s]" by simp
  then show ?thesis using True e assms line l
    by (auto simp: inject_def outcome_def replies_def Let_def case_prod_beta)
next
  case False
  then have e: "snd (serial_inject_line (char_bytes line) u) = u" by (auto simp: serial_inject_line_def)
  have d: "take (REQ_SIZE + 3) line = line" using line(2) by (simp add: REQ_SIZE_def)
  have "outcome os co s (say co po ''busy:sender'' (u\<lparr>tray_want := - 1\<rparr>))"
    by (rule outcome_reply) (use assms in \<open>simp_all add: replies_def\<close>)
  moreover have "outcome os co s (snd (port_now io (u\<lparr>deferred := line, deferred_jog := jog\<rparr>))\<lparr>deferred_until := t\<rparr>)" for t
    using assms line by (simp add: outcome_def port_now_upd replies_def)
  ultimately show ?thesis using False e d by (simp add: inject_def Let_def case_prod_beta)
qed

text \<open>The states the operations pass through: as the request found the port, but for clock, machine and trays.\<close>

definition as_found :: "'a port_scheme \<Rightarrow> 'a port_scheme \<Rightarrow> bool" where
  "as_found s u \<longleftrightarrow> port_fd u \<ge> 0 \<and> \<not> awaiting u \<and> deferred u = [] \<and> port_tr u = port_tr s \<and> rx u = rx s \<and> sender_eol u = sender_eol s"

lemma found_reply: "as_found s u \<Longrightarrow> outcome os co s (reply co po m u)"
  by (rule outcome_reply) (simp_all add: as_found_def replies_def)

lemma found_inject:
  assumes "rx_valid s" "as_found s u" "port_line os co s line jog" "length line \<le> 163" "line \<noteq> []"
  shows "outcome os co s (inject co io po line jog u)"
  using outcome_inject [OF assms(1) _ _ _ _ _ _ assms(3-5)] assms(2) by (simp add: as_found_def)

lemma found_frame [simp]:
  "as_found s (u\<lparr>machine := m\<rparr>) = as_found s u" "as_found s (u\<lparr>ser_tr := tr\<rparr>) = as_found s u" "as_found s (u\<lparr>tray_want := w\<rparr>) = as_found s u"
  "as_found s (u\<lparr>keep_out := b\<rparr>) = as_found s u"
  by (simp_all add: as_found_def)

lemma found_cancel [simp]: "as_found s (cancel_port_jog co u) = as_found s u"
  by (simp add: cancel_port_jog_def as_found_def)

lemma found_recent [simp]: "as_found s (snd (sender_recent io q u)) = as_found s u"
  by (simp add: sender_recent_def port_now_upd)

lemma jog_line: "list_all jog_char w \<Longrightarrow> w \<noteq> [] \<Longrightarrow> \<exists>v. take (REQ_SIZE + 3) (''$J='' @ w) = ''$J='' @ v \<and> v \<noteq> [] \<and> list_all jog_char v"
  by (intro exI [of _ "take REQ_SIZE w"]) (auto simp: REQ_SIZE_def list_all_iff dest: in_set_takeD)

lemma outcome_jog:
  assumes "rx_valid s" "as_found s s"
  shows "outcome os co s (op_jog co io po w s)"
proof -
  define b where "b = (if serial_sender_pending s then (True, s) else sender_recent io SENDER_QUIET_S s)"
  have b: "as_found s (snd b)" using assms(2) by (simp add: b_def)
  define line where "line = take (REQ_SIZE + 3) (''$J='' @ w)"
  have "outcome os co s (inject co io po line True (snd b))"
    if "list_all jog_char w" "w \<noteq> []" "\<not> gfrelease_active (machine s)" "\<not> gfmcode_waiting (machine s)"
      "state_get co (machine s) = STATE_IDLE \<or> state_get co (machine s) = {JOG} \<and> port_jog s"
  proof (rule found_inject [OF assms(1) b])
    show "port_line os co s line True" using jog_line [OF that(1,2)] that by (simp add: port_line_def line_def gfrelease_active_def Let_def)
    show "length line \<le> 163" "line \<noteq> []" by (simp_all add: line_def REQ_SIZE_def)
  qed
  then show ?thesis unfolding op_jog_def b_def [symmetric] line_def [symmetric] Let_def case_prod_beta
    using b assms(2) by (auto simp: found_reply)
qed

lemma outcome_command:
  assumes "rx_valid s" "as_found s s" "line \<in> {''$MD'', ''$ME''} \<or> line = ''$H'' \<and> gfio_conf_read os ''homing_mode'' 24 (machine s) = Some ''manual''"
  shows "outcome os co s (op_command co io po line s)"
proof -
  have "outcome os co s (inject co io po line False s)" if "state_get co (machine s) = STATE_IDLE \<or> state_get co (machine s) = {ALARM}"
  proof (rule found_inject [OF assms(1,2)])
    show "port_line os co s line False" using assms(3) that unfolding port_line_def Let_def if_False by blast
    have "length line \<le> 3" "line \<noteq> []" using assms(3) by fastforce+
    then show "length line \<le> 163" "line \<noteq> []" by simp_all
  qed
  then show ?thesis using assms(2) by (simp add: op_command_def found_reply Let_def)
qed

lemma outcome_tray:
  assumes "rx_valid s" "as_found s s"
  shows "outcome os co s (op_tray co io po mode s)"
proof -
  have "outcome os co s (inject co io po (if w = 1 then ''M103 P1'' else ''M103 P0'') False (s\<lparr>tray_want := w\<rparr>))"
    if "state_get co (machine s) = STATE_IDLE" "\<not> port_jog s" "\<not> gfmcode_waiting (machine s)" for w
  proof (rule found_inject [OF assms(1)])
    show "port_line os co s (if w = 1 then ''M103 P1'' else ''M103 P0'') False"
      unfolding port_line_def Let_def if_False using that by (cases "w = 1") simp_all
  qed (use assms(2) in simp_all)
  then show ?thesis using assms(2) by (simp add: op_tray_def found_reply Let_def)
qed

lemma outcome_mcode_result:
  assumes "as_found s s"
  shows "outcome os co s (op_mcode_result co po args s)"
  using assms by (simp add: op_mcode_result_def found_reply Let_def case_prod_beta split: option.split)

lemma found_busy: "as_found s u \<Longrightarrow> as_found s (snd (machine_busy os co u))"
  by (simp add: machine_busy_def Let_def case_prod_beta)

lemma outcome_sender_out:
  assumes "as_found s s" "\<not> inj_active s"
  shows "outcome os co s (op_sender_out os co io po wr s)"
proof -
  define u where "u = snd (machine_busy os co s)"
  define b where "b = (if sender_midline u \<or> sender_line_open u \<or> serial_sender_pending u then (True, u) else sender_recent io SENDER_OUT_QUIET_S u)"
  have u: "as_found s u" using found_busy [OF assms(1)] by (simp add: u_def)
  have i: "\<not> inj_active u" using assms(2) by (simp add: u_def machine_busy_def Let_def case_prod_beta)
  have b: "as_found s (snd b)" "\<not> inj_active (snd b)"
    using u i by (simp_all add: b_def) (simp add: sender_recent_def port_now_upd)
  have k: "outcome os co s (say co po ''ok'' (snd (serial_drop_sender (line_done co po wr) (serial_keep_out True v))))"
    if v: "as_found s v" "\<not> inj_active v" for v
  proof (rule outcome_reply)
    show "rx (snd (serial_drop_sender (line_done co po wr) (serial_keep_out True v))) = rx s \<or>
        rx_list (snd (serial_drop_sender (line_done co po wr) (serial_keep_out True v))) = []"
      using v by (simp add: serial_drop_sender_def drop_client_def serialRxFlush_def serial_keep_out_def ser_emit_def as_found_def
          ring_list_def ring_count_def Let_def)
  qed (use v in \<open>simp_all add: serial_drop_sender_def drop_client_def serialRxFlush_def serial_keep_out_def ser_emit_def as_found_def replies_def Let_def\<close>)
  show ?thesis unfolding op_sender_out_def Let_def case_prod_beta u_def [symmetric] b_def [symmetric]
    using assms(1) u b k by (simp add: found_reply)
qed

lemma outcome_if: "outcome os co s x \<Longrightarrow> outcome os co s y \<Longrightarrow> outcome os co s (if b then x else y)"
  by simp

lemma outcome_home:
  assumes "rx_valid s" "as_found s s"
  shows "outcome os co s (op_home os co io po s)"
  using outcome_command [OF assms, of "''$H''" os co io po] assms(2) by (simp add: op_home_def found_reply)


section \<open>The bench\<close>

text \<open>A port whose client is there and takes its replies.\<close>

definition bench_po :: pio where
  "bench_po = \<lparr>pio_sock = (\<lambda>p. Some 5), pio_accept = (\<lambda>tr. None), pio_hung_up = (\<lambda>tr. False), pio_read = (\<lambda>tr. P_again),
     pio_write = (\<lambda>tr m. True)\<rparr>"

definition bench_port :: port where
  "bench_port = ctlport_init bench_os bench_po (port0 (ser0 bench_mach))"

lemma bench_port_eq: "bench_port = (port0 (ser0 bench_mach))\<lparr>port_tr := [P_bound ''/run/forgefirm/grbl.ctl''], port_listen_fd := 5, inj_hooked := True\<rparr>"
proof -
  have "state_dir bench_os = ''/run/forgefirm''" by (simp add: state_dir_def gfio_test_hook_def getenv_set_def bench_os_def RELEASE_STATE_DIR_def)
  then show ?thesis
    by (simp add: bench_port_def ctlport_init_def SOCK_NAME_def SUN_PATH_SIZE_def bench_po_def port0_def ser0_def ser.defs port.defs
        port_emit_def serial_inject_init_def)
qed

lemma bench_port_sel [simp]:
  "inj_hooked bench_port" "port_fd bench_port = - 1" "\<not> awaiting bench_port" "deferred bench_port = []" "\<not> inj_active bench_port"
  "\<not> hold_sender bench_port" "\<not> port_jog bench_port" "\<not> envelope_hold bench_port" "machine bench_port = bench_mach"
  "rx bench_port = ring_new RX_BUFFER_SIZE" "\<not> sender_midline bench_port" "\<not> rx_discarding bench_port" "inj_left bench_port = 0"
  "sender_last_line bench_port = 0" "sender_eol bench_port = 10" "tray_want bench_port = - 1" "\<not> keep_out bench_port" "client_fd bench_port = - 1"
  "port_tr bench_port = [P_bound ''/run/forgefirm/grbl.ctl'']" "\<not> sender_line_open bench_port" "port_listen_fd bench_port = 5"
  by (simp_all add: bench_port_eq port0_def ser0_def ser.defs port.defs)

lemma bench_ring: "ring_ok RX_BUFFER_SIZE (ring_new RX_BUFFER_SIZE)" "ring_list RX_BUFFER_SIZE (ring_new RX_BUFFER_SIZE) = []"
  using ser0_rx(1,2) [of bench_mach] by (simp_all add: ser0_def)

lemma bench_start_port: "port_start bench_port"
  unfolding port_start_def using bench_port_sel(1) by (auto simp: bench_port_def)



section \<open>The clients that go away\<close>

text \<open>Nothing of the sender's, and nothing that refuses a jog.\<close>

definition jog_free :: "core \<Rightarrow> 'a port_scheme \<Rightarrow> bool" where
  "jog_free co s \<longleftrightarrow> \<not> inj_active s \<and> \<not> sender_midline s \<and> \<not> rx_discarding s \<and> rx_valid s \<and> rx_list s = [] \<and> inj_left s = 0 \<and>
     sender_last_line s = 0 \<and> \<not> released (machine s) \<and> \<not> gfmcode_waiting (machine s) \<and> state_get co (machine s) = STATE_IDLE"

lemma jog_taken:
  assumes "jog_free co s"
  shows "\<exists>r. handle_request os co io po wr ''jog X1'' s = s\<lparr>rx := r, inj_left := 6, inj_active := True, inj_first := True,
    inj_status_due := False, awaiting := True, awaiting_jog := True\<rparr>"
proof -
  have p: "\<not> serial_sender_pending s" using assms sender_pending_iff [of s] by (simp add: jog_free_def)
  have e: "ring_empty (rx s)" using assms rxq.empty_iff by (simp add: jog_free_def)
  have c: "length (char_bytes ''$J=X1'') = 5" "char_bytes ''$J=X1'' \<noteq> []" by (simp_all add: char_bytes_def)
  have "serialRxCount s = 0" using e by (simp add: serialRxCount_def ring_count_def ring_empty_def)
  then have f: "serialRxFree s = RX_BUFFER_SIZE - 1" by (simp add: serialRxFree_def)
  have "handle_request os co io po wr ''jog X1'' s = op_jog co io po ''X1'' s" by (simp add: handle_request_def)
  also have "\<dots> = inject co io po ''$J=X1'' True s"
    using assms p by (simp add: op_jog_def jog_free_def jog_char_def gfrelease_active_def sender_recent_def REQ_SIZE_def Let_def)
  finally show ?thesis using assms e c f
    by (simp add: inject_def serial_inject_line_def jog_free_def RX_BUFFER_SIZE_def Let_def) (rule exI, rule refl)
qed

text \<open>The next client connects while the first has hung up.\<close>

definition next_po :: pio where
  "next_po = bench_po\<lparr>pio_accept := (\<lambda>tr. Some 7), pio_hung_up := (\<lambda>tr. True)\<rparr>"

definition jog_lost :: port where
  "jog_lost = line_done bench_co bench_po (\<lambda>t s. s) 0
     (poll_accept bench_co next_po
       (handle_request bench_os bench_co bench_sio bench_po (\<lambda>t s. s) ''jog X1'' (bench_port\<lparr>port_fd := 6\<rparr>)))"

lemma bench_jog_free: "jog_free bench_co (bench_port\<lparr>port_fd := fd\<rparr>)"
  using bench_ring bench_mach_sel by (simp add: jog_free_def bench_co_def gfmcode_waiting_def)


text \<open>The tray switch of a client waits behind the sender's empty line when the client goes.\<close>

definition tray_left :: port where
  "tray_left = drop_port_client bench_co
     (handle_request bench_os bench_co bench_sio bench_po (\<lambda>t s. s) ''tray out''
       (bench_port\<lparr>port_fd := 6, rx := ring_put RX_BUFFER_SIZE 10 (ring_new RX_BUFFER_SIZE)\<rparr>))"

definition jog_unowned :: port where
  "jog_unowned = line_done bench_co bench_po (\<lambda>t s. s) 0
     (handle_request bench_os bench_co bench_sio bench_po (\<lambda>t s. s) ''jog X1''
       (poll_accept bench_co next_po (snd (serialGetC tray_left))))"

lemma one_eol: "ring_ok RX_BUFFER_SIZE (ring_put RX_BUFFER_SIZE c (ring_new RX_BUFFER_SIZE))"
  "ring_list RX_BUFFER_SIZE (ring_put RX_BUFFER_SIZE c (ring_new RX_BUFFER_SIZE)) = [c]"
  using rxq.put_all [of "ring_new RX_BUFFER_SIZE" "[c]"] bench_ring rx_size(2) by simp_all

lemma tray_left_sel:
  "port_fd tray_left = - 1" "rx tray_left = ring_put RX_BUFFER_SIZE 10 (ring_new RX_BUFFER_SIZE)" "tray_want tray_left = 1" "\<not> awaiting tray_left"
  "\<not> inj_active tray_left" "\<not> sender_midline tray_left" "\<not> rx_discarding tray_left" "inj_left tray_left = 0" "sender_last_line tray_left = 0"
  "machine tray_left = bench_mach" "\<not> port_jog tray_left" "\<not> hold_sender tray_left"
proof -
  define s where "s = bench_port\<lparr>port_fd := 6, rx := ring_put RX_BUFFER_SIZE 10 (ring_new RX_BUFFER_SIZE)\<rparr>"
  have l: "rx_valid s" "rx_list s = [10]" using one_eol [of 10] by (simp_all add: s_def)
  have p: "\<not> serial_sender_pending s" using sender_pending_iff [OF l(1)] l(2) by (simp add: s_def is_eol_def)
  have e: "\<not> ring_empty (rx s)" using rxq.empty_iff [OF l(1)] l(2) by simp
  have i: "serial_inject_line t (s\<lparr>tray_want := 1\<rparr>) = (False, s\<lparr>tray_want := 1\<rparr>)" for t using e by (simp add: serial_inject_line_def)
  have o: "serial_sender_empty_lines_only (s\<lparr>tray_want := 1\<rparr>)" using e p by (simp add: serial_sender_empty_lines_only_def serial_sender_pending_def) (simp add: s_def)
  have w: "\<not> gfmcode_waiting (machine s)" "state_get bench_co (machine s) = STATE_IDLE" "\<not> port_jog s"
    using bench_mach_sel by (simp_all add: s_def bench_co_def gfmcode_waiting_def)
  have "handle_request bench_os bench_co bench_sio bench_po (\<lambda>t s. s) ''tray out'' s = op_tray bench_co bench_sio bench_po ''out'' s"
    by (simp add: handle_request_def)
  also have "\<dots> = inject bench_co bench_sio bench_po ''M103 P1'' False (s\<lparr>tray_want := 1\<rparr>)"
    using w p by (simp add: op_tray_def Let_def)
  also have "\<dots> = s\<lparr>tray_want := 1, deferred := ''M103 P1'', deferred_jog := False, ser_tr := S_now (sio_now bench_sio (ser_tr s)) # ser_tr s,
      deferred_until := ts_s (sio_now bench_sio (ser_tr s)) + DEFER_S\<rparr>"
    by (simp add: inject_def i o port_now_upd REQ_SIZE_def)
  finally have e: "tray_left = drop_port_client bench_co (s\<lparr>tray_want := 1, deferred := ''M103 P1'', deferred_jog := False,
      ser_tr := S_now (sio_now bench_sio (ser_tr s)) # ser_tr s, deferred_until := ts_s (sio_now bench_sio (ser_tr s)) + DEFER_S\<rparr>)"
    by (simp add: tray_left_def s_def)
  show "port_fd tray_left = - 1" "rx tray_left = ring_put RX_BUFFER_SIZE 10 (ring_new RX_BUFFER_SIZE)" "tray_want tray_left = 1" "\<not> awaiting tray_left"
    "\<not> inj_active tray_left" "\<not> sender_midline tray_left" "\<not> rx_discarding tray_left" "inj_left tray_left = 0" "sender_last_line tray_left = 0"
    "machine tray_left = bench_mach" "\<not> port_jog tray_left" "\<not> hold_sender tray_left"
    unfolding e using bench_mach_sel(12) by (simp_all add: s_def drop_port_client_def port_emit_def cancel_port_jog_def gfhome_envelope_close_def Let_def)
qed

text \<open>
  A tray switch that its client left behind. The client goes while its tray switch
  waits for the ring: the waiting line is dropped, and the mode it wanted is not. The next
  client's jog is then taken for the tray switch as its status comes: the jog runs, but
  it is not the port's, so that the sender is not held and neither the port's cancel nor
  the client's end stops it, and the reply is the tray's error.
\<close>

theorem stale_tray_jog:
  "awaiting_jog jog_unowned \<and> \<not> port_jog jog_unowned \<and> \<not> hold_sender jog_unowned \<and>
   hd (port_tr jog_unowned) = P_reply (Line (''error:saved'' @ LF))"
proof -
  define u where "u = snd (serialGetC tray_left)"
  define v where "v = poll_accept bench_co next_po u"
  have l: "rx_valid tray_left" "rx_list tray_left = [10]" using one_eol [of 10] by (simp_all add: tray_left_sel)
  have n: "\<not> ring_empty (rx tray_left)" using rxq.empty_iff [OF l(1)] l(2) by simp
  have g: "fst (serialGetC tray_left) \<noteq> None" "\<not> awaiting u" "\<not> inj_active u" "\<not> sender_midline u" "\<not> rx_discarding u" "inj_left u = 0"
    "sender_last_line u = 0" "machine u = bench_mach" "tray_want u = 1" "\<not> port_jog u" "\<not> hold_sender u" "port_fd u = - 1"
    using n unfolding u_def by (simp_all add: serialGetC_def read_gate_def Let_def case_prod_beta tray_left_sel)
  have r: "rx_valid u" "rx_list u = []" using serialGetC_rx [OF l(1)] l(2) g(1) by (auto simp: u_def)
  have v: "v = (port_emit (P_accepted 7) u)\<lparr>port_fd := 7\<rparr>" using g(12) by (simp add: v_def poll_accept_def next_po_def)
  have "jog_free bench_co v"
    using g r bench_mach_sel by (simp add: v jog_free_def port_emit_def bench_co_def gfmcode_waiting_def)
  from jog_taken [OF this, of bench_os bench_sio bench_po "\<lambda>t s. s"] obtain r' where
    "handle_request bench_os bench_co bench_sio bench_po (\<lambda>t s. s) ''jog X1'' v = v\<lparr>rx := r', inj_left := 6, inj_active := True, inj_first := True,
       inj_status_due := False, awaiting := True, awaiting_jog := True\<rparr>" by blast
  then show ?thesis unfolding jog_unowned_def u_def [symmetric] v_def [symmetric]
    using g bench_mach_sel by (simp add: v line_done_def gftray_out_def reply_def port_emit_def bench_po_def Let_def)
qed

section \<open>Keeping senders out\<close>

lemma inject_keep_out: "keep_out (inject co io po line jog s) = keep_out s"
  by (simp add: inject_def serial_inject_line_def port_now_upd Let_def)

lemma op_keep_out:
  "keep_out (op_state co po s) = keep_out s" "keep_out (op_jog co io po w s) = keep_out s" "keep_out (op_command co io po l s) = keep_out s"
  "keep_out (op_tray co io po mode s) = keep_out s" "keep_out (op_mcodes co po c s) = keep_out s" "keep_out (op_envelope os co po b s) = keep_out s"
  by (simp_all add: op_state_def op_jog_def op_command_def op_tray_def op_mcodes_def op_envelope_def sender_recent_def inject_keep_out
      port_now_upd Let_def case_prod_beta)

lemma op_keep_out2: "keep_out (op_home os co io po s) = keep_out s" "keep_out (op_mcode_result co po args s) = keep_out s"
  by (simp_all add: op_home_def op_keep_out op_mcode_result_def Let_def case_prod_beta split: option.split)

lemma not_out_if: "\<not> keep_out x \<Longrightarrow> \<not> keep_out y \<Longrightarrow> \<not> keep_out (if b then x else y)"
  by simp

text \<open>Only one request begins to keep senders out.\<close>

lemma other_requests:
  assumes "line \<noteq> ''sender out''" "\<not> keep_out s"
  shows "\<not> keep_out (handle_request os co io po wr line s)"
  unfolding handle_request_def if_not_P [OF assms(1)]
  by (intro not_out_if) (use assms(2) in \<open>simp_all add: op_keep_out op_keep_out2 serial_keep_out_def\<close>)

text \<open>What "idle in every sense" means to the port.\<close>

definition nothing_runs :: "os \<Rightarrow> core \<Rightarrow> 'a port_scheme \<Rightarrow> bool" where
  "nothing_runs os co s \<longleftrightarrow> (let m = machine s in
     state_get co m = STATE_IDLE \<and> co_plan_empty co (core_tr m) (io_tr m) \<and> \<not> port_jog s \<and> \<not> gfmcode_waiting m \<and>
     \<not> gflaser_armed m \<and> \<not> gflaser_arming m \<and> \<not> gfhome_envelope_is_open m \<and> fst (gf_stream_kernel_idle os m))"

definition sender_quiet :: "'a port_scheme \<Rightarrow> bool" where
  "sender_quiet s \<longleftrightarrow> \<not> sender_midline s \<and> \<not> sender_line_open s \<and> \<not> serial_sender_pending s"

text \<open>
  Keeping senders out begins only by its own request, on a machine on which nothing
  runs and nothing of the sender's is under way; then the sender is gone, or it is one of
  this host, and from there on every connection from the network is refused without
  touching the session, and none of this host is.
\<close>

theorem keep_out_begins:
  assumes "\<not> keep_out s" "keep_out (handle_request os co io po wr line s)" "\<not> inj_active s"
  shows "line = ''sender out'' \<and> nothing_runs os co s \<and> sender_quiet s \<and>
    (let s' = handle_request os co io po wr line s in
       (client_fd s' < 0 \<or> client_loopback s') \<and>
       (\<forall>io' d a. sio_accept io' (ser_tr s') = Some a \<longrightarrow>
          (if peer_loopback a then client_fd (rx_accept io' d s') = 0 else rx_accept io' d s' = ser_emit (S_refused a) s')))"
proof -
  define u where "u = snd (machine_busy os co s)"
  define b where "b = (if sender_midline u \<or> sender_line_open u \<or> serial_sender_pending u then (True, u) else sender_recent io SENDER_OUT_QUIET_S u)"
  have l: "line = ''sender out''" using other_requests [OF _ assms(1)] assms(2) by blast
  have s': "handle_request os co io po wr line s = op_sender_out os co io po wr s" by (simp add: l handle_request_def)
  have e: "op_sender_out os co io po wr s =
      (if fst (machine_busy os co s) then say co po ''busy:state'' u else if fst b then say co po ''busy:sender'' (snd b)
       else say co po ''ok'' (snd (serial_drop_sender (line_done co po wr) (serial_keep_out True (snd b)))))"
    using assms(1) unfolding op_sender_out_def Let_def case_prod_beta u_def [symmetric] b_def [symmetric] by (simp add: serial_keeping_out_def)
  have k: "\<not> keep_out u" "\<not> keep_out (snd b)" "\<not> inj_active (snd b)"
    using assms(1,3) by (simp_all add: u_def b_def machine_busy_def sender_recent_def port_now_upd Let_def case_prod_beta)
  have nb: "\<not> fst (machine_busy os co s)" "\<not> fst b" using assms(2) k unfolding s' e by (auto split: if_splits)
  have n: "nothing_runs os co s" using nb(1) by (simp add: machine_busy_def nothing_runs_def Let_def case_prod_beta split: if_splits)
  have q: "sender_quiet s" using nb(2)
    by (auto simp: b_def u_def sender_quiet_def machine_busy_def serial_sender_pending_def Let_def case_prod_beta split: if_splits)
  define v where "v = snd (serial_drop_sender (line_done co po wr) (serial_keep_out True (snd b)))"
  have v: "client_fd v < 0 \<or> client_loopback v" "keep_out v"
    using k(3) by (auto simp: v_def serial_drop_sender_def drop_client_def serialRxFlush_def serial_keep_out_def ser_emit_def Let_def)
  have r: "client_fd (reply co po m v) = client_fd v" "client_loopback (reply co po m v) = client_loopback v" for m
    by (simp_all add: reply_def drop_port_client_def cancel_port_jog_def port_emit_def Let_def)
  have w: "handle_request os co io po wr line s = say co po ''ok'' v" using nb unfolding s' e v_def by simp
  have "client_fd (say co po ''ok'' v) < 0 \<or> client_loopback (say co po ''ok'' v)" "keep_out (say co po ''ok'' v)" using v r by simp_all
  then show ?thesis using l n q unfolding w Let_def
    by (auto simp: rx_accept_def accept_client_def ser_now_def Let_def)
qed

definition idle_port :: port where
  "idle_port = bench_port\<lparr>port_fd := 6, machine := bench_mach\<lparr>gf_active := False, laser_ok := False, arming := False\<rparr>\<rparr>"

theorem keep_out_begins_witness:
  "nothing_runs bench_os bench_co idle_port \<and> sender_quiet idle_port"
proof -
  have p: "\<not> serial_sender_pending idle_port" using sender_pending_iff [of idle_port] bench_ring by (simp add: idle_port_def)
  have b: "machine_busy bench_os bench_co idle_port = (False, idle_port)"
    using bench_mach_sel by (simp add: machine_busy_def idle_port_def bench_co_def gen_co_def state_get_def gfmcode_waiting_def
        gfhome_envelope_is_open_def gf_stream_kernel_idle_def gflaser_armed_def gflaser_arming_def Let_def)
  have i: "\<not> keep_out idle_port" "\<not> inj_active idle_port" by (simp_all add: idle_port_def)
  have "keep_out (op_sender_out bench_os bench_co bench_sio bench_po (\<lambda>t s. s) idle_port)"
    using p i by (simp add: op_sender_out_def b serial_keeping_out_def) (simp add: idle_port_def sender_recent_def serial_drop_sender_def serial_keep_out_def)
  then have "keep_out (handle_request bench_os bench_co bench_sio bench_po (\<lambda>t s. s) ''sender out'' idle_port)"
    by (simp add: handle_request_def)
  from keep_out_begins [OF i(1) this i(2)] show ?thesis by blast
qed

end
