(* ===== verification/Release_Props.thy ===== *)
theory Release_Props
  imports Release Tray_Props
begin

text \<open>
  What the release promises: while the motors are released nothing energizes them and the
  alarm stands; a release that could not be made leaves the motors held; and what each
  command does on every branch.
\<close>

section \<open>The currents\<close>

text \<open>The last value that was written to a current attribute of the kernel.\<close>

fun last_current :: "attr \<Rightarrow> trace \<Rightarrow> string option" where
  "last_current a [] = None"
| "last_current a (e # tr) = (case e of Ev_wr a' v rc \<Rightarrow> if a' = a then Some v else last_current a tr | _ \<Rightarrow> last_current a tr)"

definition xy_dark :: "trace \<Rightarrow> bool" where
  "xy_dark tr \<longleftrightarrow> last_current Pic_x_step_current tr \<in> {None, Some ''0''} \<and> last_current Pic_y_step_current tr \<in> {None, Some ''0''}"

lemma xy_dark_wr: "xy_dark tr \<Longrightarrow> v = ''0'' \<or> a \<noteq> Pic_x_step_current \<and> a \<noteq> Pic_y_step_current \<Longrightarrow> xy_dark (wr_tr os a v hw tr)"
  by (auto simp: xy_dark_def wr_tr_def)

lemma xy_dark_other: "(\<And>a v rc. e \<noteq> Ev_wr a v rc) \<Longrightarrow> xy_dark (e # tr) = xy_dark tr"
  by (cases e) (auto simp: xy_dark_def)

lemma wr_attr_io [simp]: "io_tr (wr_attr os a v s) = wr_tr os a v (io_hw s) (io_tr s)" "xy_released (wr_attr os a v s) = xy_released s"
  "io_hw (wr_attr os a v s) = io_hw s"
  by (simp_all add: wr_attr_upd)

lemma wr_attr_released [simp]: "released (wr_attr os a v s) = released s"
  by (simp add: wr_attr_upd)

text \<open>The release lock: the flag of the current scheme stands with it, and the last currents written are 0.\<close>

definition rel_ok :: "'a mach_scheme \<Rightarrow> bool" where
  "rel_ok s \<longleftrightarrow> released s = xy_released s \<and> (released s \<and> io_hw s \<longrightarrow> xy_dark (io_tr s))"

lemma currents_released [simp]:
  "released (gfio_currents_run os s) = released s" "released (gfio_currents_hold os s) = released s"
  "xy_released (gfio_currents_run os s) = xy_released s" "xy_released (gfio_currents_hold os s) = xy_released s"
  "io_hw (gfio_currents_run os s) = io_hw s" "io_hw (gfio_currents_hold os s) = io_hw s"
  by (simp_all add: gfio_currents_run_def gfio_currents_hold_def wr_attr_upd Let_def)

lemma currents_dark:
  assumes "xy_released s" "xy_dark (io_tr s)"
  shows "xy_dark (io_tr (gfio_currents_run os s))" "xy_dark (io_tr (gfio_currents_hold os s))"
  using assms by (auto simp: gfio_currents_run_def gfio_currents_hold_def Let_def intro!: xy_dark_wr)

lemma analog_config_released [simp]:
  "released (gfio_analog_config os s) = released s" "xy_released (gfio_analog_config os s) = xy_released s"
  "io_hw (gfio_analog_config os s) = io_hw s"
  by (simp_all add: gfio_analog_config_def gfio_xy_microsteps_def wr_attr_upd Let_def case_prod_beta)

lemma analog_config_dark:
  assumes "xy_released s" "xy_dark (io_tr s)"
  shows "xy_dark (io_tr (gfio_analog_config os s))"
  unfolding gfio_analog_config_def Let_def case_prod_beta
  by (rule currents_dark) (use assms in \<open>auto simp: gfio_xy_microsteps_def Let_def intro!: xy_dark_wr\<close>)

lemma ask_io [simp]: "io_tr (ask r s) = io_tr s" "io_tr (report_message m s) = io_tr s"
  "released (ask r s) = released s" "released (report_message m s) = released s"
  "xy_released (ask r s) = xy_released s" "xy_released (report_message m s) = xy_released s"
  "io_hw (ask r s) = io_hw s" "io_hw (report_message m s) = io_hw s"
  by (simp_all add: ask_defs)

lemma millis_io: "io_tr (snd (millis os s)) = Ev_now (os_now os (io_tr s)) # io_tr s" "released (snd (millis os s)) = released s"
  "xy_released (snd (millis os s)) = xy_released s" "io_hw (snd (millis os s)) = io_hw s"
  by (simp_all add: millis_def mono_ms_def wall_s_upd Let_def)

lemma report_rel_ok [simp]: "rel_ok s \<Longrightarrow> rel_ok (gfrelease_report os s)"
  by (simp add: rel_ok_def gfrelease_report_def Let_def case_prod_beta millis_io xy_dark_other)

lemma invalidate_xy_rel [simp]:
  "io_tr (gfhome_invalidate_xy os s) = io_tr s" "released (gfhome_invalidate_xy os s) = released s"
  "xy_released (gfhome_invalidate_xy os s) = xy_released s" "alarm_before (gfhome_invalidate_xy os s) = alarm_before s"
  "io_hw (gfhome_invalidate_xy os s) = io_hw s"
  by (simp_all add: gfhome_invalidate_xy_def gfhome_apply_z_limit_def anchor_write_def Let_def)

lemma ask_sys:
  "sys_homed (ask r s) = sys_homed s" "sys_homed (report_message m s) = sys_homed s"
  "sys_soft_limits (ask r s) = sys_soft_limits s" "sys_soft_limits (report_message m s) = sys_soft_limits s"
  "core_tr (ask r s) = Ask r # core_tr s" "core_tr (report_message m s) = Msg m # core_tr s"
  "alarm_before (ask r s) = alarm_before s" "alarm_before (report_message m s) = alarm_before s"
  by (simp_all add: ask_defs)

lemma ask_rel_ok [simp]: "rel_ok (ask r s) = rel_ok s" "rel_ok (report_message m s) = rel_ok s"
  by (simp_all add: rel_ok_def)

section \<open>The release\<close>

lemma wr_attr_rc: "gfio_wr_attr os a v s = (wr_rc os a v (io_hw s) (io_tr s), wr_attr os a v s)"
  by (simp add: gfio_wr_attr_upd wr_attr_upd)

lemma release_currents_ok:
  assumes "release_currents os s = (ok, s')" "\<not> released s"
  shows "xy_released s' = ok" "\<not> released s'" "io_hw s' = io_hw s" "ok \<Longrightarrow> io_hw s \<Longrightarrow> xy_dark (io_tr s')"
  using assms
  by (auto simp: release_currents_def Let_def case_prod_beta wr_attr_rc gfio_xy_released_set_def xy_dark_def wr_tr_def
       split: if_splits)

lemma release_done_ok:
  assumes "xy_released s" "io_hw s \<Longrightarrow> xy_dark (io_tr s)"
  shows "rel_ok (release_done os mi st s)" "released (release_done os mi st s)"
  using assms by (simp_all add: release_done_def release_marker_set_def rel_ok_def Let_def)

lemma currents_hold_unreleased: "released s = xy_released s \<Longrightarrow> \<not> released s \<Longrightarrow> rel_ok (gfio_currents_hold os s)"
  by (simp add: rel_ok_def)

lemma release_cmd_ok:
  assumes "rt_keeps rel_ok rt" "rt_keeps (\<lambda>s. \<not> released s) rt" "rel_ok s" "release_cmd os mi rt st s = Some (status, s')"
  shows "rel_ok s'"
proof (cases "gfhome_wait_kernel_idle os rt KERNEL_IDLE_WAIT_MS s")
  case None
  then show ?thesis using assms(3,4) by (auto simp: release_cmd_def rel_ok_def split: if_splits)
next
  case (Some r)
  obtain idle u where r: "r = (idle, u)" by (cases r)
  have u: "rel_ok u \<and> \<not> released u" if "\<not> released s"
  proof -
    have k: "rel_ok (snd (gf_stream_kernel_idle os v)) = rel_ok v" "released (snd (gf_stream_kernel_idle os v)) = released v"
      for v :: "'a mach_scheme"
      by (simp_all add: gf_stream_kernel_idle_def gfio_rd_attr_upd rel_ok_def Let_def xy_dark_other)
    have m: "rel_ok (snd (millis os v)) = rel_ok v" for v :: "'a mach_scheme"
      by (simp add: rel_ok_def millis_io xy_dark_other)
    have p: "rel_ok (snd (pump rt v)) \<and> \<not> released (snd (pump rt v))" if "rel_ok v" "\<not> released v" for v
    proof -
      have "rel_ok (snd (rt v))" "\<not> released (snd (rt v))" using assms(1,2) that unfolding rt_keeps_def by blast+
      then show ?thesis by (simp add: pump_def Let_def case_prod_beta rel_ok_def core_defs)
    qed
    show ?thesis by (rule wait_kernel_idle_inv [OF Some [unfolded r], where I = "\<lambda>s. rel_ok s \<and> \<not> released s"])
      (simp_all add: assms(3) that k m p millis_io)
  qed
  obtain ok v where c: "release_currents os u = (ok, v)" by (cases "release_currents os u")
  have nf: "rel_ok w" if "\<not> xy_released w" "\<not> released w" for w :: "'a mach_scheme" using that by (simp add: rel_ok_def)
  show ?thesis
  proof (cases "released s")
    case True
    then show ?thesis using assms(3,4) by (simp add: release_cmd_def)
  next
    case False
    note u = u [OF this]
    note v = release_currents_ok [OF c conjunct2 [OF u]]
    have "rel_ok (release_done os mi st v)" if ok using release_done_ok(1) [of v] v that by simp
    moreover have "rel_ok v" if "\<not> ok" using nf [of v] v that by simp
    ultimately show ?thesis using assms(3,4) False Some r c u by (auto simp: release_cmd_def split: if_splits)
  qed
qed


text \<open>
  Every operation that writes an X or Y current or changes the release, and everything
  else that the program does, which touches neither.
\<close>

inductive rel_step :: "os \<Rightarrow> mio \<Rightarrow> 'a mach_scheme \<Rightarrow> 'a mach_scheme \<Rightarrow> bool" for os mi where
  rl_release: "rt_keeps rel_ok rt \<Longrightarrow> rt_keeps (\<lambda>s. \<not> released s) rt \<Longrightarrow> release_cmd os mi rt st s = Some (status, s') \<Longrightarrow>
    rel_step os mi s s'"
| rl_energize: "rel_step os mi s (snd (energize_cmd os mi s))"
| rl_home: "rel_step os mi s (snd (gfrelease_energize os mi s))"
| rl_unlock: "rel_step os mi s (snd (unlock_guard os s))"
| rl_poll: "rel_step os mi s (gfrelease_poll co s)"
| rl_run: "rel_step os mi s (gfio_currents_run os s)"
| rl_hold: "rel_step os mi s (gfio_currents_hold os s)"
| rl_config: "rel_step os mi s (gfio_analog_config os s)"
| rl_other: "released s' = released s \<Longrightarrow> xy_released s' = xy_released s \<Longrightarrow> io_hw s' = io_hw s \<Longrightarrow>
    xy_dark (io_tr s') = xy_dark (io_tr s) \<Longrightarrow> rel_step os mi s s'"

definition rel_start :: "'a mach_scheme \<Rightarrow> bool" where
  "rel_start s \<longleftrightarrow> (\<exists>s0. \<not> released s0 \<and> \<not> xy_released s0 \<and> io_tr s0 = [] \<and> s = gfrelease_adopt s0)"

lemma energize_off:
  "released s \<Longrightarrow> \<not> released (snd (gfrelease_energize os mi s)) \<and> \<not> xy_released (snd (gfrelease_energize os mi s))"
  by (simp add: gfrelease_energize_def release_marker_set_def gfio_xy_released_set_def Let_def)

lemma energize_ok [simp]:
  assumes "rel_ok s"
  shows "rel_ok (snd (gfrelease_energize os mi s))" "rel_ok (snd (energize_cmd os mi s))"
proof -
  show e: "rel_ok (snd (gfrelease_energize os mi s))"
  proof (cases "released s")
    case True
    then show ?thesis using energize_off [of s os mi] by (simp add: rel_ok_def)
  next
    case False
    then show ?thesis using assms by (simp add: gfrelease_energize_def)
  qed
  then show "rel_ok (snd (energize_cmd os mi s))" using assms by (simp add: energize_cmd_def state_set_def Let_def case_prod_beta)
qed

lemma rel_start_ok: "rel_start s \<Longrightarrow> rel_ok s"
  unfolding rel_start_def gfrelease_adopt_def
  by (auto simp: rel_ok_def gfio_xy_released_set_def xy_dark_def split: if_splits)

lemma rel_step_ok: "rel_step os mi s s' \<Longrightarrow> rel_ok s \<Longrightarrow> rel_ok s'"
proof (induction rule: rel_step.induct)
  case (rl_release rt st s status s')
  show ?case by (rule release_cmd_ok [OF rl_release(1,2,4,3)])
next
  case (rl_run s)
  then show ?case by (auto simp: rel_ok_def intro: currents_dark)
next
  case (rl_hold s)
  then show ?case by (auto simp: rel_ok_def intro: currents_dark)
next
  case (rl_config s)
  then show ?case by (auto simp: rel_ok_def intro: analog_config_dark)
next
  case (rl_unlock s)
  then show ?case by (simp add: unlock_guard_def)
next
  case (rl_poll s co)
  then show ?case by (simp add: gfrelease_poll_def rel_ok_def)
next
  case (rl_other s' s)
  then show ?case by (simp add: rel_ok_def)
qed simp_all

text \<open>
  C30. While the motors are released nothing in the program energizes them: in every
  state reached from a start, also one over a gantry that the controller before it had
  released, a standing release means that the current scheme is held to 0 and that the
  last values written to the X and Y currents are 0, whatever release, energize, unlock,
  poll, stream start and hold posture came in what order.
\<close>

theorem released_stays_dark:
  assumes "reachable rel_start (rel_step os mi) s" "released s" "io_hw s"
  shows "xy_released s \<and> last_current Pic_x_step_current (io_tr s) \<in> {None, Some ''0''} \<and>
    last_current Pic_y_step_current (io_tr s) \<in> {None, Some ''0''}"
proof -
  have "rel_ok s" using assms(1)
    by (induction rule: reachable.induct) (auto intro: rel_step_ok rel_start_ok)
  then show ?thesis using assms(2,3) by (simp add: rel_ok_def xy_dark_def)
qed

definition bench_start :: mach where
  "bench_start = bench_mach\<lparr>io_tr := [], io_hw := True, xy_released := False, released := False, release_marker := True\<rparr>"

theorem released_stays_dark_witness:
  "last_current Pic_x_step_current (io_tr (gfio_currents_hold bench_os (gfrelease_adopt bench_start))) \<in> {None, Some ''0''} \<and>
   released (gfio_currents_hold bench_os (gfrelease_adopt bench_start))"
proof -
  have s: "rel_start (gfrelease_adopt bench_start)"
    unfolding rel_start_def by (intro exI [of _ bench_start]) (simp add: bench_start_def)
  have "reachable rel_start (rel_step bench_os bench_mi) (gfio_currents_hold bench_os (gfrelease_adopt bench_start))"
    by (rule reachable.intros(2) [where step = "rel_step bench_os bench_mi" and s = "gfrelease_adopt bench_start"])
       (auto intro: reachable.intros(1) s rl_hold)
  moreover have "released (gfrelease_adopt bench_start)" "io_hw (gfrelease_adopt bench_start)"
    by (simp_all add: gfrelease_adopt_def bench_start_def gfio_xy_released_set_def)
  ultimately show ?thesis using released_stays_dark [of bench_os bench_mi "gfio_currents_hold bench_os (gfrelease_adopt bench_start)"]
    by simp
qed

section \<open>The outcome\<close>

lemma xy_bits_cleared: "((h AND NOT (X_AXIS_BIT OR Y_AXIS_BIT)) OR Z_AXIS_BIT) AND b = 0"
  if "b \<in> {X_AXIS_BIT, Y_AXIS_BIT, X_AXIS_BIT OR Y_AXIS_BIT}"
proof -
  have h: "((h AND NOT (X_AXIS_BIT OR Y_AXIS_BIT)) OR Z_AXIS_BIT) AND X_AXIS_BIT = 0"
    "((h AND NOT (X_AXIS_BIT OR Y_AXIS_BIT)) OR Z_AXIS_BIT) AND Y_AXIS_BIT = 0"
    by (simp_all add: X_AXIS_BIT_def Y_AXIS_BIT_def Z_AXIS_BIT_def u8_mask_bits bit_simps)
  then have "((h AND NOT (X_AXIS_BIT OR Y_AXIS_BIT)) OR Z_AXIS_BIT) AND (X_AXIS_BIT OR Y_AXIS_BIT) = 0"
    by (simp only: bit.conj_disj_distrib or.left_neutral)
  then show ?thesis using that h by auto
qed

lemma invalidate_xy_masks:
  "sys_homed (gfhome_invalidate_xy os s) AND (X_AXIS_BIT OR Y_AXIS_BIT) = 0"
  "sys_soft_limits (gfhome_invalidate_xy os s) AND (X_AXIS_BIT OR Y_AXIS_BIT) = 0"
  "core_tr (gfhome_invalidate_xy os s) = core_tr s"
  unfolding gfhome_invalidate_xy_def gfhome_apply_z_limit_def anchor_write_def Let_def
  by (simp_all add: xy_bits_cleared del: bit.de_Morgan_disj)

lemma wait_idle_unreleased:
  assumes "rt_keeps (\<lambda>s. \<not> released s) rt" "\<not> released s" "gfhome_wait_kernel_idle os rt n s = Some (idle, u)"
  shows "\<not> released u"
proof -
  have k: "released (snd (gf_stream_kernel_idle os v)) = released v" for v :: "'a mach_scheme"
    by (simp add: gf_stream_kernel_idle_def gfio_rd_attr_upd Let_def)
  have p: "\<not> released (snd (pump rt v))" if "\<not> released v" for v
    using assms(1) that by (simp add: rt_keeps_def pump_def Let_def case_prod_beta core_defs)
  show ?thesis by (rule wait_kernel_idle_inv [OF assms(3), where I = "\<lambda>s. \<not> released s"]) (simp_all add: assms(2) k p millis_io)
qed

text \<open>
  What $MD answers. It succeeds only from Idle or Alarm, with no laser window open
  or opening; then the motors are released, X and Y are neither homed nor limited, the
  lens keeps its reference, and the machine is in an alarm, the one that stood or the
  one it has just been given. Any other answer leaves the motors not released and the
  current scheme free.
\<close>

theorem release_outcome:
  fixes s :: "'a mach_scheme"
  assumes "\<not> released s" "rt_keeps (\<lambda>s. \<not> released s) rt" "release_cmd os mi rt st s = Some (status, s')"
  shows "if status = Status_OK
    then st \<in> {STATE_IDLE, {ALARM}} \<and> \<not> laser_ok s \<and> \<not> arming s \<and> released s' \<and> xy_released s' \<and>
      sys_homed s' AND (X_AXIS_BIT OR Y_AXIS_BIT) = 0 \<and> sys_soft_limits s' AND (X_AXIS_BIT OR Y_AXIS_BIT) = 0 \<and>
      (st = {ALARM} \<or> Ask Alarm_HomingRequired \<in> set (core_tr s'))
    else \<not> released s' \<and> status = Status_IdleError"
proof (cases "st \<in> {STATE_IDLE, {ALARM}} \<and> \<not> laser_ok s \<and> \<not> arming s")
  case False
  then have "status = Status_IdleError \<and> \<not> released s'"
    using assms(1,3) unfolding release_cmd_def gflaser_armed_def gflaser_arming_def
    by (cases "st = STATE_IDLE \<or> st = {ALARM}"; cases "laser_ok s \<or> arming s") auto
  then show ?thesis by simp
next
  case True
  then obtain idle u where u: "gfhome_wait_kernel_idle os rt KERNEL_IDLE_WAIT_MS s = Some (idle, u)"
    using assms(1,3) by (cases "gfhome_wait_kernel_idle os rt KERNEL_IDLE_WAIT_MS s")
      (auto simp: release_cmd_def gflaser_armed_def gflaser_arming_def)
  have nu: "\<not> released u" by (rule wait_idle_unreleased [OF assms(2,1) u])
  obtain ok v where c: "release_currents os u = (ok, v)" by (cases "release_currents os u")
  note cv = release_currents_ok [OF c nu]
  have d: "released (release_done os mi st v)" "xy_released (release_done os mi st v) = xy_released v"
    "sys_homed (release_done os mi st v) AND (X_AXIS_BIT OR Y_AXIS_BIT) = 0"
    "sys_soft_limits (release_done os mi st v) AND (X_AXIS_BIT OR Y_AXIS_BIT) = 0"
    "st = {ALARM} \<or> Ask Alarm_HomingRequired \<in> set (core_tr (release_done os mi st v))"
    by (simp_all add: release_done_def release_marker_set_def Let_def ask_sys invalidate_xy_masks)
  have "release_cmd os mi rt st s = Some (if \<not> idle then (Status_IdleError, u)
      else if \<not> ok then (Status_IdleError, report_message ''Motors not released: the step currents could not be written'' v)
      else (Status_OK, release_done os mi st v))"
    using True assms(1) u c unfolding release_cmd_def gflaser_armed_def gflaser_arming_def by simp
  with assms(3) have "(status, s') = (if \<not> idle then (Status_IdleError, u)
      else if \<not> ok then (Status_IdleError, report_message ''Motors not released: the step currents could not be written'' v)
      else (Status_OK, release_done os mi st v))" by simp
  then show ?thesis using True cv(1,2) d nu by (cases "idle \<and> ok") (auto split: if_splits)
qed

lemma bench_idle: "fst (gf_stream_kernel_idle bench_os s)"
  by (simp add: gf_stream_kernel_idle_def gfio_rd_attr_upd rd_val_def bench_os_def strip_newlines_def cstr_def Let_def)

lemma bench_wait_idle:
  "gfhome_wait_kernel_idle bench_os rt n s = Some (True, snd (gf_stream_kernel_idle bench_os (snd (millis bench_os s))))"
  unfolding gfhome_wait_kernel_idle_def Let_def case_prod_beta
  by (subst wait_loop.simps) (simp add: idle_turn_def bench_idle Let_def case_prod_beta)

theorem release_outcome_witness:
  "\<exists>s'. release_cmd bench_os bench_mi idle_rt STATE_IDLE bench_start = Some (Status_OK, s') \<and> xy_released s' \<and>
     Ask Alarm_HomingRequired \<in> set (core_tr s')"
proof -
  define u where "u = snd (gf_stream_kernel_idle bench_os (snd (millis bench_os bench_start)))"
  have r: "wr_rc bench_os a ''0'' h t = 0" for a h t by (simp add: wr_rc_def bench_os_def)
  have c: "fst (release_currents bench_os u)" by (simp add: release_currents_def wr_attr_rc r Let_def case_prod_beta)
  have b: "\<not> released bench_start" "\<not> laser_ok bench_start" "\<not> arming bench_start"
    by (simp_all add: bench_start_def bench_mach_def mach0_def ctl.defs mach.defs bench_ctl_def ctl_of_def)
  have e: "release_cmd bench_os bench_mi idle_rt STATE_IDLE bench_start =
      Some (Status_OK, release_done bench_os bench_mi STATE_IDLE (snd (release_currents bench_os u)))"
    using b c unfolding release_cmd_def bench_wait_idle u_def [symmetric] gflaser_armed_def gflaser_arming_def
    by (simp add: case_prod_beta)
  have k: "rt_keeps (\<lambda>s. \<not> released s) idle_rt" by (simp add: rt_keeps_def idle_rt_def emit_def)
  show ?thesis using release_outcome [OF b(1) k e] e by (auto simp: STATE_IDLE_def)
qed

end
