(* ===== verification/Mcode_Props.thy ===== *)
theory Mcode_Props
  imports Mcode Release_Props
begin

text \<open>
  What the M-code module promises: the table it takes is exactly a list it could have
  been printed from, an answer counts once and only for the M-code it names, and a job
  goes on past its M-code only on a yes.
\<close>

section \<open>Numbers\<close>

definition digits_val :: "nat \<Rightarrow> string \<Rightarrow> nat" where
  "digits_val a ds = foldl (\<lambda>a c. a * 10 + the (digit_val c)) a ds"

lemma scan_digits_split:
  assumes "scan_digits digit_val 10 a k p = (v, n, rest)"
  shows "\<exists>ds. p = ds @ rest \<and> n = k + length ds \<and> list_all (\<lambda>c. digit_val c \<noteq> None) ds \<and> v = digits_val a ds \<and>
    (rest = [] \<or> digit_val (hd rest) = None)"
  using assms
proof (induction p arbitrary: a k)
  case Nil
  then show ?case by (auto simp: digits_val_def)
next
  case (Cons c p)
  show ?case
  proof (cases "digit_val c")
    case None
    then show ?thesis using Cons.prems by (auto simp: digits_val_def)
  next
    case (Some d)
    then have "scan_digits digit_val 10 (a * 10 + d) (Suc k) p = (v, n, rest)" using Cons.prems by simp
    from Cons.IH [OF this] obtain ds where "p = ds @ rest" "n = Suc k + length ds" "list_all (\<lambda>c. digit_val c \<noteq> None) ds"
      "v = digits_val (a * 10 + d) ds" "rest = [] \<or> digit_val (hd rest) = None" by auto
    then show ?thesis using Some by (intro exI [of _ "c # ds"]) (auto simp: digits_val_def)
  qed
qed

lemma scan_digits_join:
  assumes "list_all (\<lambda>c. digit_val c \<noteq> None) ds" "rest = [] \<or> digit_val (hd rest) = None"
  shows "scan_digits digit_val 10 a k (ds @ rest) = (digits_val a ds, k + length ds, rest)"
  using assms(1)
proof (induction ds arbitrary: a k)
  case Nil
  then show ?case using assms(2) by (cases rest) (auto simp: digits_val_def)
next
  case (Cons c ds)
  then show ?case by (auto simp: digits_val_def)
qed

lemma digit_char: "digit_val c = Some d \<Longrightarrow> d < 10 \<and> c = char_of (48 + d)"
  by (auto simp: digit_val_def Let_def split: if_splits)

lemma utoa_digit: "d < 10 \<Longrightarrow> utoa d = [char_of (48 + d)]"
  by (subst utoa.simps) simp

lemma utoa_snoc: "0 < a \<Longrightarrow> d < 10 \<Longrightarrow> utoa (a * 10 + d) = utoa a @ [char_of (48 + d)]"
  by (subst utoa.simps) simp

text \<open>A number of at most three digits in the range of the packages is written with three, and only so.\<close>

lemma code_digits:
  assumes "list_all (\<lambda>c. digit_val c \<noteq> None) ds" "length ds \<le> 3" "100 \<le> digits_val 0 ds"
  shows "utoa (digits_val 0 ds) = ds"
proof -
  have small: "the (digit_val c) < 10" "char_of (48 + the (digit_val c)) = c" if "digit_val c \<noteq> None" for c
    using that digit_char [of c] by auto
  consider "ds = []" | c1 where "ds = [c1]" | c1 c2 where "ds = [c1, c2]" | c1 c2 c3 where "ds = [c1, c2, c3]"
    using assms(2) by (cases ds; cases "tl ds"; cases "tl (tl ds)") auto
  then show ?thesis
  proof cases
    case (4 c1 c2 c3)
    then have d: "digit_val c1 \<noteq> None" "digit_val c2 \<noteq> None" "digit_val c3 \<noteq> None" using assms(1) by auto
    have p: "0 < the (digit_val c1)" using assms(3) 4 small(1) [OF d(2)] small(1) [OF d(3)] by (simp add: digits_val_def)
    have "utoa ((the (digit_val c1) * 10 + the (digit_val c2)) * 10 + the (digit_val c3)) = [c1, c2, c3]"
      using p small [OF d(1)] small [OF d(2)] small [OF d(3)] by (simp only: utoa_snoc utoa_digit) (simp add: utoa_snoc utoa_digit)
    then show ?thesis using 4 by (simp add: digits_val_def)
  next
    case (2 c1)
    then show ?thesis using assms(1,3) small(1) [of c1] by (simp add: digits_val_def)
  next
    case (3 c1 c2)
    then show ?thesis using assms(1,3) small(1) [of c1] small(1) [of c2] by (simp add: digits_val_def)
  qed (use assms(3) in \<open>simp add: digits_val_def\<close>)
qed

lemma utoa_digits: "list_all (\<lambda>c. digit_val c \<noteq> None) (utoa n) \<and> digits_val 0 (utoa n) = n"
proof (induction n rule: utoa.induct)
  case (1 n)
  have d: "digit_val (char_of (48 + k)) = Some k" if "k < 10" for k :: nat
    using that by (simp add: digit_val_def Let_def)
  show ?case
  proof (cases "n < 10")
    case True
    then show ?thesis using d [of n] by (simp add: utoa_digit digits_val_def)
  next
    case False
    then have "utoa n = utoa (n div 10) @ [char_of (48 + n mod 10)]" by (subst utoa.simps) simp
    then show ?thesis using 1 [OF False] d [of "n mod 10"] by (simp add: digits_val_def)
  qed
qed

lemma utoa_three: "100 \<le> n \<Longrightarrow> n < 1000 \<Longrightarrow> length (utoa n) = 3"
proof -
  assume "100 \<le> n" "n < 1000"
  then have "n div 10 \<ge> 10" "n div 10 div 10 < 10" "n \<ge> 10" by auto
  then show ?thesis by (subst utoa.simps, subst utoa.simps, subst utoa.simps) simp
qed

section \<open>The table\<close>

text \<open>How a table is written: the numbers in decimal, with commas between them.\<close>

fun print_codes :: "int list \<Rightarrow> string" where
  "print_codes [] = []"
| "print_codes [c] = utoa (nat c)"
| "print_codes (c # d # cs) = utoa (nat c) @ CHR '','' # print_codes (d # cs)"

lemma utoa_nonempty: "utoa n \<noteq> []"
  by (subst utoa.simps) simp

lemma print_codes_nonempty: "cs \<noteq> [] \<Longrightarrow> print_codes cs \<noteq> []"
  by (cases cs rule: print_codes.cases) (auto simp: utoa_nonempty)

lemma ours_nat: "ours c \<Longrightarrow> 100 \<le> nat c \<and> nat c < 1000 \<and> int (nat c) = c"
  by (auto simp: ours_def GFMCODE_MIN_def GFMCODE_MAX_def)

lemma table_room: "distinct (codes :: int list) \<Longrightarrow> list_all ours codes \<Longrightarrow> length codes = GFMCODE_TABLE_MAX \<Longrightarrow> ours c \<Longrightarrow> c \<in> set codes"
proof -
  assume d: "distinct codes" "list_all ours codes" "length codes = GFMCODE_TABLE_MAX" "ours c"
  have "set codes \<subseteq> {160..179}" using d(2) by (auto simp: list_all_iff ours_def GFMCODE_MIN_def GFMCODE_MAX_def)
  moreover have "card (set codes) = card {160..179 :: int}" using d(1,3) by (simp add: distinct_card GFMCODE_TABLE_MAX_def)
  ultimately have "set codes = {160..179}" by (simp add: card_subset_eq)
  then show ?thesis using d(4) by (auto simp: ours_def GFMCODE_MIN_def GFMCODE_MAX_def)
qed

lemma parse_codes_sound:
  assumes "parse_codes codes p = Some r" "distinct codes" "list_all ours codes"
  shows "\<exists>cs. r = codes @ cs \<and> p = print_codes cs \<and> distinct r \<and> list_all ours r"
  using assms
proof (induction codes p rule: parse_codes.induct)
  case (1 codes p)
  show ?case
  proof (cases "p = []")
    case True
    then show ?thesis using "1.prems" by (subst (asm) parse_codes.simps) (auto intro: exI [of _ "[]"])
  next
    case ne: False
    obtain v n rest where sc: "scan_digits digit_val 10 0 0 p = (v, n, rest)" by (metis prod_cases3)
    then have b: "length codes \<noteq> GFMCODE_TABLE_MAX" "digit_val (hd p) \<noteq> None" "\<not> n > 3" "ours (int v)" "int v \<notin> set codes"
      "rest \<noteq> [] \<longrightarrow> hd rest = CHR '','' \<and> tl rest \<noteq> [] \<and> parse_codes (codes @ [int v]) (tl rest) = Some r"
      "rest = [] \<longrightarrow> r = codes @ [int v]"
      using "1.prems"(1) ne by (subst (asm) parse_codes.simps, auto split: if_splits)+
    obtain ds where ds: "p = ds @ rest" "n = length ds" "list_all (\<lambda>c. digit_val c \<noteq> None) ds" "v = digits_val 0 ds"
      using scan_digits_split [OF sc] by auto
    have u: "utoa v = ds" using code_digits [OF ds(3)] b(3,4) ds(2,4) ours_nat [OF b(4)] by simp
    have k: "distinct (codes @ [int v])" "list_all ours (codes @ [int v])" using "1.prems" b by auto
    show ?thesis
    proof (cases "rest = []")
      case True
      then show ?thesis using b(7) k ds(1) u by (intro exI [of _ "[int v]"]) simp
    next
      case False
      then have f: "hd rest = CHR '',''" "tl rest \<noteq> []" "parse_codes (codes @ [int v]) (tl rest) = Some r" using b(6) by auto
      have "\<exists>cs. r = (codes @ [int v]) @ cs \<and> tl rest = print_codes cs \<and> distinct r \<and> list_all ours r"
        by (rule "1.IH" [OF ne _ refl sc [symmetric] refl _ b(5) False _ f(3) k]) (use b f in auto)
      then obtain cs where cs: "r = (codes @ [int v]) @ cs" "tl rest = print_codes cs" "distinct r" "list_all ours r" by blast
      have "cs \<noteq> []" using cs(2) f(2) by auto
      then have "print_codes (int v # cs) = utoa v @ CHR '','' # print_codes cs" by (cases cs) auto
      then have "p = print_codes (int v # cs)" using ds(1) u cs(2) f(1) False by (cases rest) auto
      then show ?thesis using cs by (intro exI [of _ "int v # cs"]) simp
    qed
  qed
qed

lemma parse_codes_complete:
  assumes "distinct (codes @ cs)" "list_all ours (codes @ cs)"
  shows "parse_codes codes (print_codes cs) = Some (codes @ cs)"
  using assms
proof (induction cs arbitrary: codes)
  case Nil
  then show ?case by (subst parse_codes.simps) simp
next
  case (Cons c cs)
  have oc: "ours c" "int (nat c) = c" "100 \<le> nat c" "nat c < 1000" using Cons.prems ours_nat [of c] by auto
  define rest where "rest = (if cs = [] then [] else CHR '','' # print_codes cs)"
  have p: "print_codes (c # cs) = utoa (nat c) @ rest" by (cases cs) (auto simp: rest_def)
  have comma: "digit_val (CHR '','') = None" by (simp add: digit_val_def)
  have sc: "scan_digits digit_val 10 0 0 (utoa (nat c) @ rest) = (nat c, 3, rest)"
    using scan_digits_join [of "utoa (nat c)" rest 0 0] utoa_digits [of "nat c"] utoa_three [OF oc(3,4)] comma
    by (auto simp: rest_def)
  have hd: "digit_val (hd (utoa (nat c) @ rest)) \<noteq> None"
    using utoa_digits [of "nat c"] utoa_nonempty [of "nat c"] by (cases "utoa (nat c)") auto
  have room: "length codes \<noteq> GFMCODE_TABLE_MAX"
    using table_room [of codes c] Cons.prems oc(1) by auto
  have step: "parse_codes codes (utoa (nat c) @ rest) =
      (if rest = [] then Some (codes @ [c]) else parse_codes (codes @ [c]) (print_codes cs))"
    using hd room sc oc Cons.prems utoa_nonempty print_codes_nonempty [of cs]
    by (subst parse_codes.simps) (auto simp: rest_def)
  have "parse_codes (codes @ [c]) (print_codes cs) = Some ((codes @ [c]) @ cs)" by (rule Cons.IH) (use Cons.prems in auto)
  then show ?case unfolding p step by (auto simp: rest_def)
qed

text \<open>
  C32. The table the port hands over is taken exactly when it is the dash or the printed
  form of a list of distinct numbers of the packages' range, and then it is that list;
  everything else, an empty list, a number out of range or written otherwise, a repeated
  number, a comma too many, is refused and the table stays.
\<close>

theorem mcode_table_exact:
  "(gfmcode_set_table l s = (0, s') \<longleftrightarrow> l = ''-'' \<and> s' = s\<lparr>mc_table := []\<rparr> \<or>
      (\<exists>cs. cs \<noteq> [] \<and> distinct cs \<and> list_all ours cs \<and> l = print_codes cs \<and> s' = s\<lparr>mc_table := cs\<rparr>)) \<and>
   (fst (gfmcode_set_table l s) = 0 \<or> gfmcode_set_table l s = (- 1, s))"
proof -
  have dash: "print_codes cs \<noteq> ''-''" if "distinct cs" "list_all ours cs" for cs
  proof
    assume "print_codes cs = ''-''"
    then have "parse_codes [] ''-'' = Some cs" using parse_codes_complete [of "[]" cs] that by simp
    moreover have "parse_codes [] ''-'' = None" by (subst parse_codes.simps) (simp add: digit_val_def)
    ultimately show False by simp
  qed
  have c: "parse_codes [] (print_codes cs) = Some cs" if "distinct cs" "list_all ours cs" for cs
    using parse_codes_complete [of "[]" cs] that by simp
  show ?thesis
  proof (cases "l = ''-''")
    case True
    then have "\<not> (distinct cs \<and> list_all ours cs \<and> l = print_codes cs)" for cs using dash [of cs] by auto
    then show ?thesis using True by (auto simp: gfmcode_set_table_def)
  next
    case False
    show ?thesis
    proof (cases "parse_codes [] l")
      case None
      then have "\<not> (distinct cs \<and> list_all ours cs \<and> l = print_codes cs)" for cs using c [of cs] by auto
      then show ?thesis using False None by (auto simp: gfmcode_set_table_def)
    next
      case (Some r)
      have r: "l = print_codes r" "distinct r" "list_all ours r" using parse_codes_sound [OF Some] by auto
      have u: "cs = r" if "distinct cs" "list_all ours cs" "l = print_codes cs" for cs
      proof -
        have "parse_codes [] l = Some cs" unfolding that(3) by (rule c [OF that(1,2)])
        then show ?thesis unfolding Some by simp
      qed
      have e: "(\<exists>cs. cs \<noteq> [] \<and> distinct cs \<and> list_all ours cs \<and> l = print_codes cs \<and> s' = s\<lparr>mc_table := cs\<rparr>) \<longleftrightarrow>
          r \<noteq> [] \<and> s' = s\<lparr>mc_table := r\<rparr>" using r u by blast
      show ?thesis using False unfolding e gfmcode_set_table_def Some by auto
    qed
  qed
qed

section \<open>The answer\<close>

text \<open>
  An answer is taken exactly when a job waits at an M-code that has not been answered
  yet and the answer names its sequence number, with printable words of the bounded
  length and no brackets; it is then the answer that stands, and no second one is taken.
\<close>

lemma mcode_answer_once:
  "(fst (gfmcode_answer seq ok words s) = 0 \<longleftrightarrow> w_active (mc_wait s) \<and> \<not> w_answered (mc_wait s) \<and>
      seq = w_seq (mc_wait s) \<and> length words \<le> GFMCODE_TEXT_MAX \<and> list_all answer_char words) \<and>
   snd (gfmcode_answer seq ok words s) = (if fst (gfmcode_answer seq ok words s) = 0
     then s\<lparr>mc_wait := (mc_wait s)\<lparr>w_text := words, w_ok := ok, w_answered := True\<rparr>\<rparr> else s) \<and>
   (fst (gfmcode_answer seq ok words s) = - 1 \<or>
    gfmcode_answer seq' ok' words' (snd (gfmcode_answer seq ok words s)) = (- 1, snd (gfmcode_answer seq ok words s)))"
  by (auto simp: gfmcode_answer_def Let_def)

section \<open>The barrier\<close>

lemma answer_turn_time:
  assumes "pump_contract os rt dt" "answer_turn os co rt d s = Inr s'"
  shows "os_now os (io_tr s) + dt \<le> os_now os (io_tr s') \<and> os_now os (io_tr s) \<le> d"
proof -
  note P = pump_contractD [OF assms(1)]
  define v where "v = snd (wall_s os s)"
  have s': "os_now os (io_tr s) < d" "s' = sleep_ns 5000000 (snd (pump rt v))"
    using assms(2) by (auto simp: answer_turn_def v_def Let_def case_prod_beta wall_s_upd split: if_splits)
  have "os_now os (io_tr s) \<le> os_now os (io_tr v)" using P(2) by (simp add: v_def wall_s_upd)
  moreover have "os_now os (io_tr (snd (pump rt v))) \<le> os_now os (io_tr s')" using P(2) by (simp add: s'(2) sleep_ns_upd)
  ultimately show ?thesis using P(3) [of v] s'(1) by linarith
qed

lemma answer_wait_returns:
  assumes "pump_contract os rt dt"
  shows "\<exists>s'. wait_loop (answer_turn os co rt d) s = Some s'"
  by (rule wait_loop_returns [where P = "\<lambda>_. True" and t = "\<lambda>s. os_now os (io_tr s)" and d = d,
        OF pump_contractD(1) [OF assms]]) (use answer_turn_time [OF assms] in auto)

text \<open>
  What the barrier relies on: the protocol pump is false only on an abort, which then
  stands, and M-codes do not nest: while one waits, its number and sequence stay.
\<close>

definition mc_contract :: "mio \<Rightarrow> 'a mach_ext rt \<Rightarrow> bool" where
  "mc_contract mi rt \<longleftrightarrow> (\<forall>s. \<not> fst (rt s) \<longrightarrow> sys_abort mi (snd (pump rt s))) \<and>
     (\<forall>s. w_active (mc_wait (snd (rt s))) = w_active (mc_wait s) \<and> w_seq (mc_wait (snd (rt s))) = w_seq (mc_wait s) \<and>
       w_code (mc_wait (snd (rt s))) = w_code (mc_wait s))"

lemma mc_contractD:
  assumes "mc_contract mi rt"
  shows "\<not> fst (pump rt s) \<Longrightarrow> sys_abort mi (snd (pump rt s))"
    "w_active (mc_wait (snd (pump rt s))) = w_active (mc_wait s)" "w_seq (mc_wait (snd (pump rt s))) = w_seq (mc_wait s)"
    "w_code (mc_wait (snd (pump rt s))) = w_code (mc_wait s)"
  using assms by (simp_all add: mc_contract_def pump_def Let_def case_prod_beta core_defs)

abbreviation job_over :: "core \<Rightarrow> mio \<Rightarrow> 'a mach_scheme \<Rightarrow> bool" where
  "job_over co mi s \<equiv> sys_abort mi s \<or> in_state (state_get co s) {ALARM, ESTOP}"

lemma drain_wait_over:
  assumes "drain_wait os co rt d s = Some (go, u)" "mc_contract mi rt"
  shows "go \<or> job_over co mi u"
proof -
  have w: "wait_loop (drain_turn_mc os co rt d) s = Some (go, u)" using assms(1) by (simp add: drain_wait_def)
  have i: "fst r \<or> job_over co mi (snd r)" if "drain_turn_mc os co rt d v = Inl r" for v r
    using that mc_contractD(1) [OF assms(2)] by (auto simp: drain_turn_mc_def Let_def case_prod_beta split: if_splits)
  from wait_loop_rule [where P = "\<lambda>_. True" and Q = "\<lambda>r. fst r \<or> job_over co mi (snd r)", OF w _ i] show ?thesis by auto
qed

lemma kernel_idle_wait [simp]: "mc_wait (snd (gf_stream_kernel_idle os s)) = mc_wait s"
  by (simp add: gf_stream_kernel_idle_def gfio_rd_attr_upd Let_def)

lemma drain_wait_inactive:
  assumes "drain_wait os co rt d s = Some (go, u)" "mc_contract mi rt" "\<not> w_active (mc_wait s)"
  shows "\<not> w_active (mc_wait u)"
  by (rule drain_wait_inv [OF assms(1), where I = "\<lambda>s. \<not> w_active (mc_wait s)"])
     (simp_all add: assms(3) mc_contractD [OF assms(2)] wall_s_upd sleep_ns_upd)

lemma answer_wait_keeps:
  fixes s :: "'a mach_scheme"
  assumes "wait_loop (answer_turn os co rt d) s = Some s'" "mc_contract mi rt"
  shows "w_seq (mc_wait s') = w_seq (mc_wait s) \<and> w_code (mc_wait s') = w_code (mc_wait s)"
proof -
  define I where "I v \<longleftrightarrow> w_seq (mc_wait v) = w_seq (mc_wait s) \<and> w_code (mc_wait v) = w_code (mc_wait s)" for v :: "'a mach_scheme"
  have s: "I s" by (simp add: I_def)
  have k: "I (snd (wall_s os v)) = I v" "I (sleep_ns n v) = I v" "I (snd (pump rt v)) = I v" for v n
    by (simp_all add: I_def wall_s_upd sleep_ns_upd mc_contractD [OF assms(2)])
  have i: "I r" if "I v" "answer_turn os co rt d v = Inl r" for v r
    using that k by (auto simp: answer_turn_def Let_def case_prod_beta split: if_splits)
  have n: "I v'" if "I v" "answer_turn os co rt d v = Inr v'" for v v'
    using that k by (auto simp: answer_turn_def Let_def case_prod_beta split: if_splits)
  from wait_loop_rule [where P = I and Q = I, OF assms(1) s i n] show ?thesis by (simp add: I_def)
qed

lemma finish_outcome:
  "job_over co mi (mcode_finish co mi v) \<or> hd (core_tr (mcode_finish co mi v)) = Ask Exec_feed_hold \<or>
     w_answered (mc_wait (mcode_finish co mi v)) \<and> w_ok (mc_wait (mcode_finish co mi v))"
  "\<not> w_active (mc_wait (mcode_finish co mi v))" "w_seq (mc_wait (mcode_finish co mi v)) = w_seq (mc_wait v)"
  "w_code (mc_wait (mcode_finish co mi v)) = w_code (mc_wait v)"
  by (auto simp: mcode_finish_def Let_def ask_defs sys_abort_def state_get_def)


text \<open>The bench with one package's number, and a core whose abort follows a reset.\<close>

definition abort_mi :: mio where
  "abort_mi = bench_mi\<lparr>mi_abort := (\<lambda>c t. Cmd CMD_RESET \<in> set c)\<rparr>"

definition job_mach :: mach where
  "job_mach = bench_mach\<lparr>mc_table := [160]\<rparr>"

definition m160 :: parser_block where
  "m160 = \<lparr>pb_mcode = UserMCode_Other 160, pb_p = True, pb_q = False, pb_r = False, pb_axes = False, pb_val_p = Fin 1,
     pb_val_q = Fin 0, pb_val_r = Fin 0, pb_sync = True\<rparr>"


end
