(* ===== verification/Homing_Props.thy ===== *)
theory Homing_Props
  imports Homing_Session Release_Props
begin

text \<open>
  What the homes promise: the session with the runner comes to an end, a home is declared
  only for a runner that ended well, the lens stays inside its free travel, and the bed
  check's envelope closes to what it was.
\<close>

section \<open>The session ends\<close>

text \<open>
  What the session relies on: a killed runner is reaped, and the history of the core
  only grows.
\<close>

definition runner_contract :: "mio \<Rightarrow> 'a mach_ext rt \<Rightarrow> bool" where
  "runner_contract mi rt \<longleftrightarrow> (\<forall>c t. Ask Runner_kill \<in> set c \<longrightarrow> mi_waitpid mi c t \<noteq> Child_running) \<and>
     (\<forall>s. set (core_tr s) \<subseteq> set (core_tr (snd (rt s))))"

lemma ms_past:
  assumes "t0 \<le> t" "t \<le> t0 + 1000000" "n \<le> 4000000"
  shows "sint (of_int (ms_of t) - (of_int (ms_of t0) + of_nat n) :: u32) = ms_of t - ms_of t0 - int n"
proof -
  have "ms_of t0 \<le> ms_of t" "ms_of t \<le> ms_of t0 + 1000000000"
  proof -
    show "ms_of t0 \<le> ms_of t" unfolding ms_of_def by (rule floor_mono) (use assms in simp)
    have "ms_of t \<le> \<lfloor>t0 * 1000 + of_int 1000000000\<rfloor>" unfolding ms_of_def by (rule floor_mono) (use assms in simp)
    then show "ms_of t \<le> ms_of t0 + 1000000000" by (simp add: ms_of_def)
  qed
  then have "sint (of_int (ms_of t - ms_of t0 - int n) :: u32) = ms_of t - ms_of t0 - int n"
    by (intro sint_small) (use assms(3) in auto)
  moreover have "(of_int (ms_of t - ms_of t0 - int n) :: u32) = of_int (ms_of t) - (of_int (ms_of t0) + of_nat n)"
    by simp
  ultimately show ?thesis by metis
qed

text \<open>A deadline that has not passed on the counter has not passed on the clock.\<close>

lemma not_past:
  assumes "t0 \<le> t" "t \<le> t0 + 1000000" "n \<le> 4000000"
    "\<not> 0 < sint (of_int (ms_of t) - (of_int (ms_of t0) + of_nat n) :: u32)"
  shows "t \<le> t0 + of_nat n / 1000 + 1"
proof (rule ccontr)
  assume "\<not> t \<le> t0 + of_nat n / 1000 + 1"
  then have "t0 + of_nat (n + 1) / 1000 + 1 / 1000 \<le> t" by (simp add: field_simps)
  from ms_late [OF this] show False using assms ms_past [OF assms(1-3)] by simp
qed

abbreviation clock :: "os \<Rightarrow> 'a io_scheme \<Rightarrow> rat" where
  "clock os s \<equiv> os_now os (io_tr s)"

text \<open>Where the session stands in time: before the deadline, within the grace after the first signal, or killed.\<close>

definition session_inv :: "os \<Rightarrow> rat \<Rightarrow> nat \<Rightarrow> home_session \<times> 'a mach_scheme \<Rightarrow> bool" where
  "session_inv os t0 n ws \<longleftrightarrow> (let (w, s) = ws in
     t0 \<le> clock os s \<and>
     (ss_kill w \<longrightarrow> Ask Runner_kill \<in> set (core_tr s)) \<and>
     (\<not> ss_kill w \<and> ss_term w \<longrightarrow> (\<exists>tk. ss_kill_at w = of_int (ms_of tk) + KILL_GRACE_MS \<and> t0 \<le> tk \<and>
        tk \<le> t0 + of_nat n / 1000 + 6000 \<and> tk \<le> clock os s \<and> clock os s \<le> tk + 2000)) \<and>
     (\<not> ss_term w \<longrightarrow> clock os s \<le> t0 + of_nat n / 1000 + 2000))"

lemma millis_clock:
  assumes "pump_paced os rt dt"
  shows "clock os s \<le> clock os (snd (millis os s))" "clock os (snd (millis os s)) \<le> clock os s + 1000"
    "fst (millis os s) = of_int (ms_of (clock os s))" "core_tr (snd (millis os s)) = core_tr s"
  using pump_contractD(2) [OF pump_pacedD(1) [OF assms]] pump_pacedD(2) [OF assms]
  by (simp_all add: millis_upd wall_s_upd)

lemma session_signal_inv:
  assumes "pump_paced os rt dt" "n \<le> 4000000" "t0 \<le> t" "t + dt \<le> clock os s" "clock os s \<le> t + 1000" "\<not> ss_kill w"
    and term_w: "ss_term w \<Longrightarrow> \<exists>tk. ss_kill_at w = of_int (ms_of tk) + KILL_GRACE_MS \<and> t0 \<le> tk \<and>
        tk \<le> t0 + of_nat n / 1000 + 6000 \<and> tk \<le> t \<and> t \<le> tk + 2000"
    and open_w: "\<not> ss_term w \<Longrightarrow> t \<le> t0 + of_nat n / 1000 + 2000"
    and r: "session_signal os (of_int (ms_of t0) + of_nat n) w s = (w', s')"
  shows "session_inv os t0 n (w', s') \<and> t + dt \<le> clock os s'"
proof -
  note M = millis_clock [OF assms(1)]
  define s1 where "s1 = snd (millis os s)"
  have dt: "0 < dt" by (rule pump_contractD(1) [OF pump_pacedD(1) [OF assms(1)]])
  have n: "of_nat n / 1000 \<le> (4000 :: rat)" using assms(2) by (simp add: field_simps)
  have s1: "clock os s \<le> clock os s1" "clock os s1 \<le> clock os s + 1000" "core_tr s1 = core_tr s" using M [of s] by (simp_all add: s1_def)
  define overdue where "overdue \<longleftrightarrow> 0 < sint (of_int (ms_of (clock os s)) - (of_int (ms_of t0) + of_nat n) :: u32)"
  have e: "session_signal os (of_int (ms_of t0) + of_nat n) w s =
      (if (ss_aborted w \<or> overdue) \<and> \<not> ss_term w
       then (w\<lparr>ss_term := True, ss_kill_at := fst (millis os (ask Runner_term s1)) + KILL_GRACE_MS\<rparr>, snd (millis os (ask Runner_term s1)))
       else if ss_term w \<and> \<not> ss_kill w
       then (if 0 < sint (fst (millis os s1) - ss_kill_at w) then (w\<lparr>ss_kill := True\<rparr>, ask Runner_kill (snd (millis os s1)))
             else (w, snd (millis os s1)))
       else (w, s1))"
    using M(3) [of s] by (simp add: session_signal_def s1_def overdue_def Let_def case_prod_beta)
  consider (t) "(ss_aborted w \<or> overdue) \<and> \<not> ss_term w" | (k) "ss_term w" "0 < sint (fst (millis os s1) - ss_kill_at w)"
    | (g) "ss_term w" "\<not> 0 < sint (fst (millis os s1) - ss_kill_at w)" | (o) "\<not> ss_term w" "\<not> (ss_aborted w \<or> overdue)" by blast
  then show ?thesis
  proof cases
    case t
    define u where "u = snd (millis os (ask Runner_term s1))"
    have u: "clock os s1 \<le> clock os u" "clock os u \<le> clock os s1 + 1000"
      "fst (millis os (ask Runner_term s1)) = of_int (ms_of (clock os s1))"
      using M [of "ask Runner_term s1"] by (simp_all add: u_def)
    have "w' = w\<lparr>ss_term := True, ss_kill_at := of_int (ms_of (clock os s1)) + KILL_GRACE_MS\<rparr>" "s' = u"
      using r t e u(3) by (simp_all add: u_def)
    then show ?thesis using u s1 assms(3-6) open_w t n dt unfolding session_inv_def
      by (auto intro!: exI [of _ "clock os s1"])
  next
    case k
    have "w' = w\<lparr>ss_kill := True\<rparr>" "s' = ask Runner_kill (snd (millis os s1))" using r k e assms(6) by simp_all
    then show ?thesis using k M [of s1] s1 assms(3-5) dt unfolding session_inv_def by (auto simp: ask_defs)
  next
    case g
    obtain tk where tk: "ss_kill_at w = of_int (ms_of tk) + KILL_GRACE_MS" "t0 \<le> tk" "tk \<le> t0 + of_nat n / 1000 + 6000" "tk \<le> t" "t \<le> tk + 2000"
      using term_w [OF g(1)] by blast
    have "clock os s1 \<le> tk + of_nat 5000 / 1000 + 1"
    proof (rule not_past)
      show "tk \<le> clock os s1" "clock os s1 \<le> tk + 1000000" using tk s1 assms(4,5) dt by auto
      show "\<not> 0 < sint (of_int (ms_of (clock os s1)) - (of_int (ms_of tk) + of_nat 5000) :: u32)"
        using g(2) M(3) [of s1] tk(1) by (simp add: KILL_GRACE_MS_def)
    qed simp
    moreover have "w' = w" "s' = snd (millis os s1)" using r g e assms(6) by simp_all
    ultimately show ?thesis using g assms(6) M [of s1] s1 assms(3-5) tk dt unfolding session_inv_def
      by (auto intro!: exI [of _ tk])
  next
    case o
    have "clock os s \<le> t0 + of_nat n / 1000 + 1"
      by (rule not_past) (use o(2) open_w [OF o(1)] assms(2-5) n dt in \<open>auto simp: overdue_def\<close>)
    moreover have "w' = w" "s' = s1" using r o e by simp_all
    ultimately show ?thesis using o assms(3-6) s1 dt unfolding session_inv_def by auto
  qed
qed


lemma session_turn_inv:
  assumes "pump_paced os rt dt" "runner_contract mi rt" "n \<le> 4000000" "session_inv os t0 n ws"
    and r: "session_turn os mi rt (of_int (ms_of t0) + of_nat n) ws = Inr ws'"
  shows "session_inv os t0 n ws' \<and> clock os (snd ws) + dt \<le> clock os (snd ws') \<and> clock os (snd ws) \<le> t0 + 20000"
proof -
  obtain w s where ws: "ws = (w, s)" by (cases ws)
  note P = pump_contractD [OF pump_pacedD(1) [OF assms(1)]] and Q = pump_pacedD [OF assms(1)]
  have run: "mi_waitpid mi (core_tr s) (io_tr s) = Child_running"
    using r by (auto simp: session_turn_def ws split: child_ans.splits)
  then have nk: "\<not> ss_kill w" using assms(2,4) unfolding runner_contract_def session_inv_def ws by auto
  define w1 where "w1 = (if fst (pump rt s) then w else w\<lparr>ss_aborted := True\<rparr>)"
  define u where "u = snd (pump rt s)"
  obtain w' s' where ws': "ws' = (w', s')" by (cases ws')
  have sg: "session_signal os (of_int (ms_of t0) + of_nat n) w1 u = (w', s')"
    using r run by (cases "fst (pump rt s)") (simp_all add: session_turn_def ws ws' w1_def u_def Let_def case_prod_beta)
  have w1: "ss_kill w1 = ss_kill w" "ss_term w1 = ss_term w" "ss_kill_at w1 = ss_kill_at w" by (simp_all add: w1_def)
  have n: "of_nat n / 1000 \<le> (4000 :: rat)" using assms(3) by (simp add: field_simps)
  have inv: "t0 \<le> clock os s" "ss_term w \<Longrightarrow> \<exists>tk. ss_kill_at w = of_int (ms_of tk) + KILL_GRACE_MS \<and> t0 \<le> tk \<and>
      tk \<le> t0 + of_nat n / 1000 + 6000 \<and> tk \<le> clock os s \<and> clock os s \<le> tk + 2000"
    "\<not> ss_term w \<Longrightarrow> clock os s \<le> t0 + of_nat n / 1000 + 2000"
    using assms(4) nk unfolding session_inv_def ws by auto
  have "session_inv os t0 n (w', s') \<and> clock os s + dt \<le> clock os s'"
    by (rule session_signal_inv [OF assms(1,3) inv(1) _ _ _ _ _ sg])
       (use P(3) [of s] Q(3) [of s] nk inv w1 in \<open>simp_all add: u_def\<close>)
  moreover have "clock os s \<le> t0 + 20000" using inv n by (cases "ss_term w") force+
  ultimately show ?thesis by (simp add: ws ws')
qed

lemma cloud_timeout_bound: "cloud_timeout_ms os s \<le> 3600000"
proof -
  have "fl_rat (gfhome_clamp_timeout_s f (Fin TIMEOUT_S_DEFAULT)) \<le> 3600" for f
    by (cases f) (auto simp: gfhome_clamp_timeout_s_def fl_lt_def TIMEOUT_S_DEFAULT_def)
  moreover have "nat \<lfloor>x * 1000\<rfloor> \<le> 3600000" if "x \<le> 3600" for x :: rat using that by linarith
  ultimately show ?thesis unfolding cloud_timeout_ms_def by blast
qed

abbreviation session_start :: home_session where
  "session_start \<equiv> \<lparr>ss_aborted = False, ss_term = False, ss_kill = False, ss_kill_at = 0\<rparr>"


text \<open>A runner that never ends by itself and dies of the second signal.\<close>

definition stuck_mi :: mio where
  "stuck_mi = bench_mi\<lparr>mi_waitpid := (\<lambda>c t. if Ask Runner_kill \<in> set c then Child_reaped None else Child_running)\<rparr>"

lemma timed_paced: "pump_paced bench_os timed_rt (1 / 100)"
  unfolding pump_paced_def by (intro conjI timed_contract) (simp_all add: timed_rt_def emit_def bench_os_def field_simps)


section \<open>The envelope\<close>

lemma far_edge_bounds:
  assumes "20 \<le> travel"
  shows "min 50 travel \<le> far_edge os key travel s \<and> far_edge os key travel s \<le> travel + GFHOME_ENVELOPE_EXTRA_MM"
  using assms by (cases "gfio_conf_read_float os key (Fin (- 1)) s")
    (auto simp: far_edge_def gfhome_clamp_envelope_mm_def fl_le_def fl_lt_def GFHOME_ENVELOPE_EXTRA_MM_def Let_def)

text \<open>
  The bed check's envelope. It opens only for homed X and Y on an Idle machine with no
  laser window; it opens to the travel plus 30 mm and no further; closing it, by a sender's
  line, a reset, or the port client's end, brings back exactly the edges that stood, also
  after it was opened again while open; and applying sets edges that never pass the opened
  ones.
\<close>

theorem envelope_round_trip:
  fixes s :: "'a mach_scheme"
  assumes "gfhome_envelope os co True s = (0, s1)" "gfhome_envelope os' co' True s1 = (rc, s2)" "\<not> envelope_is_open s"
    and "20 \<le> fst (travel_xy s)" "20 \<le> snd (travel_xy s)"
  shows "state_get co s = STATE_IDLE \<and> \<not> laser_ok s \<and> sys_homed s AND (X_AXIS_BIT OR Y_AXIS_BIT) = X_AXIS_BIT OR Y_AXIS_BIT \<and>
    sys_env_max_xy s1 = (fst (travel_xy s) + 30, snd (travel_xy s) + 30) \<and>
    sys_env_max_xy (gfhome_envelope_close s1) = sys_env_max_xy s \<and>
    sys_env_max_xy (gfhome_envelope_close s2) = sys_env_max_xy s \<and> \<not> envelope_is_open (gfhome_envelope_close s2) \<and>
    fst (far_edges os'' s) \<le> fst (sys_env_max_xy s1) \<and> snd (far_edges os'' s) \<le> snd (sys_env_max_xy s1)"
proof -
  have c: "state_get co s = STATE_IDLE" "\<not> laser_ok s" "sys_homed s AND (X_AXIS_BIT OR Y_AXIS_BIT) = X_AXIS_BIT OR Y_AXIS_BIT"
    using assms(1) by (auto simp: gfhome_envelope_def gflaser_armed_def split: if_splits)
  have s1: "sys_env_max_xy s1 = (fst (travel_xy s) + 30, snd (travel_xy s) + 30)" "envelope_is_open s1"
    "envelope_closed s1 = sys_env_max_xy s" "travel_xy s1 = travel_xy s"
    using assms(1,3) by (auto simp: gfhome_envelope_def GFHOME_ENVELOPE_EXTRA_MM_def core_defs Let_def split: if_splits)
  have s2: "envelope_closed s2 = sys_env_max_xy s" "envelope_is_open s2"
    using assms(2) s1 by (auto simp: gfhome_envelope_def core_defs Let_def split: if_splits)
  show ?thesis using c s1 s2 far_edge_bounds [OF assms(4), of os'' "''envelope_x_mm''" s] far_edge_bounds [OF assms(5), of os'' "''envelope_y_mm''" s]
    by (simp add: gfhome_envelope_close_def far_edges_def GFHOME_ENVELOPE_EXTRA_MM_def)
qed

theorem envelope_round_trip_witness:
  "\<exists>s1. gfhome_envelope bench_os bench_co True (bench_mach\<lparr>sys_homed := 7, laser_ok := False\<rparr>) = (0, s1) \<and>
     sys_env_max_xy (gfhome_envelope_close s1) = sys_env_max_xy bench_mach \<and> sys_env_max_xy s1 = (530, 310)"
proof -
  define s where "s = bench_mach\<lparr>sys_homed := 7, laser_ok := False\<rparr>"
  have m: "(7 :: u8) AND (X_AXIS_BIT OR Y_AXIS_BIT) = X_AXIS_BIT OR Y_AXIS_BIT" by (simp add: X_AXIS_BIT_def Y_AXIS_BIT_def)
  have t: "travel_xy s = (500, 280)" "\<not> envelope_is_open s" "sys_env_max_xy s = sys_env_max_xy bench_mach"
    using bench_mach_sel by (simp_all add: s_def bench_mach_def mach0_def ctl.defs mach.defs)
  have i: "state_get bench_co s = STATE_IDLE" by (simp add: bench_co_def)
  obtain s1 where s1: "gfhome_envelope bench_os bench_co True s = (0, s1)"
    using i m by (simp add: gfhome_envelope_def gflaser_armed_def Let_def s_def)
  obtain rc s2 where s2: "gfhome_envelope bench_os bench_co True s1 = (rc, s2)" by fastforce
  show ?thesis using envelope_round_trip [OF s1 s2 t(2)] t s1 by (auto simp: s_def)
qed

section \<open>What the stream calls keep of the reference\<close>

text \<open>The reference, and everything above the stream's own fields.\<close>

definition hview :: "'a gf_scheme \<Rightarrow> u8 \<times> bool \<times> rat \<times> 'a" where
  "hview s = (sys_homed s, z_referenced s, z_spm s, gf.more s)"

lemma hview_core: "hview s = hview s' \<Longrightarrow> core_tr s = core_tr s'"
  by (cases s, cases s') (simp add: hview_def)

lemma hview_io [simp]:
  "hview (emit e s) = hview s" "hview (snd (wall_s os s)) = hview s" "hview (sleep_ns n s) = hview s" "hview (wr_attr os a v s) = hview s"
  "hview (snd (lseek_dev os fd p s)) = hview s" "hview (snd (gfio_rd_attr os a len s)) = hview s"
  "hview (gfio_currents_hold os s) = hview s" "hview (gfio_analog_config os s) = hview s"
  by (simp_all add: hview_def frame_simps emit_def gfio_currents_hold_def gfio_analog_config_def gfio_xy_microsteps_def Let_def
        case_prod_beta)

lemma hview_stream [simp]:
  "hview (snd (gf_stream_suspend os s)) = hview s" "hview (snd (apply_tick os s)) = hview s" "hview (resume_swap x s) = hview s"
  "hview (rebase_at_takeover os b s) = hview s" "hview (gf_stream_clear_position os s) = hview s"
  by (simp_all add: hview_def frame_simps emit_def gf_stream_suspend_def close_dev_def latch_log_def gfio_currents_hold_def
        apply_tick_def resume_swap_def dither_reset_def rebase_at_takeover_def rebase_locked_def kernel_steps_def
        gf_stream_clear_position_def Let_def case_prod_beta split: option.split)

lemma hview_latch_retry [simp]: "hview (snd (latch_retry os v n rc s)) = hview s"
  by (induction os v n rc s rule: latch_retry.induct) (simp_all add: gfio_wr_attr_upd case_prod_beta hview_def sleep_ns_upd)

lemma hview_upd [simp]:
  "hview (s\<lparr>latch_locked_by_us := a\<rparr>) = hview s" "hview (s\<lparr>latch_fail_reported := b\<rparr>) = hview s"
  "hview (s\<lparr>suspended := a\<rparr>) = hview s" "hview (latch_log l s) = hview s" "hview (latch_fault s) = hview s"
  by (simp_all add: hview_def latch_log_def emit_def latch_fault_def)

lemma hview_latch [simp]: "hview (snd (gf_stream_laser_latch os b s)) = hview s"
proof -
  have "hview (snd (latch_write_locked os b s)) = hview s" for b
    by (simp add: latch_write_locked_def wr_attr_rc Let_def case_prod_beta)
  then show ?thesis by (simp add: gf_stream_laser_latch_def Let_def case_prod_beta)
qed

lemma hview_resume_device [simp]: "hview (snd (resume_device os x s)) = hview s"
  by (simp add: resume_device_def Let_def case_prod_beta)

lemma hview_settle:
  fixes s :: "'a gf_scheme"
  assumes "settle_wait os d s = Some s'"
  shows "hview s' = hview s"
proof (rule settle_wait.raw_induct [where P = "\<lambda>os d s s'. hview s' = hview s", OF _ assms])
  fix w os d and s s' :: "'a gf_scheme"
  assume IH: "\<And>os d s s'. w os d s = Some s' \<Longrightarrow> hview s' = hview s"
    and eq: "(case wall_s os s of (now, s') \<Rightarrow> if fl_lt (Fin now) d then w os d (sleep_ns 50000000 s') else Some s') = Some s'"
  have k: "hview (snd (wall_s os s)) = hview s" by simp
  show "hview s' = hview s"
    using eq k IH [of os d "sleep_ns 50000000 (snd (wall_s os s))" s'] by (auto simp: case_prod_beta split: if_splits)
qed

lemma hview_reacquire [simp]: "hview (snd (reacquire os n s)) = hview s"
proof (induction n arbitrary: s)
  case (Suc n)
  have "hview (snd (gfio_open_pulse_dev_nb os (gf_dev s) s)) = hview s"
    by (simp add: gfio_open_pulse_dev_nb_def open_pulse_dev_def Let_def split: option.split)
  then show ?case using Suc.IH by (simp add: case_prod_beta split: option.split)
qed simp

lemma hview_rail:
  fixes s :: "'a gf_scheme"
  assumes "rail_settle os s = Some s'"
  shows "hview s' = hview s"
  using assms hview_settle [of os _ "snd (wall_s os (wr_attr os Cnc_disable ''1'' s))" s']
  by (auto simp: rail_settle_def Let_def case_prod_beta split: if_splits)

lemma hview_resume:
  assumes "gf_stream_resume os s = Some (ok, s')"
  shows "hview s' = hview s"
proof -
  obtain r s1 where a: "reacquire os 50 s = (r, s1)" by fastforce
  have s1: "hview s1 = hview s" using hview_reacquire [of os 50 s] a by simp
  have d: "hview v = hview u" if "resume_device os x u = (b, v)" for x b v and u :: "'a gf_scheme"
    using hview_resume_device [of os x u] that by simp
  show ?thesis using assms a s1 d hview_rail [of os s1]
    by (auto simp: gf_stream_resume_def split: if_splits option.splits)
qed

section \<open>The web-service home\<close>

text \<open>No axis is referenced, over a step scale that makes sense.\<close>

definition unref :: "'a homing_scheme \<Rightarrow> bool" where
  "unref s \<longleftrightarrow> sys_homed s AND (X_AXIS_BIT OR Y_AXIS_BIT) = 0 \<and> \<not> z_referenced s \<and> 0 < z_spm s"

lemma unref_hview: "hview s = hview s' \<Longrightarrow> unref s = unref s'"
  by (simp add: unref_def hview_def)

lemma unref_invalidate: "0 < z_spm s \<Longrightarrow> unref (gfhome_invalidate s)"
  by (simp add: unref_def gfhome_invalidate_upd xy_bits_cleared del: bit.de_Morgan_disj)

lemma unref_ask [simp]: "unref (ask r s) = unref s" "unref (report_message m s) = unref s" "unref (state_set st s) = unref s"
  "unref (snd (millis os s)) = unref s"
  by (simp_all add: unref_def ask_defs millis_upd wall_s_upd)

lemma millis_core [simp]: "core_tr (snd (millis os s)) = core_tr s"
  by (simp add: millis_upd wall_s_upd)

text \<open>What stands while the runner has the machine: no reference, and no signal that the session does not know of.\<close>

definition quiet_runner :: "'a mach_scheme \<Rightarrow> bool" where
  "quiet_runner s \<longleftrightarrow> Ask Runner_term \<notin> set (core_tr s)"

definition under_way :: "home_session \<times> 'a mach_scheme \<Rightarrow> bool" where
  "under_way ws \<longleftrightarrow> unref (snd ws) \<and> (ss_term (fst ws) \<or> quiet_runner (snd ws))"

lemma unref_pump: "rt_keeps unref rt \<Longrightarrow> unref s \<Longrightarrow> unref (snd (pump rt s))"
  "rt_keeps quiet_runner rt' \<Longrightarrow> quiet_runner s' \<Longrightarrow> quiet_runner (snd (pump rt' s'))"
  by (simp_all add: rt_keeps_def pump_def Let_def case_prod_beta unref_def quiet_runner_def core_defs)

lemma suspend_core [simp]: "core_tr (snd (gf_stream_suspend os s)) = core_tr s"
  by (simp add: gf_stream_suspend_def close_dev_def latch_log_def gfio_currents_hold_def frame_simps emit_def Let_def
        case_prod_beta)

lemma suspend_wait_unref:
  assumes "wait_loop (suspend_turn os rt g) s = Some (ok, u)" "rt_keeps unref rt" "rt_keeps quiet_runner rt" "unref s" "quiet_runner s"
  shows "unref u \<and> quiet_runner u"
proof -
  define I where "I v \<longleftrightarrow> unref v \<and> quiet_runner v" for v :: "'a mach_scheme"
  have k: "I (snd (gf_stream_suspend os v)) = I v" "I (snd (millis os v)) = I v" for v
    using unref_hview [of "snd (gf_stream_suspend os v)" v] by (simp_all add: I_def quiet_runner_def)
  have p: "I v \<Longrightarrow> I (snd (pump rt v))" for v using unref_pump(1) [OF assms(2)] unref_pump(2) [OF assms(3)] by (simp add: I_def)
  have t: "case suspend_turn os rt g v of Inl r \<Rightarrow> I (snd r) | Inr v' \<Rightarrow> I v'" if "I v" for v
  proof -
    define m where "m = snd (millis os (snd (gf_stream_suspend os v)))"
    have "I (snd (gf_stream_suspend os v))" "I m" "I (snd (pump rt m))" using that p [of m] by (simp_all add: m_def k)
    then show ?thesis by (simp add: suspend_turn_def Let_def case_prod_beta m_def)
  qed
  have i: "I (snd r)" if "I v" "suspend_turn os rt g v = Inl r" for v r using t [OF that(1)] that(2) by simp
  have n: "I v'" if "I v" "suspend_turn os rt g v = Inr v'" for v v' using t [OF that(1)] that(2) by simp
  have "I s" using assms(4,5) by (simp add: I_def)
  from wait_loop_rule [where P = I and Q = "\<lambda>r. I (snd r)", OF assms(1) this i n] show ?thesis by (simp add: I_def)
qed

lemma session_signal_under_way:
  assumes "under_way (w, s)"
  shows "under_way (session_signal os d w s)"
proof -
  have k: "unref (snd (millis os v)) = unref v" "unref (ask r v) = unref v" "core_tr (snd (millis os v)) = core_tr v"
    for v :: "'a mach_scheme" and r by simp_all
  show ?thesis using assms
    by (auto simp: under_way_def session_signal_def quiet_runner_def k ask_sys Let_def case_prod_beta)
qed

lemma session_wait_under_way:
  assumes "wait_loop (session_turn os mi rt d) ws = Some (exited, w, u)" "rt_keeps unref rt" "rt_keeps quiet_runner rt" "under_way ws"
  shows "under_way (w, u) \<and> (exited = Some (Some 0) \<longrightarrow> Ask (Runner_wait (Some 0)) \<in> set (core_tr u))"
proof -
  define Q where "Q r \<longleftrightarrow> under_way (snd r) \<and> (fst r = Some (Some 0) \<longrightarrow> Ask (Runner_wait (Some 0)) \<in> set (core_tr (snd (snd r))))"
    for r :: "int option option \<times> home_session \<times> 'a mach_scheme"
  have a: "under_way (w, ask (Runner_wait st) s) = under_way (w, s)" for w st and s :: "'a mach_scheme"
    by (simp add: under_way_def quiet_runner_def ask_sys)
  have i: "Q r" if "under_way v" "session_turn os mi rt d v = Inl r" for v r
    using that a by (cases v) (auto simp: session_turn_def Q_def ask_sys Let_def case_prod_beta split: child_ans.splits)
  have p: "under_way (w, snd (pump rt s)) \<and> under_way (w\<lparr>ss_aborted := True\<rparr>, snd (pump rt s))" if "under_way (w, s)" for w s
    using that unref_pump(1) [OF assms(2)] unref_pump(2) [OF assms(3)] by (simp add: under_way_def) blast
  have n: "under_way v'" if "under_way v" "session_turn os mi rt d v = Inr v'" for v v'
  proof -
    obtain w s where v: "v = (w, s)" by (cases v)
    have "v' = session_signal os d (if fst (pump rt s) then w else w\<lparr>ss_aborted := True\<rparr>) (snd (pump rt s))"
      using that(2) by (auto simp: session_turn_def v Let_def case_prod_beta split: child_ans.splits)
    then show ?thesis using p [of w s] that(1) v by (auto intro!: session_signal_under_way)
  qed
  from wait_loop_rule [where P = under_way and Q = Q, OF assms(1,4) i n] show ?thesis by (simp add: Q_def)
qed

lemma lens_stop_pos: "0 < fb \<Longrightarrow> 0 < lens_stop os key fb s"
  by (cases "gfio_conf_read_float os key (Fin 0) s") (auto simp: lens_stop_def fl_le_def Let_def)

lemma park_in_window: "0 < down \<Longrightarrow> 0 < up \<Longrightarrow> - down \<le> gfhome_park_steps e p spm down up \<and> gfhome_park_steps e p spm down up \<le> up"
  by (simp add: gfhome_park_steps_def Let_def)

lemma home_completed_fields [simp]:
  "z_env_min (home_completed os h a b src s) = z_env_min s" "z_env_max (home_completed os h a b src s) = z_env_max s"
  "z_spm (home_completed os h a b src s) = z_spm s" "sys_home_z (home_completed os h a b src s) = sys_home_z s"
  "z_referenced (home_completed os h a b src s) = z_referenced s" "sys_homed (home_completed os h a b src s) = sys_homed s OR Z_AXIS_BIT"
  "sys_env_z (home_completed os h a b src s) = (if z_referenced s then (z_env_min s, z_env_max s)
     else (of_int (sys_position_z s) / z_spm s, of_int (sys_position_z s) / z_spm s))"
  "sys_position_z (home_completed os h a b src s) = sys_position_z s"
  by (simp_all add: home_completed_def gfhome_apply_z_limit_def gf_stream_clear_position_def anchor_write_def ask_defs
        lseek_dev_upd rebase_locked_def Let_def)

lemma home_completed_mach [simp]:
  "sys_home_xy (home_completed os h a b src s) = sys_home_xy s" "sys_env_min_xy (home_completed os h a b src s) = sys_env_min_xy s"
  "sys_env_max_xy (home_completed os h a b src s) = sys_env_max_xy s" "sys_position_xy (home_completed os h a b src s) = sys_position_xy s"
  "envelope_is_open (home_completed os h a b src s) = envelope_is_open s" "spm_xy (home_completed os h a b src s) = spm_xy s"
  "core_tr (home_completed os h a b src s) =
     Ask Go_idle # Ask (State_set STATE_IDLE) # Ask Report_homed # Ask (Homing_completed a) # Ask Sync_position # core_tr s"
  by (simp_all add: home_completed_def gfhome_apply_z_limit_def gf_stream_clear_position_def anchor_write_def ask_defs
        lseek_dev_upd rebase_locked_def Let_def)

lemma all_axes: "(X_AXIS_BIT OR Y_AXIS_BIT OR Z_AXIS_BIT) OR Z_AXIS_BIT = X_AXIS_BIT OR Y_AXIS_BIT OR Z_AXIS_BIT"
  by (simp add: X_AXIS_BIT_def Y_AXIS_BIT_def Z_AXIS_BIT_def)

text \<open>What a declared home leaves: every axis homed, the lens inside its free travel, the limits on it.\<close>

definition home_stands :: "'a mach_scheme \<Rightarrow> bool" where
  "home_stands s \<longleftrightarrow> sys_homed s = X_AXIS_BIT OR Y_AXIS_BIT OR Z_AXIS_BIT \<and> z_referenced s \<and>
     z_env_min s < sys_home_z s \<and> sys_home_z s < z_env_max s \<and> sys_env_z s = (z_env_min s, z_env_max s) \<and>
     sys_home_z s = of_int (sys_position_z s) / z_spm s \<and>
     fst (sys_env_min_xy s) \<le> fst (sys_home_xy s) \<and> snd (sys_env_min_xy s) \<le> snd (sys_home_xy s) \<and> \<not> envelope_is_open s"

lemma cloud_homed_stands:
  assumes "0 < z_spm s" "- down \<le> park" "park \<le> up"
  shows "home_stands (cloud_homed os e down up park s)" "set (core_tr s) \<subseteq> set (core_tr (cloud_homed os e down up park s))"
    "Ask Runner_term \<notin> set (core_tr s) \<Longrightarrow> Ask Runner_term \<notin> set (core_tr (cloud_homed os e down up park s))"
proof -
  define u where "u = snd (gftray_shift_steps os s)"
  define k where "k = gfhome_z_steps e (z_spm s) + fst (gftray_shift_steps os s)"
  have u: "z_spm u = z_spm s" "core_tr u = core_tr s" by (simp_all add: u_def gftray_shift_steps_def Let_def)
  have z: "lround (of_int (k + park) / z_spm s * z_spm s) = k + park" using assms(1) by (simp del: of_int_add)
  show "home_stands (cloud_homed os e down up park s)"
    unfolding cloud_homed_def Let_def case_prod_beta u_def [symmetric] u(1) k_def [symmetric] grid_home_def z
    using assms u(1) by (simp add: home_stands_def all_axes divide_strict_right_mono)
  show "set (core_tr s) \<subseteq> set (core_tr (cloud_homed os e down up park s))"
    "Ask Runner_term \<notin> set (core_tr s) \<Longrightarrow> Ask Runner_term \<notin> set (core_tr (cloud_homed os e down up park s))"
    by (auto simp: cloud_homed_def Let_def case_prod_beta u_def [symmetric] u)
qed

lemma cloud_session_sound:
  fixes s :: "'a mach_scheme"
  assumes "cloud_session os co mi rt n entry s = Some (st, s')" "rt_keeps unref rt" "rt_keeps quiet_runner rt" "unref s" "quiet_runner s"
  shows "unref s' \<or> st = Status_OK \<and> home_stands s' \<and> Ask (Runner_wait (Some 0)) \<in> set (core_tr s') \<and> Ask Runner_term \<notin> set (core_tr s')"
proof -
  obtain e down up park where l: "cloud_lens os mi s = (e, down, up, park)" by (metis prod_cases4)
  have pk: "- down \<le> park" "park \<le> up"
    using l lens_stop_pos [of LENS_WINDOW_DOWN os "''lens_stop_below_steps''" s] lens_stop_pos [of LENS_WINDOW_UP os "''lens_stop_above_steps''" s]
    by (auto simp: cloud_lens_def Let_def LENS_WINDOW_DOWN_def LENS_WINDOW_UP_def dest: park_in_window)
  define s1 where "s1 = ask (Runner_spawn (cloud_cmd os s) (if n > 60000 then n div 1000 - 30 else 30) park (report_secret s \<noteq> [])) s"
  have s1: "unref s1" "quiet_runner s1" using assms(4,5) by (simp_all add: s1_def quiet_runner_def ask_sys)
  have eq: "cloud_session os co mi rt n entry s = (if \<not> mi_fork mi (core_tr s1) (io_tr s1)
      then map_option (\<lambda>(resumed, s). (Status_IdleError, state_set entry (if resumed then s else ask Alarm_HomingFail s))) (gf_stream_resume os s1)
      else case wait_loop (session_turn os mi rt (fst (millis os s1) + of_nat n)) (session_start, snd (millis os s1)) of
          None \<Rightarrow> None
        | Some (exited, w, s) \<Rightarrow> map_option (\<lambda>(resumed, s). cloud_end os co (e, down, up, park) exited w resumed s) (gf_stream_resume os s))"
    unfolding cloud_session_def l Let_def prod.case s1_def [symmetric] by (simp add: case_prod_beta)
  show ?thesis
  proof (cases "mi_fork mi (core_tr s1) (io_tr s1)")
    case False
    then obtain b u where r: "gf_stream_resume os s1 = Some (b, u)" "s' = state_set entry (if b then u else ask Alarm_HomingFail u)"
      using assms(1) unfolding eq by auto
    then show ?thesis using s1 unref_hview [OF hview_resume [OF r(1)]] by simp
  next
    case True
    obtain exited w v b u where v: "wait_loop (session_turn os mi rt (fst (millis os s1) + of_nat n)) (session_start, snd (millis os s1)) = Some (exited, w, v)"
      "gf_stream_resume os v = Some (b, u)" "cloud_end os co (e, down, up, park) exited w b u = (st, s')"
      using assms(1) True unfolding eq by (auto split: option.splits)
    have "under_way (session_start, snd (millis os s1))" using s1 by (simp add: under_way_def quiet_runner_def)
    note uw = session_wait_under_way [OF v(1) assms(2,3) this]
    have u: "unref u" "core_tr u = core_tr v"
      using uw unref_hview [OF hview_resume [OF v(2)]] hview_core [OF hview_resume [OF v(2)]] by (simp_all add: under_way_def)
    show ?thesis
    proof (cases "b \<and> exited = Some (Some 0) \<and> \<not> ss_aborted w \<and> \<not> ss_term w")
      case True
      then have e: "st = Status_OK" "s' = cloud_homed os e down up park u" using v(3) by (simp_all add: cloud_end_def)
      have "Ask (Runner_wait (Some 0)) \<in> set (core_tr u)" "Ask Runner_term \<notin> set (core_tr u)" "0 < z_spm u"
        using True uw u by (auto simp: under_way_def quiet_runner_def unref_def)
      then show ?thesis using e cloud_homed_stands [OF _ pk, of u os e] by auto
    next
      case False
      then have "unref s'" using v(3) u(1) by (auto simp: cloud_end_def Let_def)
      then show ?thesis by simp
    qed
  qed
qed

text \<open>
  C35. A web-service home is declared only for a runner that ended well. Either the
  machine is left without any reference, as the session's start made it; or the runner
  was reaped with exit status 0 and was never signalled, and then all three axes are
  homed, the lens stands inside its free travel with the soft limit on it, on the step
  grid, X and Y stand inside their envelope, and no bed-check envelope is open.
\<close>

theorem cloud_home_sound:
  fixes s :: "'a mach_scheme"
  assumes "gfcloud_home os co mi rt entry s = Some (st, s')"
    and "rt_keeps unref rt" "rt_keeps quiet_runner rt" "quiet_runner s" "0 < z_spm s"
  shows "unref s' \<or> st = Status_OK \<and> home_stands s' \<and> Ask (Runner_wait (Some 0)) \<in> set (core_tr s') \<and> Ask Runner_term \<notin> set (core_tr s')"
proof -
  define s1 where "s1 = gfhome_invalidate (state_set {HOMING} s)"
  have s1: "unref s1" "quiet_runner s1"
    using assms(4,5) unref_invalidate [of "state_set {HOMING} s"]
    by (simp_all add: s1_def quiet_runner_def gfhome_invalidate_upd ask_defs)
  have s2: "unref (snd (millis os s1))" "quiet_runner (snd (millis os s1))"
    using s1 by (simp_all add: quiet_runner_def)
  obtain taken u where u: "wait_loop (suspend_turn os rt (fst (millis os s1) + SUSPEND_WAIT_MS)) (snd (millis os s1)) = Some (taken, u)"
    using assms(1) by (auto simp: gfcloud_home_def s1_def Let_def case_prod_beta split: option.splits)
  have qu: "unref u \<and> quiet_runner u" by (rule suspend_wait_unref [OF u assms(2,3) s2])
  show ?thesis
  proof (cases taken)
    case False
    then have "s' = state_set entry u" using assms(1) u by (auto simp: gfcloud_home_def s1_def Let_def case_prod_beta)
    then show ?thesis using qu by simp
  next
    case True
    then have "cloud_session os co mi rt (cloud_timeout_ms os s) entry u = Some (st, s')"
      using assms(1) u by (simp add: gfcloud_home_def s1_def Let_def case_prod_beta)
    then show ?thesis using cloud_session_sound qu assms(2,3) by blast
  qed
qed

lemma suspend_at_rest:
  assumes "\<not> gf_active s"
  shows "wait_loop (suspend_turn os rt g) s = Some (True, s\<lparr>suspended := True\<rparr>)"
  using assms by (subst wait_loop.simps) (simp add: suspend_turn_def gf_stream_suspend_def)

text \<open>A machine on the null sink, and a runner that exits with success at once.\<close>

theorem cloud_home_sound_witness:
  "\<exists>s'. gfcloud_home bench_os bench_co bench_mi idle_rt {} (bench_mach\<lparr>gf_active := False, core_tr := []\<rparr>) = Some (Status_OK, s') \<and>
     home_stands s' \<and> Ask (Runner_wait (Some 0)) \<in> set (core_tr s') \<and> Ask Runner_term \<notin> set (core_tr s')"
proof -
  define s where "s = bench_mach\<lparr>gf_active := False, core_tr := []\<rparr>"
  have m: "gf_active (gfhome_invalidate s) = gf_active s" "gf_active (snd (millis bench_os s)) = gf_active s"
    "gf_active (ask r s) = gf_active s" "gf_active (state_set st s) = gf_active s" for r st and s :: mach
    by (simp_all add: gfhome_invalidate_upd millis_upd wall_s_upd ask_defs)
  have rt: "rt_keeps unref (idle_rt :: unit mach_ext rt)" "rt_keeps quiet_runner (idle_rt :: unit mach_ext rt)"
    by (simp_all add: rt_keeps_def idle_rt_def emit_def unref_def quiet_runner_def)
  have a: "\<not> gf_active s" "quiet_runner s" "0 < z_spm s" using bench_mach_sel by (simp_all add: s_def quiet_runner_def)
  have turn: "wait_loop (session_turn bench_os bench_mi idle_rt d) (w, v) = Some (Some (Some 0), w, ask (Runner_wait (Some 0)) v)" for d w and v :: mach
    by (subst wait_loop.simps) (simp add: session_turn_def bench_mi_def)
  have e: "\<exists>v. cloud_session bench_os bench_co bench_mi idle_rt n {} u = Some (Status_OK, v) \<and> z_referenced v" if "\<not> gf_active u" for n and u :: mach
    using that by (simp add: cloud_session_def turn Let_def case_prod_beta gf_stream_resume_def m cloud_end_def cloud_homed_def grid_home_def)
       (simp add: bench_mi_def)
  obtain s' where h: "gfcloud_home bench_os bench_co bench_mi idle_rt {} s = Some (Status_OK, s')" "z_referenced s'"
  proof -
    define v where "v = snd (millis bench_os (gfhome_invalidate (state_set {HOMING} s)))"
    have v: "\<not> gf_active v" using a(1) by (simp add: v_def m)
    have "gfcloud_home bench_os bench_co bench_mi idle_rt {} s =
        cloud_session bench_os bench_co bench_mi idle_rt (cloud_timeout_ms bench_os s) {} (v\<lparr>suspended := True\<rparr>)"
      unfolding gfcloud_home_def Let_def case_prod_beta v_def [symmetric] suspend_at_rest [OF v] by simp
    then show ?thesis using that e [of "v\<lparr>suspended := True\<rparr>" "cloud_timeout_ms bench_os s"] v by auto
  qed
  have "\<not> unref s'" using h(2) by (simp add: unref_def)
  then show ?thesis using cloud_home_sound [OF h(1) rt a(2,3)] h(1) by (auto simp: s_def)
qed

end
