(* ===== verification/Eeprom.thy ===== *)
theory Eeprom
  imports Gf_Prelude
begin

text \<open>
  eeprom.c and grbl_eeprom_extensions.c: the settings in a file of 4096 bytes, or in RAM
  when there is no file, and the blocks with a checksum that the core stores in them. The
  file system is the argument \<open>fs\<close>; the core's checksum and its width are arguments too.
\<close>

type_synonym u16 = "16 word"

section \<open>State\<close>

definition MAX_EEPROM_SIZE :: nat where "MAX_EEPROM_SIZE = 4096"
definition EEPROM_NAME_SIZE :: nat where "EEPROM_NAME_SIZE = 128"

text \<open>
  How the file system answers: whether the file opens, whether it can be created, how
  many bytes of the first fill it takes, whether a position can be reached, and whether
  a byte is taken. The last two may change with every access, which \<open>ee_tr\<close> counts.
\<close>

record eefs =
  fs_open :: bool
  fs_create :: bool
  fs_fill :: nat
  fs_seek :: "nat \<Rightarrow> nat \<Rightarrow> bool"
  fs_put :: "nat \<Rightarrow> nat \<Rightarrow> bool"

record eeprom =
  eeprom_file :: string
  ee_tr :: nat
  ee_content :: "u8 list"
  eeprom_opened :: bool
  eeprom_tried :: bool
  eeprom_ram :: "u8 list"
  eeprom_volatile :: bool
  ee_synced :: nat

definition set_eeprom_name :: "string option \<Rightarrow> eeprom \<Rightarrow> bool \<times> eeprom" where
  "set_eeprom_name name s =
     (case name of None \<Rightarrow> (False, s)
      | Some n \<Rightarrow> if length n \<ge> EEPROM_NAME_SIZE then (False, s) else (True, s\<lparr>eeprom_file := n\<rparr>))"

section \<open>The file\<close>

definition eeprom_create_empty_file :: "eefs \<Rightarrow> eeprom \<Rightarrow> eeprom" where
  "eeprom_create_empty_file fs s =
     (if fs_create fs then s\<lparr>ee_content := replicate (min (fs_fill fs) MAX_EEPROM_SIZE) 0xFF, eeprom_opened := True\<rparr> else s)"

definition eeprom_fp :: "eefs \<Rightarrow> eeprom \<Rightarrow> eeprom" where
  "eeprom_fp fs s =
     (if \<not> eeprom_opened s \<and> \<not> eeprom_tried s
      then let s = s\<lparr>eeprom_tried := True\<rparr>;
               s = (if fs_open fs then s\<lparr>eeprom_opened := True\<rparr> else eeprom_create_empty_file fs s)
           in if \<not> eeprom_opened s
              then s\<lparr>eeprom_ram := replicate MAX_EEPROM_SIZE 0xFF, eeprom_volatile := True\<rparr> else s
      else s)"

definition eeprom_sync :: "eeprom \<Rightarrow> eeprom" where
  "eeprom_sync s = (if eeprom_opened s then s\<lparr>ee_synced := ee_synced s + 1\<rparr> else s)"

definition eeprom_close :: "eeprom \<Rightarrow> eeprom" where
  "eeprom_close s = s\<lparr>eeprom_opened := False\<rparr>"

text \<open>A read behind the end of the file is \<open>EOF\<close>, whose low byte is 0xFF.\<close>

definition file_get :: "u8 list \<Rightarrow> nat \<Rightarrow> u8" where
  "file_get c a = (if a < length c then c ! a else 0xFF)"

text \<open>A byte behind the end of the file extends it, and the gap is zero.\<close>

definition file_put :: "u8 list \<Rightarrow> nat \<Rightarrow> u8 \<Rightarrow> u8 list" where
  "file_put c a v = (if a < length c then c[a := v] else c @ replicate (a - length c) 0 @ [v])"

definition eeprom_get_char :: "eefs \<Rightarrow> u32 \<Rightarrow> eeprom \<Rightarrow> u8 \<times> eeprom" where
  "eeprom_get_char fs addr s =
     (let s = eeprom_fp fs s; a = unat addr in
      if a \<ge> MAX_EEPROM_SIZE then (0xFF, s)
      else if \<not> eeprom_opened s then (if eeprom_volatile s then eeprom_ram s ! a else 0xFF, s)
      else let ok = fs_seek fs (ee_tr s) a; s = s\<lparr>ee_tr := ee_tr s + 1\<rparr>
           in (if ok then file_get (ee_content s) a else 0xFF, s))"

definition eeprom_put_char :: "eefs \<Rightarrow> u32 \<Rightarrow> u8 \<Rightarrow> eeprom \<Rightarrow> eeprom" where
  "eeprom_put_char fs addr v s =
     (let s = eeprom_fp fs s; a = unat addr in
      if a \<ge> MAX_EEPROM_SIZE then s
      else if \<not> eeprom_opened s then (if eeprom_volatile s then s\<lparr>eeprom_ram := (eeprom_ram s)[a := v]\<rparr> else s)
      else let ok = fs_seek fs (ee_tr s) a; took = fs_put fs (ee_tr s) a; s = s\<lparr>ee_tr := ee_tr s + 1\<rparr>
           in if ok \<and> took then s\<lparr>ee_content := file_put (ee_content s) a v\<rparr> else s)"

section \<open>Blocks\<close>

fun put_chars :: "(u32 \<Rightarrow> u8 \<Rightarrow> 's \<Rightarrow> 's) \<Rightarrow> u32 \<Rightarrow> u8 list \<Rightarrow> 's \<Rightarrow> 's" where
  "put_chars put dest [] s = s"
| "put_chars put dest (b # bs) s = put_chars put (dest + 1) bs (put dest b s)"

fun get_chars :: "(u32 \<Rightarrow> 's \<Rightarrow> u8 \<times> 's) \<Rightarrow> u32 \<Rightarrow> nat \<Rightarrow> 's \<Rightarrow> u8 list \<times> 's" where
  "get_chars get src 0 s = ([], s)"
| "get_chars get src (Suc n) s =
     (let (b, s) = get src s; (bs, s) = get_chars get (src + 1) n s in (b # bs, s))"

text \<open>The core's checksum over the block, and how many bytes of it a block carries (\<open>NVS_CRC_BYTES\<close>).\<close>

definition memcpy_to_eeprom :: "(u8 list \<Rightarrow> u16) \<Rightarrow> nat \<Rightarrow> eefs \<Rightarrow> u32 \<Rightarrow> u8 list \<Rightarrow> bool \<Rightarrow> eeprom \<Rightarrow> bool \<times> eeprom" where
  "memcpy_to_eeprom ck crc fs dest src with_checksum s =
     (let s = put_chars (eeprom_put_char fs) dest src s;
          d = dest + of_nat (length src);
          s = (if with_checksum
               then let c = ck src; s = eeprom_put_char fs d (ucast (c AND 0xFF)) s
                    in if crc > 1 then eeprom_put_char fs (d + 1) (ucast (drop_bit 8 c)) s else s
               else s)
      in (True, eeprom_sync s))"

definition memcpy_from_eeprom :: "(u8 list \<Rightarrow> u16) \<Rightarrow> nat \<Rightarrow> eefs \<Rightarrow> u32 \<Rightarrow> nat \<Rightarrow> bool \<Rightarrow> eeprom \<Rightarrow> bool \<times> u8 list \<times> eeprom" where
  "memcpy_from_eeprom ck crc fs src n with_checksum s =
     (let (bs, s) = get_chars (eeprom_get_char fs) src n s; a = src + of_nat n in
      if \<not> with_checksum then (True, bs, s)
      else let (lo, s) = eeprom_get_char fs a s in
        if crc = 1 then (ck bs = ucast lo, bs, s)
        else let (hi, s) = eeprom_get_char fs (a + 1) s
             in (ck bs = (ucast lo OR push_bit 8 (ucast hi)), bs, s))"

text \<open>The statics at the start of the process, over the file that is there.\<close>

definition eeprom0 :: "u8 list \<Rightarrow> eeprom" where
  "eeprom0 c = \<lparr>eeprom_file = [], ee_tr = 0, ee_content = c, eeprom_opened = False, eeprom_tried = False,
     eeprom_ram = replicate MAX_EEPROM_SIZE 0, eeprom_volatile = False, ee_synced = 0\<rparr>"

end
