(* ===== verification/Eeprom_Props.thy ===== *)
theory Eeprom_Props
  imports Eeprom
begin

text \<open>
  What the settings store promises: it is an array of 4096 bytes, whichever of the file
  and the RAM stands behind it; a block comes back as it was written, and a block whose
  bytes changed is not taken for one that did not, as far as the core's checksum tells
  them apart.
\<close>

section \<open>The interface of a byte store\<close>

text \<open>
  What the blocks need of the bytes: a value at every address, that a read tells and
  leaves, and that a write changes at one address, if it is in range.
\<close>

locale byte_store =
  fixes val :: "'s \<Rightarrow> nat \<Rightarrow> u8" and ok :: "'s \<Rightarrow> bool" and get :: "u32 \<Rightarrow> 's \<Rightarrow> u8 \<times> 's" and put :: "u32 \<Rightarrow> u8 \<Rightarrow> 's \<Rightarrow> 's"
  assumes get_val: "ok s \<Longrightarrow> fst (get a s) = val s (unat a) \<and> ok (snd (get a s)) \<and> val (snd (get a s)) = val s"
    and put_val: "ok s \<Longrightarrow> ok (put a v s) \<and> val (put a v s) = (if unat a < MAX_EEPROM_SIZE then (val s)(unat a := v) else val s)"
begin

lemma next_addr: "unat dest + Suc n \<le> MAX_EEPROM_SIZE \<Longrightarrow> unat (dest + 1) = unat dest + 1" for dest :: u32
  by (simp add: unat_word_ariths MAX_EEPROM_SIZE_def)

lemma put_chars_val:
  assumes "ok s" "unat dest + length bs \<le> MAX_EEPROM_SIZE"
  shows "ok (put_chars put dest bs s) \<and>
    val (put_chars put dest bs s) = (\<lambda>i. if unat dest \<le> i \<and> i < unat dest + length bs then bs ! (i - unat dest) else val s i)"
  using assms
proof (induction bs arbitrary: dest s)
  case (Cons b bs)
  have n: "unat (dest + 1) = unat dest + 1" using next_addr Cons.prems(2) by simp
  have p: "ok (put dest b s)" "val (put dest b s) = (val s)(unat dest := b)"
    using put_val [OF Cons.prems(1), of dest b] Cons.prems(2) by auto
  show ?case using Cons.IH [OF p(1), of "dest + 1"] Cons.prems(2) n p(2) by (auto simp: fun_eq_iff nth_Cons')
qed (auto simp: fun_eq_iff)

lemma get_chars_val:
  assumes "ok s" "unat src + n \<le> MAX_EEPROM_SIZE"
  shows "fst (get_chars get src n s) = map (val s) [unat src..<unat src + n] \<and> ok (snd (get_chars get src n s)) \<and>
    val (snd (get_chars get src n s)) = val s"
  using assms
proof (induction n arbitrary: src s)
  case (Suc n)
  note g = get_val [OF Suc.prems(1), of src]
  have a: "unat (src + 1) = unat src + 1" using next_addr Suc.prems(2) by simp
  have "fst (get_chars get (src + 1) n (snd (get src s))) = map (val s) [unat src + 1..<unat src + 1 + n] \<and>
      ok (snd (get_chars get (src + 1) n (snd (get src s)))) \<and> val (snd (get_chars get (src + 1) n (snd (get src s)))) = val s"
    using Suc.IH [of "snd (get src s)" "src + 1"] g a Suc.prems(2) by simp
  then show ?case using g by (simp add: Let_def case_prod_beta upt_conv_Cons del: upt_Suc)
qed simp

end

section \<open>The settings store is one\<close>

definition ee_val :: "eefs \<Rightarrow> eeprom \<Rightarrow> nat \<Rightarrow> u8" where
  "ee_val fs s a =
     (let s = eeprom_fp fs s in
      if a \<ge> MAX_EEPROM_SIZE then 0xFF
      else if eeprom_opened s then file_get (ee_content s) a
      else if eeprom_volatile s then eeprom_ram s ! a else 0xFF)"

text \<open>A whole file that can be read and written, or the RAM.\<close>

definition ee_healthy :: "eefs \<Rightarrow> eeprom \<Rightarrow> bool" where
  "ee_healthy fs s \<longleftrightarrow>
     (let s = eeprom_fp fs s in
      if eeprom_opened s then length (ee_content s) = MAX_EEPROM_SIZE \<and> (\<forall>n a. fs_seek fs n a \<and> fs_put fs n a)
      else eeprom_volatile s \<and> length (eeprom_ram s) = MAX_EEPROM_SIZE)"

lemma fp_idem [simp]: "eeprom_fp fs (eeprom_fp fs s) = eeprom_fp fs s"
  by (simp add: eeprom_fp_def eeprom_create_empty_file_def Let_def)

lemma fp_done: "eeprom_opened s \<or> eeprom_tried s \<Longrightarrow> eeprom_fp fs s = s"
  by (auto simp: eeprom_fp_def)

lemma fp_tried: "eeprom_opened (eeprom_fp fs s) \<or> eeprom_tried (eeprom_fp fs s)"
  by (simp add: eeprom_fp_def eeprom_create_empty_file_def Let_def)

lemma fp_upd [simp]:
  "eeprom_fp fs ((eeprom_fp fs s)\<lparr>ee_tr := n\<rparr>) = (eeprom_fp fs s)\<lparr>ee_tr := n\<rparr>"
  "eeprom_fp fs ((eeprom_fp fs s)\<lparr>ee_tr := n, ee_content := c\<rparr>) = (eeprom_fp fs s)\<lparr>ee_tr := n, ee_content := c\<rparr>"
  "eeprom_fp fs ((eeprom_fp fs s)\<lparr>eeprom_ram := c\<rparr>) = (eeprom_fp fs s)\<lparr>eeprom_ram := c\<rparr>"
  using fp_tried [of fs s] by (auto intro!: fp_done)

lemma get_char_val:
  assumes "ee_healthy fs s"
  shows "fst (eeprom_get_char fs a s) = ee_val fs s (unat a) \<and> ee_healthy fs (snd (eeprom_get_char fs a s)) \<and>
    ee_val fs (snd (eeprom_get_char fs a s)) = ee_val fs s"
  using assms by (auto simp: eeprom_get_char_def ee_val_def ee_healthy_def fun_eq_iff Let_def split: if_splits)

lemma put_char_val:
  assumes "ee_healthy fs s"
  shows "ee_healthy fs (eeprom_put_char fs a v s) \<and>
    ee_val fs (eeprom_put_char fs a v s) = (if unat a < MAX_EEPROM_SIZE then (ee_val fs s)(unat a := v) else ee_val fs s)"
  using assms by (auto simp: eeprom_put_char_def ee_val_def ee_healthy_def file_put_def file_get_def fun_eq_iff Let_def split: if_splits)

interpretation ee: byte_store "ee_val fs" "ee_healthy fs" "eeprom_get_char fs" "eeprom_put_char fs"
  by unfold_locales (use get_char_val put_char_val in blast)+

section \<open>Blocks\<close>

lemma sync_val [simp]: "ee_val fs (eeprom_sync s) = ee_val fs s" "ee_healthy fs (eeprom_sync s) = ee_healthy fs s"
proof -
  have "eeprom_fp fs (eeprom_sync s) = (if eeprom_opened s then s\<lparr>ee_synced := ee_synced s + 1\<rparr> else eeprom_fp fs s)"
    by (simp add: eeprom_sync_def eeprom_fp_def Let_def)
  then show "ee_val fs (eeprom_sync s) = ee_val fs s" "ee_healthy fs (eeprom_sync s) = ee_healthy fs s"
    by (simp_all add: ee_val_def ee_healthy_def fp_done fun_eq_iff Let_def)
qed

lemma byte_mask: "(0xFF :: u16) = mask 8"
  by (simp add: mask_eq_exp_minus_1)

lemma checksum_bytes: "(ucast (ucast (c AND 0xFF) :: u8) OR push_bit 8 (ucast (ucast (drop_bit 8 c) :: u8))) = (c :: u16)"
  unfolding byte_mask by (rule bit_word_eqI) (auto simp: bit_simps)

lemma checksum_byte:
  assumes "c < 0x100"
  shows "ucast (ucast (c AND 0xFF) :: u8) = (c :: u16)"
proof -
  have "unat (take_bit 8 c) = unat c" using assms by (simp add: take_bit_eq_mod unat_mod word_less_nat_alt)
  then have t: "take_bit 8 c = c" by (simp only: word_unat_eq_iff)
  have "ucast (ucast (c AND 0xFF) :: u8) = take_bit 8 c" unfolding byte_mask by (rule bit_word_eqI) (auto simp: bit_simps)
  then show ?thesis using t by simp
qed

text \<open>The bytes that a block write leaves: the data, and behind it the checksum's.\<close>

definition block_bytes :: "(u8 list \<Rightarrow> u16) \<Rightarrow> nat \<Rightarrow> bool \<Rightarrow> u8 list \<Rightarrow> u8 list" where
  "block_bytes ck crc w bs =
     bs @ (if w then ucast (ck bs AND 0xFF) # (if crc > 1 then [ucast (drop_bit 8 (ck bs))] else []) else [])"

lemma put_chars_append: "put_chars put dest (bs @ cs) s = put_chars put (dest + of_nat (length bs)) cs (put_chars put dest bs s)"
  by (induction bs arbitrary: dest s) (simp_all add: add_ac)

lemma to_eeprom_bytes:
  "snd (memcpy_to_eeprom ck crc fs dest src w s) = eeprom_sync (put_chars (eeprom_put_char fs) dest (block_bytes ck crc w src) s)"
  by (simp add: memcpy_to_eeprom_def block_bytes_def put_chars_append Let_def)

lemma block_length: "length (block_bytes ck crc w bs) \<le> length bs + 2" "length bs \<le> length (block_bytes ck crc w bs)"
  by (simp_all add: block_bytes_def)

lemma block_store:
  assumes "ee_healthy fs s" "unat dest + length src + 2 \<le> MAX_EEPROM_SIZE"
  shows "ee_healthy fs (snd (memcpy_to_eeprom ck crc fs dest src w s)) \<and>
    ee_val fs (snd (memcpy_to_eeprom ck crc fs dest src w s)) =
      (\<lambda>i. if unat dest \<le> i \<and> i < unat dest + length (block_bytes ck crc w src) then block_bytes ck crc w src ! (i - unat dest) else ee_val fs s i)"
  using ee.put_chars_val [OF assms(1), of dest "block_bytes ck crc w src"] assms(2) block_length(1) [of ck crc w src]
  by (simp add: to_eeprom_bytes)

lemma addr_add:
  assumes "unat (a :: u32) + n \<le> MAX_EEPROM_SIZE"
  shows "unat (a + of_nat n) = unat a + n"
  using assms by (simp add: unat_word_ariths unat_of_nat MAX_EEPROM_SIZE_def)

text \<open>What a block read tells, over the bytes of the store.\<close>

lemma block_read:
  assumes "ee_healthy fs s" "unat src + n + 2 \<le> MAX_EEPROM_SIZE"
  shows "fst (snd (memcpy_from_eeprom ck crc fs src n w s)) = map (ee_val fs s) [unat src..<unat src + n]"
    "fst (memcpy_from_eeprom ck crc fs src n w s) \<longleftrightarrow> \<not> w \<or> ck (map (ee_val fs s) [unat src..<unat src + n]) =
       (if crc = 1 then ucast (ee_val fs s (unat src + n))
        else ucast (ee_val fs s (unat src + n)) OR push_bit 8 (ucast (ee_val fs s (unat src + n + 1))))"
proof -
  define u where "u = snd (get_chars (eeprom_get_char fs) src n s)"
  have u: "fst (get_chars (eeprom_get_char fs) src n s) = map (ee_val fs s) [unat src..<unat src + n]" "ee_healthy fs u" "ee_val fs u = ee_val fs s"
    using ee.get_chars_val [OF assms(1), of src n] assms(2) by (simp_all add: u_def)
  have a: "unat (src + of_nat n) = unat src + n" "unat (src + of_nat n + 1) = unat src + n + 1"
    using addr_add [of src n] addr_add [of src "n + 1"] assms(2) by (simp_all add: ac_simps)
  define v where "v = snd (eeprom_get_char fs (src + of_nat n) u)"
  have v: "ee_healthy fs v" "ee_val fs v = ee_val fs s" "fst (eeprom_get_char fs (src + of_nat n) u) = ee_val fs s (unat src + n)"
    using get_char_val [OF u(2), of "src + of_nat n"] u(3) a by (simp_all add: v_def)
  have h: "fst (eeprom_get_char fs (src + of_nat n + 1) v) = ee_val fs s (unat src + n + 1)"
    using get_char_val [OF v(1), of "src + of_nat n + 1"] v(2) a by simp
  show "fst (snd (memcpy_from_eeprom ck crc fs src n w s)) = map (ee_val fs s) [unat src..<unat src + n]"
    using u(1) by (simp add: memcpy_from_eeprom_def Let_def case_prod_beta)
  show "fst (memcpy_from_eeprom ck crc fs src n w s) \<longleftrightarrow> \<not> w \<or> ck (map (ee_val fs s) [unat src..<unat src + n]) =
       (if crc = 1 then ucast (ee_val fs s (unat src + n))
        else ucast (ee_val fs s (unat src + n)) OR push_bit 8 (ucast (ee_val fs s (unat src + n + 1))))"
    unfolding memcpy_from_eeprom_def Let_def case_prod_beta u_def [symmetric] v_def [symmetric] u(1) v(3) h by simp
qed

text \<open>
  C38. A settings block comes back, and a damaged one is told. In a store that can be
  read and written, whether it is the file or the RAM: a block in range reads back as it
  was written, with the checksum matching; nothing outside the block and its checksum
  changed; and when one byte of it is then changed, the read returns the changed bytes and
  reports success exactly if the core's checksum does not tell the two apart.
\<close>

theorem settings_block:
  assumes "ee_healthy fs s" "unat dest + length src + 2 \<le> MAX_EEPROM_SIZE" "crc = 2 \<or> crc = 1 \<and> ck src < 0x100"
    and "k < length src"
  shows "let s1 = snd (memcpy_to_eeprom ck crc fs dest src True s);
             s2 = eeprom_put_char fs (dest + of_nat k) b s1
         in fst (memcpy_from_eeprom ck crc fs dest (length src) True s1) \<and>
            fst (snd (memcpy_from_eeprom ck crc fs dest (length src) True s1)) = src \<and>
            (\<forall>i. i < unat dest \<or> unat dest + length src + crc \<le> i \<longrightarrow> ee_val fs s1 i = ee_val fs s i) \<and>
            fst (snd (memcpy_from_eeprom ck crc fs dest (length src) True s2)) = src[k := b] \<and>
            (fst (memcpy_from_eeprom ck crc fs dest (length src) True s2) \<longleftrightarrow> ck (src[k := b]) = ck src)"
proof -
  define s1 where "s1 = snd (memcpy_to_eeprom ck crc fs dest src True s)"
  define s2 where "s2 = eeprom_put_char fs (dest + of_nat k) b s1"
  define bb where "bb = block_bytes ck crc True src"
  have s1: "ee_healthy fs s1" "ee_val fs s1 = (\<lambda>i. if unat dest \<le> i \<and> i < unat dest + length bb then bb ! (i - unat dest) else ee_val fs s i)"
    using block_store [OF assms(1,2), of ck crc True] unfolding s1_def bb_def by blast+
  have l: "length bb = length src + crc" using assms(3) by (auto simp: bb_def block_bytes_def)
  have d: "map (ee_val fs s1) [unat dest..<unat dest + length src] = src"
    by (rule nth_equalityI) (auto simp: s1(2) l bb_def block_bytes_def nth_append)
  define cs where "cs v = (if crc = 1 then ucast (v (unat dest + length src))
      else ucast (v (unat dest + length src)) OR push_bit 8 (ucast (v (unat dest + length src + 1)) :: u16))" for v :: "nat \<Rightarrow> u8"
  have c: "cs (ee_val fs s1) = ck src"
    using assms(3) l by (auto simp: cs_def s1(2) bb_def block_bytes_def nth_append checksum_bytes checksum_byte)
  have a: "unat (dest + of_nat k) = unat dest + k" using addr_add [of dest k] assms(2,4) by simp
  have s2: "ee_healthy fs s2" "ee_val fs s2 = (ee_val fs s1)(unat dest + k := b)"
    using put_char_val [OF s1(1), of "dest + of_nat k" b] a assms(2,4) by (auto simp: s2_def)
  have d2: "map (ee_val fs s2) [unat dest..<unat dest + length src] = src[k := b]"
  proof (rule nth_equalityI)
    fix i assume "i < length (map (ee_val fs s2) [unat dest..<unat dest + length src])"
    moreover have "map (ee_val fs s1) [unat dest..<unat dest + length src] ! i = src ! i" using d by simp
    ultimately show "map (ee_val fs s2) [unat dest..<unat dest + length src] ! i = src[k := b] ! i"
      by (auto simp: s2(2) nth_list_update)
  qed simp
  have "cs (ee_val fs s2) = cs (ee_val fs s1)" unfolding cs_def s2(2) using assms(4) by simp
  then have c2: "cs (ee_val fs s2) = ck src" using c by simp
  have r1: "fst (snd (memcpy_from_eeprom ck crc fs dest (length src) True s1)) = src" "fst (memcpy_from_eeprom ck crc fs dest (length src) True s1)"
    using block_read [OF s1(1) assms(2), of ck crc True] d c by (simp_all add: cs_def)
  have r2: "fst (snd (memcpy_from_eeprom ck crc fs dest (length src) True s2)) = src[k := b]"
    "fst (memcpy_from_eeprom ck crc fs dest (length src) True s2) \<longleftrightarrow> ck (src[k := b]) = ck src"
    using block_read [OF s2(1) assms(2), of ck crc True] d2 c2 by (simp_all add: cs_def)
  show ?thesis unfolding Let_def s1_def [symmetric] s2_def [symmetric] using r1 r2 by (simp add: s1(2) l)
qed

text \<open>A machine without a file system: the RAM stands in, and the checksum is a sum.\<close>

definition no_fs :: eefs where
  "no_fs = \<lparr>fs_open = False, fs_create = False, fs_fill = 0, fs_seek = (\<lambda>n a. False), fs_put = (\<lambda>n a. False)\<rparr>"

definition sum_ck :: "u8 list \<Rightarrow> u16" where
  "sum_ck bs = sum_list (map ucast bs)"

theorem settings_block_witness:
  "fst (memcpy_from_eeprom sum_ck 2 no_fs 10 2 True (snd (memcpy_to_eeprom sum_ck 2 no_fs 10 [200, 100] True (eeprom0 [])))) \<and>
   fst (snd (memcpy_from_eeprom sum_ck 2 no_fs 10 2 True (snd (memcpy_to_eeprom sum_ck 2 no_fs 10 [200, 100] True (eeprom0 []))))) = [200, 100]"
proof -
  have "ee_healthy no_fs (eeprom0 [])"
    by (simp add: ee_healthy_def eeprom_fp_def eeprom_create_empty_file_def no_fs_def eeprom0_def Let_def)
  moreover have "unat (10 :: u32) + length [200, 100 :: u8] + 2 \<le> MAX_EEPROM_SIZE" by (simp add: MAX_EEPROM_SIZE_def)
  moreover have "length [200, 100 :: u8] = 2" by simp
  ultimately show ?thesis using settings_block [of no_fs "eeprom0 []" 10 "[200, 100]" 2 sum_ck 1 0] unfolding Let_def by (simp flip: numeral_2_eq_2)
qed

text \<open>
  A file system that is full: the file can be created, and takes no byte.
\<close>

definition full_fs :: eefs where
  "full_fs = \<lparr>fs_open = False, fs_create = True, fs_fill = 0, fs_seek = (\<lambda>n a. True), fs_put = (\<lambda>n a. False)\<rparr>"

text \<open>
  On a full file system the settings are lost within the run: the file is created,
  so the RAM does not stand in, and takes no byte, so that every byte that is written
  reads as erased at once.
\<close>

theorem full_disk_loses:
  "fst (eeprom_get_char full_fs a (eeprom_put_char full_fs a v (eeprom0 c))) = 0xFF \<and>
   \<not> eeprom_volatile (eeprom_put_char full_fs a v (eeprom0 c))"
  by (simp add: eeprom_get_char_def eeprom_put_char_def eeprom_fp_def eeprom_create_empty_file_def full_fs_def eeprom0_def file_get_def Let_def)

text \<open>The RAM of a machine without a file keeps what is written, for the run.\<close>

lemma ram_keeps: "unat a < MAX_EEPROM_SIZE \<Longrightarrow> fst (eeprom_get_char no_fs a (eeprom_put_char no_fs a v (eeprom0 c))) = v"
  by (simp add: eeprom_get_char_def eeprom_put_char_def eeprom_fp_def eeprom_create_empty_file_def no_fs_def eeprom0_def Let_def)

text \<open>After the close nothing is read and nothing is written.\<close>

lemma closed_erased:
  assumes "eeprom_tried s" "\<not> eeprom_volatile s"
  shows "fst (eeprom_get_char fs a (eeprom_close s)) = 0xFF" "eeprom_put_char fs a v (eeprom_close s) = eeprom_close s"
  using assms by (simp_all add: eeprom_get_char_def eeprom_put_char_def eeprom_fp_def eeprom_close_def Let_def)

end
