(* ===== verification/Status.thy ===== *)
theory Status
  imports Ctlport
begin

text \<open>
  glowforge_status.c: the state and the settings that the driver publishes as files for
  the machine daemon. The JSON of the state is the value it prints, with the numbers that
  are printed with few decimals rounded as they are printed. What the core reports and
  how the file system answers are arguments.
\<close>

definition HEARTBEAT_S :: rat where "HEARTBEAT_S = 5"
definition CAP_SIZE :: nat where "CAP_SIZE = 4096"
definition MODALS_SIZE :: nat where "MODALS_SIZE = 256"
definition STATUS_DIR_SIZE :: nat where "STATUS_DIR_SIZE = 128"

section \<open>State\<close>

record sbody =
  b_state :: string
  b_alarm :: nat
  b_connected :: bool
  b_generation :: u32
  b_for_s :: int
  b_peer :: string
  b_armed :: bool
  b_arming :: bool
  b_density :: bool
  b_floor :: cfloat
  b_curve :: string
  b_gamma :: int
  b_modals :: string
  b_feed :: int
  b_rapid :: int
  b_driver :: string

text \<open>What is cheap to read, as the last render saw it.\<close>

record seen =
  seen_state :: sys_state
  seen_alarm :: u8
  seen_connected :: bool
  seen_armed :: bool
  seen_arming :: bool
  seen_generation :: u32
  seen_feed :: int
  seen_rapid :: int
  seen_gamma :: rat

datatype fev = F_settings string | F_state rat sbody | F_failed string

text \<open>A file that is published: it opens, takes its text, and is renamed, or not.\<close>

record srep =
  sr_alarm :: "core_trace \<Rightarrow> trace \<Rightarrow> nat"
  sr_feed :: "core_trace \<Rightarrow> trace \<Rightarrow> int"
  sr_rapid :: "core_trace \<Rightarrow> trace \<Rightarrow> int"
  sr_modes :: "core_trace \<Rightarrow> trace \<Rightarrow> string list"
  sr_settings :: "core_trace \<Rightarrow> trace \<Rightarrow> string list"
  sr_version :: "string option"
  sr_stat :: bool
  sr_open :: "fev list \<Rightarrow> bool"
  sr_written :: "fev list \<Rightarrow> bool"
  sr_rename :: "fev list \<Rightarrow> bool"

record status = port +
  st_tr :: "fev list"
  st_dir :: string
  st_active :: bool
  settings_dirty :: bool
  last_state :: "sbody option"
  next_heartbeat :: rat
  st_seen :: seen
  last_floor :: cfloat

definition seen0 :: seen where
  "seen0 = \<lparr>seen_state = STATE_IDLE, seen_alarm = 0, seen_connected = False, seen_armed = False, seen_arming = False,
     seen_generation = 0, seen_feed = 0, seen_rapid = 0, seen_gamma = 0\<rparr>"

definition status0 :: "port \<Rightarrow> status" where
  "status0 s = port.extend s (status.fields [] [] False True None 0 seen0 (Fin (- 1)))"

section \<open>Rendering\<close>

text \<open>A decimal print with no fraction: to the nearest, half to even.\<close>

definition print_round :: "rat \<Rightarrow> int" where
  "print_round x = (let f = \<lfloor>x\<rfloor>; d = x - of_int f in
     if d < 1 / 2 then f else if d > 1 / 2 then f + 1 else if even f then f else f + 1)"

definition cap_write :: "string \<Rightarrow> string \<Rightarrow> string" where
  "cap_write cap t =
     (let n = length t; n = (if length cap + n \<ge> CAP_SIZE then CAP_SIZE - 1 - length cap else n) in cap @ take n t)"

definition write_file :: "srep \<Rightarrow> string \<Rightarrow> fev \<Rightarrow> 'a status_scheme \<Rightarrow> 'a status_scheme" where
  "write_file sr name ev s =
     (if sr_open sr (st_tr s) \<and> sr_written sr (st_tr s) \<and> sr_rename sr (st_tr s)
      then s\<lparr>st_tr := ev # st_tr s\<rparr>
      else s\<lparr>st_tr := F_failed name # st_tr s, st_active := False\<rparr>)"

definition status_state_name :: "sys_state \<Rightarrow> string" where
  "status_state_name st =
     (if st = STATE_IDLE then ''Idle'' else if st = {CYCLE} then ''Run'' else if st = {HOLD} then ''Hold''
      else if st = {JOG} then ''Jog'' else if st = {HOMING} then ''Home'' else if st = {ESTOP} \<or> st = {ALARM} then ''Alarm''
      else if st = {CHECK_MODE} then ''Check'' else if st = {SAFETY_DOOR} then ''Door''
      else if st = {SLEEP} then ''Sleep'' else if st = {TOOL_CHANGE} then ''Tool'' else ''unknown'')"

definition publish_settings :: "srep \<Rightarrow> 'a status_scheme \<Rightarrow> 'a status_scheme" where
  "publish_settings sr s =
     (let m = machine s; cap = foldl cap_write [] (sr_settings sr (core_tr m) (io_tr m))
      in write_file sr ''grbl.settings'' (F_settings cap) s)"

definition status_modals :: "srep \<Rightarrow> 'a status_scheme \<Rightarrow> string" where
  "status_modals sr s =
     (let m = machine s; cap = foldl cap_write [] (sr_modes sr (core_tr m) (io_tr m))
      in take (MODALS_SIZE - 1) (takeWhile (\<lambda>c. c \<noteq> CHR 0x0D \<and> c \<noteq> CHR 0x0A) cap))"

text \<open>The cheap values as they are now.\<close>

definition look :: "srep \<Rightarrow> core \<Rightarrow> 'a status_scheme \<Rightarrow> seen" where
  "look sr co s =
     (let m = machine s in
      \<lparr>seen_state = state_get co m, seen_alarm = of_nat (sr_alarm sr (core_tr m) (io_tr m)), seen_connected = serial_client_connected s,
       seen_armed = gflaser_armed m, seen_arming = gflaser_arming m, seen_generation = client_generation s,
       seen_feed = sr_feed sr (core_tr m) (io_tr m), seen_rapid = sr_rapid sr (core_tr m) (io_tr m), seen_gamma = gflaser_gamma m\<rparr>)"

definition render :: "srep \<Rightarrow> core \<Rightarrow> sio \<Rightarrow> 'a status_scheme \<Rightarrow> sbody \<times> 'a status_scheme" where
  "render sr co io s =
     (let m = machine s;
          (for_s, s) = (if serial_client_connected s then (let (now, s) = port_now io s in (now - client_since s, s)) else (0, s))
      in (\<lparr>b_state = status_state_name (state_get co m), b_alarm = sr_alarm sr (core_tr m) (io_tr m),
           b_connected = serial_client_connected s, b_generation = client_generation s, b_for_s = print_round for_s, b_peer = client_peer s,
           b_armed = gflaser_armed m, b_arming = gflaser_arming m, b_density = gflaser_density m, b_floor = pwm_min_value m,
           b_curve = gflaser_curve m, b_gamma = print_round (gflaser_gamma m * 100), b_modals = status_modals sr s,
           b_feed = sr_feed sr (core_tr m) (io_tr m), b_rapid = sr_rapid sr (core_tr m) (io_tr m),
           b_driver = (case sr_version sr of Some v \<Rightarrow> v | None \<Rightarrow> [])\<rparr>, s))"

definition publish_state :: "srep \<Rightarrow> core \<Rightarrow> sio \<Rightarrow> bool \<Rightarrow> 'a status_scheme \<Rightarrow> 'a status_scheme" where
  "publish_state sr co io force s =
     (let changed = (force \<or> look sr co s \<noteq> st_seen s);
          (wait, s) = (if changed then (False, s) else let (now, s) = port_now io s in (now < next_heartbeat s, s))
      in if wait then s
         else let s = s\<lparr>st_seen := look sr co s\<rparr>;
                  (body, s) = render sr co io s;
                  (now, s) = port_now io s
              in if \<not> force \<and> last_state s = Some body \<and> now < next_heartbeat s then s
                 else write_file sr ''grbl.state'' (F_state now body) (s\<lparr>last_state := Some body, next_heartbeat := now + HEARTBEAT_S\<rparr>))"

definition status_settings_changed :: "('a status_scheme \<Rightarrow> 'a status_scheme) \<Rightarrow> 'a status_scheme \<Rightarrow> 'a status_scheme" where
  "status_settings_changed chain s = chain (s\<lparr>settings_dirty := True\<rparr>)"

definition gfstatus_poll :: "srep \<Rightarrow> core \<Rightarrow> sio \<Rightarrow> 'a status_scheme \<Rightarrow> 'a status_scheme" where
  "gfstatus_poll sr co io s =
     (if \<not> st_active s then s
      else let s = (if pwm_min_value (machine s) \<noteq> last_floor s
                    then s\<lparr>last_floor := pwm_min_value (machine s), settings_dirty := True\<rparr> else s);
               s = (if settings_dirty s then publish_settings sr (s\<lparr>settings_dirty := False\<rparr>) else s)
           in publish_state sr co io False s)"

definition gfstatus_init :: "os \<Rightarrow> srep \<Rightarrow> 'a status_scheme \<Rightarrow> 'a status_scheme" where
  "gfstatus_init os sr s = s\<lparr>st_dir := take (STATUS_DIR_SIZE - 1) (state_dir os), st_active := sr_stat sr\<rparr>"

end
