(* ===== verification/Driver.thy ===== *)
theory Driver
  imports Status Homing_Session Mcode Cooling_Poll Switches_Poll
begin

text \<open>
  driver.c: the entry points that the driver hangs into the core, the reset, and the hook
  that the protocol thread runs on every pass, in the order in which it calls the
  modules. The state is the status module's with the statics of driver.c on top; the
  system, the core, the files and what the hooks chain to are one record of arguments. A
  \<open>^F\<close> byte of the sender, which calls \<open>driver_request_exit\<close>, is the event \<open>S_exit\<close> of the
  serial trace. A pass that ends the process is an \<open>Inl\<close>.
\<close>

section \<open>State\<close>

text \<open>What the driver reads of the core's stepper state; whether the pointer to it is known is a field of the driver.\<close>

record stepper =
  exec_block :: bool
  exec_segment :: bool
  step_out :: u8
  dir_out :: u8
  dir_changed :: u8

text \<open>A deferred callback is a number; what it does is an argument.\<close>

record drv = status +
  exit_requested :: bool
  exit_reset_sent :: bool
  exit_wait_until :: rat
  delay_callback :: "nat option"
  delay_deadline_ms :: u32
  core_stepper :: bool
  lens_referenced :: bool
  f_step_timer :: u32
  step_us_min :: rat

text \<open>
  The surroundings: the system, the core and the files, the stream's threads while the
  protocol thread waits for a read-back, the bit \<open>EXEC_RESET\<close>, the core's stepper state,
  the core's write and blocking callbacks, and the hooks that were there before.
\<close>

record denv =
  d_os :: os
  d_co :: core
  d_mi :: mio
  d_rt :: "unit mach_ext rt"
  d_io :: sio
  d_po :: pio
  d_sr :: srep
  d_threads :: "mach \<Rightarrow> mach"
  d_exec_reset :: "core_trace \<Rightarrow> trace \<Rightarrow> bool"
  d_stepper :: "core_trace \<Rightarrow> trace \<Rightarrow> stepper"
  d_write :: "u8 list \<Rightarrow> drv \<Rightarrow> drv"
  d_block :: "drv \<Rightarrow> bool \<times> drv"
  d_callback :: "nat \<Rightarrow> drv \<Rightarrow> drv"
  d_realtime :: "sys_state \<Rightarrow> drv \<Rightarrow> drv"
  d_reset_chain :: "drv \<Rightarrow> drv"

definition drv0 :: "status \<Rightarrow> drv" where
  "drv0 s = status.extend s (drv.fields False False 0 None 0 False False 0 0)"

definition on_machine :: "(mach \<Rightarrow> mach) \<Rightarrow> drv \<Rightarrow> drv" where
  "on_machine f s = s\<lparr>machine := f (machine s)\<rparr>"

definition on_machine_opt :: "(mach \<Rightarrow> mach option) \<Rightarrow> drv \<Rightarrow> drv option" where
  "on_machine_opt f s = map_option (\<lambda>m. s\<lparr>machine := m\<rparr>) (f (machine s))"

text \<open>The port's answer to a line, its poll and its descriptors, as the serial module calls them.\<close>

definition port_done :: "denv \<Rightarrow> int \<Rightarrow> drv \<Rightarrow> drv" where
  "port_done E status s = line_done (d_co E) (d_po E) (d_write E) status s"

definition drv_serial_poll :: "denv \<Rightarrow> drv \<Rightarrow> drv option" where
  "drv_serial_poll E s =
     serial_poll (d_os E) (d_co E) (d_rt E) (d_io E) (port_done E) (d_block E)
       (ctlport_poll (d_os E) (d_co E) (d_io E) (d_po E) (d_write E)) s"

definition drv_serial_wait :: "denv \<Rightarrow> drv \<Rightarrow> drv" where
  "drv_serial_wait E s = serial_wait (d_io E) (port_done E) ctlport_pollfds s"

section \<open>The exit request\<close>

definition driver_request_exit :: "drv \<Rightarrow> drv" where
  "driver_request_exit s = s\<lparr>exit_requested := True\<rparr>"

text \<open>The handler of SIGINT and SIGTERM, in main.c.\<close>

definition sig_handler :: "nat \<Rightarrow> drv \<Rightarrow> drv" where
  "sig_handler signum s = driver_request_exit s"

definition exit_asked :: "drv \<Rightarrow> bool" where
  "exit_asked s \<longleftrightarrow> exit_requested s \<or> S_exit \<in> set (ser_tr s)"

definition exit_wait_over :: "os \<Rightarrow> drv \<Rightarrow> bool \<times> drv" where
  "exit_wait_over os s =
     (let (now, m) = wall_s os (machine s);
          s = s\<lparr>machine := m\<rparr>;
          s = (if exit_wait_until s = 0 then s\<lparr>exit_wait_until := now + 2\<rparr> else s)
      in (now \<ge> exit_wait_until s, s))"

section \<open>Clocks and delays\<close>

definition micros :: "os \<Rightarrow> 'a ctl_scheme \<Rightarrow> 64 word \<times> 'a ctl_scheme" where
  "micros os s = (let (t, s) = wall_s os s in (of_int \<lfloor>t * 1000000\<rfloor>, s))"

definition drv_millis :: "denv \<Rightarrow> drv \<Rightarrow> u32 \<times> drv" where
  "drv_millis E s = (let (now, m) = millis (d_os E) (machine s) in (now, s\<lparr>machine := m\<rparr>))"

text \<open>One turn of the blocking delay.\<close>

definition delay_turn :: "denv \<Rightarrow> u32 \<Rightarrow> drv \<Rightarrow> drv option + drv" where
  "delay_turn E until s =
     (let (now, s) = drv_millis E s in
      if sint (until - now) > 0 \<and> \<not> sys_abort (d_mi E) (machine s)
      then (case drv_serial_poll E (drv_serial_wait E s) of None \<Rightarrow> Inl None | Some s \<Rightarrow> Inr s)
      else Inl (Some s))"

definition driver_delay_ms :: "denv \<Rightarrow> u32 \<Rightarrow> nat option \<Rightarrow> drv \<Rightarrow> drv option" where
  "driver_delay_ms E ms callback s =
     (if ms > 0
      then (case callback of
              Some cb \<Rightarrow> let (now, s) = drv_millis E s in Some (s\<lparr>delay_deadline_ms := now + ms, delay_callback := Some cb\<rparr>)
            | None \<Rightarrow> let (now, s) = drv_millis E s in
                (case wait_loop (delay_turn E (now + ms)) s of None \<Rightarrow> None | Some r \<Rightarrow> r))
      else (case callback of Some cb \<Rightarrow> Some (d_callback E cb s) | None \<Rightarrow> Some (s\<lparr>delay_callback := None\<rparr>)))"

section \<open>The stepper's entry points\<close>

definition stepperWakeUp :: "denv \<Rightarrow> drv \<Rightarrow> drv" where
  "stepperWakeUp E s = on_machine (gf_stream_wakeup (d_os E)) s"

definition stepperGoIdle :: "denv \<Rightarrow> drv \<Rightarrow> drv" where
  "stepperGoIdle E s =
     (let m = machine s;
          reset = d_exec_reset E (core_tr m) (io_tr m);
          st = d_stepper E (core_tr m) (io_tr m);
          (steps, dirs) = (if reset \<and> core_stepper s \<and> exec_block st \<and> exec_segment st then (step_out st, dir_out st) else (0, 0))
      in on_machine (gf_stream_go_idle reset steps dirs) s)"

definition stepperCyclesPerTick :: "u32 \<Rightarrow> drv \<Rightarrow> drv" where
  "stepperCyclesPerTick cycles_per_tick s = on_machine (gf_stream_cycles_per_tick cycles_per_tick) s"

definition stepperPulseStart :: "denv \<Rightarrow> stepper \<Rightarrow> drv \<Rightarrow> stepper \<times> drv" where
  "stepperPulseStart E st s =
     (let s = s\<lparr>core_stepper := True\<rparr>;
          st = (if dir_changed st \<noteq> 0 then st\<lparr>dir_changed := 0\<rparr> else st)
      in (st, if step_out st \<noteq> 0 then on_machine (gf_stream_pulse (d_os E) (step_out st) (dir_out st)) s else s))"

section \<open>Signals, coolant and atomics\<close>

definition limitsGetState :: "nat set" where
  "limitsGetState = {}"

definition systemGetState :: "denv \<Rightarrow> drv \<Rightarrow> signals" where
  "systemGetState E s = gfsw_get_state (d_co E) (machine s)"

definition coolantSetState :: "denv \<Rightarrow> coolant_state \<Rightarrow> drv \<Rightarrow> drv" where
  "coolantSetState E mode s = on_machine (gfcool_coolant_set (d_os E) (d_co E) mode) s"

definition coolantGetState :: "drv \<Rightarrow> coolant_state" where
  "coolantGetState s = gfcool_coolant_get (machine s)"

text \<open>\<open>uint_fast16_t\<close> has 32 bits on the machine. Each returns the new word and, where the code does, the old one.\<close>

definition bitsSetAtomic :: "u32 \<Rightarrow> u32 \<Rightarrow> u32" where
  "bitsSetAtomic ptr bits = ptr OR bits"

definition bitsClearAtomic :: "u32 \<Rightarrow> u32 \<Rightarrow> u32 \<times> u32" where
  "bitsClearAtomic ptr bits = (ptr, ptr AND NOT bits)"

definition valueSetAtomic :: "u32 \<Rightarrow> u32 \<Rightarrow> u32 \<times> u32" where
  "valueSetAtomic ptr v = (ptr, v)"

section \<open>Settings\<close>

definition apply_machine_pins :: "denv \<Rightarrow> u8 \<times> u8 \<times> u8 \<Rightarrow> machine_settings \<Rightarrow> drv \<Rightarrow> machine_settings \<times> drv" where
  "apply_machine_pins E masks st s =
     (let (mode, m) = gfio_xy_microsteps (d_os E) (machine s);
          (held, st) = gfio_apply_machine_pins masks mode (unat (gf_stream_rate m)) st
      in (st, s\<lparr>machine := m\<rparr>))"

definition drv_settings_changed :: "denv \<Rightarrow> u8 \<times> u8 \<times> u8 \<Rightarrow> (machine_settings \<Rightarrow> drv \<Rightarrow> machine_settings \<times> drv)
    \<Rightarrow> machine_settings \<Rightarrow> drv \<Rightarrow> machine_settings \<times> drv" where
  "drv_settings_changed E masks chain st s =
     (let (st, s) = apply_machine_pins E masks st s;
          (st, s) = chain st s
      in (st, on_machine gfhome_apply_z_limit s))"

section \<open>The reset\<close>

definition READBACK_WAIT_MS :: nat where "READBACK_WAIT_MS = 1000"

definition drop_unplayed :: "steps3 \<Rightarrow> mach \<Rightarrow> mach" where
  "drop_unplayed d m =
     m\<lparr>sys_position_xy := (fst (sys_position_xy m) - sint (sx d), snd (sys_position_xy m) - sint (sy d)),
       sys_position_z := sys_position_z m - sint (sz d), sys_position_lost := False\<rparr>"

definition readback_position :: "denv \<Rightarrow> mach \<Rightarrow> mach option" where
  "readback_position E m =
     map_option (\<lambda>((rc, d), m). if rc > 0 then drop_unplayed d m else m)
       (gf_stream_readback (d_os E) (d_threads E) READBACK_WAIT_MS m)"

text \<open>A position that is still lost: the sender is told and the reference goes.\<close>

definition drop_lost :: "mach \<Rightarrow> mach" where
  "drop_lost m =
     (if sys_position_lost m
      then (gfhome_invalidate (report_message ''Soft reset: the position cannot be read back. Home before the coordinates are trusted.'' m))
             \<lparr>sys_position_lost := False\<rparr>
      else m)"

text \<open>The laser first, then the stream, then the envelope.\<close>

definition reset_stop :: "denv \<Rightarrow> mach \<Rightarrow> mach" where
  "reset_stop E m = gfhome_envelope_close (gf_stream_reset (d_os E) (gflaser_disarm (d_os E) (d_co E) m))"

definition reset_machine :: "denv \<Rightarrow> mach \<Rightarrow> mach option" where
  "reset_machine E m =
     (if co_reset_pending (d_co E) (core_tr m) (io_tr m)
      then map_option drop_lost (readback_position E (reset_stop E m))
      else Some m)"

definition driverReset :: "denv \<Rightarrow> drv \<Rightarrow> drv option" where
  "driverReset E s = map_option (d_reset_chain E) (on_machine_opt (reset_machine E) s)"

section \<open>The realtime hook\<close>

definition motion_parked :: "core \<Rightarrow> sys_state \<Rightarrow> mach \<Rightarrow> bool" where
  "motion_parked co state m =
     (if state = {HOLD} then co_hold_complete co (core_tr m) (io_tr m)
      else if state = {SAFETY_DOOR} then co_door_parked co (core_tr m) (io_tr m)
      else state = {SLEEP})"

definition rt_reference :: "denv \<Rightarrow> sys_state \<Rightarrow> drv \<Rightarrow> drv" where
  "rt_reference E state s =
     (if \<not> lens_referenced s \<and> state \<noteq> {ALARM}
      then on_machine (gfhome_startup_reference (d_os E) (d_mi E)) (s\<lparr>lens_referenced := True\<rparr>) else s)"

definition rt_delay :: "denv \<Rightarrow> drv \<Rightarrow> drv" where
  "rt_delay E s =
     (case delay_callback s of None \<Rightarrow> s
      | Some cb \<Rightarrow> let (now, s) = drv_millis E s in
          if sint (now - delay_deadline_ms s) \<ge> 0 then d_callback E cb (s\<lparr>delay_callback := None\<rparr>) else s)"

definition rt_fault :: "denv \<Rightarrow> mach \<Rightarrow> mach" where
  "rt_fault E m =
     (let (fault, m) = gf_stream_fault_take m in
      if fault then ask Alarm_MotorFault (gfhome_invalidate (gflaser_disarm (d_os E) (d_co E) m)) else m)"

definition rt_overrun :: "drv \<Rightarrow> drv" where
  "rt_overrun s =
     (let (over, s) = serial_rx_overflow_take s in
      if over
      then on_machine (\<lambda>m. protocol_enqueue_realtime_command CMD_RESET
             (report_message ''RX overrun: the sender ignored flow control (Bf:); job aborted'' m)) s
      else s)"

definition rt_polls :: "denv \<Rightarrow> mach \<Rightarrow> mach option" where
  "rt_polls E m =
     (case gfcool_poll (d_os E) (d_co E) (d_rt E) m of None \<Rightarrow> None
      | Some m \<Rightarrow>
          (case gflaser_poll (d_os E) (d_co E) (d_rt E) m of None \<Rightarrow> None
           | Some m \<Rightarrow> map_option (gfrelease_poll (d_co E)) (gfsw_poll (d_os E) (d_co E) (d_rt E) m)))"

text \<open>What the exit request asks for in this pass: nothing, a reset, to wait for its ramp, or the end.\<close>

datatype exit_step = Exit_none | Exit_reset | Exit_wait | Exit_now

definition rt_exit :: "denv \<Rightarrow> sys_state \<Rightarrow> drv \<Rightarrow> exit_step \<times> drv" where
  "rt_exit E state s =
     (if \<not> exit_asked s then (Exit_none, s)
      else let (moving, s) =
                 (if state = {CYCLE} \<or> state = {JOG} \<or> state = {HOMING} then (True, s)
                  else if in_state state {HOLD}
                  then let (idle, m) = gf_stream_kernel_idle (d_os E) (machine s) in (\<not> idle, s\<lparr>machine := m\<rparr>)
                  else (False, s))
           in if moving
              then (Exit_reset, if \<not> exit_reset_sent s
                     then on_machine (protocol_enqueue_realtime_command CMD_RESET) (s\<lparr>exit_reset_sent := True\<rparr>) else s)
              else let (idle, s) = (if exit_reset_sent s
                                    then let (idle, m) = gf_stream_kernel_idle (d_os E) (machine s) in (idle, s\<lparr>machine := m\<rparr>)
                                    else (True, s));
                       (over, s) = (if idle then (True, s) else exit_wait_over (d_os E) s)
                   in (if over then Exit_now else Exit_wait, s))"

text \<open>\<open>exit\<close> runs the stream's shutdown, which registered last, before the settings file is closed.\<close>

definition rt_leave :: "denv \<Rightarrow> drv \<Rightarrow> drv option" where
  "rt_leave E s = map_option (on_machine (gf_stream_shutdown (d_os E))) (drv_serial_poll E s)"

definition rt_pace :: "denv \<Rightarrow> sys_state \<Rightarrow> drv \<Rightarrow> nat" where
  "rt_pace E state s =
     (if state = STATE_IDLE \<or> state = {ALARM} \<or> motion_parked (d_co E) state (machine s)
      then (if delay_callback s \<noteq> None then 1000 else 10000) else 200)"

definition rt_head :: "denv \<Rightarrow> sys_state \<Rightarrow> drv \<Rightarrow> drv option" where
  "rt_head E state s =
     map_option (gfstatus_poll (d_sr E) (d_co E) (d_io E))
       (on_machine_opt (rt_polls E) (rt_overrun (on_machine (rt_fault E) (rt_delay E (rt_reference E state s)))))"

definition glowforge_process_realtime :: "denv \<Rightarrow> sys_state \<Rightarrow> drv \<Rightarrow> (drv + drv) option" where
  "glowforge_process_realtime E state s =
     (case rt_head E state s of None \<Rightarrow> None
      | Some s \<Rightarrow>
          (case rt_exit E state s of (step, s) \<Rightarrow>
             if step = Exit_now then map_option Inl (rt_leave E s)
             else map_option (\<lambda>s. Inr (d_realtime E state s)) (drv_serial_poll E (drv_serial_wait E s))))"

section \<open>Start\<close>

text \<open>The settings dispatch, the idle stepper, the coolant off; true for the settings version that the driver knows.\<close>

definition driver_setup :: "denv \<Rightarrow> u8 \<times> u8 \<times> u8 \<Rightarrow> (machine_settings \<Rightarrow> drv \<Rightarrow> machine_settings \<times> drv)
    \<Rightarrow> nat \<Rightarrow> machine_settings \<Rightarrow> drv \<Rightarrow> bool \<times> machine_settings \<times> drv" where
  "driver_setup E masks chain version st s =
     (let (st, s) = drv_settings_changed E masks chain st s;
          s = stepperGoIdle E s
      in (version = 23, st, coolantSetState E \<lparr>flood = False, mist = False\<rparr> s))"

text \<open>
  The modules in their order. False is the end of the process in \<open>gf_stream_init\<close>, or a
  core of another version; \<open>threads_ok\<close> says that the stream's threads start.
\<close>

definition init_modules :: "denv \<Rightarrow> drv \<Rightarrow> drv" where
  "init_modules E s =
     (let s = on_machine (gfcool_init (d_os E)) s;
          s = gfstatus_init (d_os E) (d_sr E) s;
          s = on_machine (\<lambda>m. gfsw_init (d_os E) (d_co E) (gftray_init (d_os E) (gflaser_init (d_os E) (gfhome_init m)))) s;
          s = ctlport_init (d_os E) (d_po E) s
      in s\<lparr>f_step_timer := gf_stream_vclk (machine s), step_us_min := 1000000 / of_nat (unat (gf_stream_rate (machine s)))\<rparr>)"

definition driver_init :: "denv \<Rightarrow> bool \<Rightarrow> nat \<Rightarrow> drv \<Rightarrow> (bool \<times> drv) option" where
  "driver_init E threads_ok hal_version s =
     map_option (\<lambda>(ok, m). if ok then (hal_version = 10, init_modules E (s\<lparr>machine := m\<rparr>)) else (False, s\<lparr>machine := m\<rparr>))
       (gf_stream_init (d_os E) threads_ok (gfrelease_adopt (machine s)))"

end
