(* ===== verification/Status_Props.thy ===== *)
theory Status_Props
  imports Status Ctlport_Props2
begin

text \<open>
  What the published state promises its reader: while the module is active, what is cheap
  to read is current in the file after every poll, and the file is never older than the
  heartbeat.
\<close>

fun newest_state :: "fev list \<Rightarrow> (rat \<times> sbody) option" where
  "newest_state [] = None"
| "newest_state (F_state t b # tr) = Some (t, b)"
| "newest_state (_ # tr) = newest_state tr"

text \<open>That a body tells the cheap values, as it prints them.\<close>

definition tells :: "sbody \<Rightarrow> seen \<Rightarrow> bool" where
  "tells b v \<longleftrightarrow> b_state b = status_state_name (seen_state v) \<and> of_nat (b_alarm b) = seen_alarm v \<and> b_connected b = seen_connected v \<and>
     b_generation b = seen_generation v \<and> b_armed b = seen_armed v \<and> b_arming b = seen_arming v \<and> b_feed b = seen_feed v \<and>
     b_rapid b = seen_rapid v \<and> b_gamma b = print_round (seen_gamma v * 100)"

text \<open>The module's memory is the file's content.\<close>

fun memory :: "(rat \<times> sbody) option \<Rightarrow> rat \<Rightarrow> sbody option \<Rightarrow> seen \<Rightarrow> bool" where
  "memory None heartbeat published v \<longleftrightarrow> heartbeat \<le> 0 \<and> published = None"
| "memory (Some (t, b)) heartbeat published v \<longleftrightarrow> heartbeat = t + HEARTBEAT_S \<and> published = Some b \<and> tells b v"

definition status_inv :: "'a status_scheme \<Rightarrow> bool" where
  "status_inv s \<longleftrightarrow> (st_active s \<longrightarrow> memory (newest_state (st_tr s)) (next_heartbeat s) (last_state s) (st_seen s))"

lemma status_inv_cong:
  assumes "st_active t = st_active s" "newest_state (st_tr t) = newest_state (st_tr s)" "next_heartbeat t = next_heartbeat s"
    "last_state t = last_state s" "st_seen t = st_seen s"
  shows "status_inv t = status_inv s"
  using assms by (simp add: status_inv_def)

definition clock_mono :: "sio \<Rightarrow> bool" where
  "clock_mono io \<longleftrightarrow> (\<forall>tr. 0 \<le> ts_s (sio_now io tr)) \<and> (\<forall>tr e. ts_s (sio_now io tr) \<le> ts_s (sio_now io (e # tr)))"

abbreviation port_time :: "sio \<Rightarrow> 'a ser_scheme \<Rightarrow> rat" where
  "port_time io s \<equiv> ts_s (sio_now io (ser_tr s))"

lemma render_tells:
  assumes "render sr co io s = (b, u)"
  shows "tells b (look sr co s)" "st_tr u = st_tr s" "st_active u = st_active s" "next_heartbeat u = next_heartbeat s" "last_state u = last_state s"
    "st_seen u = st_seen s" "machine u = machine s" "look sr co u = look sr co s" "clock_mono io \<Longrightarrow> port_time io s \<le> port_time io u"
proof -
  have u: "u = s \<or> u = s\<lparr>ser_tr := S_now (sio_now io (ser_tr s)) # ser_tr s\<rparr>"
    using assms by (auto simp: render_def port_now_upd Let_def split: if_splits)
  then show "st_tr u = st_tr s" "st_active u = st_active s" "next_heartbeat u = next_heartbeat s" "last_state u = last_state s"
    "st_seen u = st_seen s" "machine u = machine s" "look sr co u = look sr co s" "clock_mono io \<Longrightarrow> port_time io s \<le> port_time io u"
    by (auto simp: look_def serial_client_connected_def clock_mono_def Let_def)
  show "tells b (look sr co s)"
    using assms by (auto simp: render_def tells_def look_def port_now_upd serial_client_connected_def Let_def split: if_splits)
qed

lemma publish_state_active:
  "st_active (publish_state sr co io force s) \<Longrightarrow> st_active s"
  by (auto simp: publish_state_def write_file_def render_def port_now_upd Let_def split: if_splits)

text \<open>What a poll's publication leaves, when every write worked.\<close>

lemma publish_state_current:
  assumes "status_inv s" "clock_mono io" "st_active (publish_state sr co io False s)" "st_active s"
  shows "status_inv (publish_state sr co io False s) \<and>
    (\<exists>t b. newest_state (st_tr (publish_state sr co io False s)) = Some (t, b) \<and> tells b (look sr co s) \<and> port_time io s < t + HEARTBEAT_S)"
proof -
  define u where "u = (if look sr co s \<noteq> st_seen s then s else s\<lparr>ser_tr := S_now (sio_now io (ser_tr s)) # ser_tr s\<rparr>)"
  have u: "st_tr u = st_tr s" "st_active u = st_active s" "next_heartbeat u = next_heartbeat s" "last_state u = last_state s" "st_seen u = st_seen s"
    "look sr co u = look sr co s" "port_time io s \<le> port_time io u"
    using assms(2) by (auto simp: u_def look_def serial_client_connected_def clock_mono_def Let_def)
  define v where "v = u\<lparr>st_seen := look sr co s\<rparr>"
  obtain b w where r: "render sr co io v = (b, w)" by fastforce
  note R = render_tells [OF r]
  define x where "x = w\<lparr>ser_tr := S_now (sio_now io (ser_tr w)) # ser_tr w\<rparr>"
  have lv: "look sr co v = look sr co s" using u(6) by (simp add: v_def look_def serial_client_connected_def Let_def)
  have t: "tells b (look sr co s)" using R(1) lv by simp
  have a: "port_time io s \<le> port_time io w" using R(9) [OF assms(2)] u(7) by (simp add: v_def)
  have e: "publish_state sr co io False s =
      (if look sr co s = st_seen s \<and> port_time io s < next_heartbeat s then u
       else if last_state s = Some b \<and> port_time io w < next_heartbeat s then x
       else write_file sr ''grbl.state'' (F_state (port_time io w) b) (x\<lparr>last_state := Some b, next_heartbeat := port_time io w + HEARTBEAT_S\<rparr>))"
  proof -
    have "x\<lparr>last_state := l, next_heartbeat := h\<rparr> = w\<lparr>ser_tr := S_now (sio_now io (ser_tr w)) # ser_tr w, last_state := l, next_heartbeat := h\<rparr>" for l h
      by (simp add: x_def)
    moreover have "(if look sr co s \<noteq> st_seen s then (False, s) else let (now, s) = port_now io s in (now < next_heartbeat s, s)) =
        (look sr co s = st_seen s \<and> port_time io s < next_heartbeat s, u)"
      by (simp add: u_def port_now_upd)
    ultimately show ?thesis using u(6) R(4,5) u(3,4)
      unfolding publish_state_def Let_def by (simp add: v_def [symmetric] r port_now_upd x_def [symmetric])
         (auto simp: v_def x_def)
  qed
  have wx: "st_tr x = st_tr s" "st_active x = st_active s" "next_heartbeat x = next_heartbeat s" "last_state x = last_state s" "st_seen x = look sr co s"
    using R(2-6) u by (simp_all add: x_def v_def)
  consider (wait) "look sr co s = st_seen s" "port_time io s < next_heartbeat s" "publish_state sr co io False s = u"
    | (same) "last_state s = Some b" "port_time io w < next_heartbeat s" "publish_state sr co io False s = x"
    | (wrote) "publish_state sr co io False s = write_file sr ''grbl.state'' (F_state (port_time io w) b) (x\<lparr>last_state := Some b, next_heartbeat := port_time io w + HEARTBEAT_S\<rparr>)"
    using e by (auto split: if_splits)
  then show ?thesis
  proof cases
    case wait
    have "0 \<le> port_time io s" using assms(2) by (simp add: clock_mono_def)
    then obtain t c where "newest_state (st_tr s) = Some (t, c)"
      using wait assms(1,4) by (cases "newest_state (st_tr s)") (auto simp: status_inv_def)
    then show ?thesis using wait assms(1,4) u by (auto simp: status_inv_def)
  next
    case same
    then obtain t where "newest_state (st_tr s) = Some (t, b)"
      using assms(1,4) by (cases "newest_state (st_tr s)") (auto simp: status_inv_def)
    then show ?thesis using same assms(1,4) wx t a by (auto simp: status_inv_def)
  next
    case wrote
    then show ?thesis using assms(3) wx t a by (auto simp: write_file_def status_inv_def HEARTBEAT_S_def split: if_splits)
  qed
qed

lemma publish_settings_keeps:
  "newest_state (st_tr (publish_settings sr s)) = newest_state (st_tr s)" "st_active (publish_settings sr s) \<Longrightarrow> st_active s"
  "status_inv s \<Longrightarrow> status_inv (publish_settings sr s)" "look sr co (publish_settings sr s) = look sr co s"
  "ser_tr (publish_settings sr s) = ser_tr s"
proof -
  show n: "newest_state (st_tr (publish_settings sr s)) = newest_state (st_tr s)" and a: "st_active (publish_settings sr s) \<Longrightarrow> st_active s"
    and "look sr co (publish_settings sr s) = look sr co s" "ser_tr (publish_settings sr s) = ser_tr s"
    by (auto simp: publish_settings_def write_file_def look_def serial_client_connected_def Let_def split: if_splits)
  have m: "next_heartbeat (publish_settings sr s) = next_heartbeat s" "last_state (publish_settings sr s) = last_state s"
    "st_seen (publish_settings sr s) = st_seen s"
    by (simp_all add: publish_settings_def write_file_def Let_def)
  show "status_inv s \<Longrightarrow> status_inv (publish_settings sr s)"
    using a n m by (simp add: status_inv_def)
qed

text \<open>A poll keeps the memory true, and what it leaves published.\<close>

lemma gfstatus_poll_current:
  assumes "status_inv s" "clock_mono io" "st_active (gfstatus_poll sr co io s)"
  shows "status_inv (gfstatus_poll sr co io s) \<and>
    (\<exists>t b. newest_state (st_tr (gfstatus_poll sr co io s)) = Some (t, b) \<and> tells b (look sr co s) \<and> port_time io s < t + HEARTBEAT_S)"
proof -
  define f where "f = (if pwm_min_value (machine s) \<noteq> last_floor s then s\<lparr>last_floor := pwm_min_value (machine s), settings_dirty := True\<rparr> else s)"
  define g where "g = (if settings_dirty f then publish_settings sr (f\<lparr>settings_dirty := False\<rparr>) else f)"
  have act: "st_active s" using assms(3) by (auto simp: gfstatus_poll_def split: if_splits)
  then have e: "gfstatus_poll sr co io s = publish_state sr co io False g" by (simp add: gfstatus_poll_def f_def g_def Let_def)
  have f: "status_inv f" "look sr co f = look sr co s" "ser_tr f = ser_tr s"
    using assms(1) status_inv_cong [of f s] by (auto simp: f_def look_def serial_client_connected_def Let_def)
  then have "status_inv (f\<lparr>settings_dirty := False\<rparr>)" "look sr co (f\<lparr>settings_dirty := False\<rparr>) = look sr co f"
    using status_inv_cong [of "f\<lparr>settings_dirty := False\<rparr>" f] by (simp_all add: look_def serial_client_connected_def Let_def)
  then have g: "status_inv g" "look sr co g = look sr co s" "ser_tr g = ser_tr s"
    using f by (simp_all add: g_def publish_settings_keeps)
  have "st_active g"
  proof (rule ccontr)
    assume "\<not> st_active g"
    then show False using assms(3) e publish_state_active by metis
  qed
  moreover have "st_active (publish_state sr co io False g)" using assms(3) e by simp
  ultimately show ?thesis using publish_state_current [OF g(1) assms(2), of sr co] g(2,3) unfolding e by simp
qed

section \<open>Reachable states\<close>

text \<open>
  The module is started once and polled; between two polls the rest of the program changes
  everything but the module's own memory and files.
\<close>

definition status_start :: "status \<Rightarrow> bool" where
  "status_start s \<longleftrightarrow> st_tr s = [] \<and> last_state s = None \<and> next_heartbeat s = 0"

inductive ststep :: "status \<Rightarrow> status \<Rightarrow> bool" where
  polled: "clock_mono io \<Longrightarrow> ststep s (gfstatus_poll sr co io s)"
| others: "st_active s' = st_active s \<Longrightarrow> st_tr s' = st_tr s \<Longrightarrow> next_heartbeat s' = next_heartbeat s \<Longrightarrow> last_state s' = last_state s \<Longrightarrow>
    st_seen s' = st_seen s \<Longrightarrow> ststep s s'"

lemma ststep_inv: "ststep s s' \<Longrightarrow> status_inv s \<Longrightarrow> status_inv s'"
proof (induction rule: ststep.induct)
  case (polled io s sr co)
  then show ?case using gfstatus_poll_current [of s io sr co] by (cases "st_active (gfstatus_poll sr co io s)") (auto simp: status_inv_def)
next
  case (others s' s)
  then show ?case using status_inv_cong [of s' s] by simp
qed

interpretation status_sys: guarded_system status_start ststep status_inv
proof unfold_locales
  show "status_start s \<Longrightarrow> status_inv s" for s by (simp add: status_start_def status_inv_def)
  show "status_inv s \<Longrightarrow> ststep s t \<Longrightarrow> status_inv t" for s t using ststep_inv by blast
qed

text \<open>
  C39. However the rest of the program runs between its polls, a poll of the status module that
  leaves it active (every file it had to write was written) leaves a published state whose
  cheap values - the machine state, the alarm, the sender's connection and generation, the
  arming, the overrides and the gamma - are the values of now, and which is younger than the
  heartbeat.
\<close>

theorem status_current:
  assumes "reachable status_start ststep s" "clock_mono io" "st_active (gfstatus_poll sr co io s)"
  shows "\<exists>t b. newest_state (st_tr (gfstatus_poll sr co io s)) = Some (t, b) \<and> tells b (look sr co s) \<and> port_time io s < t + HEARTBEAT_S"
  using gfstatus_poll_current [OF status_sys.inv_reachable [OF assms(1)] assms(2,3)] by blast

definition bench_sr :: srep where
  "bench_sr = \<lparr>sr_alarm = (\<lambda>c t. 0), sr_feed = (\<lambda>c t. 100), sr_rapid = (\<lambda>c t. 100), sr_modes = (\<lambda>c t. [''[GC:G0]'']), sr_settings = (\<lambda>c t. []),
     sr_version = None, sr_stat = True, sr_open = (\<lambda>t. True), sr_written = (\<lambda>t. True), sr_rename = (\<lambda>t. True)\<rparr>"

definition bench_status :: status where
  "bench_status = gfstatus_init bench_os bench_sr (status0 bench_port)"

lemma bench_status_sel:
  "st_active bench_status" "st_tr bench_status = []" "next_heartbeat bench_status = 0" "last_state bench_status = None"
  by (simp_all add: bench_status_def gfstatus_init_def status0_def port.defs status.defs bench_sr_def)

lemma bench_clock_mono: "clock_mono bench_sio"
  by (simp add: clock_mono_def bench_sio_def ts_s_def)

text \<open>A file system that takes every file.\<close>

lemma poll_active:
  assumes "\<And>t. sr_open sr t \<and> sr_written sr t \<and> sr_rename sr t" "st_active s"
  shows "st_active (gfstatus_poll sr co io s)"
proof -
  have w: "st_active (write_file sr n e u) = st_active u" for n e and u :: "'a status_scheme" using assms(1) by (simp add: write_file_def)
  have r: "st_active (snd (render sr co io u)) = st_active u" for u :: "'a status_scheme" by (simp add: render_def port_now_upd Let_def)
  have "st_active (publish_state sr co io f u) = st_active u" for f and u :: "'a status_scheme"
    by (simp add: publish_state_def w r port_now_upd Let_def case_prod_beta)
  moreover have "st_active (publish_settings sr u) = st_active u" for u :: "'a status_scheme" by (simp add: publish_settings_def w Let_def)
  ultimately show ?thesis using assms(2) by (simp add: gfstatus_poll_def Let_def)
qed

theorem status_current_witness:
  "\<exists>t b. newest_state (st_tr (gfstatus_poll bench_sr bench_co bench_sio bench_status)) = Some (t, b)
     \<and> tells b (look bench_sr bench_co bench_status) \<and> port_time bench_sio bench_status < t + HEARTBEAT_S"
proof -
  have "reachable status_start ststep bench_status" by (rule reachable.start) (simp add: status_start_def bench_status_sel)
  moreover have "st_active (gfstatus_poll bench_sr bench_co bench_sio bench_status)"
    by (rule poll_active) (simp_all add: bench_sr_def bench_status_sel)
  ultimately show ?thesis using status_current [of bench_status bench_sio bench_sr bench_co] bench_clock_mono by blast
qed

end
