(* ===== verification/Driver_Props.thy ===== *)
theory Driver_Props
  imports Driver Homing_Props Status_Props
begin

text \<open>
  What the driver's own code promises: what a reset leaves of the laser window and of the
  position, when an exit request ends the process and what it leaves behind, and what a
  deferred callback's clock does over the wrap of the millisecond counter.
\<close>

section \<open>What the stream calls keep of the machine\<close>

text \<open>The reference and the position of Z, the gates, and everything above the stream's own fields.\<close>

definition rview :: "'a gf_scheme \<Rightarrow> u8 \<times> bool \<times> rat \<times> int \<times> bool \<times> bool \<times> 'a" where
  "rview s = (sys_homed s, z_referenced s, z_spm s, sys_position_z s, laser_armed s, fire_gate s, gf.more s)"

lemma rview_io [simp]:
  "rview (emit e s) = rview s" "rview (snd (wall_s os s)) = rview s" "rview (sleep_ns n s) = rview s" "rview (wr_attr os a v s) = rview s"
  "rview (snd (gfio_rd_attr os a len s)) = rview s"
  by (simp_all add: rview_def frame_simps emit_def Let_def case_prod_beta)

lemma rview_latch [simp]: "rview (snd (gf_stream_laser_latch os b s)) = rview s"
proof -
  have r: "rview (snd (latch_retry os v n rc u)) = rview u" for v n rc and u :: "'a gf_scheme"
    by (induction os v n rc u rule: latch_retry.induct) (simp_all add: gfio_wr_attr_upd case_prod_beta rview_def sleep_ns_upd)
  have u: "rview (u\<lparr>latch_locked_by_us := a\<rparr>) = rview u" "rview (u\<lparr>latch_fail_reported := a\<rparr>) = rview u" "rview (latch_log l u) = rview u"
    "rview (latch_fault u) = rview u" for a l and u :: "'a gf_scheme"
    by (simp_all add: rview_def latch_log_def emit_def latch_fault_def)
  have "rview (snd (latch_write_locked os b u)) = rview u" for b and u :: "'a gf_scheme"
    by (simp add: latch_write_locked_def wr_attr_rc Let_def case_prod_beta r u)
  then show ?thesis by (simp add: gf_stream_laser_latch_def Let_def case_prod_beta u)
qed

lemma rview_reset [simp]: "rview (gf_stream_reset os s) = rview s"
proof -
  have d: "rview (snd (drop_backlog_locked d u)) = rview u" for d and u :: "'a gf_scheme"
    by (simp add: drop_backlog_locked_def rview_def Let_def case_prod_beta)
  have l: "rview (reset_laser u) = rview u" for u :: "'a gf_scheme" by (simp add: reset_laser_def dither_reset_def rview_def)
  have u: "rview (u\<lparr>kernel_running := a, run_pending := b, clear_pending := c, hold_pending := e, hold_poll_at := h\<rparr>) = rview u"
    "rview (u\<lparr>unplayed := x, gf_readback := y\<rparr>) = rview u" "rview (u\<lparr>failed := a, kernel_running := b, run_pending := c, clear_pending := e, hold_pending := f\<rparr>) = rview u"
    "rview (u\<lparr>killed := a, gf_readback := y\<rparr>) = rview u" "rview (u\<lparr>last_lit := a\<rparr>) = rview u" "rview (u\<lparr>latch_fail_reported := a\<rparr>) = rview u"
    for u :: "'a gf_scheme" and a b c e f h x y by (simp_all add: rview_def)
  have "rview (snd (reset_live os k u)) = rview u" for k and u :: "'a gf_scheme"
    by (simp add: reset_live_def d l u Let_def case_prod_beta)
  moreover have "rview (reset_failed u) = rview u" for u :: "'a gf_scheme" by (simp add: reset_failed_def d l u Let_def case_prod_beta)
  ultimately show ?thesis by (simp add: gf_stream_reset_def u Let_def case_prod_beta)
qed

text \<open>The stream's threads leave the same alone.\<close>

definition threads_keep :: "('a gf_scheme \<Rightarrow> 'a gf_scheme) \<Rightarrow> bool" where
  "threads_keep th \<longleftrightarrow> (\<forall>m. rview (th m) = rview m)"

lemma rview_readback:
  fixes s :: "'a gf_scheme"
  assumes "gf_stream_readback os th w s = Some (r, s')" "threads_keep th"
  shows "rview s' = rview s"
proof -
  have l: "rview (snd (readback_look os d u)) = rview u" for os d and u :: "'a gf_scheme"
  proof -
    have "rview (u\<lparr>gf_readback := x\<rparr>) = rview u" for x and u :: "'a gf_scheme" by (simp add: rview_def)
    then show ?thesis by (simp add: readback_look_def Let_def case_prod_beta)
  qed
  have "th2 = th \<longrightarrow> rview s' = rview u"
    if "readback_wait os th2 d u = Some (r, s')" for th2 d and u s' :: "'a gf_scheme" and r
  proof (rule readback_wait.raw_induct [where P = "\<lambda>os th2 d u rs. th2 = th \<longrightarrow> rview (snd rs) = rview u", OF _ that, unfolded snd_conv])
    fix w os th2 d rs and u :: "'a gf_scheme"
    assume IH: "\<And>os th2 d u rs. w os th2 d u = Some rs \<Longrightarrow> th2 = th \<longrightarrow> rview (snd rs) = rview u"
      and b: "(case readback_look os d u of (None, s') \<Rightarrow> w os th2 d (th2 (sleep_ns 2000000 s')) | (Some a, s') \<Rightarrow> Some (a, s')) = Some rs"
    obtain a v where v: "readback_look os d u = (a, v)" by fastforce
    have k: "rview v = rview u" using l [of os d u] v by simp
    show "th2 = th \<longrightarrow> rview (snd rs) = rview u"
    proof
      assume t: "th2 = th"
      have "rview (th (sleep_ns 2000000 v)) = rview v" using assms(2) by (simp add: threads_keep_def)
      then show "rview (snd rs) = rview u"
        using b k t IH [of os th d "th (sleep_ns 2000000 v)" rs] by (cases a) (auto simp: v)
    qed
  qed
  then show ?thesis using assms(1) by (auto simp: gf_stream_readback_def case_prod_beta)
qed

section \<open>What a disarm keeps\<close>

definition pview :: "'a mach_scheme \<Rightarrow> u8 \<times> bool \<times> rat \<times> int \<times> (int \<times> int) \<times> bool \<times> bool" where
  "pview m = (sys_homed m, z_referenced m, z_spm m, sys_position_z m, sys_position_xy m, sys_position_lost m, envelope_is_open m)"

lemma pview_rview: "rview m = rview m' \<Longrightarrow> pview m = pview m'"
  by (cases m, cases m') (simp add: rview_def pview_def)

lemma pview_disarm [simp]: "pview (gflaser_disarm os co m) = pview m"
proof -
  have r: "pview (snd (latch_lock os True u)) = pview u" for u :: "'a mach_scheme"
    using pview_rview [OF rview_latch] unfolding latch_lock_def .
  have "pview (gfcool_laser_armed os co b u) = pview u" "pview (button_led n u) = pview u" "pview (report_message t u) = pview u"
    "pview (gf_stream_fire_gate b u) = pview u" "pview (gf_stream_laser_arm b u) = pview u" "pview (u\<lparr>laser_ok := b\<rparr>) = pview u"
    "pview (u\<lparr>disarm_at := x, disarm_request := b\<rparr>) = pview u" "pview (u\<lparr>disarmed_at := x\<rparr>) = pview u" "pview (snd (wall_s os u)) = pview u"
    for b n t x and u :: "'a mach_scheme"
    by (simp_all add: pview_def gfcool_laser_armed_def report_now_def mono_ms_def core_defs gf_stream_fire_gate_def gf_stream_laser_arm_def
          frame_simps Let_def case_prod_beta)
  then show ?thesis using r by (simp add: gflaser_disarm_def Let_def case_prod_beta)
qed

section \<open>The reset\<close>

definition shut :: "'a mach_scheme \<Rightarrow> bool" where
  "shut m \<longleftrightarrow> \<not> laser_ok m \<and> \<not> laser_armed m \<and> \<not> fire_gate m"

lemma shut_rview: "rview m = rview m' \<Longrightarrow> shut m = shut m'"
  by (cases m, cases m') (simp add: rview_def shut_def)

lemma reset_stop_sel:
  "shut (reset_stop E m)" "\<not> envelope_is_open (reset_stop E m)" "sys_homed (reset_stop E m) = sys_homed m" "z_referenced (reset_stop E m) = z_referenced m"
  "z_spm (reset_stop E m) = z_spm m" "sys_position_z (reset_stop E m) = sys_position_z m" "sys_position_xy (reset_stop E m) = sys_position_xy m"
  "sys_position_lost (reset_stop E m) = sys_position_lost m"
proof -
  define d where "d = gflaser_disarm (d_os E) (d_co E) m"
  define r where "r = gf_stream_reset (d_os E) d"
  have "shut d" using gflaser_disarm_sel [of "d_os E" "d_co E" m] by (simp add: d_def shut_def)
  then have s: "shut r" using shut_rview [OF rview_reset, of "d_os E" d] by (simp add: r_def)
  have p: "pview r = pview m" using pview_rview [OF rview_reset, of "d_os E" d] by (simp add: r_def d_def)
  show "shut (reset_stop E m)" "\<not> envelope_is_open (reset_stop E m)" using s
    by (auto simp: reset_stop_def gfhome_envelope_close_def shut_def simp flip: d_def r_def)
  show "sys_homed (reset_stop E m) = sys_homed m" "z_referenced (reset_stop E m) = z_referenced m"
    "z_spm (reset_stop E m) = z_spm m" "sys_position_z (reset_stop E m) = sys_position_z m" "sys_position_xy (reset_stop E m) = sys_position_xy m"
    "sys_position_lost (reset_stop E m) = sys_position_lost m"
    using p by (auto simp: reset_stop_def gfhome_envelope_close_def pview_def simp flip: d_def r_def)
qed

text \<open>
  C9. A reset, once the core has it pending and the read-back has come to its end, leaves the
  laser window, the stream's armed flag and its fire gate closed, the envelope closed and
  the position no longer marked lost. When the stream read the stop back, the position is
  the counted one less the steps that never played, with the reference as it was.
  Otherwise it is the counted one, with the reference as it was when the position was
  never lost, and with X, Y and the lens unreferenced and the sender told when it was.
\<close>

theorem reset_outcome:
  assumes "co_reset_pending (d_co E) (core_tr (machine s)) (io_tr (machine s))" "threads_keep (d_threads E)"
    and "driverReset E s = Some s'" "\<And>u. machine (d_reset_chain E u) = machine u" "0 < z_spm (machine s)"
  shows "shut (machine s') \<and> \<not> envelope_is_open (machine s') \<and> \<not> sys_position_lost (machine s') \<and>
    (let m = machine s; m' = machine s' in
      \<exists>rc d v. gf_stream_readback (d_os E) (d_threads E) READBACK_WAIT_MS (reset_stop E m) = Some ((rc, d), v) \<and>
        (if rc > 0
         then sys_position_xy m' = (fst (sys_position_xy m) - sint (sx d), snd (sys_position_xy m) - sint (sy d)) \<and>
              sys_position_z m' = sys_position_z m - sint (sz d) \<and> sys_homed m' = sys_homed m \<and> z_referenced m' = z_referenced m
         else sys_position_xy m' = sys_position_xy m \<and> sys_position_z m' = sys_position_z m \<and>
           (if sys_position_lost m then unref m' \<and> (\<exists>t. hd (core_tr m') = Msg t)
            else sys_homed m' = sys_homed m \<and> z_referenced m' = z_referenced m)))"
proof -
  obtain rc d v where v: "gf_stream_readback (d_os E) (d_threads E) READBACK_WAIT_MS (reset_stop E (machine s)) = Some ((rc, d), v)"
    and m': "machine s' = drop_lost (if rc > 0 then drop_unplayed d v else v)"
    using assms(1,3,4) by (auto simp: driverReset_def on_machine_opt_def reset_machine_def readback_position_def reset_stop_def)
  note rv = rview_readback [OF v assms(2)]
  note p = reset_stop_sel [of E "machine s"]
  have sh: "shut v" "\<not> envelope_is_open v" "sys_homed v = sys_homed (machine s)" "z_referenced v = z_referenced (machine s)" "z_spm v = z_spm (machine s)"
    "sys_position_z v = sys_position_z (machine s)" "sys_position_xy v = sys_position_xy (machine s)" "sys_position_lost v = sys_position_lost (machine s)"
    using shut_rview [OF rv] pview_rview [OF rv] p by (auto simp: pview_def)
  show ?thesis
  proof (cases "rc > 0")
    case True
    then show ?thesis using sh v unfolding m' Let_def by (auto simp: drop_lost_def drop_unplayed_def shut_def)
  next
    case False
    have "unref (gfhome_invalidate v)" using assms(5) sh by (intro unref_invalidate) simp
    then show ?thesis using False sh v unfolding m' Let_def
      by (auto simp: drop_lost_def shut_def unref_def gfhome_invalidate_upd core_defs)
  qed
qed

definition bench_env :: denv where
  "bench_env = \<lparr>d_os = bench_os, d_co = bench_co\<lparr>co_reset_pending := (\<lambda>c t. True)\<rparr>, d_mi = bench_mi, d_rt = idle_rt, d_io = bench_sio, d_po = bench_po,
     d_sr = bench_sr, d_threads = (\<lambda>m. m), d_exec_reset = (\<lambda>c t. False), d_stepper = (\<lambda>c t. \<lparr>exec_block = False, exec_segment = False, step_out = 0, dir_out = 0, dir_changed = 0\<rparr>),
     d_write = (\<lambda>t s. s), d_block = (\<lambda>s. (True, s)), d_callback = (\<lambda>n s. s), d_realtime = (\<lambda>st s. s), d_reset_chain = (\<lambda>s. s)\<rparr>"

definition bench_drv :: drv where
  "bench_drv = drv0 bench_status"

lemma bench_drv_machine: "machine bench_drv = bench_mach"
  by (simp add: bench_drv_def drv0_def status.defs drv.defs bench_status_def gfstatus_init_def status0_def port.defs bench_port_sel)

text \<open>A position that was lost with no read-back owed: the reset drops the reference.\<close>

lemma readback_none:
  assumes "gf_readback s \<noteq> RB_WAIT"
  shows "\<exists>r. gf_stream_readback os th w s = Some r"
proof -
  have "\<exists>r. readback_wait os th d u = Some r" if "gf_readback u \<noteq> RB_WAIT" for d u
    using that by (subst readback_wait.simps) (auto simp: readback_look_def Let_def)
  moreover have "gf_readback (snd (wall_s os s)) \<noteq> RB_WAIT" using assms by (simp add: wall_s_upd)
  ultimately show ?thesis by (simp add: gf_stream_readback_def case_prod_beta)
qed

lemma reset_owes_nothing: "\<not> streaming s \<Longrightarrow> \<not> killed s \<Longrightarrow> \<not> failed s \<Longrightarrow> gf_readback (gf_stream_reset os s) = RB_NONE"
  by (simp add: gf_stream_reset_def Let_def)

definition lost_mach :: mach where
  "lost_mach = bench_mach\<lparr>sys_position_lost := True, sys_homed := 7, killed := False, streaming := False, failed := False,
     laser_ok := False, laser_armed := False, fire_gate := False, latch_locked_by_us := True\<rparr>"

lemma lost_reset: "gf_readback (gfhome_envelope_close (gf_stream_reset os (gflaser_disarm os co lost_mach))) \<noteq> RB_WAIT"
proof -
  have "gflaser_disarm os co lost_mach = lost_mach" by (rule gflaser_disarm_idem) (simp_all add: lost_mach_def)
  moreover have "gf_readback (gf_stream_reset os lost_mach) = RB_NONE" by (rule reset_owes_nothing) (simp_all add: lost_mach_def)
  ultimately show ?thesis by (simp add: gfhome_envelope_close_def)
qed

theorem reset_outcome_witness:
  "\<exists>s'. driverReset bench_env (bench_drv\<lparr>machine := lost_mach\<rparr>) = Some s' \<and> shut (machine s') \<and> \<not> sys_position_lost (machine s')"
proof -
  have "\<exists>s'. driverReset bench_env (bench_drv\<lparr>machine := lost_mach\<rparr>) = Some s'"
    using readback_none [OF lost_reset, of "bench_os" "\<lambda>m. m" READBACK_WAIT_MS bench_os "bench_co\<lparr>co_reset_pending := (\<lambda>c t. True)\<rparr>"]
    by (auto simp: driverReset_def on_machine_opt_def reset_machine_def reset_stop_def readback_position_def bench_env_def)
  then obtain s' where s': "driverReset bench_env (bench_drv\<lparr>machine := lost_mach\<rparr>) = Some s'" by blast
  have "0 < z_spm lost_mach" by (simp add: lost_mach_def bench_mach_sel)
  then show ?thesis using reset_outcome [OF _ _ s'] s' by (auto simp: bench_env_def threads_keep_def)
qed

section \<open>The exit\<close>

definition relocked :: "os \<Rightarrow> 'a gf_scheme \<Rightarrow> bool" where
  "relocked os m \<longleftrightarrow> latch_locked_by_us m \<or> (\<exists>u :: 'a gf_scheme. \<not> fst (latch_write_locked os True u))"

lemma shutdown_relocks:
  fixes m :: "'a gf_scheme"
  assumes "threads_started m" "\<not> shutdown_done m"
  shows "gf_fd (gf_stream_shutdown os m) < 0" "gf_active m \<longrightarrow> relocked os (gf_stream_shutdown os m)"
proof -
  define a where "a = (let s = m\<lparr>shutdown_done := True, gf_quit := True, gf_armed := False\<rparr> in
     if gf_active s \<and> \<not> suspended s then
       (let s = wr_attr os Cnc_streaming ''0'' s;
            s = (if kernel_running s then wait_idle os 100 (wr_attr os Cnc_stop ''1'' s) else s);
            (idle, s) = gf_stream_kernel_idle os s
        in if idle then s else wr_attr os Cnc_halt ''1'' s)
     else s)"
  have ki: "gf_active (snd (gf_stream_kernel_idle os u)) = gf_active u" for u :: "'a gf_scheme"
    by (simp add: gf_stream_kernel_idle_def frame_simps case_prod_beta)
  have wi: "gf_active (wait_idle os n u) = gf_active u" for n and u :: "'a gf_scheme"
    by (induction n arbitrary: u) (simp_all add: ki frame_simps case_prod_beta Let_def)
  have aa: "gf_active a = gf_active m" by (simp add: a_def ki wi frame_simps Let_def case_prod_beta)
  define b where "b = (if gf_active a then snd (latch_write_locked os True a) else a)"
  have e: "gf_stream_shutdown os m = (if gf_fd b \<ge> 0 then close_dev b else b)\<lparr>gf_dump_fd := - 1\<rparr>"
    unfolding gf_stream_shutdown_def a_def b_def Let_def case_prod_beta using assms by (simp only: if_False simp_thms)
  then show "gf_fd (gf_stream_shutdown os m) < 0" by (simp add: close_dev_def emit_def)
  have l: "latch_locked_by_us (snd (latch_write_locked os True a))" if "fst (latch_write_locked os True a)"
    using that by (auto simp: latch_write_locked_def latch_log_def emit_def Let_def case_prod_beta)
  show "gf_active m \<longrightarrow> relocked os (gf_stream_shutdown os m)"
  proof
    assume "gf_active m"
    then have "b = snd (latch_write_locked os True a)" using aa by (simp add: b_def)
    moreover have "latch_locked_by_us (gf_stream_shutdown os m) = latch_locked_by_us b" unfolding e by (simp add: close_dev_def emit_def)
    ultimately show "relocked os (gf_stream_shutdown os m)" using l unfolding relocked_def by blast
  qed
qed

definition kernel_rests :: "denv \<Rightarrow> drv \<Rightarrow> bool" where
  "kernel_rests E u = fst (gf_stream_kernel_idle (d_os E) (machine u))"

text \<open>The machine at the look for the end of the reset's ramp, and after it.\<close>

definition exit_look :: "denv \<Rightarrow> sys_state \<Rightarrow> drv \<Rightarrow> mach" where
  "exit_look E state u = (if HOLD \<in> state then snd (gf_stream_kernel_idle (d_os E) (machine u)) else machine u)"

definition ramp_over :: "denv \<Rightarrow> sys_state \<Rightarrow> drv \<Rightarrow> bool" where
  "ramp_over E state u =
     (let (idle, m) = gf_stream_kernel_idle (d_os E) (exit_look E state u)
      in idle \<or> exit_wait_until u \<noteq> 0 \<and> exit_wait_until u \<le> os_now (d_os E) (io_tr m))"

lemma rt_exit_now:
  assumes "fst (rt_exit E state u) = Exit_now"
  shows "exit_asked u" "state \<noteq> {CYCLE} \<and> state \<noteq> {JOG} \<and> state \<noteq> {HOMING}" "HOLD \<in> state \<Longrightarrow> kernel_rests E u"
    "exit_reset_sent u \<Longrightarrow> ramp_over E state u"
proof -
  show a: "exit_asked u" using assms by (simp add: rt_exit_def split: if_splits)
  show m: "state \<noteq> {CYCLE} \<and> state \<noteq> {JOG} \<and> state \<noteq> {HOMING}"
  proof (rule ccontr)
    assume "\<not> (state \<noteq> {CYCLE} \<and> state \<noteq> {JOG} \<and> state \<noteq> {HOMING})"
    then have "state = {CYCLE} \<or> state = {JOG} \<or> state = {HOMING}" by blast
    then show False using assms a by (simp add: rt_exit_def)
  qed
  have c: "\<not> (state = {CYCLE} \<or> state = {JOG} \<or> state = {HOMING})" using m by blast
  show h: "kernel_rests E u" if "HOLD \<in> state"
  proof (rule ccontr)
    assume "\<not> kernel_rests E u"
    moreover have "in_state state {HOLD}" using that by (simp add: in_state_def)
    ultimately show False using assms a by (simp add: rt_exit_def c kernel_rests_def case_prod_beta)
  qed
  have hs: "in_state state {HOLD} = (HOLD \<in> state)" by (simp add: in_state_def)
  show "ramp_over E state u" if "exit_reset_sent u"
    using assms a that h
    by (cases "HOLD \<in> state"; cases "fst (gf_stream_kernel_idle (d_os E) (exit_look E state u))")
       (simp_all add: rt_exit_def c hs kernel_rests_def ramp_over_def exit_look_def exit_wait_over_def wall_s_upd Let_def case_prod_beta split: if_splits)
qed


text \<open>With the core at rest, no poll of a module waits.\<close>

lemma idle_polls_return:
  assumes "\<And>c t. co_state (d_co E) c t = STATE_IDLE"
  shows "\<exists>m'. rt_polls E m = Some m'"
proof -
  have st: "state_get (d_co E) u = {}" for u :: mach using assms by (simp add: state_get_def STATE_IDLE_def)
  have c: "\<exists>v. gfcool_poll (d_os E) (d_co E) (d_rt E) u = Some v" for u
    by (simp add: gfcool_poll_def cool_enforce_def cool_fresh_def cool_release_def st in_state_def Let_def case_prod_beta)
  have l: "\<exists>v. gflaser_poll (d_os E) (d_co E) (d_rt E) u = Some v" for u
    by (simp add: gflaser_poll_def rearm_poll_def st in_state_def Let_def)
  have w: "\<exists>v. gfsw_poll (d_os E) (d_co E) (d_rt E) u = Some v" for u
    by (simp add: gfsw_poll_def button_edge_def st Let_def case_prod_beta split: option.split)
  obtain v where v: "gfcool_poll (d_os E) (d_co E) (d_rt E) m = Some v" using c by blast
  obtain x where x: "gflaser_poll (d_os E) (d_co E) (d_rt E) v = Some x" using l by blast
  obtain y where y: "gfsw_poll (d_os E) (d_co E) (d_rt E) x = Some y" using w by blast
  show ?thesis using v x y by (simp add: rt_polls_def)
qed

text \<open>A driver on stdio with nothing to read and no port.\<close>

lemma quiet_poll_returns:
  assumes "listen_fd s < 0" "port_listen_fd s < 0" "\<not> banner_pending s" "sio_stdin (d_io E) = (\<lambda>t. 0)"
  shows "\<exists>s'. drv_serial_poll E s = Some s'"
  using assms by (simp add: drv_serial_poll_def serial_poll_def rx_poll_def rx_stdin_def ctlport_poll_def serial_welcome_def ser_emit_def Let_def)

definition quiet_drv :: drv where
  "quiet_drv = (drv0 (status0 (port0 (ser0 bench_mach))))\<lparr>exit_requested := True, lens_referenced := True\<rparr>"

lemma quiet_drv_sel:
  "listen_fd quiet_drv < 0" "port_listen_fd quiet_drv < 0" "\<not> banner_pending quiet_drv" "\<not> st_active quiet_drv" "exit_requested quiet_drv"
  "delay_callback quiet_drv = None" "lens_referenced quiet_drv" "\<not> rx_overrun quiet_drv" "\<not> exit_reset_sent quiet_drv"
  by (simp_all add: quiet_drv_def drv0_def status0_def port0_def ser0_def status.defs drv.defs port.defs ser.defs)

lemma quiet_exit: "\<exists>s'. glowforge_process_realtime bench_env STATE_IDLE quiet_drv = Some (Inl s')"
proof -
  obtain m where m: "rt_polls bench_env (rt_fault bench_env (machine quiet_drv)) = Some m"
    using idle_polls_return [of bench_env] by (auto simp: bench_env_def bench_co_def gen_co_def STATE_IDLE_def)
  have h: "rt_head bench_env STATE_IDLE quiet_drv = Some (quiet_drv\<lparr>machine := m, rx_overrun := False\<rparr>)"
    using m quiet_drv_sel by (simp add: rt_head_def rt_reference_def rt_delay_def rt_overrun_def serial_rx_overflow_take_def on_machine_def
        on_machine_opt_def gfstatus_poll_def)
  have e: "rt_exit bench_env STATE_IDLE (quiet_drv\<lparr>machine := m, rx_overrun := False\<rparr>) = (Exit_now, quiet_drv\<lparr>machine := m, rx_overrun := False\<rparr>)"
    using quiet_drv_sel by (simp add: rt_exit_def exit_asked_def in_state_def STATE_IDLE_def)
  obtain w where "drv_serial_poll bench_env (quiet_drv\<lparr>machine := m, rx_overrun := False\<rparr>) = Some w"
    using quiet_poll_returns [of "quiet_drv\<lparr>machine := m, rx_overrun := False\<rparr>" bench_env] quiet_drv_sel by (auto simp: bench_env_def bench_sio_def)
  then show ?thesis using h e by (simp add: glowforge_process_realtime_def rt_leave_def)
qed


section \<open>The exit request during motion\<close>

text \<open>
  The sender's \<open>^F\<close> during a cycle does not wait for the motion to be done: the next pass
  of the hook asks the core for a reset, the process goes on, and a second pass sends no
  second reset.
\<close>

theorem ctrl_f_stops:
  "rx_byte os co rt io 0x06 s = Some (ser_emit S_exit s)
   \<and> (let u = (ser_emit S_exit s)\<lparr>exit_reset_sent := False\<rparr>; v = snd (rt_exit E {CYCLE} u) in
        fst (rt_exit E {CYCLE} u) = Exit_reset \<and> core_tr (machine v) = Cmd CMD_RESET # core_tr (machine s) \<and>
        rt_exit E {CYCLE} v = (Exit_reset, v))"
  by (simp add: rx_byte_def rt_exit_def exit_asked_def ser_emit_def on_machine_def core_defs Let_def)

section \<open>A stream fault\<close>

text \<open>
  A stream fault that the hook takes closes the laser window, the stream's armed flag and
  its fire gate, drops the reference of X, Y and the lens, and raises the motor alarm as its
  last act, and it does so before any module is polled.
\<close>

theorem fault_closes:
  assumes "fault_flag m" "0 < z_spm m"
  shows "shut (rt_fault E m) \<and> unref (rt_fault E m) \<and> hd (core_tr (rt_fault E m)) = Ask Alarm_MotorFault \<and> anchor_file (rt_fault E m) = None"
proof -
  define d where "d = gflaser_disarm (d_os E) (d_co E) (m\<lparr>fault_flag := False\<rparr>)"
  have "pview d = pview (m\<lparr>fault_flag := False\<rparr>)" by (simp add: d_def)
  then have z: "0 < z_spm d" using assms(2) by (simp add: pview_def)
  have s: "shut d" using gflaser_disarm_sel [of "d_os E" "d_co E" "m\<lparr>fault_flag := False\<rparr>"] by (simp add: d_def shut_def)
  have e: "rt_fault E m = ask Alarm_MotorFault (gfhome_invalidate d)" using assms(1) by (simp add: rt_fault_def gf_stream_fault_take_def d_def)
  show ?thesis using s unref_invalidate [OF z] unfolding e by (simp add: ask_defs shut_def unref_def gfhome_invalidate_upd)
qed

theorem fault_closes_witness: "shut (rt_fault bench_env (bench_mach\<lparr>fault_flag := True\<rparr>))"
  using fault_closes [of "bench_mach\<lparr>fault_flag := True\<rparr>" bench_env] by (simp add: bench_mach_sel)

section \<open>The deferred callback\<close>

text \<open>
  A deferred callback asked for \<open>ms\<close> milliseconds ahead runs in the first pass that is at
  least that late and in none before, also when the counter wraps in between, for every delay
  and every lateness under 2^31 milliseconds; and it runs once.
\<close>

theorem delay_exact:
  assumes "ms < 2 ^ 31" "e < 2 ^ 31" "delay_callback s = Some cb" "delay_deadline_ms s = t0 + of_nat ms" "fst (drv_millis E s) = t0 + of_nat e"
  shows "rt_delay E s = (let s' = snd (drv_millis E s) in if ms \<le> e then d_callback E cb (s'\<lparr>delay_callback := None\<rparr>) else s')"
proof -
  have "(t0 + of_nat e) - (t0 + of_nat ms) = (of_int (int e - int ms) :: u32)" by simp
  moreover have "sint (of_int (int e - int ms) :: u32) = int e - int ms" using assms(1,2) by (intro sint_small) simp_all
  ultimately have "0 \<le> sint ((t0 + of_nat e) - (t0 + of_nat ms)) \<longleftrightarrow> ms \<le> e" by simp
  moreover have "delay_deadline_ms (snd (drv_millis E s)) = delay_deadline_ms s" by (simp add: drv_millis_def case_prod_beta)
  ultimately show ?thesis using assms(3-5) by (simp add: rt_delay_def case_prod_beta Let_def)
qed

theorem delay_exact_witness:
  "rt_delay bench_env (quiet_drv\<lparr>delay_callback := Some 7, delay_deadline_ms := fst (drv_millis bench_env quiet_drv) + 5\<rparr>)
     = snd (drv_millis bench_env (quiet_drv\<lparr>delay_callback := Some 7, delay_deadline_ms := fst (drv_millis bench_env quiet_drv) + 5\<rparr>))"
proof -
  define s where "s = quiet_drv\<lparr>delay_callback := Some 7, delay_deadline_ms := fst (drv_millis bench_env quiet_drv) + 5\<rparr>"
  have "fst (drv_millis bench_env s) = fst (drv_millis bench_env quiet_drv)" by (simp add: s_def drv_millis_def case_prod_beta)
  then show ?thesis using delay_exact [of 5 0 s 7 "fst (drv_millis bench_env quiet_drv)" bench_env] unfolding s_def [symmetric]
    by (simp add: s_def)
qed

end
