(* ===== verification/Driver_Init.thy ===== *)
theory Driver_Init
  imports Driver_Props
begin

text \<open>
  The order of the start: a gantry that was released before the controller started is
  taken over before the stream writes its first hold current, and stays without current
  through the whole initialisation.
\<close>

section \<open>What the stream's start writes\<close>

text \<open>Released, without current, and with the layers above as they are.\<close>

definition dark :: "'a \<Rightarrow> 'a gf_scheme \<Rightarrow> bool" where
  "dark x s \<longleftrightarrow> xy_released s \<and> xy_dark (io_tr s) \<and> gf.more s = x"

lemma dark_upd [simp]:
  "dark x (s\<lparr>gf_fd := a\<rparr>) = dark x s" "dark x (s\<lparr>gf_dev := b\<rparr>) = dark x s" "dark x (s\<lparr>gf_active := c\<rparr>) = dark x s"
  "dark x (s\<lparr>threads_started := c\<rparr>) = dark x s" "dark x (s\<lparr>base_valid := c\<rparr>) = dark x s" "dark x (s\<lparr>latch_locked_by_us := c\<rparr>) = dark x s"
  "dark x (s\<lparr>gf_rate := n\<rparr>) = dark x s" "dark x (s\<lparr>gf_depth := n\<rparr>) = dark x s" "dark x (s\<lparr>lead_s := q\<rparr>) = dark x s"
  "dark x (s\<lparr>stall_ms := w, write_stall_ms := w'\<rparr>) = dark x s" "dark x (s\<lparr>gf_dump_fd := a\<rparr>) = dark x s" "dark x (s\<lparr>latch_log_fd := a\<rparr>) = dark x s"
  "dark x (gfio_set_hw c s) = dark x s" "dark x (snd (gfio_xy_microsteps os s)) = dark x s"
  "dark x (s\<lparr>latch_fail_reported := c\<rparr>) = dark x s" "dark x (latch_fault s) = dark x s" "dark x (rebase_locked d s) = dark x s"
  by (simp_all add: dark_def latch_fault_def rebase_locked_def gfio_set_hw_def gfio_xy_microsteps_def Let_def case_prod_beta)

lemma dark_emit [simp]: "(\<And>a v rc. e \<noteq> Ev_wr a v rc) \<Longrightarrow> dark x (emit e s) = dark x s"
  by (simp add: dark_def emit_def xy_dark_other)

lemma dark_io [simp]:
  "dark x (snd (wall_s os s)) = dark x s" "dark x (sleep_ns n s) = dark x s" "dark x (latch_log l s) = dark x s"
  "dark x (snd (lseek_dev os fd p s)) = dark x s" "dark x (snd (kernel_steps os s)) = dark x s"
  by (simp_all add: wall_s_def sleep_ns_def latch_log_def lseek_dev_def kernel_steps_def gfio_rd_bin_def Let_def case_prod_beta split: option.split)

lemma dark_wr [intro]: "dark x s \<Longrightarrow> a \<noteq> Pic_x_step_current \<Longrightarrow> a \<noteq> Pic_y_step_current \<Longrightarrow> dark x (wr_attr os a v s)"
  by (auto simp: dark_def wr_attr_upd intro: xy_dark_wr)

lemma dark_settle:
  fixes s :: "'a gf_scheme"
  assumes "settle_wait os d s = Some s'" "dark x s"
  shows "dark x s'"
proof -
  have "dark x s \<longrightarrow> dark x s'"
  proof (rule settle_wait.raw_induct [where P = "\<lambda>os d s s'. dark x s \<longrightarrow> dark x s'", OF _ assms(1)])
    fix w os d and s s' :: "'a gf_scheme"
    assume IH: "\<And>os d s s'. w os d s = Some s' \<Longrightarrow> dark x s \<longrightarrow> dark x s'"
      and eq: "(case wall_s os s of (now, s') \<Rightarrow> if fl_lt (Fin now) d then w os d (sleep_ns 50000000 s') else Some s') = Some s'"
    have k: "dark x (snd (wall_s os s)) = dark x s" by simp
    show "dark x s \<longrightarrow> dark x s'"
      using eq k IH [of os d "sleep_ns 50000000 (snd (wall_s os s))" s'] by (auto simp: case_prod_beta split: if_splits)
  qed
  then show ?thesis using assms(2) by blast
qed

lemma dark_latch [simp]:
  assumes "dark x s"
  shows "dark x (snd (gf_stream_laser_latch os b s))"
proof -
  have "dark x u \<Longrightarrow> dark x (snd (latch_retry os v n rc u))" for v n rc u
  proof (induction n arbitrary: rc u)
    case (Suc n)
    have "dark x (wr_attr os Cnc_laser_latch v (sleep_ns LATCH_RETRY_NS u))" using Suc.prems by (intro dark_wr) simp_all
    then show ?case using Suc by (simp add: wr_attr_rc case_prod_beta)
  qed simp
  moreover have "dark x (wr_attr os Cnc_laser_latch v s)" for v using assms by (intro dark_wr) simp_all
  ultimately have "dark x (snd (latch_write_locked os b s))" using assms
    by (simp add: latch_write_locked_def wr_attr_rc Let_def case_prod_beta)
  then show ?thesis by (auto simp: gf_stream_laser_latch_def Let_def case_prod_beta)
qed

lemma dark_config: "dark x s \<Longrightarrow> dark x (gfio_analog_config os s)"
  using analog_config_dark [of s os] by (simp add: dark_def) (simp add: gfio_analog_config_def gfio_currents_hold_def gfio_xy_microsteps_def wr_attr_upd Let_def case_prod_beta)

lemma dark_tick: "dark x s \<Longrightarrow> dark x (snd (apply_tick os s))"
  by (auto simp: apply_tick_def wr_attr_rc Let_def case_prod_beta)

lemma dark_opt [simp]:
  "dark x (case c of None \<Rightarrow> u | Some p \<Rightarrow> u\<lparr>gf_dump_fd := f p\<rparr>) = dark x u" "dark x (case c of None \<Rightarrow> u | Some p \<Rightarrow> u\<lparr>latch_log_fd := f p\<rparr>) = dark x u"
  by (cases c; simp)+

lemma dark_params: "dark x s \<Longrightarrow> dark x (init_params os s)"
proof -
  assume d: "dark x s"
  define hw where "hw = (getenv_set os ''GFSINK'' \<noteq> None)"
  define a where "a = snd (gfio_xy_microsteps os (gfio_set_hw hw s))"
  define b where "b = a\<lparr>gf_rate := init_rate os (gfio_xy_tick_hz_of (fst (gfio_xy_microsteps os (gfio_set_hw hw s))))\<rparr>"
  define c where "c = b\<lparr>gf_depth := gf_rate b * init_depth_ms os (gf_rate b) div 1000\<rparr>"
  define e where "e = (if hw then c else c\<lparr>stall_ms := env_ulong os ''GFSINK_STALL_MS'' (stall_ms c), write_stall_ms := env_ulong os ''GFSINK_WRITE_STALL_MS'' (write_stall_ms c)\<rparr>)"
  have "dark x e" using d by (simp add: e_def c_def b_def a_def)
  then show ?thesis
    unfolding init_params_def Let_def case_prod_beta hw_def [symmetric] a_def [symmetric] b_def [symmetric] c_def [symmetric] e_def [symmetric] by simp
qed

lemma dark_device:
  assumes "dark x s" "init_device os dev s = Some (ok, s')"
  shows "dark x s'"
proof -
  obtain r u where u: "gfio_open_pulse_dev os dev (s\<lparr>gf_dev := dev\<rparr>) = (r, u)" by fastforce
  have du: "dark x u" using assms(1) u by (auto simp: gfio_open_pulse_dev_def open_pulse_dev_def Let_def split: option.splits)
  show ?thesis
  proof (cases r)
    case None
    then show ?thesis using assms(2) u du by (auto simp: init_device_def)
  next
    case (Some fd)
    define c where "c = (if gfio_pulse_inherited os u then Some (u\<lparr>gf_fd := fd\<rparr>) else rail_settle os (u\<lparr>gf_fd := fd\<rparr>))"
    obtain v where v: "c = Some v" using assms(2) u Some by (cases c) (simp_all add: init_device_def c_def [symmetric])
    have "dark x v"
    proof -
      have w: "dark x (snd (wall_s os (wr_attr os Cnc_disable ''1'' (u\<lparr>gf_fd := fd\<rparr>))))" using du dark_wr [of x "u\<lparr>gf_fd := fd\<rparr>" Cnc_disable os "''1''"] by simp
      show ?thesis using v du dark_settle [OF _ w] by (auto simp: c_def rail_settle_def Let_def case_prod_beta split: if_splits)
    qed
    define l where "l = snd (gf_stream_laser_latch os True v)"
    have dl: "dark x l" using \<open>dark x v\<close> by (simp add: l_def)
    define g where "g = snd (apply_tick os (gfio_analog_config os l))"
    have dg: "dark x g" unfolding g_def by (intro dark_tick dark_config dl)
    define h where "h = snd (lseek_dev os (gf_fd g) 1 g)"
    define k where "k = rebase_at_takeover os (fst (lseek_dev os (gf_fd g) 1 g)) h"
    have dk: "dark x k" using dg by (simp add: k_def h_def rebase_at_takeover_def case_prod_beta Let_def split: option.split)
    define m where "m = wr_attr os Cnc_streaming ''0'' (wr_attr os Cnc_stop ''1'' k)"
    have dm: "dark x m" "dark x (wr_attr os Cnc_enable ''1'' m)" unfolding m_def using dk by (auto intro!: dark_wr)
    have "s' = l \<or> s' = g \<or> s' = (if gfio_pulse_inherited os m then m else wr_attr os Cnc_enable ''1'' m)\<lparr>gf_active := True\<rparr>"
      using assms(2) [unfolded init_device_def u Some prod.case option.case, folded c_def,
          unfolded v option.case Let_def case_prod_beta, folded l_def, folded g_def, folded h_def, folded k_def, folded m_def]
      by (auto split: if_splits)
    then show ?thesis using dl dg dm by (auto split: if_splits)
  qed
qed

lemma dark_init:
  assumes "dark x s" "gf_stream_init os t s = Some (ok, s')"
  shows "dark x s'"
proof -
  have p: "dark x (init_params os s)" by (rule dark_params [OF assms(1)])
  show ?thesis
  proof (cases "getenv_set os ''GFSINK''")
    case None
    have "dark x (gfio_analog_config os (init_params os s))" by (rule dark_config [OF p])
    then show ?thesis using assms(2) None by (auto simp: gf_stream_init_def Let_def split: if_splits)
  next
    case (Some dev)
    obtain ok2 u where u: "init_device os dev (init_params os s) = Some (ok2, u)" and s': "s' = u \<or> s' = u\<lparr>threads_started := True\<rparr>"
      using assms(2) Some by (auto simp: gf_stream_init_def Let_def split: option.splits if_splits)
    show ?thesis using dark_device [OF p u] s' by auto
  qed
qed

section \<open>The modules\<close>

definition held_off :: "'a mach_scheme \<Rightarrow> bool" where
  "held_off m \<longleftrightarrow> released m \<and> xy_released m \<and> xy_dark (io_tr m)"

lemma held_off_modules [simp]:
  "held_off m \<Longrightarrow> held_off (gfcool_init os m)" "held_off m \<Longrightarrow> held_off (gfhome_init m)" "held_off m \<Longrightarrow> held_off (gflaser_init os m)"
  "held_off m \<Longrightarrow> held_off (gftray_init os m)"
  by (simp_all add: held_off_def gfcool_init_def mono_ms_def wall_s_upd xy_dark_other gfhome_init_def gfhome_invalidate_upd gflaser_init_def button_led_def
        core_emit_def gftray_init_def Let_def split: option.split)

lemma held_off_switches [simp]:
  assumes "held_off m"
  shows "held_off (gfsw_init os co m)"
proof -
  have o: "held_off (gfsw_open os co u) = held_off u" for u :: "'a mach_scheme" by (simp add: gfsw_open_def held_off_def Let_def split: option.split)
  have r: "held_off (snd (read_signals os co u)) = held_off u" for u :: "'a mach_scheme"
    by (simp add: read_signals_def gfsw_read_raw_def core_emit_def held_off_def Let_def case_prod_beta split: option.split)
  have f: "held_off (u\<lparr>cap_e_stop := b\<rparr>) = held_off u" "held_off (u\<lparr>cap_door := b\<rparr>) = held_off u" "held_off (u\<lparr>sw_state := c\<rparr>) = held_off u"
    "held_off (u\<lparr>button_prev := b\<rparr>) = held_off u" for b c and u :: "'a mach_scheme" by (simp_all add: held_off_def)
  have g: "held_off (case c of None \<Rightarrow> u | Some i \<Rightarrow> u\<lparr>sw_state := i\<rparr>) = held_off u" for c and u :: "'a mach_scheme" by (cases c) (simp_all add: f)
  show ?thesis using assms by (simp add: gfsw_init_def o r f g Let_def case_prod_beta)
qed


text \<open>A start with an inherited device does not wait.\<close>

lemma init_inherited:
  assumes "\<And>tr. inherited_pulse_fd os tr = Some fd"
  shows "\<exists>r. gf_stream_init os t s = Some r"
proof -
  have i: "gfio_pulse_inherited os u" for u :: "'a gf_scheme" using assms by (simp add: gfio_pulse_inherited_def)
  have "\<exists>r. init_device os dev u = Some r" for dev and u :: "'a gf_scheme"
    using i by (simp add: init_device_def gfio_open_pulse_dev_def assms Let_def case_prod_beta ex_bool_eq)
  then have "\<exists>ok v. init_device os dev u = Some (ok, v)" for dev and u :: "'a gf_scheme" by (metis surj_pair)
  then show ?thesis by (auto simp: gf_stream_init_def Let_def split: option.split)
qed

definition released_drv :: drv where
  "released_drv = quiet_drv\<lparr>machine := bench_mach\<lparr>release_marker := True, io_tr := []\<rparr>\<rparr>"


end
