(* ===== verification/Startup.thy ===== *)
theory Startup
  imports Serial Eeprom
begin

text \<open>
  main.c, bind_addr.c and platform_linux.c: the options, the notice of the environment overrides, the
  terminal and the listening socket. The library's address parser and the socket calls are arguments; what
  the core does after \<open>grbl_enter\<close> is the rest of the development. The texts of the usage
  and version outputs are not modelled, only that the process ends with them.
\<close>

section \<open>The listen address\<close>

text \<open>\<open>inet_pton\<close> of the two families: the bytes in network order, or a rejection.\<close>

record pton =
  pton6 :: "string \<Rightarrow> u8 list option"
  pton4 :: "string \<Rightarrow> u8 list option"

definition v4_mapped :: "u8 list \<Rightarrow> u8 list" where
  "v4_mapped v4 = replicate 10 0 @ [0xFF, 0xFF] @ v4"

definition bind_addr_parse :: "pton \<Rightarrow> string option \<Rightarrow> u8 list option" where
  "bind_addr_parse pt txt =
     (case txt of None \<Rightarrow> None
      | Some t \<Rightarrow> (case pton6 pt t of Some v6 \<Rightarrow> Some v6 | None \<Rightarrow> map_option v4_mapped (pton4 pt t)))"

section \<open>The notice of the overrides\<close>

definition ENV_OVERRIDES :: "string list" where
  "ENV_OVERRIDES =
     [''FFLOG_CONF'', ''FFLOG_LEVEL'', ''FFLOG_SOCK'', ''FFLOG_STDERR'', ''FORGECTRL_PORT'', ''GFHOME_CONF'', ''GFSINK_ATTR_LOG'',
      ''GFSINK_DEPTH_MS'', ''GFSINK_DUMP'', ''GFSINK_LATCH_LOG'', ''GFSINK_LEAD_MS'', ''GFSINK_RATE'', ''GFSINK_STALL_MS'',
      ''GFSINK_WRITE_STALL_MS'']"

definition TEST_HOOKS :: "string list" where
  "TEST_HOOKS = [''GF_STATE_DIR'', ''GF_SWITCH_DEV'', ''GF_SWITCH_FILE'', ''GF_VERDICT_FILE'']"

definition NOTICE_SIZE :: nat where "NOTICE_SIZE = 512"

text \<open>The buffer's text and the offset behind the last whole name; the flag says that there was room.\<close>

definition notice_add :: "nat \<Rightarrow> string \<Rightarrow> string \<times> nat \<Rightarrow> bool \<times> string \<times> nat" where
  "notice_add len name lo =
     (case lo of (line, off) \<Rightarrow>
        let txt = (if off \<noteq> 0 then '' '' else []) @ name; n = length txt in
        if n \<ge> len - off then (False, take off line @ take (len - off - 1) txt, off)
        else (True, take off line @ txt, off + n))"

fun notice_names :: "(string \<Rightarrow> bool) \<Rightarrow> string list \<Rightarrow> bool \<times> string \<times> nat \<Rightarrow> bool \<times> string \<times> nat" where
  "notice_names is_set [] st = st"
| "notice_names is_set (name # names) st =
     (case st of (room, lo) \<Rightarrow>
        if \<not> room then st
        else notice_names is_set names (if is_set name then notice_add NOTICE_SIZE name lo else st))"

text \<open>The names of the notice, or no notice.\<close>

definition say_env_overrides :: "os \<Rightarrow> string option" where
  "say_env_overrides os =
     (let st = notice_names (\<lambda>n. os_getenv os n \<noteq> None) ENV_OVERRIDES (True, [], 0);
          (room, line, off) = notice_names (\<lambda>n. gfio_test_hook os n \<noteq> None) TEST_HOOKS st
      in if off \<noteq> 0 then Some line else None)"

section \<open>The options\<close>

datatype main_end = Exit_success | Exit_failure | Exit_socket

record opts =
  o_port :: int
  o_bind :: "u8 list"
  o_eeprom :: eeprom

definition in6addr_any :: "u8 list" where "in6addr_any = replicate 16 0"

definition opts0 :: "eeprom \<Rightarrow> opts" where
  "opts0 ee = \<lparr>o_port = 0, o_bind = in6addr_any, o_eeprom = snd (set_eeprom_name (Some ''EEPROM.DAT'') ee)\<rparr>"

definition opt_e :: "string \<Rightarrow> opts \<Rightarrow> opts option" where
  "opt_e v p = (let (ok, ee) = set_eeprom_name (Some v) (o_eeprom p) in if ok then Some (p\<lparr>o_eeprom := ee\<rparr>) else None)"

definition opt_p :: "string \<Rightarrow> opts \<Rightarrow> opts option" where
  "opt_p v p = (let port = atoi v in if port \<le> 0 \<or> port > 65535 then None else Some (p\<lparr>o_port := port\<rparr>))"

definition opt_b :: "pton \<Rightarrow> string \<Rightarrow> opts \<Rightarrow> opts option" where
  "opt_b pt v p = map_option (\<lambda>a. p\<lparr>o_bind := a\<rparr>) (bind_addr_parse pt (Some v))"

text \<open>The arguments after the program's name. The letter is the second character, none in a lone dash.\<close>

fun main_args :: "pton \<Rightarrow> string list \<Rightarrow> opts \<Rightarrow> main_end + opts" where
  "main_args pt [] p = Inr p"
| "main_args pt (a # rest) p =
     (if take 1 a \<noteq> ''-'' then Inl Exit_failure
      else if a = ''--version'' then Inl Exit_success
      else let letter = take 1 (drop 1 a) in
        if letter = ''e'' \<or> letter = ''p'' \<or> letter = ''b''
        then (case rest of [] \<Rightarrow> Inl Exit_failure
              | v # rest' \<Rightarrow>
                  (case (if letter = ''e'' then opt_e v p else if letter = ''p'' then opt_p v p else opt_b pt v p) of
                     None \<Rightarrow> Inl Exit_failure
                   | Some p' \<Rightarrow> main_args pt rest' p'))
        else if letter = ''v'' \<or> letter = ''h'' then Inl Exit_success
        else Inl Exit_failure)"

section \<open>The terminal\<close>

text \<open>
  platform_linux.c: the flags of stdin, none when they cannot be read, and the local modes
  of its terminal. A terminal's modes can be read when \<open>isatty\<close> holds.
\<close>

definition O_NONBLOCK :: u32 where "O_NONBLOCK = 0x800"
definition TTY_ICANON :: u32 where "TTY_ICANON = 2"
definition TTY_ECHO :: u32 where "TTY_ECHO = 8"

record plat =
  tty_flags :: "u32 option"
  tty_lflag :: u32
  orig_stdin_flags :: u32
  orig_lflag :: u32
  stdin_flags_saved :: bool
  termios_saved :: bool

definition platform_restore_terminal :: "plat \<Rightarrow> plat" where
  "platform_restore_terminal s =
     (let s = (if termios_saved s then s\<lparr>tty_lflag := orig_lflag s, termios_saved := False\<rparr> else s)
      in if stdin_flags_saved s then s\<lparr>tty_flags := Some (orig_stdin_flags s), stdin_flags_saved := False\<rparr> else s)"

definition platform_init :: "bool \<Rightarrow> plat \<Rightarrow> plat" where
  "platform_init isatty s =
     (let s = (case tty_flags s of None \<Rightarrow> s
               | Some fl \<Rightarrow> s\<lparr>orig_stdin_flags := fl, stdin_flags_saved := True, tty_flags := Some (fl OR O_NONBLOCK)\<rparr>)
      in if isatty
         then s\<lparr>orig_lflag := tty_lflag s, tty_lflag := (tty_lflag s AND NOT TTY_ICANON) AND NOT TTY_ECHO, termios_saved := True\<rparr>
         else s)"

text \<open>A read of one byte: the byte, the end of the input, or nothing yet.\<close>

datatype rd1 = Rd_byte u8 | Rd_eof | Rd_none

definition platform_poll_stdin :: "rd1 \<Rightarrow> u8" where
  "platform_poll_stdin r = (case r of Rd_byte c \<Rightarrow> c | Rd_eof \<Rightarrow> 0xFF | Rd_none \<Rightarrow> 0)"

section \<open>The socket and the start\<close>

record nio =
  nio_socket :: int
  nio_bind :: "u8 list \<Rightarrow> int \<Rightarrow> bool"

definition main_listen :: "nio \<Rightarrow> opts \<Rightarrow> main_end + int" where
  "main_listen ni p =
     (if o_port p = 0 then Inr (- 1)
      else if nio_socket ni < 0 then Inl Exit_socket
      else if \<not> nio_bind ni (o_bind p) (o_port p) then Inl Exit_socket
      else Inr (nio_socket ni))"

text \<open>Up to \<open>grbl_enter\<close>: the options, and the stream on its listener or on stdio.\<close>

definition main_start :: "pton \<Rightarrow> nio \<Rightarrow> string list \<Rightarrow> eeprom \<Rightarrow> 'a ser_scheme \<Rightarrow> main_end + opts \<times> 'a ser_scheme" where
  "main_start pt ni args ee s =
     (case main_args pt args (opts0 ee) of
        Inl e \<Rightarrow> Inl e
      | Inr p \<Rightarrow>
          (case main_listen ni p of Inl e \<Rightarrow> Inl e | Inr fd \<Rightarrow> Inr (p, serial_set_listen_fd fd s)))"

end
