(* ===== verification/Log.thy ===== *)
theory Log
  imports Gf_Io
begin

text \<open>
  fflog.c: the logger. The level comes from the machine configuration, a packet is one
  datagram to the system log that is sent or dropped and never waited for, and a gap is
  told once the path works again. The log socket, the clock, the time stamp with the
  process id, and the formatted message are arguments.
\<close>

section \<open>State\<close>

definition FFLOG_CONF_DEF :: string where "FFLOG_CONF_DEF = ''/data/forgefirm/forgefirm.conf''"
definition LOG_DAEMON :: nat where "LOG_DAEMON = 24"
definition LOG_ERR :: int where "LOG_ERR = 3"
definition LOG_WARNING :: int where "LOG_WARNING = 4"
definition LOG_NOTICE :: int where "LOG_NOTICE = 5"
definition LOG_INFO :: int where "LOG_INFO = 6"
definition LOG_DEBUG :: int where "LOG_DEBUG = 7"
definition FFLOG_MSG_MAX :: nat where "FFLOG_MSG_MAX = 2048"
definition RECONNECT_MIN_S :: rat where "RECONNECT_MIN_S = 1"
definition LONG_AGO :: rat where "LONG_AGO = - 1000000000"

datatype logev = L_now rat | L_connect bool | L_sent string | L_full | L_gone | L_stderr string

text \<open>A send that is taken whole, one that finds the queue full, and one whose peer is gone.\<close>

datatype send_ans = Sent | Full | Gone

record lio =
  lio_now :: "logev list \<Rightarrow> rat"
  lio_connect :: "logev list \<Rightarrow> int option"
  lio_send :: "logev list \<Rightarrow> string \<Rightarrow> send_ans"
  lio_stamp :: "logev list \<Rightarrow> string"
  lio_pid :: nat
  lio_isatty :: bool

record flog =
  log_tr :: "logev list"
  ident :: string
  log_level :: int
  echo_stderr :: bool
  log_sock :: int
  last_connect_try :: rat
  dropped :: u32
  dropped_reported :: u32

definition flog0 :: flog where
  "flog0 = \<lparr>log_tr = [], ident = ''fflog'', log_level = LOG_INFO, echo_stderr = False, log_sock = - 1, last_connect_try = LONG_AGO,
     dropped = 0, dropped_reported = 0\<rparr>"

definition log_emit :: "logev \<Rightarrow> flog \<Rightarrow> flog" where
  "log_emit e s = s\<lparr>log_tr := e # log_tr s\<rparr>"

section \<open>The level\<close>

definition LEVELS :: "(string \<times> int) list" where
  "LEVELS = [(''off'', - 1), (''error'', LOG_ERR), (''err'', LOG_ERR), (''warning'', LOG_WARNING), (''warn'', LOG_WARNING),
     (''notice'', LOG_NOTICE), (''info'', LOG_INFO), (''debug'', LOG_DEBUG)]"

definition fflog_parse_level :: "string option \<Rightarrow> int option" where
  "fflog_parse_level name = (case name of None \<Rightarrow> None | Some n \<Rightarrow> map_of LEVELS (map lower n))"

definition log_trim :: "string \<Rightarrow> string" where
  "log_trim s = rstrip (skip_space s)"

text \<open>One line of the file on the two levels, disk and remote.\<close>

definition level_line :: "string \<Rightarrow> string \<Rightarrow> string \<Rightarrow> int \<times> int \<Rightarrow> int \<times> int" where
  "level_line kd kr line lv =
     (if CHR ''='' \<notin> set line \<or> take 1 line = ''#'' then lv
      else let k = log_trim (takeWhile (\<lambda>c. c \<noteq> CHR ''='') line);
               v = log_trim (tl (dropWhile (\<lambda>c. c \<noteq> CHR ''='') line))
           in case fflog_parse_level (Some v) of None \<Rightarrow> lv
              | Some l \<Rightarrow> if k = kd then (l, snd lv) else if k = kr then (fst lv, l) else lv)"

definition level_from_conf :: "string option \<Rightarrow> string \<Rightarrow> int" where
  "level_from_conf file prog =
     (let kd = take 63 (''log_'' @ prog @ ''_disk'');
          kr = take 63 (''log_'' @ prog @ ''_remote'');
          (ld, lr) = (case file of None \<Rightarrow> (LOG_INFO, - 1)
                      | Some txt \<Rightarrow> fold (level_line kd kr) (fgets_lines 510 txt) (LOG_INFO, - 1))
      in if ld > lr then ld else lr)"

section \<open>The path to the log daemon\<close>

definition connect_locked :: "lio \<Rightarrow> flog \<Rightarrow> flog" where
  "connect_locked li s =
     (let now = lio_now li (log_tr s); s = log_emit (L_now now) s in
      if now - last_connect_try s < RECONNECT_MIN_S then s
      else let s = s\<lparr>last_connect_try := now, log_sock := - 1\<rparr> in
        case lio_connect li (log_tr s) of
          None \<Rightarrow> log_emit (L_connect False) s
        | Some fd \<Rightarrow> (log_emit (L_connect True) s)\<lparr>log_sock := fd\<rparr>)"

fun send_attempts :: "lio \<Rightarrow> nat \<Rightarrow> string \<Rightarrow> flog \<Rightarrow> bool \<times> flog" where
  "send_attempts li 0 pkt s = (False, s)"
| "send_attempts li (Suc n) pkt s =
     (let s = (if log_sock s < 0 then connect_locked li s else s) in
      if log_sock s < 0 then (False, s)
      else case lio_send li (log_tr s) pkt of
          Sent \<Rightarrow> (True, log_emit (L_sent pkt) s)
        | Full \<Rightarrow> (False, log_emit L_full s)
        | Gone \<Rightarrow> send_attempts li n pkt (connect_locked li ((log_emit L_gone s)\<lparr>last_connect_try := LONG_AGO\<rparr>)))"

definition send_raw :: "lio \<Rightarrow> string \<Rightarrow> flog \<Rightarrow> bool \<times> flog" where
  "send_raw li pkt s = send_attempts li 2 pkt s"

definition log_header :: "lio \<Rightarrow> nat \<Rightarrow> int \<Rightarrow> flog \<Rightarrow> string" where
  "log_header li cap prio s =
     take (cap - 1) (''<'' @ utoa (LOG_DAEMON OR nat prio) @ ''>'' @ lio_stamp li (log_tr s) @ '' '' @ ident s @
       ''['' @ utoa (lio_pid li) @ '']: '')"

section \<open>The calls\<close>

definition env_level :: "string option \<Rightarrow> int \<Rightarrow> int" where
  "env_level env l = (case fflog_parse_level env of Some v \<Rightarrow> v | None \<Rightarrow> l)"

text \<open>The configuration file's content is read through \<open>conf\<close>, by its path.\<close>

definition fflog_init :: "os \<Rightarrow> (string \<Rightarrow> string option) \<Rightarrow> lio \<Rightarrow> string option \<Rightarrow> flog \<Rightarrow> flog" where
  "fflog_init os conf li prog s =
     (let s = s\<lparr>ident := take 31 (case prog of Some i \<Rightarrow> i | None \<Rightarrow> ''fflog'')\<rparr>;
          path = (case getenv_set os ''FFLOG_CONF'' of Some p \<Rightarrow> p | None \<Rightarrow> FFLOG_CONF_DEF);
          l = level_from_conf (conf path) (ident s);
          e = getenv_set os ''FFLOG_STDERR'';
          s = s\<lparr>log_level := env_level (os_getenv os ''FFLOG_LEVEL'') l, echo_stderr := (e \<noteq> None \<and> e \<noteq> Some ''0'') \<or> lio_isatty li\<rparr>
      in connect_locked li s)"

definition fflog_level :: "flog \<Rightarrow> int" where "fflog_level s = log_level s"
definition fflog_set_level :: "int \<Rightarrow> flog \<Rightarrow> flog" where "fflog_set_level l s = s\<lparr>log_level := l\<rparr>"
definition fflog_dropped :: "flog \<Rightarrow> u32" where "fflog_dropped s = dropped s"

text \<open>The message as it goes out: cut to the packet, its trailing line ends dropped.\<close>

definition log_body :: "nat \<Rightarrow> string \<Rightarrow> string" where
  "log_body off msg = rev (dropWhile (\<lambda>c. c = CHR 0x0A \<or> c = CHR 0x0D) (rev (take (FFLOG_MSG_MAX - 1 - off) msg)))"

definition drop_note :: "u32 \<Rightarrow> string" where
  "drop_note d = ''fflog: '' @ utoa (unat d) @ '' message(s) dropped (syslog socket unavailable or full)''"

definition log_gap :: "lio \<Rightarrow> flog \<Rightarrow> flog" where
  "log_gap li s =
     (let d = dropped s in
      if d \<noteq> dropped_reported s
      then let s = s\<lparr>dropped_reported := d\<rparr>;
               h = log_header li FFLOG_MSG_MAX LOG_WARNING s
           in snd (send_raw li (h @ drop_note d) s)
      else s)"

definition fflog :: "lio \<Rightarrow> int \<Rightarrow> string \<Rightarrow> flog \<Rightarrow> flog" where
  "fflog li prio msg s =
     (let prio = (if prio < 0 then 0 else prio);
          prio = (if prio > LOG_DEBUG then LOG_DEBUG else prio)
      in if prio > log_level s then s
         else let h = log_header li FFLOG_MSG_MAX prio s;
                  body = log_body (length h) msg;
                  s = (if echo_stderr s then log_emit (L_stderr (ident s @ '': '' @ body)) s else s);
                  (ok, s) = send_raw li (h @ body) s
              in if \<not> ok then s\<lparr>dropped := dropped s + 1\<rparr> else log_gap li s)"

end
