(* ===== verification/Start_Props.thy ===== *)
theory Start_Props
  imports Startup Log
begin

text \<open>
  What the start promises the rest of the program - a port, an address and a file name
  that fit their uses, and a notice that names every override in force - and what the
  logger makes of a message.
\<close>

section \<open>The listen address\<close>

definition pton_contract :: "pton \<Rightarrow> bool" where
  "pton_contract pt \<longleftrightarrow> (\<forall>t a. pton6 pt t = Some a \<longrightarrow> length a = 16) \<and> (\<forall>t a. pton4 pt t = Some a \<longrightarrow> length a = 4)"

lemma bind_addr_length: "pton_contract pt \<Longrightarrow> bind_addr_parse pt txt = Some a \<Longrightarrow> length a = 16"
  by (auto simp: bind_addr_parse_def v4_mapped_def pton_contract_def split: option.splits)

lemma u8_255: "(255 :: u8) \<noteq> 0"
  by simp

text \<open>
  An IPv4 literal is bound as its v4-mapped IPv6 address, and that address counts as
  loopback for the sender port's keep-out exactly when the literal is of the 127 net, as the
  plain IPv4 address does.
\<close>

theorem bind_loopback:
  assumes "pton_contract pt" "pton6 pt t = None" "pton4 pt t = Some [a, b, c, d]"
  shows "\<exists>out. bind_addr_parse pt (Some t) = Some out \<and> length out = 16 \<and>
    (peer_loopback (Inet6 out) \<longleftrightarrow> a = 127) \<and>
    (peer_loopback (Inet6 out) \<longleftrightarrow> peer_loopback (Inet (push_bit 24 (ucast a) OR push_bit 16 (ucast b) OR push_bit 8 (ucast c) OR ucast d)))"
proof -
  define ip :: u32 where "ip = push_bit 24 (ucast a) OR push_bit 16 (ucast b) OR push_bit 8 (ucast c) OR ucast d"
  have "drop_bit 24 ip = (ucast a :: u32)"
    by (rule bit_word_eqI) (auto simp: ip_def bit_simps dest: bit_imp_le_length)
  then have "(drop_bit 24 ip = 127) = ((ucast a :: u32) = ucast (127 :: u8))" by simp
  also have "\<dots> = (a = 127)" by transfer (simp add: take_bit_eq_mod)
  finally have i: "peer_loopback (Inet ip) = (a = 127)" by (simp add: peer_loopback_def)
  have "bind_addr_parse pt (Some t) = Some (v4_mapped [a, b, c, d])" using assms(2,3) by (simp add: bind_addr_parse_def)
  moreover have "peer_loopback (Inet6 (v4_mapped [a, b, c, d])) = (a = 127)"
  proof -
    have "v4_mapped [a, b, c, d] ! 10 = 255" "(replicate 15 0 @ [1 :: u8]) ! 10 = 0" by (simp_all add: v4_mapped_def nth_append)
    then have "v4_mapped [a, b, c, d] \<noteq> replicate 15 0 @ [1]" by (metis u8_255)
    then show ?thesis by (auto simp: peer_loopback_def v4_mapped_def nth_append)
  qed
  ultimately show ?thesis using i unfolding ip_def [symmetric] by (simp add: v4_mapped_def)
qed

definition bench_pton :: pton where
  "bench_pton = \<lparr>pton6 = (\<lambda>t. if t = ''::1'' then Some (replicate 15 0 @ [1]) else None), pton4 = (\<lambda>t. if t = ''127.0.0.1'' then Some [127, 0, 0, 1] else None)\<rparr>"

lemma bench_pton_ok: "pton_contract bench_pton"
  by (auto simp: pton_contract_def bench_pton_def split: if_splits)

theorem bind_loopback_witness:
  "\<exists>out. bind_addr_parse bench_pton (Some ''127.0.0.1'') = Some out \<and> peer_loopback (Inet6 out)"
  using bind_loopback [OF bench_pton_ok, of "''127.0.0.1''" 127 0 0 1] by (auto simp: bench_pton_def)

section \<open>The options\<close>

definition opts_ok :: "opts \<Rightarrow> bool" where
  "opts_ok p \<longleftrightarrow> 0 \<le> o_port p \<and> o_port p \<le> 65535 \<and> length (o_bind p) = 16 \<and> length (eeprom_file (o_eeprom p)) < EEPROM_NAME_SIZE"

lemma main_args_ok:
  assumes "pton_contract pt"
  shows "main_args pt args p = Inr q \<Longrightarrow> opts_ok p \<Longrightarrow> opts_ok q"
proof (induction "length args" arbitrary: args p rule: less_induct)
  case less
  have e: "opt_e v p = Some p' \<Longrightarrow> opts_ok p'" for v p'
    using less(3) by (auto simp: opt_e_def set_eeprom_name_def opts_ok_def split: if_splits)
  have q: "opt_p v p = Some p' \<Longrightarrow> opts_ok p'" for v p' using less(3) by (auto simp: opt_p_def opts_ok_def Let_def split: if_splits)
  have b: "opt_b pt v p = Some p' \<Longrightarrow> opts_ok p'" for v p'
    using less(3) bind_addr_length [OF assms] by (auto simp: opt_b_def opts_ok_def)
  show ?case
  proof (cases args)
    case Nil
    then show ?thesis using less(2,3) by simp
  next
    case (Cons a rest)
    obtain v rest' p' where r: "rest = v # rest'" "main_args pt rest' p' = Inr q"
      and p': "opt_e v p = Some p' \<or> opt_p v p = Some p' \<or> opt_b pt v p = Some p'"
      using less(2) unfolding Cons by (auto simp: Let_def split: if_splits list.splits option.splits)
    have "opts_ok p'" using p' e q b by blast
    then show ?thesis using less(1) [of rest' p'] r Cons by simp
  qed
qed



section \<open>The notice\<close>

text \<open>Names with a space before each.\<close>

definition notice_text :: "string list \<Rightarrow> string" where
  "notice_text ns = concat (map (\<lambda>n. '' '' @ n) ns)"

lemma notice_text_simps [simp]:
  "notice_text [] = []" "notice_text (n # ns) = '' '' @ n @ notice_text ns" "notice_text (ns @ ms) = notice_text ns @ notice_text ms"
  by (simp_all add: notice_text_def)

lemma notice_text_filter: "length (notice_text (filter f ns)) \<le> length (notice_text ns)"
  by (induction ns) auto

definition notice_more :: "string \<Rightarrow> string list \<Rightarrow> string" where
  "notice_more line ns = (if line = [] then tl (notice_text ns) else line @ notice_text ns)"

lemma notice_names_exact:
  assumes "[] \<notin> set names" "1 + length line + length (notice_text names) < NOTICE_SIZE"
  shows "notice_names f names (True, line, length line) = (True, notice_more line (filter f names), length (notice_more line (filter f names)))"
  using assms
proof (induction names arbitrary: line)
  case Nil
  then show ?case by (simp add: notice_more_def)
next
  case (Cons n ns)
  define piece where "piece = (if line \<noteq> [] then '' '' else []) @ n"
  have l: "length piece \<le> Suc (length n)" "line @ piece \<noteq> []" using Cons.prems(1) by (auto simp: piece_def)
  have a: "notice_add NOTICE_SIZE n (line, length line) = (True, line @ piece, length (line @ piece))"
    using Cons.prems(2) l by (auto simp: notice_add_def piece_def [symmetric] Let_def)
  have m: "notice_more (line @ piece) ks = notice_more line (n # ks)" for ks using Cons.prems(1) by (auto simp: notice_more_def piece_def)
  have "notice_names f ns (True, line @ piece, length (line @ piece)) =
      (True, notice_more (line @ piece) (filter f ns), length (notice_more (line @ piece) (filter f ns)))"
    using Cons.prems l by (intro Cons.IH) simp_all
  then show ?case using Cons.IH [of line] Cons.prems a m by simp
qed

text \<open>
  The start notice names exactly the overrides that are in force, in the order of the two
  tables and with one space between them: the line never runs out of room, whatever is set,
  and there is none when nothing is.
\<close>

theorem notice_exact:
  "say_env_overrides os =
     (let ns = filter (\<lambda>n. os_getenv os n \<noteq> None) ENV_OVERRIDES @ filter (\<lambda>n. gfio_test_hook os n \<noteq> None) TEST_HOOKS
      in if ns = [] then None else Some (tl (notice_text ns)))"
proof -
  define f where "f = (\<lambda>n. os_getenv os n \<noteq> None)"
  define g where "g = (\<lambda>n. gfio_test_hook os n \<noteq> None)"
  have len: "length (notice_text ENV_OVERRIDES) = 200" "length (notice_text TEST_HOOKS) = 58"
    by (simp_all add: ENV_OVERRIDES_def TEST_HOOKS_def)
  have ne: "[] \<notin> set ENV_OVERRIDES" "[] \<notin> set TEST_HOOKS" by (simp_all add: ENV_OVERRIDES_def TEST_HOOKS_def)
  define l where "l = notice_more [] (filter f ENV_OVERRIDES)"
  have l: "length l \<le> 200" using notice_text_filter [of f ENV_OVERRIDES] len by (simp add: l_def notice_more_def)
  have 1: "notice_names f ENV_OVERRIDES (True, [], 0) = (True, l, length l)"
    using notice_names_exact [OF ne(1), of "[]" f] len by (simp add: NOTICE_SIZE_def l_def)
  have 2: "notice_names g TEST_HOOKS (True, l, length l) = (True, notice_more l (filter g TEST_HOOKS), length (notice_more l (filter g TEST_HOOKS)))"
    using l len by (intro notice_names_exact [OF ne(2)]) (simp add: NOTICE_SIZE_def)
  have nn: "tl (notice_text ms) = [] \<longleftrightarrow> ms = []" if "[] \<notin> set ms" for ms using that by (cases ms) auto
  have fe: "[] \<notin> set (filter f ENV_OVERRIDES)" "[] \<notin> set (filter f ENV_OVERRIDES @ filter g TEST_HOOKS)" using ne by auto
  have m: "notice_more l (filter g TEST_HOOKS) = tl (notice_text (filter f ENV_OVERRIDES @ filter g TEST_HOOKS))"
    using nn [OF fe(1)] by (cases "filter f ENV_OVERRIDES") (auto simp: l_def notice_more_def)
  define ms where "ms = filter f ENV_OVERRIDES @ filter g TEST_HOOKS"
  have "length (tl (notice_text ms)) \<noteq> 0 \<longleftrightarrow> ms \<noteq> []" using nn [OF fe(2)] unfolding ms_def by (simp only: length_0_conv)
  then show ?thesis using 1 2 unfolding say_env_overrides_def f_def [symmetric] g_def [symmetric] m ms_def [symmetric]
    by (simp add: Let_def del: length_tl)
qed

section \<open>The terminal\<close>

text \<open>The terminal that the process leaves is the one it found, and a second restore does nothing.\<close>

lemma terminal_restored:
  assumes "\<not> termios_saved s" "\<not> stdin_flags_saved s"
  shows "tty_flags (platform_restore_terminal (platform_init isatty s)) = tty_flags s" "tty_lflag (platform_restore_terminal (platform_init isatty s)) = tty_lflag s"
    "platform_restore_terminal (platform_restore_terminal u) = platform_restore_terminal u"
  using assms by (auto simp: platform_init_def platform_restore_terminal_def Let_def split: option.split)

section \<open>The logger\<close>

text \<open>What the path keeps, and that a success is the packet in the trace.\<close>

definition kept :: "flog \<Rightarrow> flog \<Rightarrow> bool" where
  "kept s s' \<longleftrightarrow> dropped s' = dropped s \<and> dropped_reported s' = dropped_reported s \<and> ident s' = ident s \<and> log_level s' = log_level s"

lemma connect_locked_sel:
  "kept s (connect_locked li s)" "\<exists>new. log_tr (connect_locked li s) = new @ log_tr s \<and> (\<forall>p. L_sent p \<notin> set new)"
  by (auto simp: kept_def connect_locked_def log_emit_def Let_def split: option.split)

lemma send_attempts_sel:
  assumes "send_attempts li n pkt s = (ok, s')"
  shows "kept s s' \<and> (\<exists>new. log_tr s' = new @ log_tr s \<and> (ok \<longleftrightarrow> L_sent pkt \<in> set new))"
  using assms
proof (induction n arbitrary: s)
  case 0
  then show ?case by (simp add: kept_def)
next
  case (Suc n)
  define u where "u = (if log_sock s < 0 then connect_locked li s else s)"
  have u: "kept s u" and ut: "\<exists>new. log_tr u = new @ log_tr s \<and> (\<forall>p. L_sent p \<notin> set new)"
    using connect_locked_sel [where s = s and li = li] by (auto simp: u_def kept_def)
  obtain new where new: "log_tr u = new @ log_tr s" "\<forall>p. L_sent p \<notin> set new" using ut by blast
  define v where "v = (log_emit L_gone u)\<lparr>last_connect_try := LONG_AGO\<rparr>"
  have v: "kept u v" "log_tr v = L_gone # log_tr u" by (simp_all add: v_def kept_def log_emit_def)
  obtain new2 where new2: "log_tr (connect_locked li v) = new2 @ log_tr v" "\<forall>p. L_sent p \<notin> set new2"
    using connect_locked_sel(2) [where s = v and li = li] by blast
  have body: "send_attempts li (Suc n) pkt s = (if log_sock u < 0 then (False, u) else case lio_send li (log_tr u) pkt of
      Sent \<Rightarrow> (True, log_emit (L_sent pkt) u) | Full \<Rightarrow> (False, log_emit L_full u) | Gone \<Rightarrow> send_attempts li n pkt (connect_locked li v))"
    unfolding send_attempts.simps(2) Let_def u_def [symmetric] v_def [symmetric] ..
  note eq = Suc.prems [unfolded body]
  show ?case
  proof (cases "log_sock u < 0 \<or> lio_send li (log_tr u) pkt \<noteq> Gone")
    case True
    then have "ok = False \<and> s' = u \<or> ok = True \<and> s' = log_emit (L_sent pkt) u \<or> ok = False \<and> s' = log_emit L_full u"
      using eq by (cases "lio_send li (log_tr u) pkt") (simp_all split: if_splits)
    then show ?thesis using u new by (auto simp: kept_def log_emit_def)
  next
    case False
    then have gone: "send_attempts li n pkt (connect_locked li v) = (ok, s')" using eq by simp
    obtain new3 where "log_tr s' = new3 @ log_tr (connect_locked li v)" "ok \<longleftrightarrow> L_sent pkt \<in> set new3" "kept (connect_locked li v) s'"
      using Suc.IH [OF gone] by blast
    then show ?thesis using u v new new2 connect_locked_sel(1) [where s = v and li = li] by (auto simp: kept_def)
  qed
qed

text \<open>
  A message above the level leaves the logger as it is. Every other message is counted as
  dropped, or it is one datagram of less than 2048 bytes that carries its priority's header,
  and then every drop before it has been told, or tried to.
\<close>

theorem log_outcome:
  "let p = max 0 (min prio LOG_DEBUG); h = log_header li FFLOG_MSG_MAX p s; s' = fflog li prio msg s in
     if p > log_level s then s' = s
     else (dropped s' = dropped s + 1 \<and> dropped_reported s' = dropped_reported s)
        \<or> (dropped s' = dropped s \<and> dropped_reported s' = dropped s \<and>
            L_sent (h @ log_body (length h) msg) \<in> set (log_tr s') \<and> length (h @ log_body (length h) msg) < FFLOG_MSG_MAX)"
proof -
  define p where "p = max 0 (min prio LOG_DEBUG)"
  define h where "h = log_header li FFLOG_MSG_MAX p s"
  define b where "b = log_body (length h) msg"
  define e where "e = (if echo_stderr s then log_emit (L_stderr (ident s @ '': '' @ b)) s else s)"
  obtain ok u where u: "send_raw li (h @ b) e = (ok, u)" by fastforce
  have cl: "(let q = if prio < 0 then 0 else prio in if q > LOG_DEBUG then LOG_DEBUG else q) = p" by (auto simp: p_def LOG_DEBUG_def Let_def)
  have f: "fflog li prio msg s = (if p > log_level s then s else if \<not> ok then u\<lparr>dropped := dropped u + 1\<rparr> else log_gap li u)"
    unfolding fflog_def cl [unfolded Let_def] Let_def h_def [symmetric] b_def [symmetric] e_def [symmetric] u by simp
  have ek: "kept s e" by (simp add: e_def kept_def log_emit_def)
  have k: "kept e u" and s: "ok \<Longrightarrow> L_sent (h @ b) \<in> set (log_tr u)"
    using send_attempts_sel [OF u [unfolded send_raw_def]] by auto
  have lh: "length h \<le> FFLOG_MSG_MAX - 1" by (simp add: h_def log_header_def)
  have lb: "length b \<le> FFLOG_MSG_MAX - 1 - length h"
    using length_dropWhile_le [of _ "rev (take (FFLOG_MSG_MAX - 1 - length h) msg)"] by (simp add: b_def log_body_def)
  have g: "dropped (log_gap li u) = dropped u \<and> dropped_reported (log_gap li u) = dropped u \<and> set (log_tr u) \<subseteq> set (log_tr (log_gap li u))"
  proof (cases "dropped u = dropped_reported u")
    case False
    define w where "w = u\<lparr>dropped_reported := dropped u\<rparr>"
    obtain ok2 x where x: "send_raw li (log_header li FFLOG_MSG_MAX LOG_WARNING w @ drop_note (dropped u)) w = (ok2, x)" by fastforce
    have "log_gap li u = x" using False x by (simp add: log_gap_def w_def Let_def)
    then show ?thesis using send_attempts_sel [OF x [unfolded send_raw_def]] by (auto simp: kept_def w_def)
  qed (simp add: log_gap_def)
  show ?thesis unfolding p_def [symmetric] h_def [symmetric] b_def [symmetric] Let_def f
    using ek k s g lh lb by (auto simp: kept_def FFLOG_MSG_MAX_def)
qed

end
