(* ===== verification/Producer_Thread.thy ===== *)
theory Producer_Thread
  imports Laser_Props Mach_State
begin

text \<open>
  The producer thread of stepper\_stream.c: the loop that runs the core's step interrupt on
  virtual time and paces it against the wall. What the other threads do while this one
  waits for the core lock, sleeps or yields is the argument \<open>others\<close>; the core's interrupt
  callback is \<open>cb\<close>.
\<close>

definition PACE_SLICE_NS :: nat where "PACE_SLICE_NS = 1000000"

text \<open>The locals of one run: the callbacks, the sleeps, its start, the worst lateness, and the clamps before it.\<close>

record prun =
  pr_calls :: nat
  pr_slept :: nat
  pr_t_run :: rat
  pr_behind :: rat
  pr_clamped0 :: nat

definition pace_turn :: "os \<Rightarrow> ('a gf_scheme \<Rightarrow> 'a gf_scheme) \<Rightarrow> rat \<Rightarrow> rat \<Rightarrow> nat \<times> 'a gf_scheme
    \<Rightarrow> (nat \<times> 'a gf_scheme) + (nat \<times> 'a gf_scheme)" where
  "pace_turn os others vtime epoch w =
     (case w of (slept, s) \<Rightarrow>
        let s = others (sleep_ns PACE_SLICE_NS s); slept = slept + 1 in
        if gf_armed s \<and> \<not> gf_quit s
        then let (now, s) = wall_s os s in if vtime > (now - epoch) + lead_s s then Inr (slept, s) else Inl (slept, s)
        else Inl (slept, s))"

definition producer_pace :: "os \<Rightarrow> ('a gf_scheme \<Rightarrow> 'a gf_scheme) \<Rightarrow> rat \<Rightarrow> rat \<Rightarrow> nat \<times> 'a gf_scheme \<Rightarrow> (nat \<times> 'a gf_scheme) option" where
  "producer_pace os others vtime epoch w =
     (case w of (slept, s) \<Rightarrow>
        let (now, s) = wall_s os s in
        if vtime > (now - epoch) + lead_s s then wait_loop (pace_turn os others vtime epoch) (slept, s) else Some (slept, others s))"

text \<open>The harness's scheduling stall.\<close>

definition producer_stall :: "os \<Rightarrow> rat \<Rightarrow> 'a gf_scheme \<Rightarrow> 'a gf_scheme" where
  "producer_stall os t_run s =
     (if stall_ms s \<noteq> 0 \<and> \<not> gf_stalled s \<and> \<not> gf_active s
      then let (now, s) = wall_s os s in
        if now - t_run > 1 / 2 then sleep_ns (unat (stall_ms s) * 1000000) (s\<lparr>gf_stalled := True\<rparr>) else s
      else s)"

definition vtime_of :: "'a gf_scheme \<Rightarrow> rat" where
  "vtime_of s = of_nat (vticks s) / of_nat (unat (gf_stream_vclk s))"

text \<open>One turn of the run's loop; \<open>None\<close> inside the end is a pacing that does not end.\<close>

definition producer_turn :: "os \<Rightarrow> ('a gf_scheme \<Rightarrow> 'a gf_scheme) \<Rightarrow> ('a gf_scheme \<Rightarrow> 'a gf_scheme) \<Rightarrow> prun \<times> 'a gf_scheme
    \<Rightarrow> (prun \<times> 'a gf_scheme) option + (prun \<times> 'a gf_scheme)" where
  "producer_turn os others cb w =
     (case w of (r, s) \<Rightarrow>
        if \<not> gf_armed s \<or> gf_quit s then Inl (Some (r, s))
        else let s = others s in
          if \<not> gf_armed s then Inl (Some (r, s))
          else let s = producer_fire cb s;
                   vtime = vtime_of s; epoch = wall_epoch s;
                   (now, s) = wall_s os s;
                   behind = (now - epoch) - vtime;
                   r = r\<lparr>pr_calls := pr_calls r + 1, pr_behind := max (pr_behind r) behind\<rparr>;
                   s = producer_stall os (pr_t_run r) s
               in case producer_pace os others vtime epoch (pr_slept r, s) of
                    None \<Rightarrow> Inl None
                  | Some (slept, s) \<Rightarrow> Inr (r\<lparr>pr_slept := slept\<rparr>, s))"

definition INT64_MAX :: int where "INT64_MAX = 2 ^ 63 - 1"

definition producer_run :: "os \<Rightarrow> ('a gf_scheme \<Rightarrow> 'a gf_scheme) \<Rightarrow> ('a gf_scheme \<Rightarrow> 'a gf_scheme) \<Rightarrow> 'a gf_scheme
    \<Rightarrow> (prun \<times> 'a gf_scheme) option" where
  "producer_run os others cb s =
     (let (t, s) = wall_s os s;
          r = \<lparr>pr_calls = 0, pr_slept = 0, pr_t_run = t, pr_behind = 0, pr_clamped0 = clamped s\<rparr>;
          s = s\<lparr>min_margin := INT64_MAX\<rparr>
      in case wait_loop (producer_turn os others cb) (r, s) of None \<Rightarrow> None | Some x \<Rightarrow> x)"

text \<open>What the run's report says: the clamps of the run, and the margin in milliseconds of stream time.\<close>

definition run_clamped :: "prun \<Rightarrow> 'a gf_scheme \<Rightarrow> nat" where
  "run_clamped r s = clamped s - pr_clamped0 r"

definition run_margin_ms :: "'a gf_scheme \<Rightarrow> rat" where
  "run_margin_ms s = (if min_margin s = INT64_MAX then 0 else of_int (min_margin s) * 1000 / of_nat (gf_rate s))"

section \<open>The pace\<close>

text \<open>A clock that a look does not turn back and a slice moves on, and threads that leave the lead alone.\<close>

definition clock_paced :: "os \<Rightarrow> ('a gf_scheme \<Rightarrow> 'a gf_scheme) \<Rightarrow> bool" where
  "clock_paced os others \<longleftrightarrow>
     (\<forall>s :: 'a gf_scheme. os_now os (io_tr s) \<le> os_now os (io_tr (snd (wall_s os s)))) \<and>
     (\<forall>s :: 'a gf_scheme. os_now os (io_tr s) \<le> os_now os (io_tr (others s))) \<and>
     (\<forall>s :: 'a gf_scheme. os_now os (io_tr s) + 1 / 1000 \<le> os_now os (io_tr (sleep_ns PACE_SLICE_NS s))) \<and>
     (\<forall>s :: 'a gf_scheme. lead_s (others s) = lead_s s)"

lemma wall_s_lead [simp]: "lead_s (snd (wall_s os s)) = lead_s s" "lead_s (sleep_ns n s) = lead_s s"
  "fst (wall_s os s) = os_now os (io_tr s)"
  by (simp_all add: wall_s_upd sleep_ns_upd)

text \<open>A turn that goes on has taken its slice and was ahead; a turn that ends, armed, is not.\<close>

lemma pace_turn_on:
  assumes "clock_paced os others" "pace_turn os others vtime epoch w = Inr w'"
  shows "lead_s (snd w') = lead_s (snd w)" "os_now os (io_tr (snd w)) + 1 / 1000 \<le> os_now os (io_tr (snd w'))"
    "os_now os (io_tr (snd w)) \<le> vtime + epoch - lead_s (snd w)"
proof -
  note C = assms(1) [unfolded clock_paced_def]
  obtain m u where w: "w = (m, u)" by fastforce
  define x where "x = others (sleep_ns PACE_SLICE_NS u)"
  have w': "w' = (m + 1, snd (wall_s os x))" and v: "vtime > os_now os (io_tr x) - epoch + lead_s x"
    using assms(2) by (auto simp: pace_turn_def w x_def case_prod_beta Let_def split: if_splits)
  have l: "lead_s x = lead_s u" using C by (simp add: x_def)
  have "os_now os (io_tr u) + 1 / 1000 \<le> os_now os (io_tr x)" using C unfolding x_def by (meson order_trans)
  moreover have "os_now os (io_tr x) \<le> os_now os (io_tr (snd (wall_s os x)))" using C by blast
  ultimately show "lead_s (snd w') = lead_s (snd w)" "os_now os (io_tr (snd w)) + 1 / 1000 \<le> os_now os (io_tr (snd w'))"
    "os_now os (io_tr (snd w)) \<le> vtime + epoch - lead_s (snd w)"
    using l v by (simp_all add: w w')
qed

definition in_lead :: "os \<Rightarrow> rat \<Rightarrow> rat \<Rightarrow> 'a gf_scheme \<Rightarrow> bool" where
  "in_lead os vtime epoch s \<longleftrightarrow> (gf_armed s \<and> \<not> gf_quit s \<longrightarrow> vtime \<le> os_now os (io_tr s) - epoch + lead_s s)"

lemma pace_turn_end:
  assumes "clock_paced os others" "pace_turn os others vtime epoch w = Inl r"
  shows "in_lead os vtime epoch (snd r)"
proof -
  obtain m u where w: "w = (m, u)" by fastforce
  define x where "x = others (sleep_ns PACE_SLICE_NS u)"
  have "os_now os (io_tr x) \<le> os_now os (io_tr (snd (wall_s os x)))" using assms(1) by (simp add: clock_paced_def)
  then show ?thesis using assms(2) by (auto simp: in_lead_def pace_turn_def w x_def case_prod_beta Let_def split: if_splits)
qed

text \<open>
  C36. The pacing of the producer always ends, and when it ends with the stream still armed,
  virtual time leads the wall by no more than the lead: the core's step events are never
  mapped further ahead of the playback than the lead allows.
\<close>

theorem pace_keeps_lead:
  fixes s :: "'a gf_scheme"
  assumes "clock_paced os others"
  shows "\<exists>n s'. producer_pace os others vtime epoch (k, s) = Some (n, s') \<and>
    (gf_armed s' \<and> \<not> gf_quit s' \<longrightarrow> vtime \<le> os_now os (io_tr s') - epoch + lead_s s')"
proof -
  define P where "P w \<longleftrightarrow> lead_s (snd w) = lead_s s" for w :: "nat \<times> 'a gf_scheme"
  define turn where "turn = pace_turn os others vtime epoch"
  have on: "P w' \<and> os_now os (io_tr (snd w)) + 1 / 1000 \<le> os_now os (io_tr (snd w')) \<and> os_now os (io_tr (snd w)) \<le> vtime + epoch - lead_s s"
    if "P w" "turn w = Inr w'" for w w'
    using pace_turn_on [OF assms that(2) [unfolded turn_def]] that(1) by (simp add: P_def)
  define u where "u = snd (wall_s os s)"
  have "\<exists>n s'. producer_pace os others vtime epoch (k, s) = Some (n, s') \<and> in_lead os vtime epoch s'"
  proof (cases "vtime > os_now os (io_tr s) - epoch + lead_s s")
    case True
    have p: "P (k, u)" by (simp add: P_def u_def)
    obtain r where r: "wait_loop turn (k, u) = Some r"
      using wait_loop_returns [of "1 / 1000" P "(k, u)" turn "\<lambda>w. os_now os (io_tr (snd w))" "vtime + epoch - lead_s s"] on p by auto
    have "in_lead os vtime epoch (snd r)"
      by (rule wait_loop_rule [OF r, where P = P]) (use p on pace_turn_end [OF assms] in \<open>auto simp: turn_def\<close>)
    then show ?thesis using True r by (cases r) (simp add: producer_pace_def u_def [symmetric] turn_def [symmetric] case_prod_beta)
  next
    case False
    have "os_now os (io_tr s) \<le> os_now os (io_tr (others u))" "lead_s (others u) = lead_s s"
      using assms unfolding clock_paced_def u_def by (meson order_trans, simp)
    then show ?thesis using False by (simp add: producer_pace_def u_def [symmetric] in_lead_def case_prod_beta)
  qed
  then show ?thesis by (simp add: in_lead_def)
qed

theorem pace_keeps_lead_witness:
  "\<exists>n s'. producer_pace bench_os (\<lambda>s. s) 7 0 (0, bench_gf) = Some (n, s')"
proof -
  have "clock_paced bench_os (\<lambda>s :: gf. s)" by (auto simp: clock_paced_def wall_s_upd sleep_ns_upd bench_os_def field_simps)
  from pace_keeps_lead [OF this, of 7 0 0 bench_gf] show ?thesis by blast
qed

end
