(* ===== verification/Cool_Report.thy ===== *)
theory Cool_Report
  imports Cooling
begin

text \<open>
  The post of glowforge\_cooling.c to the cooling engine: one request over a local socket,
  whose answers are the argument \<open>hio\<close>, bounded in time and in size.
\<close>

definition CRLF :: string where "CRLF = [CHR 0x0D, CHR 0x0A]"

text \<open>A connection that is there at once, one that is decided within the timeout or not, and a refusal.\<close>

datatype conn_ans = Conn_up | Conn_pending bool | Conn_refused

record hio =
  hio_socket :: bool
  hio_connect :: conn_ans
  hio_write :: "string \<Rightarrow> int"

definition report_who :: "string \<Rightarrow> string" where
  "report_who secret = (if secret \<noteq> [] then take 63 (''X-ForgeFIRM-Report: '' @ secret @ CRLF) else [])"

definition report_text :: "string \<Rightarrow> bool \<Rightarrow> bool \<Rightarrow> string \<Rightarrow> string" where
  "report_text mode armed dens who =
     ''POST /cool/state?mode='' @ mode @ ''&armed='' @ (if armed then ''1'' else ''0'') @ ''&model='' @
     (if dens then ''density'' else ''analog'') @ '' HTTP/1.1'' @ CRLF @ ''Host: 127.0.0.1'' @ CRLF @ ''Connection: close'' @ CRLF @
     who @ ''Content-Length: 0'' @ CRLF @ CRLF"

definition REQ_MAX :: nat where "REQ_MAX = 288"

text \<open>The request that the engine gets whole, or none.\<close>

definition report_send :: "hio \<Rightarrow> string \<Rightarrow> string \<Rightarrow> bool \<Rightarrow> bool \<Rightarrow> string option" where
  "report_send h secret mode armed dens =
     (if \<not> hio_socket h then None
      else let up = (case hio_connect h of Conn_up \<Rightarrow> True | Conn_pending ok \<Rightarrow> ok | Conn_refused \<Rightarrow> False) in
        if up
        then let t = report_text mode armed dens (report_who secret) in
          if length t < REQ_MAX \<and> hio_write h t = int (length t) then Some t else None
        else None)"

definition gfcool_report_secret :: "'a ctl_scheme \<Rightarrow> string" where
  "gfcool_report_secret s = report_secret s"

text \<open>What the start leaves of the secret, over none before it.\<close>

lemma init_secret:
  assumes "report_secret s = []"
  shows "report_secret (gfcool_init os s) = [] \<or> (length (report_secret (gfcool_init os s)) = 32 \<and> list_all hex_lower (report_secret (gfcool_init os s)))"
  using assms by (simp add: gfcool_init_def mono_ms_def wall_s_upd Let_def split: option.split)

text \<open>
  A report is posted whole whenever the engine takes the connection and the bytes: for every
  mode the client deposits, with or without the secret that the start takes from the
  environment, the request is never too long for its buffer and the secret's header never
  cut, so the request has all its lines.
\<close>

theorem report_whole:
  assumes "report_secret s = []" "hio_socket h" "hio_connect h = Conn_up \<or> hio_connect h = Conn_pending True" "\<And>t. hio_write h t = int (length t)"
  shows "let secret = gfcool_report_secret (gfcool_init os s) in
    report_send h secret (report_mode co u) armed dens =
      Some (report_text (report_mode co u) armed dens (if secret = [] then [] else ''X-ForgeFIRM-Report: '' @ secret @ CRLF))"
proof -
  define secret where "secret = report_secret (gfcool_init os s)"
  have "length secret = 0 \<or> length secret = 32" using init_secret [OF assms(1), of os] by (auto simp: secret_def)
  then have w: "report_who secret = (if secret = [] then [] else ''X-ForgeFIRM-Report: '' @ secret @ CRLF)" "length (report_who secret) \<le> 54"
    by (auto simp: report_who_def CRLF_def)
  have m: "length (report_mode co u) \<le> 8" by (simp add: report_mode_def)
  have "length (report_text (report_mode co u) armed dens (report_who secret)) < REQ_MAX"
    using w(2) m by (simp add: report_text_def CRLF_def REQ_MAX_def)
  then show ?thesis using assms(2-4) w(1) unfolding gfcool_report_secret_def secret_def [symmetric]
    by (auto simp: report_send_def Let_def)
qed

end
